(* ===== verification/Prelude.thy ===== *)
theory Prelude
  imports Main "HOL-Library.Char_ord" "HOL-Library.List_Lexorder"
begin

text \<open>
  Shared vocabulary of the development: the Go values the components pass around and the parts of
  the Go standard library every component uses.

  \<^item> \<open>gostring\<close> is a Go string, a sequence of bytes (\<open>char\<close> is a byte);
  \<^item> \<open>'a slice\<close> keeps the difference between a nil slice and a present empty one;
  \<^item> \<open>go_error\<close> is the tree of Go error values built by \<open>errors.New\<close>, \<open>fmt.Errorf\<close> with
    \<open>%w\<close>, \<open>errors.Join\<close> and the repository's error structs; \<open>errors_is\<close> and \<open>errors_as\<close> are
    \<open>errors.Is\<close> and \<open>errors.As\<close> on that tree. The nil error is \<open>None\<close>;
  \<^item> \<open>wrap64\<close> is two's complement wrap-around of Go's 64-bit integers;
  \<^item> \<open>trim_space\<close>, \<open>has_prefix\<close>, \<open>split_on\<close>, \<open>replace_all\<close> are the functions of package
    \<open>strings\<close> of those names.
\<close>

named_theorems go_simps \<open>definitions unfolded by the component proofs\<close>
named_theorems go_splits \<open>facts about sequencing of fallible computations\<close>

type_synonym gostring = string
type_synonym 'a slice = "'a list option"

section \<open>Slices\<close>

text \<open>\<open>len(xs)\<close>, ranging over and indexing a slice do not distinguish nil from empty.\<close>

definition elems :: "'a slice \<Rightarrow> 'a list" where
  "elems s = (case s of None \<Rightarrow> [] | Some xs \<Rightarrow> xs)"

lemma elems_simps [simp]: "elems None = []" "elems (Some xs) = xs"
  by (simp_all add: elems_def)

text \<open>\<open>append(s, x)\<close> with one element: the result is never nil.\<close>

definition append_slice :: "'a slice \<Rightarrow> 'a \<Rightarrow> 'a slice" where
  "append_slice s x = Some (elems s @ [x])"

lemma elems_append_slice [simp]: "elems (append_slice s x) = elems s @ [x]"
  by (simp add: append_slice_def)

text \<open>\<open>append([]T(nil), s...)\<close>: appending nothing to nil stays nil.\<close>

definition append_nil :: "'a slice \<Rightarrow> 'a slice" where
  "append_nil s = (if elems s = [] then None else Some (elems s))"

lemma elems_append_nil [simp]: "elems (append_nil s) = elems s"
  by (simp add: append_nil_def)

section \<open>Errors\<close>

text \<open>
  \<open>ErrNew\<close> is a value made by \<open>errors.New\<close> (a sentinel is identified by its text), \<open>ErrWrap\<close> one
  made by \<open>fmt.Errorf\<close> with its wrapped operands, \<open>ErrJoin\<close> one made by \<open>errors.Join\<close>, \<open>ErrTyped\<close>
  an error struct of the repository: its type name, its textual fields and what \<open>Unwrap\<close> returns.
\<close>

datatype go_error =
    ErrNew gostring
  | ErrWrap gostring "go_error list"
  | ErrJoin "go_error list"
  | ErrTyped gostring "gostring list" "go_error list"

fun unwrap :: "go_error \<Rightarrow> go_error list" where
  "unwrap (ErrNew _) = []"
| "unwrap (ErrWrap _ es) = es"
| "unwrap (ErrJoin es) = es"
| "unwrap (ErrTyped _ _ es) = es"

fun errors_is :: "go_error \<Rightarrow> go_error \<Rightarrow> bool" where
  "errors_is (ErrNew t) target = (ErrNew t = target)"
| "errors_is (ErrWrap t es) target =
     (ErrWrap t es = target \<or> (\<exists>e \<in> set es. errors_is e target))"
| "errors_is (ErrJoin es) target =
     (ErrJoin es = target \<or> (\<exists>e \<in> set es. errors_is e target))"
| "errors_is (ErrTyped n fs es) target =
     (ErrTyped n fs es = target \<or> (\<exists>e \<in> set es. errors_is e target))"

text \<open>\<open>errors.As\<close> with a target of the struct type named \<open>n\<close>: the first match in pre-order.\<close>

fun errors_as :: "gostring \<Rightarrow> go_error \<Rightarrow> go_error option"
  and errors_as_list :: "gostring \<Rightarrow> go_error list \<Rightarrow> go_error option" where
  "errors_as n (ErrNew t) = None"
| "errors_as n (ErrWrap t es) = errors_as_list n es"
| "errors_as n (ErrJoin es) = errors_as_list n es"
| "errors_as n (ErrTyped m fs es) =
     (if m = n then Some (ErrTyped m fs es) else errors_as_list n es)"
| "errors_as_list n [] = None"
| "errors_as_list n (e # es) =
     (case errors_as n e of Some x \<Rightarrow> Some x | None \<Rightarrow> errors_as_list n es)"

text \<open>\<open>errors.Join\<close> drops nil operands and returns nil when nothing is left.\<close>

definition errors_join :: "go_error option list \<Rightarrow> go_error option" where
  "errors_join es = (case List.map_filter (\<lambda>e. e) es of [] \<Rightarrow> None | xs \<Rightarrow> Some (ErrJoin xs))"

lemma errors_is_refl [simp]: "errors_is e e"
  by (cases e) auto

lemma errors_is_unwrap: "e' \<in> set (unwrap e) \<Longrightarrow> errors_is e' t \<Longrightarrow> errors_is e t"
  by (cases e) auto

lemma errors_is_wrap [intro]: "e \<in> set es \<Longrightarrow> errors_is e t \<Longrightarrow> errors_is (ErrWrap s es) t"
  by auto

lemma errors_join_None [simp]: "errors_join es = None \<longleftrightarrow> (\<forall>e \<in> set es. e = None)"
proof -
  have "List.map_filter (\<lambda>e. e) es = [] \<longleftrightarrow> (\<forall>e \<in> set es. e = None)"
    by (induction es) (auto simp: List.map_filter_def)
  then show ?thesis by (cases "List.map_filter (\<lambda>e. e) es") (auto simp: errors_join_def)
qed

lemma errors_join_is:
  assumes "Some e \<in> set es" and "errors_is e t" and "errors_join es = Some j"
  shows "errors_is j t"
proof -
  have "e \<in> set (List.map_filter (\<lambda>e. e) es)"
    using assms(1) by (force simp: List.map_filter_def image_iff)
  with assms(2,3) show ?thesis
    by (auto simp: errors_join_def split: list.splits)
qed

section \<open>64-bit integers\<close>

definition int64_min :: int where "int64_min = - (2 ^ 63)"
definition int64_max :: int where "int64_max = 2 ^ 63 - 1"

definition in_int64 :: "int \<Rightarrow> bool" where
  "in_int64 x \<longleftrightarrow> int64_min \<le> x \<and> x \<le> int64_max"

definition wrap64 :: "int \<Rightarrow> int" where
  "wrap64 x = (x + 2 ^ 63) mod 2 ^ 64 - 2 ^ 63"

lemma wrap64_id [simp]: "in_int64 x \<Longrightarrow> wrap64 x = x"
  by (simp add: wrap64_def in_int64_def int64_min_def int64_max_def)

lemma in_int64_wrap64 [simp]: "in_int64 (wrap64 x)"
proof -
  have "0 \<le> (x + 2 ^ 63) mod 2 ^ 64" "(x + 2 ^ 63) mod 2 ^ 64 < 2 ^ 64"
    by (rule pos_mod_sign pos_mod_bound; simp)+
  then show ?thesis
    by (simp add: wrap64_def in_int64_def int64_min_def int64_max_def)
qed

lemma in_int64_between: "in_int64 lo \<Longrightarrow> in_int64 hi \<Longrightarrow> lo \<le> x \<Longrightarrow> x \<le> hi \<Longrightarrow> in_int64 x"
  by (simp add: in_int64_def)

lemma in_int64_0 [simp]: "in_int64 0"
  by (simp add: in_int64_def int64_min_def int64_max_def)

lemma wrap64_between: "in_int64 hi \<Longrightarrow> 0 \<le> x \<Longrightarrow> x \<le> hi \<Longrightarrow> wrap64 x = x"
  by (rule wrap64_id) (rule in_int64_between[OF in_int64_0])

section \<open>Package strings\<close>

definition has_prefix :: "gostring \<Rightarrow> gostring \<Rightarrow> bool" where
  "has_prefix s p \<longleftrightarrow> take (length p) s = p"

lemma has_prefix_append [simp]: "has_prefix (p @ s) p"
  by (simp add: has_prefix_def)

text \<open>\<open>strings.TrimPrefix\<close>\<close>

definition trim_prefix :: "gostring \<Rightarrow> gostring \<Rightarrow> gostring" where
  "trim_prefix s p = (if has_prefix s p then drop (length p) s else s)"

text \<open>\<open>strings.Split\<close> with a one-byte separator.\<close>

fun split_on :: "char \<Rightarrow> gostring \<Rightarrow> gostring list" where
  "split_on c [] = [[]]"
| "split_on c (x # xs) =
     (if x = c then [] # split_on c xs
      else (case split_on c xs of [] \<Rightarrow> [[x]] | y # ys \<Rightarrow> (x # y) # ys))"

lemma split_on_nonempty [simp]: "split_on c s \<noteq> []"
  by (induction s) (auto split: list.splits)

text \<open>\<open>strings.ReplaceAll\<close> with a one-byte pattern, and with a two-byte pattern.\<close>

definition replace_all :: "char \<Rightarrow> gostring \<Rightarrow> gostring \<Rightarrow> gostring" where
  "replace_all c r s = concat (map (\<lambda>x. if x = c then r else [x]) s)"

lemma replace_all_simps [simp]:
  "replace_all c r [] = []"
  "replace_all c r (x # xs) = (if x = c then r @ replace_all c r xs else x # replace_all c r xs)"
  "replace_all c r (xs @ ys) = replace_all c r xs @ replace_all c r ys"
  by (simp_all add: replace_all_def)

fun replace_all2 :: "char \<Rightarrow> char \<Rightarrow> gostring \<Rightarrow> gostring \<Rightarrow> gostring" where
  "replace_all2 a b r (x # y # xs) =
     (if x = a \<and> y = b then r @ replace_all2 a b r xs else x # replace_all2 a b r (y # xs))"
| "replace_all2 a b r xs = xs"

text \<open>
  \<open>strings.TrimSpace\<close> removes leading and trailing Unicode white space. On bytes these are the six
  ASCII spaces and the UTF-8 encodings of U+0085, U+00A0, U+1680, U+2000..U+200A, U+2028, U+2029,
  U+202F, U+205F and U+3000.
\<close>

definition space_runes :: "gostring list" where
  "space_runes =
     [[CHR 0x09], [CHR 0x0A], [CHR 0x0B], [CHR 0x0C], [CHR 0x0D], [CHR 0x20],
      [CHR 0xC2, CHR 0x85], [CHR 0xC2, CHR 0xA0],
      [CHR 0xE1, CHR 0x9A, CHR 0x80],
      [CHR 0xE2, CHR 0x80, CHR 0x80], [CHR 0xE2, CHR 0x80, CHR 0x81],
      [CHR 0xE2, CHR 0x80, CHR 0x82], [CHR 0xE2, CHR 0x80, CHR 0x83],
      [CHR 0xE2, CHR 0x80, CHR 0x84], [CHR 0xE2, CHR 0x80, CHR 0x85],
      [CHR 0xE2, CHR 0x80, CHR 0x86], [CHR 0xE2, CHR 0x80, CHR 0x87],
      [CHR 0xE2, CHR 0x80, CHR 0x88], [CHR 0xE2, CHR 0x80, CHR 0x89],
      [CHR 0xE2, CHR 0x80, CHR 0x8A],
      [CHR 0xE2, CHR 0x80, CHR 0xA8], [CHR 0xE2, CHR 0x80, CHR 0xA9],
      [CHR 0xE2, CHR 0x80, CHR 0xAF], [CHR 0xE2, CHR 0x81, CHR 0x9F],
      [CHR 0xE3, CHR 0x80, CHR 0x80]]"

fun strip_one :: "gostring list \<Rightarrow> gostring \<Rightarrow> gostring option" where
  "strip_one [] s = None"
| "strip_one (p # ps) s = (if p \<noteq> [] \<and> has_prefix s p then Some (drop (length p) s) else strip_one ps s)"

lemma strip_one_shorter: "strip_one ps s = Some t \<Longrightarrow> length t < length s"
proof (induction ps)
  case (Cons p ps)
  show ?case
  proof (cases "p \<noteq> [] \<and> has_prefix s p")
    case True
    then have "s \<noteq> []" by (auto simp: has_prefix_def)
    with True Cons.prems show ?thesis by auto
  next
    case False
    with Cons have "strip_one ps s = Some t" by (auto split: if_splits)
    with Cons.IH show ?thesis by blast
  qed
qed simp

function trim_runes :: "gostring list \<Rightarrow> gostring \<Rightarrow> gostring" where
  "trim_runes ps s = (case strip_one ps s of None \<Rightarrow> s | Some t \<Rightarrow> trim_runes ps t)"
  by pat_completeness auto
termination
  by (relation "measure (\<lambda>(ps, s). length s)") (auto dest: strip_one_shorter)

declare trim_runes.simps [simp del]

definition trim_space :: "gostring \<Rightarrow> gostring" where
  "trim_space s = rev (trim_runes (map rev space_runes) (rev (trim_runes space_runes s)))"

lemma trim_runes_length: "length (trim_runes ps s) \<le> length s"
proof (induction ps s rule: trim_runes.induct)
  case (1 ps s)
  show ?case
  proof (cases "strip_one ps s")
    case None
    then show ?thesis by (simp add: trim_runes.simps[of ps s])
  next
    case (Some t)
    with 1 have "length (trim_runes ps t) \<le> length t" by blast
    with strip_one_shorter[OF Some] Some show ?thesis
      by (simp add: trim_runes.simps[of ps s])
  qed
qed

lemma trim_space_length: "length (trim_space s) \<le> length s"
  using trim_runes_length[of "map rev space_runes" "rev (trim_runes space_runes s)"]
    trim_runes_length[of space_runes s]
  by (simp add: trim_space_def)

lemma trim_space_Nil [simp]: "trim_space [] = []"
  using trim_space_length[of "[]"] by simp

section \<open>Sequencing\<close>

text \<open>A loop whose body may stop the program (a panic or an early error return).\<close>

fun fold_res :: "('a \<Rightarrow> 's \<Rightarrow> 'e + 's) \<Rightarrow> 'a list \<Rightarrow> 's \<Rightarrow> 'e + 's" where
  "fold_res f [] s = Inr s"
| "fold_res f (x # xs) s = (case f x s of Inl e \<Rightarrow> Inl e | Inr s' \<Rightarrow> fold_res f xs s')"

lemma fold_res_append:
  "fold_res f (xs @ ys) s = (case fold_res f xs s of Inl e \<Rightarrow> Inl e | Inr s' \<Rightarrow> fold_res f ys s')"
  by (induction xs arbitrary: s) (auto split: sum.split)

lemma fold_res_invariant:
  assumes "\<And>x s s'. x \<in> set xs \<Longrightarrow> P s \<Longrightarrow> f x s = Inr s' \<Longrightarrow> P s'"
  shows "P s \<Longrightarrow> fold_res f xs s = Inr s' \<Longrightarrow> P s'"
  using assms
proof (induction xs arbitrary: s)
  case (Cons x xs)
  then obtain s1 where s1: "f x s = Inr s1" "fold_res f xs s1 = Inr s'"
    by (auto split: sum.splits)
  with Cons show ?case by (meson list.set_intros)
qed simp

end
