(* ===== verification/UTF8.thy ===== *)
theory UTF8
  imports Prelude
begin

text \<open>
  Package \<open>unicode/utf8\<close> on byte strings: \<open>decode_rune\<close> is \<open>utf8.DecodeRune\<close> (the rune error
  U+FFFD with size 1 on an invalid or truncated encoding), \<open>encode_rune\<close> is \<open>utf8.EncodeRune\<close>.
  The lemmas say that re-encoding a validly decoded rune gives back the bytes read, and that decoding
  looks at no byte beyond the encoding.
\<close>

abbreviation byte :: "char \<Rightarrow> nat" where "byte c \<equiv> of_char c"
abbreviation chr :: "nat \<Rightarrow> char" where "chr n \<equiv> char_of n"

lemma chr_byte [simp]: "chr (byte c) = c"
  by simp

lemma byte_bound: "byte c < 256"
  by (cases c) (simp add: of_char_def)

definition in_range :: "nat \<Rightarrow> nat \<Rightarrow> char \<Rightarrow> bool" where
  "in_range lo hi c \<longleftrightarrow> lo \<le> byte c \<and> byte c \<le> hi"

definition rune_error :: "nat \<times> nat" where
  "rune_error = (65533, 1)"

definition decode2 :: "nat \<Rightarrow> string \<Rightarrow> nat \<times> nat" where
  "decode2 x s = (case s of
      b # _ \<Rightarrow> if in_range 128 191 b then ((x - 192) * 64 + (byte b - 128), 2) else rune_error
    | _ \<Rightarrow> rune_error)"

definition decode3 :: "nat \<Rightarrow> string \<Rightarrow> nat \<times> nat" where
  "decode3 x s = (case s of
      b # c # _ \<Rightarrow>
        if in_range (if x = 224 then 160 else 128) (if x = 237 then 159 else 191) b \<and> in_range 128 191 c
        then ((x - 224) * 4096 + (byte b - 128) * 64 + (byte c - 128), 3) else rune_error
    | _ \<Rightarrow> rune_error)"

definition decode4 :: "nat \<Rightarrow> string \<Rightarrow> nat \<times> nat" where
  "decode4 x s = (case s of
      b # c # d # _ \<Rightarrow>
        if in_range (if x = 240 then 144 else 128) (if x = 244 then 143 else 191) b
           \<and> in_range 128 191 c \<and> in_range 128 191 d
        then ((x - 240) * 262144 + (byte b - 128) * 4096 + (byte c - 128) * 64 + (byte d - 128), 4)
        else rune_error
    | _ \<Rightarrow> rune_error)"

definition decode_rune :: "string \<Rightarrow> nat \<times> nat" where
  "decode_rune s = (case s of [] \<Rightarrow> (65533, 0)
     | a # t \<Rightarrow> (let x = byte a in
         if x < 128 then (x, 1)
         else if 194 \<le> x \<and> x \<le> 223 then decode2 x t
         else if 224 \<le> x \<and> x \<le> 239 then decode3 x t
         else if 240 \<le> x \<and> x \<le> 244 then decode4 x t
         else rune_error))"

definition encode_rune :: "nat \<Rightarrow> string" where
  "encode_rune r =
     (if r < 128 then [chr r]
      else if r < 2048 then [chr (192 + r div 64), chr (128 + r mod 64)]
      else if r < 65536 then
        [chr (224 + r div 4096), chr (128 + r div 64 mod 64), chr (128 + r mod 64)]
      else
        [chr (240 + r div 262144), chr (128 + r div 4096 mod 64), chr (128 + r div 64 mod 64),
         chr (128 + r mod 64)])"

text \<open>The bytes of an encoding are the base-64 digits of the rune.\<close>

lemma horner64: "b < 64 \<Longrightarrow> (q * 64 + b) div 64 = q" "b < 64 \<Longrightarrow> (q * 64 + b) mod 64 = b"
  for b q :: nat
  by simp_all

lemma div_64_64: "r div 4096 = r div 64 div 64" "r div 262144 = r div 64 div 64 div 64"
  for r :: nat
  by (simp_all add: div_mult2_eq[symmetric])

lemma digits2:
  fixes a b :: nat
  assumes "2 \<le> a" "a < 32" "b < 64" "r = a * 64 + b"
  shows "128 \<le> r" "r < 2048" "r div 64 = a" "r mod 64 = b"
  using assms by (simp_all add: horner64)

lemma digits3:
  fixes a b c :: nat
  assumes "a < 16" "b < 64" "c < 64" "32 \<le> b \<or> 0 < a" "r = (a * 64 + b) * 64 + c"
  shows "2048 \<le> r" "r < 65536" "r div 4096 = a" "r div 64 mod 64 = b" "r mod 64 = c"
proof -
  have q: "r div 64 = a * 64 + b" and "r mod 64 = c"
    using assms(3) by (simp_all only: assms(5) horner64)
  then show "r div 4096 = a" "r div 64 mod 64 = b" "r mod 64 = c"
    using assms(2) by (simp_all only: div_64_64 q horner64)
  show "2048 \<le> r" "r < 65536" using assms by auto
qed

lemma digits4:
  fixes a b c d :: nat
  assumes "a < 5" "b < 64" "c < 64" "d < 64" "16 \<le> b \<or> 0 < a"
    "r = ((a * 64 + b) * 64 + c) * 64 + d"
  shows "65536 \<le> r" "r div 262144 = a" "r div 4096 mod 64 = b" "r div 64 mod 64 = c" "r mod 64 = d"
proof -
  have q: "r div 64 = (a * 64 + b) * 64 + c" and "r mod 64 = d"
    using assms(4) by (simp_all only: assms(6) horner64)
  moreover have "r div 64 div 64 = a * 64 + b"
    using assms(3) by (simp only: q horner64)
  ultimately show "r div 262144 = a" "r div 4096 mod 64 = b" "r div 64 mod 64 = c" "r mod 64 = d"
    using assms(2,3) by (simp_all only: div_64_64 horner64)
  show "65536 \<le> r" using assms by auto
qed

lemma offset: "lo \<le> (x::nat) \<Longrightarrow> x \<le> hi \<Longrightarrow> \<exists>a. x = lo + a \<and> a \<le> hi - lo"
  by (rule exI[of _ "x - lo"]) auto

lemma chr_offset: "byte b = lo + n \<Longrightarrow> chr (lo + n) = b"
  by (metis chr_byte)

lemma decode2_reencode:
  assumes "decode2 (byte a) t = (r, n)" "n \<noteq> 1" "194 \<le> byte a" "byte a \<le> 223"
  shows "\<exists>b u. t = b # u \<and> n = 2 \<and> encode_rune r = [a, b]"
proof -
  obtain b u where t: "t = b # u" and b: "128 \<le> byte b" "byte b \<le> 191"
    and r: "r = (byte a - 192) * 64 + (byte b - 128)" "n = 2"
    using assms(1,2) by (auto simp: decode2_def rune_error_def in_range_def split: list.splits if_splits)
  obtain i where i: "byte a = 192 + i" "2 \<le> i" "i < 32"
    using offset[OF assms(3,4)] by (auto intro: that[of "byte a - 192"])
  obtain j where j: "byte b = 128 + j" "j < 64"
    using offset[OF b] by auto
  have "r = i * 64 + j" using r i j by simp
  note d = digits2[OF i(2,3) j(2) this]
  then have "encode_rune r = [a, b]"
    using d(1,2) chr_offset[OF i(1)] chr_offset[OF j(1)]
    by (simp only: encode_rune_def d(3,4)) auto
  with t r show ?thesis by blast
qed

lemma decode3_reencode:
  assumes "decode3 (byte a) t = (r, n)" "n \<noteq> 1" "224 \<le> byte a" "byte a \<le> 239"
  shows "\<exists>b c u. t = b # c # u \<and> n = 3 \<and> encode_rune r = [a, b, c]"
proof -
  obtain b c u where t: "t = b # c # u" and b: "128 \<le> byte b" "byte b \<le> 191"
    and c: "128 \<le> byte c" "byte c \<le> 191" and e0: "byte a = 224 \<longrightarrow> 160 \<le> byte b"
    and r: "r = (byte a - 224) * 4096 + (byte b - 128) * 64 + (byte c - 128)" "n = 3"
    using assms(1,2) by (auto simp: decode3_def rune_error_def in_range_def split: list.splits if_splits)
  obtain i where i: "byte a = 224 + i" "i < 16" using offset[OF assms(3,4)] by auto
  obtain j where j: "byte b = 128 + j" "j < 64" using offset[OF b] by auto
  obtain k where k: "byte c = 128 + k" "k < 64" using offset[OF c] by auto
  have r': "r = (i * 64 + j) * 64 + k" using r i j k by simp
  have "32 \<le> j \<or> 0 < i" using e0 i j by auto
  note d = digits3[OF i(2) j(2) k(2) this r']
  have "encode_rune r = [a, b, c]"
    using d(1,2) chr_offset[OF i(1)] chr_offset[OF j(1)] chr_offset[OF k(1)]
    by (simp only: encode_rune_def d(3,4,5)) auto
  with t r show ?thesis by blast
qed

lemma decode4_reencode:
  assumes "decode4 (byte a) t = (r, n)" "n \<noteq> 1" "240 \<le> byte a" "byte a \<le> 244"
  shows "\<exists>b c d u. t = b # c # d # u \<and> n = 4 \<and> encode_rune r = [a, b, c, d]"
proof -
  obtain b c d u where t: "t = b # c # d # u" and b: "128 \<le> byte b" "byte b \<le> 191"
    and c: "128 \<le> byte c" "byte c \<le> 191" and d: "128 \<le> byte d" "byte d \<le> 191"
    and f0: "byte a = 240 \<longrightarrow> 144 \<le> byte b"
    and r: "r = (byte a - 240) * 262144 + (byte b - 128) * 4096 + (byte c - 128) * 64 + (byte d - 128)"
      "n = 4"
    using assms(1,2) by (auto simp: decode4_def rune_error_def in_range_def split: list.splits if_splits)
  obtain i where i: "byte a = 240 + i" "i < 5" using offset[OF assms(3,4)] by auto
  obtain j where j: "byte b = 128 + j" "j < 64" using offset[OF b] by auto
  obtain k where k: "byte c = 128 + k" "k < 64" using offset[OF c] by auto
  obtain l where l: "byte d = 128 + l" "l < 64" using offset[OF d] by auto
  have r': "r = ((i * 64 + j) * 64 + k) * 64 + l" using r i j k l by simp
  have "16 \<le> j \<or> 0 < i" using f0 i j by auto
  note e = digits4[OF i(2) j(2) k(2) l(2) this r']
  have "encode_rune r = [a, b, c, d]"
    using e(1) chr_offset[OF i(1)] chr_offset[OF j(1)] chr_offset[OF k(1)] chr_offset[OF l(1)]
    by (simp only: encode_rune_def e(2,3,4,5)) auto
  with t r show ?thesis by blast
qed

lemma decode_rune_multi:
  assumes "decode_rune (a # t) = (r, n)" "128 \<le> byte a" "n \<noteq> 1"
  obtains (two) "194 \<le> byte a" "byte a \<le> 223" "decode2 (byte a) t = (r, n)"
  | (three) "224 \<le> byte a" "byte a \<le> 239" "decode3 (byte a) t = (r, n)"
  | (four) "240 \<le> byte a" "byte a \<le> 244" "decode4 (byte a) t = (r, n)"
  using assms by (auto simp: decode_rune_def Let_def rune_error_def split: if_splits)

text \<open>Re-encoding a validly decoded multi-byte rune gives back its bytes, and decoding looks at no
  byte beyond the encoding.\<close>

lemma decode_rune_reencode_prefix:
  assumes "decode_rune (a # t) = (r, n)" "128 \<le> byte a" "n \<noteq> 1"
  shows "encode_rune r = take n (a # t) \<and> 2 \<le> n \<and> n \<le> length (a # t) \<and>
    decode_rune (take n (a # t) @ u) = (r, n)"
  using assms
proof (cases rule: decode_rune_multi)
  case two
  from decode2_reencode[OF two(3) assms(3) two(1,2)] obtain b v where
    t: "t = b # v" "n = 2" "encode_rune r = [a, b]" by blast
  have "decode2 (byte a) (b # u) = decode2 (byte a) (b # v)" by (simp add: decode2_def)
  with t two show ?thesis by (simp add: decode_rune_def)
next
  case three
  from decode3_reencode[OF three(3) assms(3) three(1,2)] obtain b c v where
    t: "t = b # c # v" "n = 3" "encode_rune r = [a, b, c]" by blast
  have "decode3 (byte a) (b # c # u) = decode3 (byte a) (b # c # v)" by (simp add: decode3_def)
  with t three show ?thesis by (simp add: decode_rune_def)
next
  case four
  from decode4_reencode[OF four(3) assms(3) four(1,2)] obtain b c d v where
    t: "t = b # c # d # v" "n = 4" "encode_rune r = [a, b, c, d]" by blast
  have "decode4 (byte a) (b # c # d # u) = decode4 (byte a) (b # c # d # v)" by (simp add: decode4_def)
  with t four show ?thesis by (simp add: decode_rune_def)
qed

lemmas decode_rune_reencode = decode_rune_reencode_prefix[THEN conjunct1]
lemmas decode_rune_prefix =
  decode_rune_reencode_prefix[THEN conjunct2, THEN conjunct2, THEN conjunct2]

lemma decode_rune_size: "decode_rune (a # t) = (r, n) \<Longrightarrow> 1 \<le> n"
  by (auto simp: decode_rune_def Let_def rune_error_def decode2_def decode3_def decode4_def
      split: if_splits list.splits)

text \<open>\<open>utf8.ValidString\<close>\<close>

function utf8_valid :: "string \<Rightarrow> bool" where
  "utf8_valid [] = True"
| "utf8_valid (a # t) =
     (if byte a < 128 then utf8_valid t
      else case decode_rune (a # t) of (r, n) \<Rightarrow> n \<noteq> 1 \<and> utf8_valid (drop (n - 1) t))"
  by pat_completeness auto
termination
  by (relation "measure length") auto

declare utf8_valid.simps(2) [simp del]

lemma utf8_valid_ascii: "\<forall>c \<in> set s. byte c < 128 \<Longrightarrow> utf8_valid s"
  by (induction s) (auto simp: utf8_valid.simps(2))

section \<open>Encoding a valid rune\<close>

lemma byte_chr: "n < 256 \<Longrightarrow> byte (chr n) = n"
  by (simp add: of_char_of)

definition valid_rune :: "nat \<Rightarrow> bool" where
  "valid_rune r \<longleftrightarrow> r < 0xD800 \<or> (0xE000 \<le> r \<and> r < 0x110000)"

lemma base64: obtains i j k l :: nat where "r = ((i * 64 + j) * 64 + k) * 64 + l" "j < 64" "k < 64" "l < 64"
proof -
  have "r = ((r div 64 div 64 div 64 * 64 + r div 64 div 64 mod 64) * 64 + r div 64 mod 64) * 64 + r mod 64"
    by (simp only: div_mod_decomp[symmetric] div_mult_mod_eq)
  then show ?thesis by (rule that) simp_all
qed

lemma utf8_valid_encode:
  assumes "valid_rune r" shows "utf8_valid (encode_rune r @ s) = utf8_valid s"
proof -
  obtain i j k l where r: "r = ((i * 64 + j) * 64 + k) * 64 + l" and b: "j < 64" "k < 64" "l < 64"
    by (rule base64)
  have d: "r mod 64 = l" "r div 64 = (i * 64 + j) * 64 + k" "r div 64 mod 64 = k"
    "r div 4096 = i * 64 + j" "r div 4096 mod 64 = j" "r div 262144 = i"
    using b by (simp_all only: r div_64_64 horner64)
  consider "r < 128" | "128 \<le> r" "r < 2048" | "2048 \<le> r" "r < 65536" | "65536 \<le> r" by linarith
  then show ?thesis
  proof cases
    case 1
    then show ?thesis by (simp add: encode_rune_def utf8_valid.simps(2))
  next
    case 2
    with r have z: "i = 0" "j = 0" by simp_all
    with r b 2 have "2 \<le> k" "k < 32" by simp_all
    note z = z this
    with 2 b show ?thesis
      by (simp add: encode_rune_def d utf8_valid.simps(2) decode_rune_def decode2_def in_range_def byte_chr)
  next
    case 3
    with r have "i = 0" by simp
    with 3 r b have z: "i = 0" "j < 16" "j = 0 \<longrightarrow> 32 \<le> k" by auto
    moreover have "j = 13 \<longrightarrow> k \<le> 31" using assms r z(1) b by (auto simp: valid_rune_def)
    ultimately show ?thesis using 3 b
      by (simp add: encode_rune_def d(1,3-6) utf8_valid.simps(2) decode_rune_def decode3_def in_range_def byte_chr)
  next
    case 4
    with r b have z: "i = 0 \<longrightarrow> 16 \<le> j" by auto
    moreover have "i < 5" "i = 4 \<longrightarrow> j \<le> 15" using assms r b 4 by (auto simp: valid_rune_def)
    ultimately show ?thesis using 4 b
      by (simp add: encode_rune_def d(1,3-6) utf8_valid.simps(2) decode_rune_def decode4_def in_range_def byte_chr)
  qed
qed

lemma valid_rune4:
  assumes "240 \<le> x" "x \<le> 244" "128 \<le> b" "b \<le> (if x = 244 then 143 else 191)"
    "128 \<le> c" "c \<le> 191" "128 \<le> d" "d \<le> (191::nat)" "x = 240 \<longrightarrow> 144 \<le> b"
  shows "valid_rune ((x - 240) * 262144 + (b - 128) * 4096 + (c - 128) * 64 + (d - 128))"
proof -
  obtain i j k l where e: "x = 240 + i" "b = 128 + j" "c = 128 + k" "d = 128 + l"
    using assms by (metis le_Suc_ex)
  have j: "j < 64" "i = 4 \<longrightarrow> j < 16" "i = 0 \<longrightarrow> 16 \<le> j"
    using assms(4,9) unfolding e by (auto split: if_splits)
  have u: "i \<le> 4" "k < 64" "l < 64" using assms unfolding e by auto
  have "i * 262144 + j * 4096 + k * 64 + l < 1114112" using u j by (cases "i = 4") auto
  moreover have "65536 \<le> i * 262144 + j * 4096 + k * 64 + l" using j by (cases "i = 0") auto
  ultimately show ?thesis unfolding e by (simp add: valid_rune_def)
qed

lemma valid_rune3:
  assumes "224 \<le> x" "x \<le> 239" "128 \<le> b" "b \<le> (if x = 237 then 159 else 191)"
    "128 \<le> c" "c \<le> (191::nat)"
  shows "valid_rune ((x - 224) * 4096 + (b - 128) * 64 + (c - 128))"
proof -
  obtain i j k where e: "x = 224 + i" "b = 128 + j" "c = 128 + k"
    using assms by (metis le_Suc_ex)
  have u: "i < 16" "k < 64" "j < 64" "i = 13 \<longrightarrow> j < 32"
    using assms unfolding e by (auto split: if_splits)
  then have "i < 13 \<or> i = 13 \<or> 14 \<le> i" by auto
  with u show ?thesis unfolding e by (auto simp: valid_rune_def)
qed

lemma decode3_valid:
  assumes "decode3 x t = (r, n)" "224 \<le> x" "x \<le> 239" shows "valid_rune r"
proof (cases "n = 1")
  case True
  with assms show ?thesis
    by (auto simp: decode3_def rune_error_def valid_rune_def split: list.splits if_splits)
next
  case False
  then obtain b c where r: "r = (x - 224) * 4096 + (byte b - 128) * 64 + (byte c - 128)"
    and b: "128 \<le> byte b" "byte b \<le> (if x = 237 then 159 else 191)" "128 \<le> byte c" "byte c \<le> 191"
    using assms(1) by (auto simp: decode3_def rune_error_def in_range_def split: list.splits if_splits)
  show ?thesis unfolding r by (rule valid_rune3[OF assms(2,3) b])
qed

lemma decode4_valid:
  assumes "decode4 x t = (r, n)" "240 \<le> x" "x \<le> 244" shows "valid_rune r"
proof (cases "n = 1")
  case True
  with assms show ?thesis
    by (auto simp: decode4_def rune_error_def valid_rune_def split: list.splits if_splits)
next
  case False
  then obtain b c d where
    r: "r = (x - 240) * 262144 + (byte b - 128) * 4096 + (byte c - 128) * 64 + (byte d - 128)"
    and b: "128 \<le> byte b" "byte b \<le> (if x = 244 then 143 else 191)" "128 \<le> byte c" "byte c \<le> 191"
      "128 \<le> byte d" "byte d \<le> 191" "x = 240 \<longrightarrow> 144 \<le> byte b"
    using assms(1) by (auto simp: decode4_def rune_error_def in_range_def split: list.splits if_splits)
  show ?thesis unfolding r by (rule valid_rune4[OF assms(2,3) b])
qed

lemma decode2_valid: "decode2 x t = (r, n) \<Longrightarrow> x \<le> 223 \<Longrightarrow> valid_rune r"
  by (auto simp: decode2_def rune_error_def in_range_def valid_rune_def split: list.splits if_splits)

lemma decode_rune_valid: "decode_rune s = (r, n) \<Longrightarrow> valid_rune r"
  by (auto simp: decode_rune_def rune_error_def Let_def split: list.splits if_splits
      dest: decode2_valid decode3_valid decode4_valid) (auto simp: valid_rune_def)

end
