(* ===== verification/JSON_Text.thy ===== *)
theory JSON_Text
  imports UTF8
begin

text \<open>
  The part of package \<open>encoding/json\<close> the repository uses, on byte strings: the lexical grammar
  (white space, literals, numbers, strings with their escapes), \<open>json.Marshal\<close> of a string, and the
  token interface of \<open>json.Decoder\<close> with \<open>UseNumber\<close>: its token state, \<open>Token\<close> and \<open>More\<close>.
  A lexical function returns \<open>None\<close> on a syntax error (an input that ends early included).
\<close>

section \<open>White space, literals, numbers\<close>

definition json_space :: "char \<Rightarrow> bool" where
  "json_space c \<longleftrightarrow> c = CHR 0x20 \<or> c = CHR 0x09 \<or> c = CHR 0x0D \<or> c = CHR 0x0A"

definition skip_space :: "string \<Rightarrow> string" where
  "skip_space s = dropWhile json_space s"

definition is_digit :: "char \<Rightarrow> bool" where
  "is_digit c \<longleftrightarrow> 48 \<le> byte c \<and> byte c \<le> 57"

definition span_digits :: "string \<Rightarrow> string \<times> string" where
  "span_digits s = (takeWhile is_digit s, dropWhile is_digit s)"

definition lex_exp :: "string \<Rightarrow> (string \<times> string) option" where
  "lex_exp s = (case s of
      e # t \<Rightarrow>
        if e = CHR ''e'' \<or> e = CHR ''E'' then
          let (sgn, u) = (case t of c # u \<Rightarrow> if c = CHR ''+'' \<or> c = CHR ''-'' then ([c], u) else ([], t)
                          | [] \<Rightarrow> ([], t));
              (ds, v) = span_digits u
          in if ds = [] then None else Some (e # sgn @ ds, v)
        else Some ([], s)
    | [] \<Rightarrow> Some ([], s))"

definition lex_frac :: "string \<Rightarrow> (string \<times> string) option" where
  "lex_frac s = (case s of
      c # t \<Rightarrow>
        if c = CHR ''.'' then
          let (ds, u) = span_digits t in if ds = [] then None else Some (c # ds, u)
        else Some ([], s)
    | [] \<Rightarrow> Some ([], s))"

definition lex_int :: "string \<Rightarrow> (string \<times> string) option" where
  "lex_int s = (case s of
      c # t \<Rightarrow>
        if c = CHR ''0'' then Some ([c], t)
        else if is_digit c then (let (ds, u) = span_digits t in Some (c # ds, u))
        else None
    | [] \<Rightarrow> None)"

definition lex_number :: "string \<Rightarrow> (string \<times> string) option" where
  "lex_number s =
     (let (sgn, t) = (case s of c # u \<Rightarrow> if c = CHR ''-'' then ([c], u) else ([], s) | [] \<Rightarrow> ([], s))
      in case lex_int t of None \<Rightarrow> None
         | Some (i, u) \<Rightarrow> (case lex_frac u of None \<Rightarrow> None
             | Some (f, v) \<Rightarrow> (case lex_exp v of None \<Rightarrow> None
                 | Some (e, w) \<Rightarrow> Some (sgn @ i @ f @ e, w))))"

section \<open>Strings\<close>

definition hex_val :: "char \<Rightarrow> nat option" where
  "hex_val c = (let x = byte c in
     if 48 \<le> x \<and> x \<le> 57 then Some (x - 48)
     else if 97 \<le> x \<and> x \<le> 102 then Some (x - 87)
     else if 65 \<le> x \<and> x \<le> 70 then Some (x - 55)
     else None)"

definition hex4 :: "string \<Rightarrow> (nat \<times> string) option" where
  "hex4 s = (case s of a # b # c # d # t \<Rightarrow>
       (case (hex_val a, hex_val b, hex_val c, hex_val d) of
          (Some i, Some j, Some k, Some l) \<Rightarrow> Some (i * 4096 + j * 256 + k * 16 + l, t)
        | _ \<Rightarrow> None)
     | _ \<Rightarrow> None)"

lemma hex4_length: "hex4 s = Some (r, t) \<Longrightarrow> length s = length t + 4"
  by (auto simp: hex4_def split: list.splits option.splits prod.splits)

text \<open>The one-byte escapes of \<open>unquote\<close>.\<close>

definition unescape :: "char \<Rightarrow> char option" where
  "unescape e =
     (if e = CHR 0x22 \<or> e = CHR 0x5C \<or> e = CHR ''/'' then Some e
      else if e = CHR ''b'' then Some (CHR 0x08)
      else if e = CHR ''f'' then Some (CHR 0x0C)
      else if e = CHR ''n'' then Some (CHR 0x0A)
      else if e = CHR ''r'' then Some (CHR 0x0D)
      else if e = CHR ''t'' then Some (CHR 0x09)
      else None)"

definition surrogate :: "nat \<Rightarrow> bool" where
  "surrogate r \<longleftrightarrow> 0xD800 \<le> r \<and> r < 0xE000"

text \<open>
  A \<open>\uXXXX\<close> escape whose hex digits start at \<open>s\<close>: the rune and the rest. A surrogate takes a second
  escape when the two form a pair, and is U+FFFD otherwise.
\<close>

definition unescape_u :: "string \<Rightarrow> (nat \<times> string) option" where
  "unescape_u s = (case hex4 s of None \<Rightarrow> None
     | Some (r, t) \<Rightarrow>
         if surrogate r then
           (case t of b # u # t2 \<Rightarrow>
              (if b = CHR 0x5C \<and> u = CHR ''u'' then
                 (case hex4 t2 of Some (r2, t3) \<Rightarrow>
                    if r < 0xDC00 \<and> 0xDC00 \<le> r2 \<and> r2 < 0xE000
                    then Some ((r - 0xD800) * 1024 + (r2 - 0xDC00) + 0x10000, t3)
                    else Some (0xFFFD, t)
                  | None \<Rightarrow> Some (0xFFFD, t))
               else Some (0xFFFD, t))
            | _ \<Rightarrow> Some (0xFFFD, t))
         else Some (r, t))"

lemma unescape_u_length: "unescape_u s = Some (r, t) \<Longrightarrow> length t < length s"
  by (auto simp: unescape_u_def dest!: hex4_length split: option.splits list.splits if_splits prod.splits)

text \<open>
  The body of a string literal after its opening quote, up to and including the closing quote: the
  scanner's rules (no control bytes, only known escapes) and the bytes \<open>unquote\<close> produces.
\<close>

function lex_str :: "string \<Rightarrow> (string \<times> string) option" where
  "lex_str [] = None"
| "lex_str (c # s) =
     (if c = CHR 0x22 then Some ([], s)
      else if c = CHR 0x5C then
        (case s of [] \<Rightarrow> None
         | e # t \<Rightarrow>
             if e = CHR ''u'' then
               (case unescape_u t of None \<Rightarrow> None
                | Some (r, u) \<Rightarrow> map_option (apfst ((@) (encode_rune r))) (lex_str u))
             else (case unescape e of None \<Rightarrow> None
                   | Some x \<Rightarrow> map_option (apfst ((@) [x])) (lex_str t)))
      else if byte c < 32 then None
      else if byte c < 128 then map_option (apfst ((@) [c])) (lex_str s)
      else (case decode_rune (c # s) of
              (r, n) \<Rightarrow> map_option (apfst ((@) (encode_rune r))) (lex_str (drop (n - 1) s))))"
  by pat_completeness auto
termination
  by (relation "measure length") (auto dest: unescape_u_length)

declare lex_str.simps(2) [simp del]

lemma lex_str_length: "lex_str s = Some (x, t) \<Longrightarrow> length t < length s"
proof (induction s arbitrary: x rule: lex_str.induct)
  case (2 c s)
  show ?case
  proof (cases "c = CHR 0x22 \<or> (c = CHR 0x5C \<and> s = [])")
    case True
    with "2.prems" show ?thesis by (auto simp: lex_str.simps(2) split: if_splits)
  next
    case False
    from "2.prems" obtain y u where u: "lex_str u = Some (y, t)" "length u \<le> length s"
      and ih: "lex_str u = Some (y, t) \<Longrightarrow> length t < length u"
      using 2 False
      by (auto simp: lex_str.simps(2) split: if_splits option.splits prod.splits list.splits
          dest!: unescape_u_length less_imp_le_nat)
    then show ?thesis by auto
  qed
qed simp

section \<open>Marshalling a string\<close>

definition hex_digit :: "nat \<Rightarrow> char" where
  "hex_digit n = (if n < 10 then chr (48 + n) else chr (87 + n))"

text \<open>\<open>htmlSafeSet\<close>: the ASCII bytes written as they are.\<close>

definition html_safe :: "char \<Rightarrow> bool" where
  "html_safe c \<longleftrightarrow> 32 \<le> byte c \<and> byte c < 128 \<and>
     c \<noteq> CHR 0x22 \<and> c \<noteq> CHR 0x5C \<and> c \<noteq> CHR ''<'' \<and> c \<noteq> CHR ''>'' \<and> c \<noteq> CHR ''&''"

definition escape_byte :: "char \<Rightarrow> string" where
  "escape_byte c =
     (if c = CHR 0x5C \<or> c = CHR 0x22 then [CHR 0x5C, c]
      else if c = CHR 0x08 then [CHR 0x5C, CHR ''b'']
      else if c = CHR 0x0C then [CHR 0x5C, CHR ''f'']
      else if c = CHR 0x0A then [CHR 0x5C, CHR ''n'']
      else if c = CHR 0x0D then [CHR 0x5C, CHR ''r'']
      else if c = CHR 0x09 then [CHR 0x5C, CHR ''t'']
      else [CHR 0x5C, CHR ''u'', CHR ''0'', CHR ''0'', hex_digit (byte c div 16), hex_digit (byte c mod 16)])"

function quote_body :: "string \<Rightarrow> string" where
  "quote_body [] = []"
| "quote_body (c # s) =
     (if byte c < 128 then (if html_safe c then [c] else escape_byte c) @ quote_body s
      else (case decode_rune (c # s) of (r, n) \<Rightarrow>
        (if n = 1 then CHR 0x5C # ''ufffd''
         else if r = 0x2028 \<or> r = 0x2029 then CHR 0x5C # ''u202'' @ [hex_digit (r mod 16)]
         else take n (c # s)) @ quote_body (drop (n - 1) s)))"
  by pat_completeness auto
termination
  by (relation "measure length") auto

declare quote_body.simps(2) [simp del]

definition marshal_string :: "string \<Rightarrow> string" where
  "marshal_string s = [CHR 0x22] @ quote_body s @ [CHR 0x22]"

lemma hex_val_digit: "n < 16 \<Longrightarrow> hex_val (hex_digit n) = Some n"
  by (auto simp: hex_val_def hex_digit_def Let_def)

lemma hex4_00:
  "i < 16 \<Longrightarrow> j < 16 \<Longrightarrow> hex4 (CHR ''0'' # CHR ''0'' # hex_digit i # hex_digit j # t) = Some (i * 16 + j, t)"
proof -
  assume "i < 16" "j < 16"
  moreover have "hex_val (CHR ''0'') = Some 0" by (simp add: hex_val_def)
  ultimately show ?thesis by (simp add: hex4_def hex_val_digit)
qed

lemma unescape_u_00:
  "byte c < 128 \<Longrightarrow> unescape_u (CHR ''0'' # CHR ''0'' # hex_digit (byte c div 16) # hex_digit (byte c mod 16) # t)
     = Some (byte c, t)"
  by (simp add: unescape_u_def hex4_00 surrogate_def)

lemma hex4_202:
  "r = 0x2028 \<or> r = 0x2029 \<Longrightarrow> hex4 (''202'' @ hex_digit (r mod 16) # t) = Some (r, t)"
  by (auto simp: hex4_def hex_val_def hex_digit_def)

lemma unescape_u_202:
  "r = 0x2028 \<or> r = 0x2029 \<Longrightarrow> unescape_u (''202'' @ hex_digit (r mod 16) # t) = Some (r, t)"
  unfolding unescape_u_def by (subst hex4_202) (auto simp: surrogate_def)

lemma lex_str_escape:
  assumes "byte c < 128" "\<not> html_safe c"
  shows "lex_str (escape_byte c @ t) = map_option (apfst ((@) [c])) (lex_str t)"
proof -
  have "encode_rune (byte c) = [c]" using assms(1) by (simp add: encode_rune_def)
  then show ?thesis
    using assms by (auto simp: escape_byte_def lex_str.simps(2) unescape_def unescape_u_00)
qed

text \<open>A marshalled valid string reads back as itself.\<close>

lemma lex_str_quote_body:
  "utf8_valid s \<Longrightarrow> lex_str (quote_body s @ CHR 0x22 # t) = Some (s, t)"
proof (induction s rule: quote_body.induct)
  case 1
  then show ?case by (simp add: lex_str.simps(2))
next
  case (2 c s)
  show ?case
  proof (cases "byte c < 128")
    case True
    with 2 have ih: "lex_str (quote_body s @ CHR 0x22 # t) = Some (s, t)"
      by (simp add: utf8_valid.simps(2))
    show ?thesis
    proof (cases "html_safe c")
      case True
      with ih show ?thesis
        by (simp add: quote_body.simps(2) lex_str.simps(2)[of c] html_safe_def)
    next
      case False
      with True ih show ?thesis by (simp add: quote_body.simps(2) lex_str_escape)
    qed
  next
    case False
    obtain r n where d: "decode_rune (c # s) = (r, n)" by force
    with False "2.prems" have n: "n \<noteq> 1" and v: "utf8_valid (drop (n - 1) s)"
      by (auto simp: utf8_valid.simps(2))
    from "2.IH"(2)[OF False d[symmetric] v]
    have ih: "lex_str (quote_body (drop (n - 1) s) @ CHR 0x22 # t) = Some (drop (n - 1) s, t)" by simp
    let ?u = "quote_body (drop (n - 1) s) @ CHR 0x22 # t"
    have re: "encode_rune r = take n (c # s)" and n2: "2 \<le> n" and len: "n \<le> length (c # s)"
      and pre: "decode_rune (take n (c # s) @ ?u) = (r, n)"
      using decode_rune_reencode_prefix[OF d _ n, of ?u] False by auto
    have whole: "take n (c # s) @ drop (n - 1) s = c # s"
      using n2 by (cases n) auto
    show ?thesis
    proof (cases "r = 0x2028 \<or> r = 0x2029")
      case True
      then have "quote_body (c # s) @ CHR 0x22 # t
          = CHR 0x5C # CHR ''u'' # (''202'' @ hex_digit (r mod 16) # ?u)"
        using False d n by (simp add: quote_body.simps(2))
      then show ?thesis
        using ih re whole unescape_u_202[OF True, of ?u] by (simp add: lex_str.simps(2))
    next
      case r: False
      then have q: "quote_body (c # s) @ CHR 0x22 # t = take n (c # s) @ ?u"
        using False d n by (simp add: quote_body.simps(2))
      obtain m where m: "n = Suc m" "0 < m" using n2 by (cases n) auto
      have "take n (c # s) @ ?u = c # (take m s @ ?u)" using m by simp
      moreover have "drop (n - 1) (take m s @ ?u) = ?u" using m len by simp
      ultimately show ?thesis
        using False pre ih re whole q
        by (auto simp: lex_str.simps(2)[of c] simp del: take_Suc_Cons)
    qed
  qed
qed

section \<open>Numbers end where they must\<close>

text \<open>The bytes that cannot continue a number.\<close>

definition num_stop :: "string \<Rightarrow> bool" where
  "num_stop s \<longleftrightarrow> (case s of [] \<Rightarrow> True
     | c # _ \<Rightarrow> \<not> is_digit c \<and> c \<noteq> CHR ''.'' \<and> c \<noteq> CHR ''e'' \<and> c \<noteq> CHR ''E'')"

lemma span_digits_app: "span_digits s = (a, b) \<Longrightarrow> s = a @ b"
  by (auto simp: span_digits_def)

lemma span_digits_stop:
  assumes "num_stop r" "span_digits s = (a, b)" shows "span_digits (s @ r) = (a, b @ r)"
proof (cases "\<forall>x \<in> set s. is_digit x")
  case True
  then have sd: "span_digits s = (s, [])" by (simp add: span_digits_def takeWhile_eq_all_conv)
  have "takeWhile is_digit r = []" "dropWhile is_digit r = r"
    using assms(1) by (auto simp: num_stop_def split: list.splits)
  then have "span_digits (s @ r) = (s, r)"
    using True by (simp add: span_digits_def)
  with sd assms(2) show ?thesis by simp
next
  case False
  with assms(2) show ?thesis
    by (auto simp: span_digits_def takeWhile_append dropWhile_append)
qed

lemma lex_exp_app: "lex_exp s = Some (a, b) \<Longrightarrow> s = a @ b"
  by (auto simp: lex_exp_def dest!: span_digits_app split: list.splits if_splits prod.splits)

lemma lex_frac_app: "lex_frac s = Some (a, b) \<Longrightarrow> s = a @ b"
  by (auto simp: lex_frac_def dest!: span_digits_app split: list.splits if_splits prod.splits)

lemma lex_int_app: "lex_int s = Some (a, b) \<Longrightarrow> s = a @ b"
  by (auto simp: lex_int_def dest!: span_digits_app split: list.splits if_splits prod.splits)

lemma lex_number_app: "lex_number s = Some (a, b) \<Longrightarrow> s = a @ b"
  by (auto simp: lex_number_def Let_def dest!: lex_int_app lex_frac_app lex_exp_app
      split: list.splits if_splits prod.splits option.splits)

lemma lex_number_shorter: "lex_number s = Some (a, b) \<Longrightarrow> length b < length s"
proof -
  assume n: "lex_number s = Some (a, b)"
  then have "a \<noteq> []"
    by (auto simp: lex_number_def lex_int_def Let_def split: list.splits if_splits prod.splits option.splits)
  with lex_number_app[OF n] show ?thesis by simp
qed

text \<open>Reading a token that was complete, now followed by a byte that cannot continue it.\<close>

lemma lex_exp_stop:
  assumes "num_stop r" "lex_exp s = Some (a, b)" shows "lex_exp (s @ r) = Some (a, b @ r)"
proof (cases s)
  case Nil
  with assms show ?thesis by (cases r) (auto simp: lex_exp_def num_stop_def)
next
  case (Cons e t)
  show ?thesis
  proof (cases "e = CHR ''e'' \<or> e = CHR ''E''")
    case False
    with assms(2) Cons show ?thesis by (auto simp: lex_exp_def)
  next
    case True
    with assms(2) Cons have "t \<noteq> []" by (auto simp: lex_exp_def span_digits_def)
    then obtain c u where t: "t = c # u" by (cases t) auto
    show ?thesis
      using assms(2) Cons True t
      by (cases "c = CHR ''+'' \<or> c = CHR ''-''")
        (auto simp: lex_exp_def split: prod.splits if_splits
          dest: span_digits_stop[OF assms(1)] dest!: span_digits_stop[OF assms(1), of "c # u"])
  qed
qed

lemma lex_frac_stop:
  assumes "num_stop r" "lex_frac s = Some (a, b)" shows "lex_frac (s @ r) = Some (a, b @ r)"
proof (cases s)
  case Nil
  with assms show ?thesis by (cases r) (auto simp: lex_frac_def num_stop_def)
next
  case (Cons c t)
  with assms(2) show ?thesis
    by (auto simp: lex_frac_def split: prod.splits if_splits dest: span_digits_stop[OF assms(1)])
qed

lemma lex_int_stop:
  assumes "num_stop r" "lex_int s = Some (a, b)" shows "lex_int (s @ r) = Some (a, b @ r)"
proof (cases s)
  case Nil
  with assms show ?thesis by (auto simp: lex_int_def)
next
  case (Cons c t)
  with assms(2) show ?thesis
    by (auto simp: lex_int_def split: prod.splits if_splits dest: span_digits_stop[OF assms(1)])
qed

lemma lex_number_stop:
  assumes "num_stop r" "lex_number s = Some (a, b)" shows "lex_number (s @ r) = Some (a, b @ r)"
proof -
  obtain c t where s: "s = c # t"
    using assms(2) by (cases s) (auto simp: lex_number_def lex_int_def)
  let ?t = "if c = CHR ''-'' then t else s" and ?sg = "if c = CHR ''-'' then [c] else []"
  from assms(2) s obtain i u f v e where p:
    "lex_int ?t = Some (i, u)" "lex_frac u = Some (f, v)" "lex_exp v = Some (e, b)"
    "a = ?sg @ i @ f @ e"
    by (auto simp: lex_number_def Let_def split: option.splits if_splits)
  from lex_int_stop[OF assms(1) p(1)] lex_frac_stop[OF assms(1) p(2)] lex_exp_stop[OF assms(1) p(3)]
  show ?thesis using s p(4) by (auto simp: lex_number_def Let_def split: if_splits)
qed

lemma lex_number_first:
  "lex_number (c # s) = Some x \<Longrightarrow> c = CHR ''-'' \<or> is_digit c"
  by (auto simp: lex_number_def lex_int_def Let_def is_digit_def split: if_splits option.splits)

section \<open>String literals denote valid UTF-8\<close>

lemma hex_val_bound: "hex_val c = Some i \<Longrightarrow> i < 16"
  by (auto simp: hex_val_def Let_def split: if_splits)

lemma hex4_bound: "hex4 s = Some (r, t) \<Longrightarrow> r < 65536"
  by (auto simp: hex4_def split: list.splits option.splits dest!: hex_val_bound)

lemma unescape_u_valid: "unescape_u s = Some (r, t) \<Longrightarrow> valid_rune r"
  by (auto simp: unescape_u_def valid_rune_def surrogate_def dest!: hex4_bound
      split: option.splits list.splits if_splits prod.splits)

lemma unescape_ascii: "unescape c = Some x \<Longrightarrow> byte x < 128"
  by (auto simp: unescape_def split: if_splits)

lemma lex_str_valid: "lex_str s = Some (x, t) \<Longrightarrow> utf8_valid x"
proof (induction s arbitrary: x rule: lex_str.induct)
  case (2 c s)
  show ?case
    using 2 by (auto simp: lex_str.simps(2) utf8_valid.simps(2) utf8_valid_encode 
       split: if_splits option.splits prod.splits list.splits
       dest: unescape_u_valid decode_rune_valid unescape_ascii)
qed simp
end
