(* ===== verification/JSON_Decoder.thy ===== *)
theory JSON_Decoder
  imports JSON_Text
begin

text \<open>
  The token interface of \<open>json.Decoder\<close> (with \<open>UseNumber\<close>) and the scan of one whole value that
  \<open>Decoder.Decode\<close> and \<open>json.Unmarshal\<close> perform. A decoder is its unread input, its token state
  and the stack of enclosing token states. \<open>Token\<close> returns \<open>EOF\<close> when only white space is left.
\<close>

datatype json_token = TDelim char | TNull | TBool bool | TString string | TNumber string

datatype tok_err = EOF | Syntax

datatype token_state =
    TokenTopValue | TokenArrayStart | TokenArrayValue | TokenArrayComma
  | TokenObjectStart | TokenObjectKey | TokenObjectColon | TokenObjectValue | TokenObjectComma

record decoder =
  dec_input :: string
  dec_state :: token_state
  dec_stack :: "token_state list"

definition new_decoder :: "string \<Rightarrow> decoder" where
  "new_decoder s = \<lparr>dec_input = s, dec_state = TokenTopValue, dec_stack = []\<rparr>"

definition value_allowed :: "token_state \<Rightarrow> bool" where
  "value_allowed st \<longleftrightarrow> st = TokenTopValue \<or> st = TokenArrayStart \<or> st = TokenArrayValue \<or> st = TokenObjectValue"

definition value_end :: "token_state \<Rightarrow> token_state" where
  "value_end st = (case st of TokenArrayStart \<Rightarrow> TokenArrayComma | TokenArrayValue \<Rightarrow> TokenArrayComma
     | TokenObjectValue \<Rightarrow> TokenObjectComma | _ \<Rightarrow> st)"

definition strip_word :: "string \<Rightarrow> string \<Rightarrow> string option" where
  "strip_word w s = (if has_prefix s w then Some (drop (length w) s) else None)"

definition lex_scalar :: "string \<Rightarrow> (json_token \<times> string) option" where
  "lex_scalar s = (case s of [] \<Rightarrow> None
     | c # t \<Rightarrow>
         if c = CHR 0x22 then map_option (apfst TString) (lex_str t)
         else if c = CHR ''-'' \<or> is_digit c then map_option (apfst TNumber) (lex_number s)
         else if c = CHR ''t'' then map_option (Pair (TBool True)) (strip_word ''true'' s)
         else if c = CHR ''f'' then map_option (Pair (TBool False)) (strip_word ''false'' s)
         else if c = CHR ''n'' then map_option (Pair TNull) (strip_word ''null'' s)
         else None)"

lemma strip_word_length: "strip_word w s = Some t \<Longrightarrow> w \<noteq> [] \<Longrightarrow> length t < length s"
  by (cases s) (auto simp: strip_word_def has_prefix_def split: if_splits)

lemma lex_scalar_length: "lex_scalar s = Some (x, t) \<Longrightarrow> length t < length s"
proof (cases s)
  case (Cons c u)
  assume l: "lex_scalar s = Some (x, t)"
  show ?thesis
  proof (cases "c = CHR 0x22")
    case True
    with l Cons obtain y where "lex_str u = Some (y, t)"
      by (auto simp: lex_scalar_def)
    with Cons show ?thesis by (auto dest: lex_str_length)
  next
    case False
    with l Cons show ?thesis
      by (auto simp: lex_scalar_def dest: lex_number_shorter strip_word_length split: if_splits)
  qed
qed (simp add: lex_scalar_def)

lemma skip_space_length: "length (skip_space s) \<le> length s"
  by (simp add: skip_space_def length_dropWhile_le)

text \<open>\<open>Decoder.Token\<close>. The closing delimiters restore the state of the enclosing value.\<close>

definition token_open :: "char \<Rightarrow> token_state \<Rightarrow> string \<Rightarrow> decoder \<Rightarrow> tok_err + json_token \<times> decoder" where
  "token_open c st s d =
     (if value_allowed (dec_state d)
      then Inr (TDelim c, \<lparr>dec_input = s, dec_state = st, dec_stack = dec_state d # dec_stack d\<rparr>)
      else Inl Syntax)"

definition token_close :: "char \<Rightarrow> string \<Rightarrow> decoder \<Rightarrow> tok_err + json_token \<times> decoder" where
  "token_close c s d = (case dec_stack d of [] \<Rightarrow> Inl Syntax
     | st # sts \<Rightarrow> Inr (TDelim c, \<lparr>dec_input = s, dec_state = value_end st, dec_stack = sts\<rparr>))"

function token :: "decoder \<Rightarrow> tok_err + json_token \<times> decoder" where
  "token d = (case skip_space (dec_input d) of [] \<Rightarrow> Inl EOF
     | c # s \<Rightarrow>
         if c = CHR ''['' then token_open c TokenArrayStart s d
         else if c = CHR '']'' then
           (if dec_state d = TokenArrayStart \<or> dec_state d = TokenArrayComma then token_close c s d
            else Inl Syntax)
         else if c = CHR ''{'' then token_open c TokenObjectStart s d
         else if c = CHR ''}'' then
           (if dec_state d = TokenObjectStart \<or> dec_state d = TokenObjectComma then token_close c s d
            else Inl Syntax)
         else if c = CHR '':'' then
           (if dec_state d = TokenObjectColon
            then token (d\<lparr>dec_input := s, dec_state := TokenObjectValue\<rparr>) else Inl Syntax)
         else if c = CHR '','' then
           (if dec_state d = TokenArrayComma
            then token (d\<lparr>dec_input := s, dec_state := TokenArrayValue\<rparr>)
            else if dec_state d = TokenObjectComma
            then token (d\<lparr>dec_input := s, dec_state := TokenObjectKey\<rparr>)
            else Inl Syntax)
         else if c = CHR 0x22 \<and> (dec_state d = TokenObjectStart \<or> dec_state d = TokenObjectKey) then
           (case lex_str s of None \<Rightarrow> Inl Syntax
            | Some (k, t) \<Rightarrow> Inr (TString k, d\<lparr>dec_input := t, dec_state := TokenObjectColon\<rparr>))
         else if \<not> value_allowed (dec_state d) then Inl Syntax
         else (case lex_scalar (c # s) of None \<Rightarrow> Inl Syntax
               | Some (x, t) \<Rightarrow> Inr (x, d\<lparr>dec_input := t, dec_state := value_end (dec_state d)\<rparr>)))"
  by pat_completeness auto
termination
proof (relation "measure (\<lambda>d. length (dec_input d))", goal_cases)
  case (2 d c s)
  then show ?case using skip_space_length[of "dec_input d"] by auto
next
  case (3 d c s)
  then show ?case using skip_space_length[of "dec_input d"] by auto
next
  case (4 d c s)
  then show ?case using skip_space_length[of "dec_input d"] by auto
qed simp

declare token.simps [simp del]

text \<open>\<open>Decoder.More\<close>\<close>

definition more :: "decoder \<Rightarrow> bool" where
  "more d = (case skip_space (dec_input d) of [] \<Rightarrow> False
     | c # _ \<Rightarrow> c \<noteq> CHR '']'' \<and> c \<noteq> CHR ''}'')"

text \<open>Every token consumes input.\<close>

lemma token_length: "token d = Inr (x, d') \<Longrightarrow> length (dec_input d') < length (dec_input d)"
proof (induction d rule: token.induct)
  case (1 d)
  show ?case
  proof (cases "skip_space (dec_input d)")
    case Nil
    with "1.prems" show ?thesis by (simp add: token.simps[of d])
  next
    case (Cons c s)
    then have s: "length s < length (dec_input d)"
      using skip_space_length[of "dec_input d"] by simp
    show ?thesis
      using 1 Cons s
      by (auto simp: token.simps[of d] token_open_def token_close_def
          split: if_splits option.splits prod.splits list.splits
          dest!: lex_str_length lex_scalar_length)
  qed
qed

end
