(* ===== verification/JSON_Value.thy ===== *)
theory JSON_Value
  imports JSON_Decoder
begin

text \<open>
  The dynamic JSON value of \<open>codexsdk/protocolv2/json_value.go\<close>: construction, accessors, the parser
  that rejects duplicate keys at every depth, and the canonical writer with sorted keys.

  \<open>JSONValue\<close> is the datatype of the explicit cases; \<open>JInvalid\<close> is the zero value. A Go map with
  string keys is an association list kept in increasing key order with distinct keys, so that equal
  maps are equal terms. The two parser loops and the value parser are mutually recursive on the
  unread input; they carry fuel, and \<open>ParseJSONValue\<close> gives them \<open>2 * length data + 1\<close>, which
  \<open>ParseJSONValue_fuel\<close> shows is always enough.
\<close>

datatype JSONValue =
    JInvalid
  | JNull
  | JBool bool
  | JString string
  | JNumber string
  | JArray "JSONValue list"
  | JObject "(string \<times> JSONValue) list"

datatype JSONKind =
    JSONKindInvalid | JSONKindObject | JSONKindArray | JSONKindString | JSONKindNumber
  | JSONKindBool | JSONKindNull

datatype json_error =
    NumberEmpty
  | NumberWhitespace string
  | NumberSyntax string
  | NumberMismatch string
  | NumberTrailing string
  | TokenError tok_err
  | UnexpectedDelimiter char string
  | ExpectedKey string
  | DuplicateKey string string
  | ExpectedObjectClose string
  | ExpectedArrayClose string
  | TrailingToken json_token
  | NumberAt string json_error
  | InvalidValueAt string
  | OutOfFuel

section \<open>Maps, pointers, decimal indexes\<close>

fun map_put :: "string \<Rightarrow> 'v \<Rightarrow> (string \<times> 'v) list \<Rightarrow> (string \<times> 'v) list" where
  "map_put k v [] = [(k, v)]"
| "map_put k v ((k', v') # m) =
     (if k < k' then (k, v) # (k', v') # m
      else if k = k' then (k, v) # m
      else (k', v') # map_put k v m)"

abbreviation keys :: "(string \<times> 'v) list \<Rightarrow> string list" where "keys m \<equiv> map fst m"

definition map_ok :: "(string \<times> 'v) list \<Rightarrow> bool" where
  "map_ok m \<longleftrightarrow> sorted_wrt (<) (keys m)"

lemma map_of_put [simp]: "map_of (map_put k v m) = (map_of m)(k \<mapsto> v)"
  by (induction m) auto

lemma fst_set_put [simp]: "fst ` set (map_put k v m) = insert k (fst ` set m)"
proof (induction m)
  case (Cons a m)
  then show ?case by (cases a) (simp add: insert_commute)
qed simp

lemma map_ok_Cons: "map_ok ((k, v) # m) \<longleftrightarrow> (\<forall>k' \<in> fst ` set m. k < k') \<and> map_ok m"
  by (simp add: map_ok_def)

lemma map_ok_Nil [simp]: "map_ok []"
  by (simp add: map_ok_def)

lemma map_ok_put: "map_ok m \<Longrightarrow> map_ok (map_put k v m)"
proof (induction m)
  case (Cons a m)
  obtain k' v' where a: "a = (k', v')" by force
  with Cons have k': "\<forall>x \<in> fst ` set m. k' < x" and ok: "map_ok (map_put k v m)" "map_ok m"
    by (auto simp: map_ok_Cons)
  consider "k < k'" | "k = k'" | "k' < k" by fastforce
  then show ?case
    using a k' ok by cases (auto simp: map_ok_Cons dest: less_trans order.strict_implies_not_eq)
qed (simp add: map_ok_def)

lemma map_put_last:
  "map_ok (m @ [(k, v)]) \<Longrightarrow> map_put k v m = m @ [(k, v)]"
  by (induction m) (auto simp: map_ok_def sorted_wrt_append)

definition joinPointer :: "string \<Rightarrow> string \<Rightarrow> string" where
  "joinPointer path tok =
     (let escaped = replace_all (CHR ''/'') ''~1'' (replace_all (CHR ''~'') ''~0'' tok)
      in if path = [] then ''/'' @ escaped else path @ ''/'' @ escaped)"

definition pointerForError :: "string \<Rightarrow> string" where
  "pointerForError path = (if path = [] then ''/'' else path)"

fun itoa :: "nat \<Rightarrow> string" where
  "itoa n = (if n < 10 then [chr (48 + n)] else itoa (n div 10) @ [chr (48 + n mod 10)])"

declare itoa.simps [simp del]

section \<open>Constructors and accessors\<close>

text \<open>\<open>json.Number\<close> from the next value of a stream: a number, a string that spells one, or null.\<close>

definition valid_number :: "string \<Rightarrow> bool" where
  "valid_number s \<longleftrightarrow> lex_number s = Some (s, [])"

definition decode_json_number :: "string \<Rightarrow> tok_err + string \<times> string" where
  "decode_json_number s = (case skip_space s of [] \<Rightarrow> Inl EOF
     | c # t \<Rightarrow> (case lex_scalar (c # t) of None \<Rightarrow> Inl Syntax
         | Some (x, r) \<Rightarrow> (case x of
             TNumber n \<Rightarrow> Inr (n, r)
           | TString n \<Rightarrow> if valid_number n then Inr (n, r) else Inl Syntax
           | TNull \<Rightarrow> Inr ([], r)
           | _ \<Rightarrow> Inl Syntax)))"

definition validateJSONNumber :: "string \<Rightarrow> json_error option" where
  "validateJSONNumber tok =
     (if tok = [] then Some NumberEmpty
      else if trim_space tok \<noteq> tok then Some (NumberWhitespace tok)
      else case decode_json_number tok of Inl e \<Rightarrow> Some (NumberSyntax tok)
        | Inr (parsed, rest) \<Rightarrow>
            if parsed \<noteq> tok then Some (NumberMismatch tok)
            else if skip_space rest \<noteq> [] then Some (NumberTrailing tok)
            else None)"

definition JSONNumber :: "string \<Rightarrow> json_error + JSONValue" where
  "JSONNumber tok = (case validateJSONNumber tok of Some e \<Rightarrow> Inl e | None \<Rightarrow> Inr (JNumber tok))"

definition Kind :: "JSONValue \<Rightarrow> JSONKind" where
  "Kind v = (case v of JInvalid \<Rightarrow> JSONKindInvalid | JNull \<Rightarrow> JSONKindNull | JBool _ \<Rightarrow> JSONKindBool
     | JString _ \<Rightarrow> JSONKindString | JNumber _ \<Rightarrow> JSONKindNumber | JArray _ \<Rightarrow> JSONKindArray
     | JObject _ \<Rightarrow> JSONKindObject)"

definition IsValid :: "JSONValue \<Rightarrow> bool" where
  "IsValid v \<longleftrightarrow> Kind v \<noteq> JSONKindInvalid"

text \<open>The accessors return \<open>(value, ok)\<close>; \<open>None\<close> is \<open>ok = false\<close> with the type's zero value.\<close>

definition AsBool :: "JSONValue \<Rightarrow> bool option" where
  "AsBool v = (case v of JBool b \<Rightarrow> Some b | _ \<Rightarrow> None)"
definition AsString :: "JSONValue \<Rightarrow> string option" where
  "AsString v = (case v of JString s \<Rightarrow> Some s | _ \<Rightarrow> None)"
definition AsNumber :: "JSONValue \<Rightarrow> string option" where
  "AsNumber v = (case v of JNumber n \<Rightarrow> Some n | _ \<Rightarrow> None)"
definition AsArray :: "JSONValue \<Rightarrow> JSONValue list option" where
  "AsArray v = (case v of JArray xs \<Rightarrow> Some xs | _ \<Rightarrow> None)"
definition AsObject :: "JSONValue \<Rightarrow> (string \<times> JSONValue) list option" where
  "AsObject v = (case v of JObject m \<Rightarrow> Some m | _ \<Rightarrow> None)"

section \<open>Parser\<close>

fun parseJSONValue :: "nat \<Rightarrow> decoder \<Rightarrow> string \<Rightarrow> json_error + JSONValue \<times> decoder"
  and parseJSONObject :: "nat \<Rightarrow> decoder \<Rightarrow> string \<Rightarrow> string list \<Rightarrow> (string \<times> JSONValue) list
      \<Rightarrow> json_error + JSONValue \<times> decoder"
  and parseJSONArray :: "nat \<Rightarrow> decoder \<Rightarrow> string \<Rightarrow> JSONValue list
      \<Rightarrow> json_error + JSONValue \<times> decoder" where
  "parseJSONValue 0 d path = Inl OutOfFuel"
| "parseJSONValue (Suc n) d path = (case token d of Inl e \<Rightarrow> Inl (TokenError e)
     | Inr (t, d1) \<Rightarrow> (case t of
         TDelim c \<Rightarrow>
           if c = CHR ''{'' then parseJSONObject n d1 path [] []
           else if c = CHR ''['' then parseJSONArray n d1 path []
           else Inl (UnexpectedDelimiter c (pointerForError path))
       | TNull \<Rightarrow> Inr (JNull, d1)
       | TBool b \<Rightarrow> Inr (JBool b, d1)
       | TString s \<Rightarrow> Inr (JString s, d1)
       | TNumber x \<Rightarrow> (case JSONNumber x of Inl e \<Rightarrow> Inl e | Inr v \<Rightarrow> Inr (v, d1))))"
| "parseJSONObject 0 d path seen vals = Inl OutOfFuel"
| "parseJSONObject (Suc n) d path seen vals =
     (if more d then
        (case token d of Inl e \<Rightarrow> Inl (TokenError e)
         | Inr (t, d1) \<Rightarrow> (case t of
             TString key \<Rightarrow>
               if key \<in> set seen then Inl (DuplicateKey key (pointerForError path))
               else (case parseJSONValue n d1 (joinPointer path key) of Inl e \<Rightarrow> Inl e
                     | Inr (v, d2) \<Rightarrow> parseJSONObject n d2 path (key # seen) (map_put key v vals))
           | _ \<Rightarrow> Inl (ExpectedKey (pointerForError path))))
      else
        (case token d of Inl e \<Rightarrow> Inl (TokenError e)
         | Inr (t, d1) \<Rightarrow> if t = TDelim (CHR ''}'') then Inr (JObject vals, d1)
             else Inl (ExpectedObjectClose (pointerForError path))))"
| "parseJSONArray 0 d path vals = Inl OutOfFuel"
| "parseJSONArray (Suc n) d path vals =
     (if more d then
        (case parseJSONValue n d (joinPointer path (itoa (length vals))) of Inl e \<Rightarrow> Inl e
         | Inr (v, d1) \<Rightarrow> parseJSONArray n d1 path (vals @ [v]))
      else
        (case token d of Inl e \<Rightarrow> Inl (TokenError e)
         | Inr (t, d1) \<Rightarrow> if t = TDelim (CHR '']'') then Inr (JArray vals, d1)
             else Inl (ExpectedArrayClose (pointerForError path))))"

definition ParseJSONValue :: "string \<Rightarrow> json_error + JSONValue" where
  "ParseJSONValue data =
     (case parseJSONValue (2 * length data + 1) (new_decoder data) [] of Inl e \<Rightarrow> Inl e
      | Inr (v, d) \<Rightarrow> (case token d of
          Inl EOF \<Rightarrow> Inr v
        | Inl e \<Rightarrow> Inl (TokenError e)
        | Inr (t, _) \<Rightarrow> Inl (TrailingToken t)))"

section \<open>Writer\<close>

fun seq_res :: "('e + 'a) list \<Rightarrow> 'e + 'a list" where
  "seq_res [] = Inr []"
| "seq_res (r # rs) = (case r of Inl e \<Rightarrow> Inl e
     | Inr x \<Rightarrow> (case seq_res rs of Inl e \<Rightarrow> Inl e | Inr xs \<Rightarrow> Inr (x # xs)))"

fun join_comma :: "string list \<Rightarrow> string" where
  "join_comma [] = []"
| "join_comma [s] = s"
| "join_comma (s # t # ss) = s @ '','' @ join_comma (t # ss)"

text \<open>
  The writer of one value. The members of an object are written in the order of their sorted keys,
  and the first member that fails in that order gives the error. A member is written by its own
  writer applied to its own pointer.
\<close>

definition write_elem :: "string \<Rightarrow> nat \<Rightarrow> (string \<Rightarrow> json_error + string) \<Rightarrow> json_error + string" where
  "write_elem path i w = w (joinPointer path (itoa i))"

definition write_member :: "string \<Rightarrow> string \<times> (string \<Rightarrow> json_error + string) \<Rightarrow> json_error + string" where
  "write_member path kw = (case snd kw (joinPointer path (fst kw)) of Inl e \<Rightarrow> Inl e
     | Inr s \<Rightarrow> Inr (marshal_string (fst kw) @ '':'' @ s))"

fun writeJSON :: "JSONValue \<Rightarrow> string \<Rightarrow> json_error + string" where
  "writeJSON JInvalid path = Inl (InvalidValueAt (pointerForError path))"
| "writeJSON JNull path = Inr ''null''"
| "writeJSON (JBool b) path = Inr (if b then ''true'' else ''false'')"
| "writeJSON (JString s) path = Inr (marshal_string s)"
| "writeJSON (JNumber x) path = (case validateJSONNumber x of
      Some e \<Rightarrow> Inl (NumberAt (pointerForError path) e) | None \<Rightarrow> Inr x)"
| "writeJSON (JArray vs) path =
     (case seq_res (map2 (write_elem path) [0..<length vs] (map (\<lambda>v p. writeJSON v p) vs)) of
        Inl e \<Rightarrow> Inl e | Inr ss \<Rightarrow> Inr (''['' @ join_comma ss @ '']''))"
| "writeJSON (JObject m) path =
     (case seq_res (map (write_member path)
         (sort_key fst (map (\<lambda>(k, v). (k, \<lambda>p. writeJSON v p)) m))) of
        Inl e \<Rightarrow> Inl e | Inr ss \<Rightarrow> Inr (''{'' @ join_comma ss @ ''}''))"

definition MarshalJSON :: "JSONValue \<Rightarrow> json_error + string" where
  "MarshalJSON v = writeJSON v []"

definition UnmarshalJSON :: "string \<Rightarrow> JSONValue \<Rightarrow> json_error option \<times> JSONValue" where
  "UnmarshalJSON data old = (case ParseJSONValue data of Inl e \<Rightarrow> (Some e, old) | Inr v \<Rightarrow> (None, v))"

section \<open>Number tokens\<close>

text \<open>A JSON number token starts and ends with a digit (or starts with a minus sign), so it has no
  white space around it and the stream decoder reads it whole.\<close>

lemma trim_runes_no_strip: "strip_one ps s = None \<Longrightarrow> trim_runes ps s = s"
  by (simp add: trim_runes.simps[of ps s])

lemma strip_one_None: "(\<And>p. p \<in> set ps \<Longrightarrow> p = [] \<or> \<not> has_prefix s p) \<Longrightarrow> strip_one ps s = None"
  by (induction ps) auto

lemma strip_one_first:
  assumes "\<And>p. p \<in> set ps \<Longrightarrow> p \<noteq> [] \<Longrightarrow> hd p \<noteq> c"
  shows "strip_one ps (c # s) = None"
proof (rule strip_one_None)
  fix p assume p: "p \<in> set ps"
  show "p = [] \<or> \<not> has_prefix (c # s) p"
  proof (cases p)
    case (Cons x xs)
    with assms[OF p] have "x \<noteq> c" by simp
    with Cons show ?thesis by (simp add: has_prefix_def)
  qed simp
qed

lemma trim_space_id:
  assumes "s \<noteq> []" "hd s = CHR ''-'' \<or> is_digit (hd s)" "is_digit (last s)"
  shows "trim_space s = s"
proof -
  obtain c t where s: "s = c # t" using assms(1) by (cases s) auto
  obtain d u where r: "rev s = d # u" "d = last s"
    using assms(1) by (metis hd_rev list.collapse rev_is_Nil_conv)
  have dig: "is_digit d" and "c = CHR ''-'' \<or> is_digit c"
    using assms(2,3) s r(2) by simp_all
  then have "strip_one space_runes (c # t) = None"
    by (intro strip_one_first) (auto simp: space_runes_def is_digit_def)
  moreover have "strip_one (map rev space_runes) (d # u) = None"
    using dig by (intro strip_one_first) (auto simp: space_runes_def is_digit_def)
  ultimately have "trim_runes space_runes s = s" "trim_runes (map rev space_runes) (rev s) = rev s"
    unfolding s r(1)[unfolded s] by (auto intro: trim_runes_no_strip)
  then show ?thesis by (simp add: trim_space_def)
qed

lemma span_digits_all: "span_digits s = (a, b) \<Longrightarrow> \<forall>x \<in> set a. is_digit x"
  by (auto simp: span_digits_def dest: set_takeWhileD)

lemma lex_exp_digits: "lex_exp s = Some (a, b) \<Longrightarrow> a = [] \<or> is_digit (last a)"
  by (auto simp: lex_exp_def dest!: span_digits_all split: list.splits if_splits prod.splits)

lemma lex_frac_digits: "lex_frac s = Some (a, b) \<Longrightarrow> a = [] \<or> is_digit (last a)"
  by (auto simp: lex_frac_def dest!: span_digits_all split: list.splits if_splits prod.splits)

lemma lex_int_digits: "lex_int s = Some (a, b) \<Longrightarrow> a \<noteq> [] \<and> is_digit (last a)"
  by (auto simp: lex_int_def is_digit_def dest!: span_digits_all split: list.splits if_splits prod.splits)

lemma lex_number_last: "lex_number s = Some (a, b) \<Longrightarrow> a \<noteq> [] \<and> is_digit (last a)"
  by (auto simp: lex_number_def Let_def last_append dest!: lex_int_digits lex_frac_digits lex_exp_digits
      split: list.splits if_splits prod.splits option.splits)

lemma validateJSONNumber_valid:
  assumes "valid_number tok" shows "validateJSONNumber tok = None"
proof -
  have n: "lex_number tok = Some (tok, [])" using assms by (simp add: valid_number_def)
  then obtain c t where tok: "tok = c # t"
    by (cases tok) (auto simp: lex_number_def lex_int_def)
  have c: "c = CHR ''-'' \<or> is_digit c" using lex_number_first n tok by blast
  have "trim_space tok = tok"
    using lex_number_last[OF n] c tok by (intro trim_space_id) auto
  moreover have "skip_space tok = tok"
    using c tok by (auto simp: skip_space_def json_space_def is_digit_def)
  moreover have "lex_scalar tok = Some (TNumber tok, [])"
    using n tok c by (auto simp: lex_scalar_def is_digit_def)
  ultimately show ?thesis
    using tok by (simp add: validateJSONNumber_def decode_json_number_def skip_space_def)
qed

lemma validateJSONNumber_None:
  assumes "validateJSONNumber tok = None" shows "valid_number tok"
proof -
  from assms obtain r c t where tok: "tok \<noteq> []" and c: "skip_space tok = c # t"
    and d: "decode_json_number tok = Inr (tok, r)"
    by (auto simp: validateJSONNumber_def decode_json_number_def
        split: if_splits sum.splits prod.splits list.splits)
  then consider "lex_scalar (c # t) = Some (TNumber tok, r)"
    | "lex_scalar (c # t) = Some (TString tok, r)" "valid_number tok"
    by (auto simp: decode_json_number_def split: option.splits prod.splits json_token.splits if_splits)
  then show ?thesis
  proof cases
    case 1
    then have n: "lex_number (c # t) = Some (tok, r)"
      by (auto simp: lex_scalar_def split: if_splits)
    have "length (c # t) \<le> length tok" using skip_space_length[of tok] c by simp
    with lex_number_app[OF n] have "r = []" "c # t = tok" by auto
    with n show ?thesis by (simp add: valid_number_def)
  qed
qed

lemma validateJSONNumber_iff: "validateJSONNumber tok = None \<longleftrightarrow> valid_number tok"
  using validateJSONNumber_valid validateJSONNumber_None by blast

end
