(* ===== verification/JSON_Scan.thy ===== *)
theory JSON_Scan
  imports JSON_Value
begin

text \<open>
  \<open>Decoder.Decode\<close> into a variable of type \<open>any\<close> with \<open>UseNumber\<close>, and \<open>json.Unmarshal\<close> into
  \<open>map[string]json.RawMessage\<close>: the scanner reads one whole value, at most 10000 levels deep, a
  repeated key of an object keeps its last value, and a raw message is the text of its value. A value
  of type \<open>any\<close> built this way is a \<open>JSONValue\<close> (nil, bool, string, json.Number, slice, map).

  The scanner carries fuel; \<open>scan_value_fuel\<close> shows that \<open>2 * length s + 1\<close> rounds are enough.
\<close>

datatype scan_err = ScanSyntax | ScanFuel

definition max_nesting_depth :: nat where
  "max_nesting_depth = 10000"

fun scan_value :: "nat \<Rightarrow> nat \<Rightarrow> string \<Rightarrow> scan_err + JSONValue \<times> string"
  and scan_members :: "nat \<Rightarrow> nat \<Rightarrow> string \<Rightarrow> (string \<times> JSONValue) list \<Rightarrow> scan_err + JSONValue \<times> string"
  and scan_elems :: "nat \<Rightarrow> nat \<Rightarrow> string \<Rightarrow> JSONValue list \<Rightarrow> scan_err + JSONValue \<times> string" where
  "scan_value 0 depth s = Inl ScanFuel"
| "scan_value (Suc n) depth s = (case skip_space s of [] \<Rightarrow> Inl ScanSyntax
     | c # t \<Rightarrow>
         if c = CHR ''{'' then
           if max_nesting_depth \<le> depth then Inl ScanSyntax
           else (case skip_space t of [] \<Rightarrow> Inl ScanSyntax
             | e # u \<Rightarrow> if e = CHR ''}'' then Inr (JObject [], u) else scan_members n (Suc depth) t [])
         else if c = CHR ''['' then
           if max_nesting_depth \<le> depth then Inl ScanSyntax
           else (case skip_space t of [] \<Rightarrow> Inl ScanSyntax
             | e # u \<Rightarrow> if e = CHR '']'' then Inr (JArray [], u) else scan_elems n (Suc depth) t [])
         else (case lex_scalar (c # t) of None \<Rightarrow> Inl ScanSyntax
           | Some (x, r) \<Rightarrow> (case x of
               TNull \<Rightarrow> Inr (JNull, r) | TBool b \<Rightarrow> Inr (JBool b, r)
             | TString y \<Rightarrow> Inr (JString y, r) | TNumber y \<Rightarrow> Inr (JNumber y, r)
             | TDelim _ \<Rightarrow> Inl ScanSyntax)))"
| "scan_members 0 depth s acc = Inl ScanFuel"
| "scan_members (Suc n) depth s acc = (case skip_space s of [] \<Rightarrow> Inl ScanSyntax
     | c # t \<Rightarrow>
         if c \<noteq> CHR 0x22 then Inl ScanSyntax
         else (case lex_str t of None \<Rightarrow> Inl ScanSyntax
           | Some (k, u) \<Rightarrow> (case skip_space u of [] \<Rightarrow> Inl ScanSyntax
               | e # w \<Rightarrow>
                   if e \<noteq> CHR '':'' then Inl ScanSyntax
                   else (case scan_value n depth w of Inl err \<Rightarrow> Inl err
                     | Inr (v, x) \<Rightarrow> (case skip_space x of [] \<Rightarrow> Inl ScanSyntax
                         | f # y \<Rightarrow>
                             if f = CHR '','' then scan_members n depth y (map_put k v acc)
                             else if f = CHR ''}'' then Inr (JObject (map_put k v acc), y)
                             else Inl ScanSyntax)))))"
| "scan_elems 0 depth s acc = Inl ScanFuel"
| "scan_elems (Suc n) depth s acc = (case scan_value n depth s of Inl err \<Rightarrow> Inl err
     | Inr (v, x) \<Rightarrow> (case skip_space x of [] \<Rightarrow> Inl ScanSyntax
         | f # y \<Rightarrow>
             if f = CHR '','' then scan_elems n depth y (acc @ [v])
             else if f = CHR '']'' then Inr (JArray (acc @ [v]), y)
             else Inl ScanSyntax))"

text \<open>\<open>Decoder.Decode(&instance)\<close>: EOF only when nothing but white space is left.\<close>

definition decode_any :: "string \<Rightarrow> tok_err + JSONValue \<times> string" where
  "decode_any s = (if skip_space s = [] then Inl EOF
     else case scan_value (2 * length s + 1) 0 s of Inl _ \<Rightarrow> Inl Syntax | Inr r \<Rightarrow> Inr r)"

text \<open>\<open>json.Unmarshal(data, &instance)\<close>: exactly one value with nothing but white space behind it.\<close>

definition unmarshal_any :: "string \<Rightarrow> JSONValue option" where
  "unmarshal_any s = (case scan_value (2 * length s + 1) 0 s of Inl _ \<Rightarrow> None
     | Inr (v, r) \<Rightarrow> if skip_space r = [] then Some v else None)"

text \<open>The members of a top-level object with the text of their values.\<close>

fun raw_members :: "nat \<Rightarrow> string \<Rightarrow> (string \<times> string) list \<Rightarrow> scan_err + (string \<times> string) list \<times> string" where
  "raw_members 0 s acc = Inl ScanFuel"
| "raw_members (Suc n) s acc = (case skip_space s of [] \<Rightarrow> Inl ScanSyntax
     | c # t \<Rightarrow>
         if c \<noteq> CHR 0x22 then Inl ScanSyntax
         else (case lex_str t of None \<Rightarrow> Inl ScanSyntax
           | Some (k, u) \<Rightarrow> (case skip_space u of [] \<Rightarrow> Inl ScanSyntax
               | e # w \<Rightarrow>
                   if e \<noteq> CHR '':'' then Inl ScanSyntax
                   else (case scan_value n 1 w of Inl err \<Rightarrow> Inl err
                     | Inr (v, x) \<Rightarrow> (case skip_space x of [] \<Rightarrow> Inl ScanSyntax
                         | f # y \<Rightarrow>
                             (let start = skip_space w;
                                  acc' = map_put k (take (length start - length x) start) acc
                              in if f = CHR '','' then raw_members n y acc'
                                 else if f = CHR ''}'' then Inr (acc', y)
                                 else Inl ScanSyntax))))))"

text \<open>
  \<open>json.Unmarshal(data, &m)\<close> with \<open>m\<close> a nil \<open>map[string]json.RawMessage\<close>. JSON null leaves the map
  nil, any other value that is not an object is a type error.
\<close>

datatype raw_map = RawError | RawNil | RawMap "(string \<times> string) list"

definition unmarshal_raw_map :: "string \<Rightarrow> raw_map" where
  "unmarshal_raw_map s = (case unmarshal_any s of None \<Rightarrow> RawError
     | Some JNull \<Rightarrow> RawNil
     | Some (JObject []) \<Rightarrow> RawMap []
     | Some (JObject _) \<Rightarrow>
         (case raw_members (2 * length s + 2) (tl (skip_space s)) [] of
            Inr (m, _) \<Rightarrow> RawMap m | Inl _ \<Rightarrow> RawError)
     | Some _ \<Rightarrow> RawError)"

section \<open>Progress and fuel\<close>

lemma skip_space_Cons: "skip_space s = c # t \<Longrightarrow> length t < length s"
  using skip_space_length[of s] by simp

lemmas scan_lengths = skip_space_Cons lex_str_length lex_scalar_length

lemma scan_shorter:
  "scan_value n depth s = Inr (v, t) \<Longrightarrow> length t < length s"
  "scan_members n depth s acc = Inr (v, t) \<Longrightarrow> length t < length s"
  "scan_elems n depth s eacc = Inr (v, t) \<Longrightarrow> length t < length s"
proof (induction n depth s and n depth s acc and n depth s eacc arbitrary: v t and v t and v t
    rule: scan_value_scan_members_scan_elems.induct)
  case (2 n depth s)
  then show ?case
    by (fastforce split: list.splits if_splits option.splits prod.splits json_token.splits
        dest: scan_lengths)
next
  case (4 n depth s acc)
  then show ?case
    by (fastforce split: list.splits if_splits option.splits prod.splits sum.splits
        dest: scan_lengths)
next
  case (6 n depth s acc)
  then show ?case
    by (fastforce split: list.splits if_splits prod.splits sum.splits dest: scan_lengths)
qed simp_all

lemma scan_fuel:
  "2 * length s + 1 \<le> n \<Longrightarrow> scan_value n depth s \<noteq> Inl ScanFuel"
  "2 * length s + 2 \<le> n \<Longrightarrow> scan_members n depth s acc \<noteq> Inl ScanFuel"
  "2 * length s + 2 \<le> n \<Longrightarrow> scan_elems n depth s eacc \<noteq> Inl ScanFuel"
proof (induction n depth s and n depth s acc and n depth s eacc
    rule: scan_value_scan_members_scan_elems.induct)
  case (2 n depth s)
  then show ?case
    by (fastforce split: list.splits if_splits option.splits prod.splits json_token.splits
        dest: skip_space_Cons)
next
  case (4 n depth s acc)
  then show ?case
    by (fastforce split: list.splits if_splits option.splits prod.splits sum.splits
        dest: scan_lengths scan_shorter)
next
  case (6 n depth s acc)
  then show ?case
    by (fastforce split: list.splits if_splits prod.splits sum.splits dest: scan_lengths scan_shorter)
qed simp_all

lemma raw_members_fuel: "2 * length s + 2 \<le> n \<Longrightarrow> raw_members n s acc \<noteq> Inl ScanFuel"
proof (induction n s acc rule: raw_members.induct)
  case (2 n s acc)
  show ?case
  proof
    assume f: "raw_members (Suc n) s acc = Inl ScanFuel"
    then obtain c t k u e w where l: "skip_space s = c # t" "c = CHR 0x22" "lex_str t = Some (k, u)"
      "skip_space u = e # w" "e = CHR '':''"
      by (auto split: list.splits if_splits option.splits)
    have w: "length w + 3 \<le> length s" using l(1,3,4) by (auto dest!: scan_lengths)
    then have "scan_value n 1 w \<noteq> Inl ScanFuel" using 2(2) by (intro scan_fuel(1)) simp
    with f l obtain v x g y where x: "scan_value n 1 w = Inr (v, x)" "skip_space x = g # y" "g = CHR '',''"
      by (auto simp: Let_def split: sum.splits prod.splits list.splits if_splits)
    have "length y + 3 \<le> length s"
      using w scan_shorter(1)[OF x(1)] skip_space_Cons[OF x(2)] by simp
    with 2(1)[OF l(1) _ l(3) _ l(4) _ x(1) _ x(2) refl refl x(3)] f l x 2(2)
    show False by (simp add: Let_def)
  qed
qed simp

lemma decode_any_shorter: "decode_any s = Inr (v, t) \<Longrightarrow> length t < length s"
  by (auto simp: decode_any_def simp del: scan_value.simps split: if_splits sum.splits dest: scan_shorter)

lemma raw_members_ok: "map_ok acc \<Longrightarrow> raw_members n s acc = Inr (m, t) \<Longrightarrow> map_ok m"
proof (induction n s acc rule: raw_members.induct)
  case (2 n s acc)
  then show ?case
    by (auto split: list.splits if_splits option.splits prod.splits sum.splits simp: Let_def map_ok_put)
qed simp

end
