(* ===== verification/LlmSchema.thy ===== *)
theory LlmSchema
  imports JSON_Scan "HOL-Library.Multiset" "HOL-Library.Product_Lexorder"
begin

text \<open>
  Package \<open>llmkit/llmschema\<close>: one compiled structured-output contract, its decoder, and the stable
  list of violations reported for a rejected response.

  The two schema libraries and the decoding of JSON into the caller's type \<open>T\<close> are not part of the
  repository. They are the fields of \<open>schema_lib\<close>, an argument of every operation that calls them:
  \<open>lib_For\<close> is \<open>jsonschema.For[T]\<close> with the repository's options, \<open>lib_marshal\<close> the schema type's
  \<open>json.Marshal\<close>, \<open>lib_AddResource\<close> and \<open>lib_Compile\<close> the compiler of the validator library,
  \<open>lib_Validate\<close> its validator, \<open>lib_unmarshal\<close> \<open>json.Unmarshal\<close> into \<open>T\<close> (the value it leaves in
  the variable and its error) and \<open>lib_zero\<close> the zero value of \<open>T\<close>.
\<close>

record Violation =
  viol_Path :: gostring
  viol_Keyword :: gostring
  viol_Message :: gostring

text \<open>The validator library's error tree: causes, instance location, keyword path.\<close>

datatype ValidationError =
  ValidationError (ve_Causes: "ValidationError list") (ve_InstanceLocation: "gostring list")
    (ve_KeywordPath: "gostring list")

datatype validate_error = VEValidation ValidationError | VEOther go_error

record ('s, 'c, 'o) schema_lib =
  lib_For :: "go_error + 's"
  lib_marshal :: "'s \<Rightarrow> go_error + gostring"
  lib_AddResource :: "gostring \<Rightarrow> JSONValue \<Rightarrow> go_error option"
  lib_Compile :: "gostring \<Rightarrow> JSONValue \<Rightarrow> go_error + 'c"
  lib_Validate :: "'c \<Rightarrow> JSONValue \<Rightarrow> validate_error option"
  lib_unmarshal :: "gostring \<Rightarrow> 'o \<times> go_error option"
  lib_zero :: 'o

definition ErrUncompiledContract :: go_error where
  "ErrUncompiledContract = ErrNew ''llmschema: contract is not compiled''"

text \<open>The error struct \<open>SchemaValidationError\<close>: its violations are its fields, three each.\<close>

definition SchemaValidationError :: "Violation list \<Rightarrow> go_error" where
  "SchemaValidationError vs = ErrTyped ''llmschema.SchemaValidationError''
     (concat (map (\<lambda>v. [viol_Path v, viol_Keyword v, viol_Message v]) vs)) []"

record 'c Contract =
  con_schema :: "char slice"
  con_compiled :: "'c option"

definition zero_contract :: "'c Contract" where
  "zero_contract = \<lparr>con_schema = None, con_compiled = None\<rparr>"

definition err_json_eof :: go_error where "err_json_eof = ErrNew ''EOF''"
definition err_json_syntax :: go_error where "err_json_syntax = ErrNew ''invalid JSON''"
definition err_multiple :: go_error where "err_multiple = ErrNew ''multiple JSON values''"

definition json_error_of :: "tok_err \<Rightarrow> go_error" where
  "json_error_of e = (case e of EOF \<Rightarrow> err_json_eof | Syntax \<Rightarrow> err_json_syntax)"

section \<open>Compiling\<close>

definition SchemaJSONFor :: "('s, 'c, 'o) schema_lib \<Rightarrow> go_error + gostring" where
  "SchemaJSONFor lib = (case lib_For lib of Inl e \<Rightarrow> Inl e
     | Inr schema \<Rightarrow> (case lib_marshal lib schema of
         Inl e \<Rightarrow> Inl (ErrWrap ''marshal structured output schema'' [e]) | Inr data \<Rightarrow> Inr data))"

definition schemaURL :: gostring where
  "schemaURL = ''https://llmkit.local/output-schema.json''"

definition compileSchema :: "('s, 'c, 'o) schema_lib \<Rightarrow> gostring \<Rightarrow> go_error + 'c" where
  "compileSchema lib schemaJSON = (case decode_any schemaJSON of
      Inl e \<Rightarrow> Inl (ErrWrap ''decode generated schema'' [json_error_of e])
    | Inr (schemaDocument, _) \<Rightarrow> (case lib_AddResource lib schemaURL schemaDocument of
        Some e \<Rightarrow> Inl (ErrWrap ''register generated schema'' [e])
      | None \<Rightarrow> (case lib_Compile lib schemaURL schemaDocument of
          Inl e \<Rightarrow> Inl (ErrWrap ''compile generated schema'' [e])
        | Inr compiled \<Rightarrow> Inr compiled)))"

text \<open>A byte slice is nil or present; \<open>append(json.RawMessage(nil), schema...)\<close> of no bytes is nil.\<close>

definition copy_raw :: "gostring \<Rightarrow> char slice" where
  "copy_raw s = (if s = [] then None else Some s)"

definition Compile :: "('s, 'c, 'o) schema_lib \<Rightarrow> 'c Contract \<times> go_error option" where
  "Compile lib = (case SchemaJSONFor lib of Inl e \<Rightarrow> (zero_contract, Some e)
     | Inr schema \<Rightarrow> (case compileSchema lib schema of Inl e \<Rightarrow> (zero_contract, Some e)
         | Inr compiled \<Rightarrow> (\<lparr>con_schema = copy_raw schema, con_compiled = Some compiled\<rparr>, None)))"

definition Compiled :: "'c Contract \<Rightarrow> bool" where
  "Compiled c \<longleftrightarrow> con_compiled c \<noteq> None"

definition SchemaJSON :: "'c Contract \<Rightarrow> char slice" where
  "SchemaJSON c = (if con_compiled c = None \<or> elems (con_schema c) = [] then None
     else copy_raw (elems (con_schema c)))"

section \<open>Decoding\<close>

definition decodeJSON :: "gostring \<Rightarrow> go_error + JSONValue" where
  "decodeJSON data = (case decode_any data of Inl e \<Rightarrow> Inl (json_error_of e)
     | Inr (instance, rest) \<Rightarrow> (case decode_any rest of
         Inr _ \<Rightarrow> Inl err_multiple
       | Inl e \<Rightarrow> if \<not> errors_is (json_error_of e) err_json_eof then Inl (json_error_of e)
                  else Inr instance))"

fun jsonPointer :: "gostring list \<Rightarrow> gostring" where
  "jsonPointer [] = []"
| "jsonPointer (tok # toks) =
     CHR ''/'' # replace_all (CHR ''/'') ''~1'' (replace_all (CHR ''~'') ''~0'' tok) @ jsonPointer toks"

definition leaf_violation :: "ValidationError \<Rightarrow> Violation" where
  "leaf_violation current =
     (let keyword = (if ve_KeywordPath current = [] then ''schema'' else last (ve_KeywordPath current))
      in \<lparr>viol_Path = jsonPointer (ve_InstanceLocation current), viol_Keyword = keyword,
          viol_Message = keyword @ '' constraint failed''\<rparr>)"

fun visit :: "ValidationError \<Rightarrow> Violation list" where
  "visit (ValidationError causes loc kw) =
     (if causes \<noteq> [] then concat (map visit causes) else [leaf_violation (ValidationError causes loc kw)])"

definition violation_key :: "Violation \<Rightarrow> gostring \<times> gostring \<times> gostring" where
  "violation_key v = (viol_Path v, viol_Keyword v, viol_Message v)"

text \<open>The comparison of \<open>sort.SliceStable\<close>; a stable sort by it is \<open>sort_key violation_key\<close>.\<close>

definition violation_less :: "Violation \<Rightarrow> Violation \<Rightarrow> bool" where
  "violation_less a b =
     (if viol_Path a \<noteq> viol_Path b then viol_Path a < viol_Path b
      else if viol_Keyword a \<noteq> viol_Keyword b then viol_Keyword a < viol_Keyword b
      else viol_Message a < viol_Message b)"

lemma violation_less_key: "violation_less a b \<longleftrightarrow> violation_key a < violation_key b"
  by (auto simp: violation_less_def violation_key_def less_prod_def')

definition collectViolations :: "ValidationError \<Rightarrow> Violation list" where
  "collectViolations root = sort_key violation_key (visit root)"

definition validateCompiled :: "('s, 'c, 'o) schema_lib \<Rightarrow> 'c \<Rightarrow> JSONValue \<Rightarrow> go_error option" where
  "validateCompiled lib compiled instance = (case lib_Validate lib compiled instance of None \<Rightarrow> None
     | Some (VEOther e) \<Rightarrow> Some (ErrWrap ''validate structured output'' [e])
     | Some (VEValidation v) \<Rightarrow> Some (SchemaValidationError (collectViolations v)))"

definition Contract_Decode ::
  "('s, 'c, 'o) schema_lib \<Rightarrow> 'c Contract \<Rightarrow> gostring \<Rightarrow> 'o \<times> go_error option" where
  "Contract_Decode lib c data = (case con_compiled c of
      None \<Rightarrow> (lib_zero lib, Some ErrUncompiledContract)
    | Some compiled \<Rightarrow> (case decodeJSON data of
        Inl e \<Rightarrow> (lib_zero lib, Some (ErrWrap ''decode structured output'' [e]))
      | Inr instance \<Rightarrow> (case validateCompiled lib compiled instance of
          Some e \<Rightarrow> (lib_zero lib, Some e)
        | None \<Rightarrow> (case lib_unmarshal lib data of
            (value, Some e) \<Rightarrow> (value, Some (ErrWrap ''decode structured output'' [e]))
          | (value, None) \<Rightarrow> (value, None)))))"

definition Decode :: "('s, 'c, 'o) schema_lib \<Rightarrow> gostring \<Rightarrow> 'o \<times> go_error option" where
  "Decode lib data = (case Compile lib of (c, Some e) \<Rightarrow> (lib_zero lib, Some e)
     | (c, None) \<Rightarrow> Contract_Decode lib c data)"

section \<open>Violations\<close>

lemma violation_key_inj: "violation_key a = violation_key b \<Longrightarrow> a = b"
  by (simp add: violation_key_def)

lemma visit_nonempty: "visit r \<noteq> []"
proof (induction r)
  case (ValidationError causes loc kw)
  then show ?case by (cases causes) auto
qed

lemma map_key_collect: "map violation_key (collectViolations r) = sort (map violation_key (visit r))"
  by (rule properties_for_sort[symmetric]) (simp_all add: collectViolations_def)

lemma collectViolations_cong:
  assumes "mset (visit r') = mset (visit r)" shows "collectViolations r' = collectViolations r"
proof -
  have "sort (map violation_key (visit r')) = sort (map violation_key (visit r))"
    by (rule properties_for_sort) (simp_all add: assms)
  then have "map violation_key (collectViolations r') = map violation_key (collectViolations r)"
    by (simp add: map_key_collect)
  then show ?thesis by (rule map_injective) (auto intro: injI violation_key_inj)
qed

text \<open>
  The reported violations are the leaves of the validator's error tree, in the order the source's
  comparison demands, and at least one is reported; two error trees give the same report exactly when
  they have the same leaves, in whatever order the validator lists causes.
\<close>

theorem collectViolations_stable:
  "mset (collectViolations r) = mset (visit r) \<and> collectViolations r \<noteq> [] \<and>
   sorted_wrt (\<lambda>a b. \<not> violation_less b a) (collectViolations r) \<and>
   (collectViolations r' = collectViolations r \<longleftrightarrow> mset (visit r') = mset (visit r))"
proof (intro conjI)
  show m: "mset (collectViolations r) = mset (visit r)" for r by (simp add: collectViolations_def)
  show "collectViolations r \<noteq> []" using visit_nonempty[of r] m[of r] by (metis mset_zero_iff)
  have "sorted (map violation_key (collectViolations r))" by (simp add: collectViolations_def)
  then show "sorted_wrt (\<lambda>a b. \<not> violation_less b a) (collectViolations r)"
    by (simp add: sorted_map violation_less_key not_less)
  show "collectViolations r' = collectViolations r \<longleftrightarrow> mset (visit r') = mset (visit r)"
    using collectViolations_cong m by metis
qed

section \<open>Instance locations\<close>

lemma escape_Cons:
  "replace_all (CHR ''/'') ''~1'' (replace_all (CHR ''~'') ''~0'' (c # s)) =
   (if c = CHR ''~'' then ''~0'' else if c = CHR ''/'' then ''~1'' else [c])
   @ replace_all (CHR ''/'') ''~1'' (replace_all (CHR ''~'') ''~0'' s)"
  by simp

definition esc :: "gostring \<Rightarrow> gostring" where
  "esc t = replace_all (CHR ''/'') ''~1'' (replace_all (CHR ''~'') ''~0'' t)"

lemma esc_simps [simp]:
  "esc [] = []"
  "esc (c # s) = (if c = CHR ''~'' then ''~0'' else if c = CHR ''/'' then ''~1'' else [c]) @ esc s"
  unfolding esc_def escape_Cons by simp_all

definition pointer_rest :: "gostring \<Rightarrow> bool" where
  "pointer_rest r \<longleftrightarrow> r = [] \<or> hd r = CHR ''/''"

lemma esc_prefix:
  "esc a @ r = esc b @ r' \<Longrightarrow> pointer_rest r \<Longrightarrow> pointer_rest r' \<Longrightarrow> a = b \<and> r = r'"
proof (induction a arbitrary: b)
  case Nil
  then show ?case by (cases b) (auto simp: pointer_rest_def split: if_splits)
next
  case (Cons c a)
  then obtain d b' where b: "b = d # b'"
    by (cases b) (auto simp: pointer_rest_def split: if_splits)
  with Cons.prems have "c = d \<and> esc a @ r = esc b' @ r'"
    by (auto split: if_splits)
  with Cons b show ?case by blast
qed

lemma jsonPointer_rest: "pointer_rest (jsonPointer ts)"
  by (cases ts) (simp_all add: pointer_rest_def)

text \<open>Different instance locations are reported under different paths.\<close>

theorem jsonPointer_inj: "inj jsonPointer"
proof (rule injI)
  fix ts us show "jsonPointer ts = jsonPointer us \<Longrightarrow> ts = us"
  proof (induction ts arbitrary: us)
    case Nil
    then show ?case by (cases us) auto
  next
    case (Cons t ts)
    then obtain u us' where us: "us = u # us'" by (cases us) auto
    with Cons.prems have "esc t @ jsonPointer ts = esc u @ jsonPointer us'"
      by (simp add: esc_def)
    with Cons us show ?case using esc_prefix jsonPointer_rest by blast
  qed
qed

section \<open>Decoding\<close>

lemma decode_any_eof: "decode_any s = Inl EOF \<longleftrightarrow> skip_space s = []"
  by (auto simp: decode_any_def split: sum.splits)

lemma decodeJSON_Inr:
  "decodeJSON data = Inr v \<longleftrightarrow> (\<exists>rest. decode_any data = Inr (v, rest) \<and> skip_space rest = [])"
  by (auto simp: decodeJSON_def json_error_of_def err_json_eof_def err_json_syntax_def decode_any_eof
      dest: decode_any_eof[THEN iffD2] split: sum.splits prod.splits tok_err.splits)

lemma validateCompiled_None: "validateCompiled lib c v = None \<longleftrightarrow> lib_Validate lib c v = None"
  by (auto simp: validateCompiled_def split: option.splits validate_error.splits)

text \<open>
  \<open>Contract.Decode\<close> succeeds exactly when the contract is compiled, the data is one JSON value
  with nothing but white space behind it, the compiled validator accepts that value, and the data
  unmarshals into the output type; the value returned is the unmarshalled one.
\<close>

theorem Contract_Decode_success_iff:
  "Contract_Decode lib c data = (v, None) \<longleftrightarrow>
   (\<exists>compiled inst rest. con_compiled c = Some compiled \<and> decode_any data = Inr (inst, rest) \<and>
      skip_space rest = [] \<and> lib_Validate lib compiled inst = None \<and> lib_unmarshal lib data = (v, None))"
proof (cases "con_compiled c")
  case None
  then show ?thesis by (simp add: Contract_Decode_def)
next
  case (Some compiled)
  show ?thesis
  proof (cases "decodeJSON data")
    case (Inl e)
    with decodeJSON_Inr[of data] Some show ?thesis by (auto simp: Contract_Decode_def)
  next
    case (Inr inst)
    then obtain rest where r: "decode_any data = Inr (inst, rest)" "skip_space rest = []"
      by (auto simp: decodeJSON_Inr)
    with Some Inr show ?thesis
      using validateCompiled_None[of lib compiled inst]
      by (auto simp: Contract_Decode_def split: option.splits prod.splits)
  qed
qed

text \<open>
  A contract is usable exactly when compiling it succeeded. A compiled contract owns the very
  schema text generated for its type (a request and its decoder cannot disagree); after a failed
  compilation the contract has no schema and decodes nothing.
\<close>

theorem Compile_all_or_nothing:
  "case Compile lib of
     (c, None) \<Rightarrow> Compiled c \<and> (\<exists>s. SchemaJSONFor lib = Inr s \<and> elems (SchemaJSON c) = s \<and>
        compileSchema lib s = Inr (the (con_compiled c)))
   | (c, Some e) \<Rightarrow> \<not> Compiled c \<and> SchemaJSON c = None \<and>
        (\<forall>data. Contract_Decode lib c data = (lib_zero lib, Some ErrUncompiledContract))"
  by (auto simp: Compile_def Compiled_def SchemaJSON_def Contract_Decode_def zero_contract_def copy_raw_def
      split: sum.splits option.splits prod.splits)

end
