(* ===== verification/Reflect.thy ===== *)
theory Reflect
  imports Prelude
begin

text \<open>
  Go values as package \<open>reflect\<close> shows them: the kind of a value, the size of its type, and the
  values it refers to. \<open>RChan\<close>, \<open>RFunc\<close> and \<open>RUnsafePointer\<close> keep only whether the value is nil;
  a nil pointer, interface, slice or map is \<open>None\<close>. A slice keeps its capacity and the size of its
  element type. Two functions of the repository walk values this way: the retained-byte charge of
  \<open>codexsdk/notification_retention.go\<close> and the mutable-reference check of
  \<open>llmcaller/codex/clone.go\<close>; the nil checks of \<open>llmstep\<close>, \<open>llmadapter\<close> and \<open>llmcaller/codex\<close>
  share \<open>is_nil\<close>.
\<close>

datatype reflect_value =
    RInvalid
  | RScalar nat
  | RString nat nat
  | RPointer nat "reflect_value option"
  | RInterface nat "reflect_value option"
  | RSlice nat "(nat \<times> nat \<times> reflect_value list) option"
  | RArray nat "reflect_value list"
  | RStruct nat "reflect_value list"
  | RMap nat "(reflect_value \<times> reflect_value) list option"
  | RChan nat bool
  | RFunc nat bool
  | RUnsafePointer nat bool

text \<open>
  \<open>isNilCaller\<close>, \<open>isNil\<close> and \<open>isNilValue\<close>: an interface value that is nil or holds a nil value of
  a nilable kind. \<open>None\<close> is the nil interface. \<open>reflect.ValueOf\<close> of a non-nil interface never has
  kind Interface, the case is kept as the source has it.
\<close>

definition isNilValue :: "reflect_value \<Rightarrow> bool" where
  "isNilValue v = (case v of
      RChan _ nil \<Rightarrow> nil
    | RFunc _ nil \<Rightarrow> nil
    | RInterface _ e \<Rightarrow> e = None
    | RMap _ e \<Rightarrow> e = None
    | RPointer _ e \<Rightarrow> e = None
    | RSlice _ e \<Rightarrow> e = None
    | _ \<Rightarrow> False)"

definition isNil :: "reflect_value option \<Rightarrow> bool" where
  "isNil v = (case v of None \<Rightarrow> True | Some r \<Rightarrow> isNilValue r)"

lemma isNil_pointer: "isNil (Some (RPointer n p)) \<longleftrightarrow> p = None"
  by (simp add: isNil_def isNilValue_def)

end
