(* ===== verification/LlmAdapter.thy ===== *)
theory LlmAdapter
  imports LlmSchema Reflect
begin

text \<open>
  Package \<open>llmkit/llmadapter\<close>: observations, execution evidence, and the typed call
  \<open>ValueWithContract\<close>.

  The provider behind a \<open>Caller\<close> and the context are the program's environment. Their state is a
  value of type \<open>'w\<close>: a call is a function from it to the response, the error and the next state,
  and \<open>ctx_Err\<close>, one look at \<open>ctx.Err()\<close>, is another, so that a cancellation may arrive between any
  two looks. An interface value is \<open>None\<close> when nil and otherwise has the reflected value its nil check
  looks at.
\<close>

section \<open>Observations and evidence\<close>

record 'a Observation =
  obs_value :: 'a
  obs_present :: bool

definition Observed :: "'a \<Rightarrow> 'a Observation" where
  "Observed v = \<lparr>obs_value = v, obs_present = True\<rparr>"

definition Unknown :: "'a \<Rightarrow> 'a Observation" where
  "Unknown zero = \<lparr>obs_value = zero, obs_present = False\<rparr>"

definition Present :: "'a Observation \<Rightarrow> bool" where
  "Present o' = obs_present o'"

definition Obs_Value :: "'a Observation \<Rightarrow> 'a \<times> bool" where
  "Obs_Value o' = (obs_value o', obs_present o')"

record TokenUsage =
  use_Input :: "int Observation"
  use_CachedInput :: "int Observation"
  use_Output :: "int Observation"
  use_ReasoningOutput :: "int Observation"

record ExecutionEvidence =
  ev_BackendName :: gostring
  ev_ProviderName :: "gostring Observation"
  ev_Model :: "gostring Observation"
  ev_Usage :: "TokenUsage option"

text \<open>The observers are methods on pointers; a nil receiver is \<open>None\<close> and stays nil.\<close>

definition ObserveCounts :: "int \<Rightarrow> int \<Rightarrow> int \<Rightarrow> int \<Rightarrow> TokenUsage option \<Rightarrow> TokenUsage option" where
  "ObserveCounts input cachedInput output reasoningOutput u = map_option (\<lambda>u.
     u\<lparr>use_Input := Observed input, use_CachedInput := Observed cachedInput,
       use_Output := Observed output, use_ReasoningOutput := Observed reasoningOutput\<rparr>) u"

definition ObserveProviderName :: "gostring \<Rightarrow> ExecutionEvidence option \<Rightarrow> ExecutionEvidence option" where
  "ObserveProviderName provider e = map_option (\<lambda>e. e\<lparr>ev_ProviderName := Observed provider\<rparr>) e"

definition ObserveModel :: "gostring \<Rightarrow> ExecutionEvidence option \<Rightarrow> ExecutionEvidence option" where
  "ObserveModel model e = map_option (\<lambda>e. e\<lparr>ev_Model := Observed model\<rparr>) e"

section \<open>Requests, responses, errors\<close>

record Request =
  req_Prompt :: gostring
  req_OutputSchema :: "char slice"

record BackendDetails =
  bd_value :: reflect_value
  bd_BackendName :: gostring

record Response =
  res_FinalResponse :: "gostring Observation"
  res_Execution :: ExecutionEvidence
  res_BackendDetails :: "BackendDetails option"

definition zero_evidence :: ExecutionEvidence where
  "zero_evidence = \<lparr>ev_BackendName = [], ev_ProviderName = Unknown [], ev_Model = Unknown [], ev_Usage = None\<rparr>"

definition zero_response :: Response where
  "zero_response = \<lparr>res_FinalResponse = Unknown [], res_Execution = zero_evidence, res_BackendDetails = None\<rparr>"

record 'w Caller =
  call_value :: reflect_value
  call_Call :: "Request \<Rightarrow> 'w \<Rightarrow> (Response \<times> go_error option) \<times> 'w"

definition caller_nil :: "'w Caller option \<Rightarrow> bool" where
  "caller_nil caller = isNil (map_option call_value caller)"

definition ErrNilCaller :: go_error where
  "ErrNilCaller = ErrNew ''llmadapter: caller is nil''"
definition ErrMissingResponse :: go_error where
  "ErrMissingResponse = ErrNew ''llmadapter: final response is missing''"
definition ErrEmptyResponse :: go_error where
  "ErrEmptyResponse = ErrNew ''llmadapter: final response is empty''"
definition ErrBackendIdentityMismatch :: go_error where
  "ErrBackendIdentityMismatch = ErrNew ''llmadapter: backend identity mismatch''"

datatype ValueStage = ValueStageRequest | ValueStageCall | ValueStageDecode

fun value_stage_name :: "ValueStage \<Rightarrow> gostring" where
  "value_stage_name ValueStageRequest = ''request''"
| "value_stage_name ValueStageCall = ''call''"
| "value_stage_name ValueStageDecode = ''decode''"

definition valueError :: "ValueStage \<Rightarrow> go_error \<Rightarrow> go_error" where
  "valueError stage err = ErrTyped ''llmadapter.ValueError'' [value_stage_name stage] [err]"

record 'o ValueResult =
  vr_Value :: 'o
  vr_Response :: Response

definition zero_result :: "('s, 'c, 'o) schema_lib \<Rightarrow> 'o ValueResult" where
  "zero_result lib = \<lparr>vr_Value = lib_zero lib, vr_Response = zero_response\<rparr>"

section \<open>The typed call\<close>

definition validateBackendIdentity :: "Response \<Rightarrow> go_error option" where
  "validateBackendIdentity response = (case res_BackendDetails response of None \<Rightarrow> None
     | Some details \<Rightarrow>
         if isNilValue (bd_value details)
         then Some (ErrWrap ''backend details is typed nil'' [ErrBackendIdentityMismatch])
         else let executionName = trim_space (ev_BackendName (res_Execution response));
                  detailsName = trim_space (bd_BackendName details)
              in if executionName = [] \<or> detailsName = []
                 then Some (ErrWrap ''empty backend identity'' [ErrBackendIdentityMismatch])
                 else if executionName \<noteq> detailsName
                 then Some (ErrWrap ''execution and details'' [ErrBackendIdentityMismatch])
                 else None)"

definition cloneRequest :: "Request \<Rightarrow> Request" where
  "cloneRequest request = request\<lparr>req_OutputSchema := copy_raw (elems (req_OutputSchema request))\<rparr>"

definition cloneResponse :: "Response \<Rightarrow> Response" where
  "cloneResponse response = (case ev_Usage (res_Execution response) of None \<Rightarrow> response
     | Some usage \<Rightarrow> response\<lparr>res_Execution := (res_Execution response)\<lparr>ev_Usage := Some usage\<rparr>\<rparr>)"

definition decodeFinalResponse ::
  "('s, 'c, 'o) schema_lib \<Rightarrow> gostring Observation \<Rightarrow> 'c Contract \<Rightarrow> 'o \<times> go_error option" where
  "decodeFinalResponse lib final contract = (case Obs_Value final of (raw, ok) \<Rightarrow>
     if \<not> ok then (lib_zero lib, Some ErrMissingResponse)
     else if trim_space raw = [] then (lib_zero lib, Some ErrEmptyResponse)
     else Contract_Decode lib contract raw)"

definition ValueWithContract ::
  "('s, 'c, 'o) schema_lib \<Rightarrow> ('w \<Rightarrow> go_error option \<times> 'w) \<Rightarrow> 'w Caller option \<Rightarrow> gostring \<Rightarrow> 'c Contract \<Rightarrow> 'w
    \<Rightarrow> ('o ValueResult \<times> go_error option) \<times> 'w" where
  "ValueWithContract lib ctx_Err caller prompt contract w =
     (if caller_nil caller then ((zero_result lib, Some (valueError ValueStageCall ErrNilCaller)), w)
      else if \<not> Compiled contract
      then ((zero_result lib, Some (valueError ValueStageRequest ErrUncompiledContract)), w)
      else
        let request = \<lparr>req_Prompt = prompt, req_OutputSchema = SchemaJSON contract\<rparr>;
            ((response, callErr), w1) = call_Call (the caller) (cloneRequest request) w;
            result = (zero_result lib)\<lparr>vr_Response := cloneResponse response\<rparr>;
            identityErr = validateBackendIdentity response
        in if callErr \<noteq> None \<or> identityErr \<noteq> None
           then ((result, Some (valueError ValueStageCall (the (errors_join [callErr, identityErr])))), w1)
           else (case ctx_Err w1 of
               (Some err, w2) \<Rightarrow> ((result, Some (valueError ValueStageCall err)), w2)
             | (None, w2) \<Rightarrow> (case decodeFinalResponse lib (res_FinalResponse response) contract of
                   (value, Some err) \<Rightarrow> ((result, Some (valueError ValueStageDecode err)), w2)
                 | (value, None) \<Rightarrow> ((result\<lparr>vr_Value := value\<rparr>, None), w2))))"

definition Value ::
  "('s, 'c, 'o) schema_lib \<Rightarrow> ('w \<Rightarrow> go_error option \<times> 'w) \<Rightarrow> 'w Caller option \<Rightarrow> gostring \<Rightarrow> 'w
    \<Rightarrow> ('o ValueResult \<times> go_error option) \<times> 'w" where
  "Value lib ctx_Err caller prompt w = (case Compile lib of
      (c, Some err) \<Rightarrow> ((zero_result lib, Some (valueError ValueStageRequest err)), w)
    | (c, None) \<Rightarrow> ValueWithContract lib ctx_Err caller prompt c w)"

section \<open>Properties\<close>

lemma cloneResponse_id [simp]: "cloneResponse r = r"
  by (simp add: cloneResponse_def split: option.splits)

lemma validateBackendIdentity_is:
  "validateBackendIdentity r = Some e \<Longrightarrow> errors_is e ErrBackendIdentityMismatch"
  by (auto simp: validateBackendIdentity_def Let_def split: option.splits if_splits)

text \<open>
  Backend details pass the identity check exactly when there are none, or they are not a typed
  nil and their name and the execution's backend name agree, trimmed, and are not blank.
\<close>

theorem validateBackendIdentity_iff:
  "validateBackendIdentity r = None \<longleftrightarrow>
   (case res_BackendDetails r of None \<Rightarrow> True
    | Some d \<Rightarrow> \<not> isNilValue (bd_value d) \<and> trim_space (bd_BackendName d) \<noteq> [] \<and>
        trim_space (ev_BackendName (res_Execution r)) = trim_space (bd_BackendName d))"
  by (auto simp: validateBackendIdentity_def Let_def split: option.splits)

lemma clone_SchemaJSON [simp]: "copy_raw (elems (SchemaJSON c)) = SchemaJSON c"
  by (simp add: SchemaJSON_def copy_raw_def)

text \<open>
  The typed call succeeds exactly when the caller and the contract are usable, the one request made
  carries the prompt and the contract's own schema, the caller returned no error, the backend identity
  holds, the context is still live, and the final response is present, not blank and decodes under the
  contract. The result then carries the decoded value and the caller's response.
\<close>

theorem ValueWithContract_success_iff:
  "ValueWithContract lib ctx_Err caller prompt c w = ((res, None), w') \<longleftrightarrow>
   \<not> caller_nil caller \<and> Compiled c \<and>
   (\<exists>response w1. call_Call (the caller) \<lparr>req_Prompt = prompt, req_OutputSchema = SchemaJSON c\<rparr> w = ((response, None), w1) \<and>
      validateBackendIdentity response = None \<and> ctx_Err w1 = (None, w') \<and>
      obs_present (res_FinalResponse response) \<and> trim_space (obs_value (res_FinalResponse response)) \<noteq> [] \<and>
      Contract_Decode lib c (obs_value (res_FinalResponse response)) = (vr_Value res, None) \<and>
      res = \<lparr>vr_Value = vr_Value res, vr_Response = response\<rparr>)"
  by (auto simp: ValueWithContract_def cloneRequest_def Let_def decodeFinalResponse_def Obs_Value_def
      zero_result_def split: prod.splits option.splits if_splits)

lemma valueError_is: "errors_is c t \<Longrightarrow> errors_is (valueError st c) t"
  by (simp add: valueError_def)

lemma join_two_is:
  "a \<noteq> None \<or> b \<noteq> None \<Longrightarrow> (case a of None \<Rightarrow> True | Some e \<Rightarrow> errors_is (the (errors_join [a, b])) e)"
  "validateBackendIdentity r \<noteq> None \<Longrightarrow>
    errors_is (the (errors_join [a, validateBackendIdentity r])) ErrBackendIdentityMismatch"
  using validateBackendIdentity_is
  by (auto simp: errors_join_def List.map_filter_def split: option.splits)

text \<open>
  Every failure of the typed call is a \<open>ValueError\<close> that names its stage and wraps its cause, the
  value stays the zero value, and the caller's response, when there was a call, is published with it.
  A nil caller and an uncompiled contract fail before any effect; the caller's own error and a backend
  identity mismatch are both found in the error, even when both occur.
\<close>

theorem ValueWithContract_failure:
  assumes "ValueWithContract lib ctx_Err caller prompt c w = ((res, Some e), w')"
  shows "vr_Value res = lib_zero lib \<and> (\<exists>st cause. e = valueError st cause) \<and>
    (if caller_nil caller then e = valueError ValueStageCall ErrNilCaller \<and> vr_Response res = zero_response \<and> w' = w
     else if \<not> Compiled c
     then e = valueError ValueStageRequest ErrUncompiledContract \<and> vr_Response res = zero_response \<and> w' = w
     else case call_Call (the caller) \<lparr>req_Prompt = prompt, req_OutputSchema = SchemaJSON c\<rparr> w of
       ((response, callErr), _) \<Rightarrow> vr_Response res = response \<and>
         (case callErr of None \<Rightarrow> True | Some ce \<Rightarrow> errors_is e ce) \<and>
         (validateBackendIdentity response = None \<or> errors_is e ErrBackendIdentityMismatch))"
proof (cases "caller_nil caller \<or> \<not> Compiled c")
  case True
  with assms show ?thesis
    by (auto simp: ValueWithContract_def zero_result_def split: if_splits)
next
  case False
  obtain response callErr w1 where call:
    "call_Call (the caller) \<lparr>req_Prompt = prompt, req_OutputSchema = SchemaJSON c\<rparr> w = ((response, callErr), w1)"
    by (metis prod.exhaust)
  have "(case callErr of None \<Rightarrow> True | Some ce \<Rightarrow> errors_is e ce) \<and>
      (validateBackendIdentity response = None \<or> errors_is e ErrBackendIdentityMismatch)"
  proof (cases "callErr = None \<and> validateBackendIdentity response = None")
    case ok: False
    with assms False call have
      "e = valueError ValueStageCall (the (errors_join [callErr, validateBackendIdentity response]))"
      by (auto simp: ValueWithContract_def cloneRequest_def Let_def split: if_splits)
    with ok join_two_is(1)[of callErr "validateBackendIdentity response"] join_two_is(2)[of response callErr]
    show ?thesis by (auto intro: valueError_is split: option.splits)
  qed simp
  with assms False call show ?thesis
    by (auto simp: ValueWithContract_def cloneRequest_def Let_def zero_result_def
        split: prod.splits option.splits if_splits)
qed

text \<open>A concrete environment: every schema is accepted, values are dynamic, the caller fails.\<close>

definition example_lib :: "(unit, unit, JSONValue) schema_lib" where
  "example_lib = \<lparr>lib_For = Inr (), lib_marshal = (\<lambda>_. Inr ''{}''), lib_AddResource = (\<lambda>_ _. None),
     lib_Compile = (\<lambda>_ _. Inr ()), lib_Validate = (\<lambda>_ _. None),
     lib_unmarshal = (\<lambda>s. case unmarshal_any s of None \<Rightarrow> (JInvalid, Some err_json_syntax) | Some v \<Rightarrow> (v, None)),
     lib_zero = JInvalid\<rparr>"

definition live_ctx :: "nat \<Rightarrow> go_error option \<times> nat" where
  "live_ctx w = (None, Suc w)"

definition example_caller :: "gostring \<Rightarrow> go_error option \<Rightarrow> nat Caller" where
  "example_caller text err = \<lparr>call_value = RStruct 8 [], call_Call = (\<lambda>r w.
     ((zero_response\<lparr>res_FinalResponse := Observed text\<rparr>, err), Suc w))\<rparr>"

lemma example_failure:
  "ValueWithContract example_lib live_ctx (Some (example_caller ''1'' (Some (ErrNew ''down'')))) ''p''
     (fst (Compile example_lib)) 0
   = ((\<lparr>vr_Value = JInvalid, vr_Response = zero_response\<lparr>res_FinalResponse := Observed ''1''\<rparr>\<rparr>,
       Some (valueError ValueStageCall (ErrJoin [ErrNew ''down'']))), 1)"
  by code_simp

theorem ValueWithContract_failure_witness:
  "errors_is (valueError ValueStageCall (ErrJoin [ErrNew ''down''])) (ErrNew ''down'')"
  using ValueWithContract_failure[OF example_failure]
  by (simp add: caller_nil_def example_caller_def isNil_def isNilValue_def Compiled_def
      Compile_def SchemaJSONFor_def example_lib_def compileSchema_def valueError_def)

end
