(* ===== verification/LlmStep.thy ===== *)
theory LlmStep
  imports LlmAdapter
begin

text \<open>
  Package \<open>llmkit/llmstep\<close>: \<open>Run\<close>, the bounded retry loop around the typed call. The application's
  callbacks (\<open>Render\<close>, \<open>Validate\<close>, \<open>ProjectRepair\<close>) act on the environment state \<open>'w\<close> like the
  caller does; a nil callback is \<open>None\<close>. Slices keep nil and empty apart, since the source publishes
  the difference.
\<close>

record Finding =
  fi_Summary :: gostring
  fi_Codes :: "gostring slice"
  fi_Locations :: "gostring slice"

record Judgment =
  jd_Accepted :: bool
  jd_Findings :: "Finding slice"

record Repair =
  rp_Iteration :: int
  rp_Summary :: gostring
  rp_Codes :: "gostring slice"
  rp_Locations :: "gostring slice"

record ('w, 'i, 'o) Step =
  st_Caller :: "'w Caller option"
  st_Render :: "('i \<Rightarrow> Repair slice \<Rightarrow> 'w \<Rightarrow> (gostring \<times> go_error option) \<times> 'w) option"
  st_Validate :: "('i \<Rightarrow> 'o \<Rightarrow> 'w \<Rightarrow> (Judgment \<times> go_error option) \<times> 'w) option"
  st_MaxIter :: int
  st_ProjectRepair :: "(Finding slice \<Rightarrow> 'w \<Rightarrow> (Repair slice \<times> go_error option) \<times> 'w) option"

datatype Stage = StageRender | StageRequest | StageCall | StageDecode | StageValidate | StageProjectRepair

text \<open>The stages of \<open>StepError\<close> are a string type in the source.\<close>

fun stage_name :: "Stage \<Rightarrow> gostring" where
  "stage_name StageRender = ''render''"
| "stage_name StageRequest = ''request''"
| "stage_name StageCall = ''call''"
| "stage_name StageDecode = ''decode''"
| "stage_name StageValidate = ''validate''"
| "stage_name StageProjectRepair = ''project_repair''"

record 'o Attempt =
  at_Iteration :: int
  at_Repair :: "Repair slice"
  at_Call :: "'o ValueResult"
  at_Judgment :: "Judgment option"
  at_NextRepair :: "Repair slice"
  at_Err :: "go_error option"

record 'o Result =
  rs_Output :: 'o
  rs_HasOutput :: bool
  rs_Attempts :: "'o Attempt slice"

definition ErrNilRender :: go_error where "ErrNilRender = ErrNew ''llmstep: render is nil''"
definition ErrNilValidate :: go_error where "ErrNilValidate = ErrNew ''llmstep: validate is nil''"
definition ErrInvalidMaxIter :: go_error where
  "ErrInvalidMaxIter = ErrNew ''llmstep: maxIter must be at least 1''"
definition ErrMissingRepairProjection :: go_error where
  "ErrMissingRepairProjection = ErrNew ''llmstep: repair projection is required for retry''"
definition ErrExhausted :: go_error where
  "ErrExhausted = ErrNew ''llmstep: no accepted judgment before maxIter''"

definition exhausted :: go_error where
  "exhausted = ErrWrap ''maxIter'' [ErrExhausted]"

text \<open>The error struct: its stage and iteration are fields, \<open>Err\<close> is what \<open>Unwrap\<close> returns.\<close>

definition StepError :: "Stage \<Rightarrow> int \<Rightarrow> go_error \<Rightarrow> go_error" where
  "StepError stage iteration err =
     ErrTyped ''llmstep.StepError'' [stage_name stage, itoa (nat iteration)] [err]"

section \<open>Copies\<close>

definition copyStrings :: "gostring slice \<Rightarrow> gostring slice" where
  "copyStrings values = (case values of None \<Rightarrow> None | Some vs \<Rightarrow> Some ([] @ vs))"

definition copyFindings :: "Finding slice \<Rightarrow> Finding slice" where
  "copyFindings findings = (case findings of None \<Rightarrow> None
     | Some fs \<Rightarrow> Some (map (\<lambda>item. \<lparr>fi_Summary = fi_Summary item,
         fi_Codes = copyStrings (fi_Codes item), fi_Locations = copyStrings (fi_Locations item)\<rparr>) fs))"

definition copyRepair :: "Repair slice \<Rightarrow> Repair slice" where
  "copyRepair repair = (case repair of None \<Rightarrow> None
     | Some rs \<Rightarrow> Some (map (\<lambda>item. \<lparr>rp_Iteration = rp_Iteration item, rp_Summary = rp_Summary item,
         rp_Codes = copyStrings (rp_Codes item), rp_Locations = copyStrings (rp_Locations item)\<rparr>) rs))"

definition copyJudgment :: "Judgment option \<Rightarrow> Judgment option" where
  "copyJudgment judgment = (case judgment of None \<Rightarrow> None
     | Some j \<Rightarrow> Some (j\<lparr>jd_Findings := copyFindings (jd_Findings j)\<rparr>))"

definition stampIterations :: "Repair slice \<Rightarrow> int \<Rightarrow> Repair slice" where
  "stampIterations repair iteration = map_option (map (\<lambda>r. r\<lparr>rp_Iteration := iteration\<rparr>)) repair"

definition snapshotResult :: "'o Result \<Rightarrow> 'o Result" where
  "snapshotResult result = result\<lparr>rs_Attempts := map_option (map (\<lambda>a.
       a\<lparr>at_Repair := copyRepair (at_Repair a), at_Judgment := copyJudgment (at_Judgment a),
         at_NextRepair := copyRepair (at_NextRepair a)\<rparr>)) (append_nil (rs_Attempts result))\<rparr>"

section \<open>The loop\<close>

definition valueStage :: "go_error \<Rightarrow> Stage" where
  "valueStage err = (case errors_as ''llmadapter.ValueError'' err of
      Some (ErrTyped _ (stage # _) _) \<Rightarrow>
        if stage = value_stage_name ValueStageRequest then StageRequest
        else if stage = value_stage_name ValueStageCall then StageCall
        else if stage = value_stage_name ValueStageDecode then StageDecode
        else StageCall
    | _ \<Rightarrow> StageCall)"

definition fail :: "'o Result \<Rightarrow> 'o Attempt \<Rightarrow> Stage \<Rightarrow> go_error \<Rightarrow> 'o Result \<times> go_error option" where
  "fail result attempt stage err =
     (let stepErr = StepError stage (at_Iteration attempt) err;
          attempt = attempt\<lparr>at_Err := Some stepErr\<rparr>
      in (snapshotResult (result\<lparr>rs_Attempts := append_slice (rs_Attempts result) attempt\<rparr>), Some stepErr))"

text \<open>
  One round of the loop: it returns from \<open>Run\<close> (\<open>Inl\<close>) or goes on with the result so far and the
  repair for the next attempt (\<open>Inr\<close>).
\<close>

definition run_attempt ::
  "('s, 'c, 'o) schema_lib \<Rightarrow> ('w \<Rightarrow> go_error option \<times> 'w) \<Rightarrow> ('w, 'i, 'o) Step \<Rightarrow> 'i \<Rightarrow> 'c Contract
    \<Rightarrow> int \<Rightarrow> Repair slice \<Rightarrow> 'o Result \<Rightarrow> 'w
    \<Rightarrow> (('o Result \<times> go_error option) + ('o Result \<times> Repair slice)) \<times> 'w" where
  "run_attempt lib ctx_Err step input contract iter repair result w =
     (let attempt = \<lparr>at_Iteration = iter, at_Repair = copyRepair repair, at_Call = zero_result lib,
            at_Judgment = None, at_NextRepair = None, at_Err = None\<rparr>
      in case ctx_Err w of
        (Some err, w) \<Rightarrow> (Inl (fail result attempt StageRender err), w)
      | (None, w) \<Rightarrow> (case the (st_Render step) input (copyRepair (at_Repair attempt)) w of
          ((prompt, Some err), w) \<Rightarrow> (Inl (fail result attempt StageRender err), w)
        | ((prompt, None), w) \<Rightarrow> (case ctx_Err w of
            (Some err, w) \<Rightarrow> (Inl (fail result attempt StageRender err), w)
          | (None, w) \<Rightarrow> (case ValueWithContract lib ctx_Err (st_Caller step) prompt contract w of
              ((call, Some err), w) \<Rightarrow>
                (Inl (fail result (attempt\<lparr>at_Call := call\<rparr>) (valueStage err) err), w)
            | ((call, None), w) \<Rightarrow> (case the (st_Validate step) input (vr_Value call) w of
                ((judgment, verr), w) \<Rightarrow>
                  let attempt = attempt\<lparr>at_Call := call, at_Judgment := copyJudgment (Some judgment)\<rparr>
                  in case verr of Some err \<Rightarrow> (Inl (fail result attempt StageValidate err), w)
                   | None \<Rightarrow> (case ctx_Err w of
                       (Some err, w) \<Rightarrow> (Inl (fail result attempt StageValidate err), w)
                     | (None, w) \<Rightarrow>
                         if jd_Accepted judgment then
                           (Inl (snapshotResult (result\<lparr>rs_Output := vr_Value call, rs_HasOutput := True,
                              rs_Attempts := append_slice (rs_Attempts result) attempt\<rparr>), None), w)
                         else if iter = st_MaxIter step then
                           (Inl (snapshotResult (result\<lparr>rs_Attempts := append_slice (rs_Attempts result) attempt\<rparr>),
                              Some exhausted), w)
                         else (case st_ProjectRepair step of
                             None \<Rightarrow> (Inl (fail result attempt StageProjectRepair ErrMissingRepairProjection), w)
                           | Some project \<Rightarrow> (case project (copyFindings (jd_Findings judgment)) w of
                               ((nextRepair, Some err), w) \<Rightarrow>
                                 (Inl (fail result attempt StageProjectRepair err), w)
                             | ((nextRepair, None), w) \<Rightarrow>
                                 let nextRepair = stampIterations (copyRepair nextRepair) iter;
                                     attempt = attempt\<lparr>at_NextRepair := copyRepair nextRepair\<rparr>
                                 in (Inr (result\<lparr>rs_Attempts := append_slice (rs_Attempts result) attempt\<rparr>,
                                       copyRepair nextRepair), w)))))))))"

text \<open>
  \<open>iter++\<close> never wraps around: the round with \<open>iter = MaxIter\<close> always returns.
\<close>

function run_loop ::
  "('s, 'c, 'o) schema_lib \<Rightarrow> ('w \<Rightarrow> go_error option \<times> 'w) \<Rightarrow> ('w, 'i, 'o) Step \<Rightarrow> 'i \<Rightarrow> 'c Contract
    \<Rightarrow> int \<Rightarrow> Repair slice \<Rightarrow> 'o Result \<Rightarrow> 'w \<Rightarrow> ('o Result \<times> go_error option) \<times> 'w" where
  "run_loop lib ctx_Err step input contract iter repair result w =
     (if st_MaxIter step < iter then ((snapshotResult result, Some exhausted), w)
      else case run_attempt lib ctx_Err step input contract iter repair result w of
        (Inl r, w') \<Rightarrow> (r, w')
      | (Inr (result', repair'), w') \<Rightarrow>
          run_loop lib ctx_Err step input contract (iter + 1) repair' result' w')"
  by pat_completeness auto
termination
  by (relation "measure (\<lambda>(_, _, step, _, _, iter, _, _, _). nat (st_MaxIter step + 1 - iter))") auto

declare run_loop.simps [simp del]

definition empty_result :: "('s, 'c, 'o) schema_lib \<Rightarrow> 'o Result" where
  "empty_result lib = \<lparr>rs_Output = lib_zero lib, rs_HasOutput = False, rs_Attempts = None\<rparr>"

definition Run ::
  "('s, 'c, 'o) schema_lib \<Rightarrow> ('w \<Rightarrow> go_error option \<times> 'w) \<Rightarrow> ('w, 'i, 'o) Step \<Rightarrow> 'i \<Rightarrow> 'w
    \<Rightarrow> ('o Result \<times> go_error option) \<times> 'w" where
  "Run lib ctx_Err step input w =
     (if st_MaxIter step < 1 then ((empty_result lib, Some ErrInvalidMaxIter), w)
      else if caller_nil (st_Caller step) then ((empty_result lib, Some ErrNilCaller), w)
      else if st_Render step = None then ((empty_result lib, Some ErrNilRender), w)
      else if st_Validate step = None then ((empty_result lib, Some ErrNilValidate), w)
      else case Compile lib of
          (contract, Some err) \<Rightarrow> ((empty_result lib, Some err), w)
        | (contract, None) \<Rightarrow> run_loop lib ctx_Err step input contract 1 None (empty_result lib) w)"

section \<open>Copies are equal\<close>

lemma copyStrings_id [simp]: "copyStrings v = v"
  by (simp add: copyStrings_def split: option.splits)

lemma copyFindings_id [simp]: "copyFindings v = v"
  by (cases v) (auto simp: copyFindings_def intro!: map_idI)

lemma copyRepair_id [simp]: "copyRepair v = v"
  by (cases v) (auto simp: copyRepair_def intro!: map_idI)

lemma stampIterations_all: "r \<in> set (elems (stampIterations v i)) \<Longrightarrow> rp_Iteration r = i"
  by (cases v) (auto simp: stampIterations_def)

lemma copyJudgment_id [simp]: "copyJudgment v = v"
  by (simp add: copyJudgment_def split: option.splits)

lemma snapshotResult_simps [simp]:
  "rs_Output (snapshotResult r) = rs_Output r" "rs_HasOutput (snapshotResult r) = rs_HasOutput r"
  "elems (rs_Attempts (snapshotResult r)) = elems (rs_Attempts r)"
  by (auto simp: snapshotResult_def append_nil_def)

lemma fail_simps:
  "rs_Output (fst (fail r a st e)) = rs_Output r" "rs_HasOutput (fst (fail r a st e)) = rs_HasOutput r"
  "elems (rs_Attempts (fst (fail r a st e))) =
    elems (rs_Attempts r) @ [a\<lparr>at_Err := Some (StepError st (at_Iteration a) e)\<rparr>]"
  "snd (fail r a st e) = Some (StepError st (at_Iteration a) e)"
  by (simp_all add: fail_def Let_def)

section \<open>One round\<close>

text \<open>An attempt that was judged and rejected, with the repair its successor starts from.\<close>

definition rejected :: "'o Attempt \<Rightarrow> bool" where
  "rejected a \<longleftrightarrow> at_Err a = None \<and> (\<exists>j. at_Judgment a = Some j \<and> \<not> jd_Accepted j) \<and>
     (\<forall>r \<in> set (elems (at_NextRepair a)). rp_Iteration r = at_Iteration a)"

text \<open>How a round that returns ends: accepted, exhausted, or failed.\<close>

definition attempt_ends ::
  "('w, 'i, 'o) Step \<Rightarrow> 'i \<Rightarrow> 'o Attempt \<Rightarrow> 'o Result \<Rightarrow> 'o Result \<Rightarrow> go_error option \<Rightarrow> bool" where
  "attempt_ends step input a old res err \<longleftrightarrow> at_NextRepair a = None \<and>
     (if rs_HasOutput res
      then err = None \<and> at_Err a = None \<and> rs_Output res = vr_Value (at_Call a) \<and>
        (\<exists>j w w'. at_Judgment a = Some j \<and> jd_Accepted j \<and>
           the (st_Validate step) input (rs_Output res) w = ((j, None), w'))
      else rs_Output res = rs_Output old \<and>
        (err = Some exhausted \<and> at_Iteration a = st_MaxIter step \<and> rejected a \<or>
         (\<exists>st e. err = Some (StepError st (at_Iteration a) e) \<and> at_Err a = err)))"

lemma attempt_ends_old:
  "rs_Output old = rs_Output old' \<Longrightarrow> attempt_ends step input a old res err = attempt_ends step input a old' res err"
  by (simp add: attempt_ends_def)

lemma run_attempt_returns:
  assumes "run_attempt lib ctx_Err step input contract iter repair result w = (Inl (res, err), w')"
    "\<not> rs_HasOutput result"
  shows "\<exists>a. elems (rs_Attempts res) = elems (rs_Attempts result) @ [a] \<and> at_Iteration a = iter \<and>
    at_Repair a = repair \<and> attempt_ends step input a result res err"
  using assms
  by (auto simp: run_attempt_def Let_def attempt_ends_def rejected_def fail_def
      split: prod.splits option.splits if_splits; blast)

lemma run_attempt_continues:
  assumes "run_attempt lib ctx_Err step input contract iter repair result w = (Inr (res, repair'), w')"
  shows "\<exists>a. elems (rs_Attempts res) = elems (rs_Attempts result) @ [a] \<and> at_Iteration a = iter \<and>
    at_Repair a = repair \<and> rejected a \<and> at_NextRepair a = repair' \<and> iter \<noteq> st_MaxIter step \<and>
    rs_Output res = rs_Output result \<and> rs_HasOutput res = rs_HasOutput result"
  using assms
  by (auto simp: run_attempt_def Let_def rejected_def fail_def stampIterations_all
      split: prod.splits option.splits if_splits)

section \<open>The whole loop\<close>

text \<open>Attempts are numbered from 1, and each starts from the repair its predecessor produced.\<close>

definition next_repair :: "'o Attempt list \<Rightarrow> Repair slice" where
  "next_repair as = (if as = [] then None else at_NextRepair (last as))"

definition history :: "'o Attempt list \<Rightarrow> bool" where
  "history as \<longleftrightarrow> (\<forall>i < length as. at_Iteration (as ! i) = int i + 1 \<and> at_Repair (as ! i) = next_repair (take i as))"

lemma history_Nil [simp]: "history []"
  by (simp add: history_def)

lemma history_snoc:
  "history (as @ [a]) \<longleftrightarrow> history as \<and> at_Iteration a = int (length as) + 1 \<and> at_Repair a = next_repair as"
  by (auto simp: history_def nth_append less_Suc_eq)

text \<open>The shape of every result of the loop.\<close>

definition run_shape ::
  "('s, 'c, 'o) schema_lib \<Rightarrow> ('w, 'i, 'o) Step \<Rightarrow> 'i \<Rightarrow> 'o Result \<Rightarrow> go_error option \<Rightarrow> bool" where
  "run_shape lib step input res err \<longleftrightarrow> (\<exists>as a. elems (rs_Attempts res) = as @ [a] \<and> history (as @ [a]) \<and>
     (\<forall>x \<in> set as. rejected x) \<and> int (length as) < st_MaxIter step \<and>
     attempt_ends step input a (empty_result lib) res err)"

lemma run_loop_shape:
  assumes "run_loop lib ctx_Err step input contract iter repair result w = ((res, err), w')"
    "rs_HasOutput result = False" "rs_Output result = lib_zero lib"
    "history (elems (rs_Attempts result))" "repair = next_repair (elems (rs_Attempts result))"
    "\<forall>a \<in> set (elems (rs_Attempts result)). rejected a"
    "iter = int (length (elems (rs_Attempts result))) + 1" "iter \<le> st_MaxIter step"
  shows "run_shape lib step input res err"
  using assms
proof (induction lib ctx_Err step input contract iter repair result w rule: run_loop.induct)
  case (1 lib ctx_Err step input contract iter repair result w)
  let ?as = "elems (rs_Attempts result)"
  show ?case
  proof (cases "run_attempt lib ctx_Err step input contract iter repair result w")
    case (Pair r w1)
    show ?thesis
    proof (cases r)
      case (Inl re)
      then have "run_attempt lib ctx_Err step input contract iter repair result w = (Inl (res, err), w1)"
        using "1.prems"(1,8) Pair by (simp add: run_loop.simps[of _ _ _ _ _ iter])
      from run_attempt_returns[OF this] "1.prems" obtain a where
        "elems (rs_Attempts res) = ?as @ [a]" "at_Iteration a = iter" "at_Repair a = repair"
        "attempt_ends step input a result res err" by auto
      moreover from this have "attempt_ends step input a (empty_result lib) res err"
        using "1.prems"(3) by (elim attempt_ends_old[THEN iffD1, rotated]) (simp add: empty_result_def)
      ultimately show ?thesis
        using "1.prems" by (auto simp: run_shape_def history_snoc intro!: exI[of _ ?as])
    next
      case (Inr x)
      obtain result' repair' where x: "x = (result', repair')" by force
      with Inr Pair have at: "run_attempt lib ctx_Err step input contract iter repair result w = (Inr (result', repair'), w1)"
        by simp
      from run_attempt_continues[OF at] obtain a where a:
        "elems (rs_Attempts result') = ?as @ [a]" "at_Iteration a = iter" "at_Repair a = repair" "rejected a"
        "at_NextRepair a = repair'" "iter \<noteq> st_MaxIter step"
        "rs_Output result' = rs_Output result" "rs_HasOutput result' = rs_HasOutput result" by auto
      have loop: "run_loop lib ctx_Err step input contract (iter + 1) repair' result' w1 = ((res, err), w')"
        using "1.prems"(1,8) at by (simp add: run_loop.simps[of _ _ _ _ _ iter])
      show ?thesis
        using "1.prems" a
        by (intro "1.IH"[OF _ Pair[symmetric] Inr x[symmetric] loop]) (auto simp: history_snoc next_repair_def)
    qed
  qed
qed

lemma Run_shape:
  assumes "Run lib ctx_Err step input w = ((res, err), w')"
  shows "(elems (rs_Attempts res) = [] \<and> res = empty_result lib \<and> err \<noteq> None \<and> w' = w) \<or> run_shape lib step input res err"
  using assms
  by (auto simp: Run_def empty_result_def split: if_splits prod.splits option.splits
      intro!: run_loop_shape[where result = "empty_result lib", unfolded empty_result_def])
    (auto simp: next_repair_def)

section \<open>What \<open>Run\<close> promises\<close>

text \<open>
  C40: the attempt history of a run. There are at most \<open>MaxIter\<close> attempts, numbered from 1; every
  attempt but the last was judged, rejected and carried no error; each attempt was rendered from
  exactly the repair its predecessor published, the first from none, and every published repair is
  stamped with the iteration that produced it.
\<close>

theorem Run_history:
  assumes "Run lib ctx_Err step input w = ((res, err), w')"
  shows "int (length (elems (rs_Attempts res))) \<le> max 0 (st_MaxIter step) \<and> history (elems (rs_Attempts res)) \<and>
    (\<forall>a \<in> set (butlast (elems (rs_Attempts res))). rejected a)"
  using Run_shape[OF assms] by (auto simp: run_shape_def)

text \<open>
  C39: a run reports success exactly when it has an output, and an output is always the value of the
  last attempt's call, accepted by the application's \<open>Validate\<close> on this input without an error. A
  run without an output leaves the zero value.
\<close>

theorem Run_output_accepted:
  assumes "Run lib ctx_Err step input w = ((res, err), w')"
  shows "(rs_HasOutput res \<longleftrightarrow> err = None) \<and>
    (if rs_HasOutput res
     then elems (rs_Attempts res) \<noteq> [] \<and> rs_Output res = vr_Value (at_Call (last (elems (rs_Attempts res)))) \<and>
       (\<exists>j v v'. at_Judgment (last (elems (rs_Attempts res))) = Some j \<and> jd_Accepted j \<and>
          the (st_Validate step) input (rs_Output res) v = ((j, None), v'))
     else rs_Output res = lib_zero lib)"
  using Run_shape[OF assms]
  by (auto simp: run_shape_def attempt_ends_def empty_result_def split: if_splits)

text \<open>
  How a run fails. Either nothing happened at all (a configuration or compilation error: no
  attempt, and the environment untouched), or all \<open>MaxIter\<close> attempts were judged and rejected
  (\<open>ErrExhausted\<close>), or the last attempt failed and its \<open>StepError\<close>, which names that attempt's
  iteration, is both the attempt's error and the run's.
\<close>

theorem Run_failure:
  assumes "Run lib ctx_Err step input w = ((res, Some e), w')"
  shows "(let as = elems (rs_Attempts res) in
     (as = [] \<and> res = empty_result lib \<and> w' = w) \<or>
     (int (length as) = st_MaxIter step \<and> (\<forall>a \<in> set as. rejected a) \<and> errors_is e ErrExhausted) \<or>
     (as \<noteq> [] \<and> at_Err (last as) = Some e \<and> (\<exists>st cause. e = StepError st (int (length as)) cause)))"
proof -
  from Run_shape[OF assms] consider
    "elems (rs_Attempts res) = []" "res = empty_result lib" "w' = w" | "run_shape lib step input res (Some e)"
    by auto
  then show ?thesis
  proof cases
    case 2
    then obtain as a where a: "elems (rs_Attempts res) = as @ [a]" "history (as @ [a])"
      "\<forall>x \<in> set as. rejected x" "attempt_ends step input a (empty_result lib) res (Some e)"
      by (auto simp: run_shape_def)
    from a(2) have "at_Iteration a = int (length as) + 1" by (simp add: history_snoc)
    with a show ?thesis
      by (auto simp: Let_def attempt_ends_def exhausted_def add.commute split: if_splits)
  qed simp
qed

section \<open>A run\<close>

text \<open>A step whose validator rejects the first two propositions and accepts the third.\<close>

definition example_step :: "(nat, unit, JSONValue) Step" where
  "example_step = \<lparr>st_Caller = Some (example_caller ''7'' None),
     st_Render = Some (\<lambda>_ _ w. ((''prompt'', None), w)),
     st_Validate = Some (\<lambda>_ _ w. ((\<lparr>jd_Accepted = 10 \<le> w, jd_Findings = None\<rparr>, None), w)),
     st_MaxIter = 5,
     st_ProjectRepair = Some (\<lambda>_ w. ((Some [\<lparr>rp_Iteration = 0, rp_Summary = ''again'', rp_Codes = None,
        rp_Locations = None\<rparr>], None), w))\<rparr>"

definition example_run :: "(JSONValue Result \<times> go_error option) \<times> nat" where
  "example_run = Run example_lib live_ctx example_step () 0"

lemma example_run_shape:
  "length (elems (rs_Attempts (fst (fst example_run)))) = 3" "snd (fst example_run) = None"
  by code_simp+

lemma example_run_eq:
  "Run example_lib live_ctx example_step () 0 = ((fst (fst example_run), None), snd example_run)"
  using example_run_shape(2) by (simp add: example_run_def prod_eq_iff)

theorem Run_history_witness:
  "length (elems (rs_Attempts (fst (fst example_run)))) = 3 \<and> history (elems (rs_Attempts (fst (fst example_run))))"
  using Run_history[OF example_run_eq] example_run_shape by simp

theorem Run_output_accepted_witness:
  "rs_HasOutput (fst (fst example_run)) \<and>
   rs_Output (fst (fst example_run)) = vr_Value (at_Call (last (elems (rs_Attempts (fst (fst example_run))))))"
  using Run_output_accepted[OF example_run_eq] by simp

text \<open>The same step bounded by two attempts is exhausted.\<close>

definition short_run :: "(JSONValue Result \<times> go_error option) \<times> nat" where
  "short_run = Run example_lib live_ctx (example_step\<lparr>st_MaxIter := 2\<rparr>) () 0"

lemma short_run_shape:
  "length (elems (rs_Attempts (fst (fst short_run)))) = 2" "snd (fst short_run) = Some exhausted"
  "at_Err (last (elems (rs_Attempts (fst (fst short_run))))) = None"
  by code_simp+

lemma short_run_eq:
  "Run example_lib live_ctx (example_step\<lparr>st_MaxIter := 2\<rparr>) () 0
   = ((fst (fst short_run), Some exhausted), snd short_run)"
  using short_run_shape(2) by (simp add: short_run_def prod_eq_iff)

theorem Run_failure_witness:
  "errors_is exhausted ErrExhausted \<and> list_all rejected (elems (rs_Attempts (fst (fst short_run))))"
  using Run_failure[OF short_run_eq] short_run_shape by (auto simp: Let_def list_all_iff)

end
