(* ===== verification/JSON_Roundtrip.thy ===== *)
theory JSON_Roundtrip
  imports JSON_Value
begin

text \<open>
  What the parser and the writer of \<open>JSONValue\<close> promise each other: the parser always has enough
  fuel and consumes input, what it accepts is well formed (distinct keys at every depth, valid
  number tokens, no invalid value), and what the writer prints of a well-formed value is parsed back
  to the same value.
\<close>

section \<open>Fuel\<close>

lemma validateJSONNumber_no_fuel [simp]: "validateJSONNumber x \<noteq> Some OutOfFuel"
  by (auto simp: validateJSONNumber_def split: sum.splits)

lemma JSONNumber_no_fuel [simp]: "JSONNumber x \<noteq> Inl OutOfFuel"
  using validateJSONNumber_no_fuel by (auto simp: JSONNumber_def split: option.splits)

lemma parse_shorter:
  "parseJSONValue n d p = Inr (v, d') \<Longrightarrow> length (dec_input d') < length (dec_input d)"
  "parseJSONObject n d p seen vals = Inr (v, d') \<Longrightarrow> length (dec_input d') < length (dec_input d)"
  "parseJSONArray n d p avals = Inr (v, d') \<Longrightarrow> length (dec_input d') < length (dec_input d)"
proof (induction n d p and n d p seen vals and n d p avals arbitrary: v d' and v d' and v d'
    rule: parseJSONValue_parseJSONObject_parseJSONArray.induct)
  case (2 n d path)
  show ?case
    using 2 by (fastforce split: sum.splits prod.splits json_token.splits if_splits dest: token_length)
next
  case (4 n d path seen vals)
  show ?case
    using 4 by (fastforce split: sum.splits prod.splits json_token.splits if_splits dest: token_length)
next
  case (6 n d path vals)
  show ?case
    using 6 by (fastforce split: sum.splits prod.splits json_token.splits if_splits dest: token_length)
qed simp_all

lemma parse_fuel:
  "2 * length (dec_input d) + 1 \<le> n \<Longrightarrow> parseJSONValue n d p \<noteq> Inl OutOfFuel"
  "2 * length (dec_input d) + 2 \<le> n \<Longrightarrow> parseJSONObject n d p seen vals \<noteq> Inl OutOfFuel"
  "2 * length (dec_input d) + 2 \<le> n \<Longrightarrow> parseJSONArray n d p avals \<noteq> Inl OutOfFuel"
proof (induction n d p and n d p seen vals and n d p avals
    rule: parseJSONValue_parseJSONObject_parseJSONArray.induct)
  case (2 n d path)
  show ?case
    using 2 by (fastforce split: sum.splits prod.splits json_token.splits if_splits dest: token_length)
next
  case (4 n d path seen vals)
  show ?case
    using 4 by (fastforce split: sum.splits prod.splits json_token.splits if_splits
        dest: token_length parse_shorter)
next
  case (6 n d path vals)
  show ?case
    using 6 by (fastforce split: sum.splits prod.splits json_token.splits if_splits
        dest: token_length parse_shorter)
qed simp_all

lemma ParseJSONValue_no_fuel: "ParseJSONValue data \<noteq> Inl OutOfFuel"
  using parse_fuel(1)[of "new_decoder data" "2 * length data + 1" "[]"]
  by (auto simp: ParseJSONValue_def new_decoder_def split: sum.splits prod.splits tok_err.splits)

section \<open>Well-formed values\<close>

fun jv_wf :: "JSONValue \<Rightarrow> bool" where
  "jv_wf JInvalid = False"
| "jv_wf JNull = True"
| "jv_wf (JBool b) = True"
| "jv_wf (JString s) = True"
| "jv_wf (JNumber x) = valid_number x"
| "jv_wf (JArray vs) = list_all jv_wf vs"
| "jv_wf (JObject m) = (map_ok m \<and> list_all (\<lambda>(k, v). jv_wf v) m)"

text \<open>Values whose strings and keys are valid UTF-8.\<close>

fun jv_utf8 :: "JSONValue \<Rightarrow> bool" where
  "jv_utf8 (JString s) = utf8_valid s"
| "jv_utf8 (JArray vs) = list_all jv_utf8 vs"
| "jv_utf8 (JObject m) = list_all (\<lambda>(k, v). utf8_valid k \<and> jv_utf8 v) m"
| "jv_utf8 v = True"

lemma JSONNumber_wf: "JSONNumber x = Inr v \<Longrightarrow> jv_wf v"
  by (auto simp: JSONNumber_def validateJSONNumber_iff split: option.splits)

lemma list_all_put: "list_all P m \<Longrightarrow> P (k, v) \<Longrightarrow> list_all P (map_put k v m)"
  by (induction m) auto

lemma parse_wf:
  "parseJSONValue n d p = Inr (v, d') \<Longrightarrow> jv_wf v"
  "parseJSONObject n d p seen vals = Inr (v, d') \<Longrightarrow> jv_wf (JObject vals) \<Longrightarrow> jv_wf v"
  "parseJSONArray n d p avals = Inr (v, d') \<Longrightarrow> jv_wf (JArray avals) \<Longrightarrow> jv_wf v"
proof (induction n d p and n d p seen vals and n d p avals arbitrary: v d' and v d' and v d'
    rule: parseJSONValue_parseJSONObject_parseJSONArray.induct)
  case (2 n d path)
  then show ?case
    by (auto split: sum.splits prod.splits json_token.splits if_splits dest: JSONNumber_wf)
next
  case (4 n d path seen vals)
  then show ?case
    by (fastforce split: sum.splits prod.splits json_token.splits if_splits
        intro!: map_ok_put list_all_put)
next
  case (6 n d path vals)
  then show ?case
    by (auto split: sum.splits prod.splits json_token.splits if_splits)
qed simp_all

section \<open>The printed form\<close>

text \<open>The text of a well-formed value, with no paths and no errors.\<close>

fun json_text :: "JSONValue \<Rightarrow> string" where
  "json_text JInvalid = []"
| "json_text JNull = ''null''"
| "json_text (JBool b) = (if b then ''true'' else ''false'')"
| "json_text (JString s) = marshal_string s"
| "json_text (JNumber x) = x"
| "json_text (JArray vs) = ''['' @ join_comma (map json_text vs) @ '']''"
| "json_text (JObject m) =
     ''{'' @ join_comma (map (\<lambda>(k, v). marshal_string k @ '':'' @ json_text v) m) @ ''}''"

lemma seq_res_Inr: "seq_res (map Inr xs) = Inr xs"
  by (induction xs) auto

lemma sort_key_map_ok: "map_ok m \<Longrightarrow> sort_key fst (map (\<lambda>(k, v). (k, f v)) m) = map (\<lambda>(k, v). (k, f v)) m"
  by (rule sort_key_id_if_sorted)
    (simp add: map_ok_def strict_sorted_imp_sorted case_prod_unfold comp_def)

lemma write_text: "jv_wf v \<Longrightarrow> writeJSON v path = Inr (json_text v)"
proof (induction v arbitrary: path)
  case (JArray vs)
  have "map2 (write_elem path) [0..<length vs] (map (\<lambda>v p. writeJSON v p) vs) = map Inr (map json_text vs)"
    using JArray by (intro nth_equalityI) (simp_all add: write_elem_def list_all_length)
  then show ?case by (simp only: writeJSON.simps json_text.simps seq_res_Inr sum.case)
next
  case (JObject m)
  have ok: "map_ok m" using JObject.prems by simp
  have "map (write_member path) (map (\<lambda>(k, v). (k, \<lambda>p. writeJSON v p)) m)
      = map Inr (map (\<lambda>(k, v). marshal_string k @ '':'' @ json_text v) m)"
    using JObject by (auto simp: write_member_def list_all_iff)
  then show ?case
    by (simp only: writeJSON.simps json_text.simps sort_key_map_ok[OF ok] seq_res_Inr sum.case)
qed (simp_all add: validateJSONNumber_valid)

section \<open>Reading the printed form back\<close>

text \<open>The first byte of a value: not white space, no closing delimiter, no separator.\<close>

definition value_start :: "string \<Rightarrow> bool" where
  "value_start s \<longleftrightarrow> (case s of [] \<Rightarrow> False
     | c # _ \<Rightarrow> \<not> json_space c \<and> c \<noteq> CHR '']'' \<and> c \<noteq> CHR ''}'' \<and> c \<noteq> CHR '','' \<and> c \<noteq> CHR '':'')"

text \<open>\<open>reads v s\<close>: the parser, where a value is allowed, reads \<open>v\<close> from \<open>s\<close> and stops behind it.\<close>

definition reads :: "JSONValue \<Rightarrow> string \<Rightarrow> bool" where
  "reads v s \<longleftrightarrow> value_start s \<and> (\<forall>n d p r. num_stop r \<longrightarrow> value_allowed (dec_state d)
     \<longrightarrow> dec_input d = s @ r \<longrightarrow> 2 * length (s @ r) + 1 \<le> n
     \<longrightarrow> parseJSONValue n d p = Inr (v, d\<lparr>dec_input := r, dec_state := value_end (dec_state d)\<rparr>))"

lemma skip_space_id [simp]: "\<not> json_space c \<Longrightarrow> skip_space (c # s) = c # s"
  by (simp add: skip_space_def)

lemma skip_space_Nil [simp]: "skip_space [] = []"
  by (simp add: skip_space_def)

lemma value_allowed_cases:
  "value_allowed st \<Longrightarrow> st \<noteq> TokenObjectStart \<and> st \<noteq> TokenObjectKey"
  by (auto simp: value_allowed_def)

lemma token_scalar:
  assumes "dec_input d = c # s" "\<not> json_space c" "c \<notin> set ''[]{}:,''" "value_allowed (dec_state d)"
    "lex_scalar (c # s) = Some (x, t)"
  shows "token d = Inr (x, d\<lparr>dec_input := t, dec_state := value_end (dec_state d)\<rparr>)"
  using assms value_allowed_cases[OF assms(4)] by (simp add: token.simps[of d])

lemma reads_scalar:
  assumes s: "s = c # u" and c: "\<not> json_space c" "c \<notin> set ''[]{}:,''"
    and lex: "\<And>r. num_stop r \<Longrightarrow> lex_scalar (s @ r) = Some (x, r)"
    and p: "\<And>n d p d'. token d = Inr (x, d') \<Longrightarrow> parseJSONValue (Suc n) d p = Inr (v, d')"
  shows "reads v s"
  unfolding reads_def
proof (intro conjI allI impI)
  show "value_start s" using s c by (simp add: value_start_def)
  fix n and d :: decoder and q r
  assume a: "num_stop r" "value_allowed (dec_state d)" "dec_input d = s @ r" "2 * length (s @ r) + 1 \<le> n"
  obtain m where n: "n = Suc m" using a(4) by (cases n) auto
  have "token d = Inr (x, d\<lparr>dec_input := r, dec_state := value_end (dec_state d)\<rparr>)"
    using a lex[OF a(1)] s c by (intro token_scalar[of d c "u @ r"]) auto
  then show "parseJSONValue n d q = Inr (v, d\<lparr>dec_input := r, dec_state := value_end (dec_state d)\<rparr>)"
    using p n by simp
qed

lemma reads_null: "reads JNull ''null''"
  by (rule reads_scalar[where x = TNull])
    (auto simp: json_space_def lex_scalar_def is_digit_def strip_word_def has_prefix_def)

lemma reads_bool: "reads (JBool b) (if b then ''true'' else ''false'')"
proof -
  have "reads (JBool True) ''true''"
    by (rule reads_scalar[where x = "TBool True"])
      (auto simp: json_space_def lex_scalar_def is_digit_def strip_word_def has_prefix_def)
  moreover have "reads (JBool False) ''false''"
    by (rule reads_scalar[where x = "TBool False"])
      (auto simp: json_space_def lex_scalar_def is_digit_def strip_word_def has_prefix_def)
  ultimately show ?thesis by simp
qed

lemma reads_string: "utf8_valid s \<Longrightarrow> reads (JString s) (marshal_string s)"
  by (rule reads_scalar[where x = "TString s" and c = "CHR 0x22"])
    (auto simp: marshal_string_def json_space_def lex_scalar_def lex_str_quote_body)

lemma reads_number:
  assumes "valid_number s" shows "reads (JNumber s) s"
proof -
  have n: "lex_number s = Some (s, [])" using assms by (simp add: valid_number_def)
  then obtain c t where s: "s = c # t" by (cases s) (auto simp: lex_number_def lex_int_def)
  have c: "c = CHR ''-'' \<or> is_digit c" using lex_number_first n s by blast
  show ?thesis
  proof (rule reads_scalar[OF s, where x = "TNumber s"])
    show "lex_scalar (s @ r) = Some (TNumber s, r)" if "num_stop r" for r
      using lex_number_stop[OF that n] c s by (auto simp: lex_scalar_def is_digit_def)
    show "parseJSONValue (Suc n) d p = Inr (JNumber s, d')" if "token d = Inr (TNumber s, d')" for n d p d'
      using that assms by (simp add: JSONNumber_def validateJSONNumber_valid)
  qed (use c in \<open>auto simp: json_space_def is_digit_def\<close>)
qed

subsection \<open>Arrays\<close>

lemma token_array_open:
  "value_allowed (dec_state d) \<Longrightarrow> dec_input d = CHR ''['' # s \<Longrightarrow>
   token d = Inr (TDelim (CHR ''[''), \<lparr>dec_input = s, dec_state = TokenArrayStart,
     dec_stack = dec_state d # dec_stack d\<rparr>)"
  by (simp add: token.simps[of d] token_open_def json_space_def)

lemma token_array_close:
  "dec_state d = TokenArrayStart \<or> dec_state d = TokenArrayComma \<Longrightarrow> dec_input d = CHR '']'' # s \<Longrightarrow>
   dec_stack d = st # sts \<Longrightarrow>
   token d = Inr (TDelim (CHR '']''), \<lparr>dec_input = s, dec_state = value_end st, dec_stack = sts\<rparr>)"
  by (simp add: token.simps[of d] token_close_def json_space_def)

lemma token_array_comma:
  "dec_state d = TokenArrayComma \<Longrightarrow> dec_input d = CHR '','' # s \<Longrightarrow>
   token d = token (d\<lparr>dec_input := s, dec_state := TokenArrayValue\<rparr>)"
  by (subst token.simps) (simp add: json_space_def)

lemma parse_token_eq: "token d = token d' \<Longrightarrow> parseJSONValue n d p = parseJSONValue n d' p"
  by (cases n) simp_all

lemma readsD:
  assumes "reads v s" "num_stop r" "value_allowed st" "2 * length (s @ r) + 1 \<le> n"
  shows "parseJSONValue n \<lparr>dec_input = s @ r, dec_state = st, dec_stack = k\<rparr> p
    = Inr (v, \<lparr>dec_input = r, dec_state = value_end st, dec_stack = k\<rparr>)"
  using assms by (simp add: reads_def)

lemma reads_start: "reads v s \<Longrightarrow> value_start s"
  by (simp add: reads_def)

lemma join_comma_Cons: "join_comma (s # ss) = s @ concat (map ((#) (CHR '','')) ss)"
  by (induction ss arbitrary: s) auto

lemma more_value_start: "value_start s \<Longrightarrow> dec_input d = s @ r \<Longrightarrow> more d"
  by (auto simp: more_def value_start_def split: list.splits)

lemma num_stop_sep:
  "c \<in> set '',]}'' \<Longrightarrow> num_stop (concat (map ((#) (CHR '','')) ss) @ c # r)"
  by (cases ss) (auto simp: num_stop_def is_digit_def)

lemma array_tail:
  "list_all2 reads vs ss \<Longrightarrow> 2 * length (concat (map ((#) (CHR '','')) ss) @ CHR '']'' # r) + 2 \<le> n \<Longrightarrow>
   parseJSONArray n \<lparr>dec_input = concat (map ((#) (CHR '','')) ss) @ CHR '']'' # r,
      dec_state = TokenArrayComma, dec_stack = st # k\<rparr> p acc
   = Inr (JArray (acc @ vs), \<lparr>dec_input = r, dec_state = value_end st, dec_stack = k\<rparr>)"
proof (induction vs ss arbitrary: n acc rule: list_all2_induct)
  case Nil
  obtain m where n: "n = Suc m" using Nil by (cases n) auto
  show ?case by (simp add: n more_def json_space_def token_array_close)
next
  case (Cons v vs s ss)
  let ?t = "concat (map ((#) (CHR '','')) ss) @ CHR '']'' # r"
  obtain m where n: "n = Suc m" using Cons.prems by (cases n) auto
  let ?d = "\<lparr>dec_input = CHR '','' # s @ ?t, dec_state = TokenArrayComma, dec_stack = st # k\<rparr>"
  have "parseJSONValue m ?d q = parseJSONValue m
      \<lparr>dec_input = s @ ?t, dec_state = TokenArrayValue, dec_stack = st # k\<rparr> q" for q
    by (rule parse_token_eq) (simp add: token_array_comma)
  also have "\<dots> q = Inr (v, \<lparr>dec_input = ?t, dec_state = TokenArrayComma, dec_stack = st # k\<rparr>)" for q
    using readsD[OF Cons.hyps(1) num_stop_sep, of "CHR '']''" TokenArrayValue ss r m "st # k" q]
      Cons.prems n by (simp add: value_allowed_def value_end_def)
  finally have "parseJSONValue m ?d q
      = Inr (v, \<lparr>dec_input = ?t, dec_state = TokenArrayComma, dec_stack = st # k\<rparr>)" for q .
  moreover have "more ?d" by (simp add: more_def json_space_def)
  ultimately show ?case using Cons.IH[of m "acc @ [v]"] Cons.prems n by simp
qed

lemma reads_array:
  assumes "list_all2 reads vs ss" shows "reads (JArray vs) (''['' @ join_comma ss @ '']'')"
  unfolding reads_def
proof (intro conjI allI impI)
  show "value_start (''['' @ join_comma ss @ '']'')" by (simp add: value_start_def json_space_def)
  fix n and d :: decoder and q r
  assume a: "num_stop r" "value_allowed (dec_state d)" "dec_input d = (''['' @ join_comma ss @ '']'') @ r"
    "2 * length ((''['' @ join_comma ss @ '']'') @ r) + 1 \<le> n"
  obtain m where n: "n = Suc (Suc m)" using a(4) by (cases n; cases "n - 1") auto
  let ?d = "\<lparr>dec_input = join_comma ss @ CHR '']'' # r, dec_state = TokenArrayStart,
     dec_stack = dec_state d # dec_stack d\<rparr>"
  let ?e = "\<lparr>dec_input = r, dec_state = value_end (dec_state d), dec_stack = dec_stack d\<rparr>"
  have "parseJSONArray (Suc m) ?d q [] = Inr (JArray vs, ?e)"
  proof (cases ss)
    case Nil
    with assms show ?thesis by (simp add: more_def json_space_def token_array_close)
  next
    case (Cons s ss')
    with assms obtain v vs' where v: "vs = v # vs'" "reads v s" "list_all2 reads vs' ss'"
      by (auto simp: list_all2_Cons2)
    let ?t = "concat (map ((#) (CHR '','')) ss') @ CHR '']'' # r"
    have inp: "join_comma ss @ CHR '']'' # r = s @ ?t" using Cons by (simp add: join_comma_Cons)
    have "more ?d" using more_value_start[OF reads_start[OF v(2)]] inp by simp
    moreover have "s \<noteq> []" using reads_start[OF v(2)] by (auto simp: value_start_def)
    then have "parseJSONValue m ?d p = Inr (v, \<lparr>dec_input = ?t, dec_state = TokenArrayComma,
        dec_stack = dec_state d # dec_stack d\<rparr>)" for p
      using readsD[OF v(2) num_stop_sep, of "CHR '']''" TokenArrayStart ss' r m _ p] a(4) inp n
      by (simp add: value_allowed_def value_end_def join_comma_Cons)
    moreover have "2 * length ?t + 2 \<le> m"
      using a(4) n Cons \<open>s \<noteq> []\<close> by (cases s) (simp_all add: join_comma_Cons)
    ultimately show ?thesis using array_tail[OF v(3)] v(1) by simp
  qed
  then show "parseJSONValue n d q
      = Inr (JArray vs, d\<lparr>dec_input := r, dec_state := value_end (dec_state d)\<rparr>)"
    using a(2,3) n by (simp add: token_array_open)
qed

subsection \<open>Objects\<close>

lemma token_object_open:
  "value_allowed (dec_state d) \<Longrightarrow> dec_input d = CHR ''{'' # s \<Longrightarrow>
   token d = Inr (TDelim (CHR ''{''), \<lparr>dec_input = s, dec_state = TokenObjectStart,
     dec_stack = dec_state d # dec_stack d\<rparr>)"
  by (simp add: token.simps[of d] token_open_def json_space_def)

lemma token_object_close:
  "dec_state d = TokenObjectStart \<or> dec_state d = TokenObjectComma \<Longrightarrow> dec_input d = CHR ''}'' # s \<Longrightarrow>
   dec_stack d = st # sts \<Longrightarrow>
   token d = Inr (TDelim (CHR ''}''), \<lparr>dec_input = s, dec_state = value_end st, dec_stack = sts\<rparr>)"
  by (simp add: token.simps[of d] token_close_def json_space_def)

lemma token_object_comma:
  "dec_state d = TokenObjectComma \<Longrightarrow> dec_input d = CHR '','' # s \<Longrightarrow>
   token d = token (d\<lparr>dec_input := s, dec_state := TokenObjectKey\<rparr>)"
  by (subst token.simps) (simp add: json_space_def)

lemma token_object_colon:
  "dec_state d = TokenObjectColon \<Longrightarrow> dec_input d = CHR '':'' # s \<Longrightarrow>
   token d = token (d\<lparr>dec_input := s, dec_state := TokenObjectValue\<rparr>)"
  by (subst token.simps) (simp add: json_space_def)

lemma token_object_key:
  "dec_state d = TokenObjectStart \<or> dec_state d = TokenObjectKey \<Longrightarrow> utf8_valid k \<Longrightarrow>
   dec_input d = marshal_string k @ r \<Longrightarrow>
   token d = Inr (TString k, d\<lparr>dec_input := r, dec_state := TokenObjectColon\<rparr>)"
  by (subst token.simps) (auto simp: json_space_def marshal_string_def lex_str_quote_body)

text \<open>A member with a valid key and a readable value.\<close>

definition reads_member :: "string \<times> JSONValue \<Rightarrow> string \<Rightarrow> bool" where
  "reads_member kv t \<longleftrightarrow> utf8_valid (fst kv) \<and>
     (\<exists>s. reads (snd kv) s \<and> t = marshal_string (fst kv) @ '':'' @ s)"

text \<open>One round of the object loop, the key token being the next one.\<close>

lemma object_round:
  assumes "reads_member (k, v) s" "num_stop r" "2 * length (s @ r) + 1 \<le> n" "more d" "k \<notin> set seen"
    and tok: "token d = token \<lparr>dec_input = s @ r, dec_state = st, dec_stack = stk\<rparr>"
    and st: "st = TokenObjectStart \<or> st = TokenObjectKey"
  shows "parseJSONObject (Suc n) d p seen vals
    = parseJSONObject n \<lparr>dec_input = r, dec_state = TokenObjectComma, dec_stack = stk\<rparr> p
        (k # seen) (map_put k v vals)"
proof -
  from assms(1) obtain s' where k: "utf8_valid k" "reads v s'" "s = marshal_string k @ '':'' @ s'"
    by (auto simp: reads_member_def)
  have t: "token d = Inr (TString k, \<lparr>dec_input = CHR '':'' # s' @ r, dec_state = TokenObjectColon,
      dec_stack = stk\<rparr>)"
    unfolding tok using token_object_key[OF _ k(1), of "\<lparr>dec_input = s @ r, dec_state = st, dec_stack = stk\<rparr>"] st k(3)
    by simp
  have "parseJSONValue n \<lparr>dec_input = CHR '':'' # s' @ r, dec_state = TokenObjectColon, dec_stack = stk\<rparr> q
     = parseJSONValue n \<lparr>dec_input = s' @ r, dec_state = TokenObjectValue, dec_stack = stk\<rparr> q" for q
    by (rule parse_token_eq) (simp add: token_object_colon)
  also have "\<dots> q = Inr (v, \<lparr>dec_input = r, dec_state = TokenObjectComma, dec_stack = stk\<rparr>)" for q
    using readsD[OF k(2) assms(2), of TokenObjectValue n stk q] assms(3) k(3)
    by (simp add: value_allowed_def value_end_def)
  finally show ?thesis using t assms(4,5) by simp
qed

lemma object_tail:
  "list_all2 reads_member m ss \<Longrightarrow> map_ok (vals @ m) \<Longrightarrow> set seen = fst ` set vals \<Longrightarrow>
   2 * length (concat (map ((#) (CHR '','')) ss) @ CHR ''}'' # r) + 2 \<le> n \<Longrightarrow>
   parseJSONObject n \<lparr>dec_input = concat (map ((#) (CHR '','')) ss) @ CHR ''}'' # r,
      dec_state = TokenObjectComma, dec_stack = st # k\<rparr> p seen vals
   = Inr (JObject (vals @ m), \<lparr>dec_input = r, dec_state = value_end st, dec_stack = k\<rparr>)"
proof (induction m ss arbitrary: n vals seen rule: list_all2_induct)
  case Nil
  obtain i where n: "n = Suc i" using Nil by (cases n) auto
  show ?case by (simp add: n more_def json_space_def token_object_close)
next
  case (Cons kv m s ss)
  obtain key v where kv: "kv = (key, v)" by force
  let ?t = "concat (map ((#) (CHR '','')) ss) @ CHR ''}'' # r"
  let ?d = "\<lparr>dec_input = CHR '','' # s @ ?t, dec_state = TokenObjectComma, dec_stack = st # k\<rparr>"
  obtain i where n: "n = Suc i" using Cons.prems by (cases n) auto
  have ok: "map_ok (vals @ [(key, v)])" "key \<notin> fst ` set vals"
    using Cons.prems(1) kv by (auto simp: map_ok_def sorted_wrt_append)
  have "parseJSONObject (Suc i) ?d p seen vals = parseJSONObject i
      \<lparr>dec_input = ?t, dec_state = TokenObjectComma, dec_stack = st # k\<rparr> p (key # seen) (map_put key v vals)"
  proof (rule object_round)
    show "reads_member (key, v) s" using Cons.hyps(1) kv by simp
    show "num_stop ?t" by (rule num_stop_sep) simp
    show "more ?d" by (simp add: more_def json_space_def)
    show "token ?d = token \<lparr>dec_input = s @ ?t, dec_state = TokenObjectKey, dec_stack = st # k\<rparr>"
      by (simp add: token_object_comma)
  qed (use Cons.prems n ok in auto)
  also have "map_put key v vals = vals @ [kv]" using map_put_last[OF ok(1)] kv by simp
  finally show ?case
    using Cons.IH[of "vals @ [kv]" "key # seen" i] Cons.prems n kv by auto
qed

lemma reads_object:
  assumes "list_all2 reads_member m ss" "map_ok m"
  shows "reads (JObject m) (''{'' @ join_comma ss @ ''}'')"
  unfolding reads_def
proof (intro conjI allI impI)
  show "value_start (''{'' @ join_comma ss @ ''}'')" by (simp add: value_start_def json_space_def)
  fix n and d :: decoder and q r
  assume a: "num_stop r" "value_allowed (dec_state d)" "dec_input d = (''{'' @ join_comma ss @ ''}'') @ r"
    "2 * length ((''{'' @ join_comma ss @ ''}'') @ r) + 1 \<le> n"
  obtain i where n: "n = Suc (Suc i)" using a(4) by (cases n; cases "n - 1") auto
  let ?stk = "dec_state d # dec_stack d"
  let ?d = "\<lparr>dec_input = join_comma ss @ CHR ''}'' # r, dec_state = TokenObjectStart, dec_stack = ?stk\<rparr>"
  let ?e = "\<lparr>dec_input = r, dec_state = value_end (dec_state d), dec_stack = dec_stack d\<rparr>"
  have "parseJSONObject (Suc i) ?d q [] [] = Inr (JObject m, ?e)"
  proof (cases ss)
    case Nil
    with assms show ?thesis by (simp add: more_def json_space_def token_object_close)
  next
    case (Cons s ss')
    with assms obtain k v m' where v: "m = (k, v) # m'" "reads_member (k, v) s" "list_all2 reads_member m' ss'"
      by (auto simp: list_all2_Cons2)
    let ?t = "concat (map ((#) (CHR '','')) ss') @ CHR ''}'' # r"
    have inp: "join_comma ss @ CHR ''}'' # r = s @ ?t" using Cons by (simp add: join_comma_Cons)
    have s: "s \<noteq> []" "value_start s"
      using v(2) by (auto simp: reads_member_def marshal_string_def value_start_def json_space_def)
    have "parseJSONObject (Suc i) ?d q [] [] = parseJSONObject i
        \<lparr>dec_input = ?t, dec_state = TokenObjectComma, dec_stack = ?stk\<rparr> q [k] (map_put k v [])"
      using more_value_start[OF s(2), of ?d] inp a(4) n Cons
      by (intro object_round[OF v(2) num_stop_sep]) (auto simp: join_comma_Cons)
    moreover have "2 * length ?t + 2 \<le> i"
      using a(4) n Cons s(1) by (cases s) (simp_all add: join_comma_Cons)
    ultimately show ?thesis using object_tail[OF v(3), of "[(k, v)]" "[k]"] assms(2) v(1) by simp
  qed
  then show "parseJSONValue n d q
      = Inr (JObject m, d\<lparr>dec_input := r, dec_state := value_end (dec_state d)\<rparr>)"
    using a(2,3) n by (simp add: token_object_open)
qed

subsection \<open>All values\<close>

lemma reads_text: "jv_wf v \<Longrightarrow> jv_utf8 v \<Longrightarrow> reads v (json_text v)"
proof (induction v)
  case (JArray vs)
  then have "list_all2 reads vs (map json_text vs)"
    by (simp add: list_all2_map2 list_all2_same list_all_iff)
  then show ?case by (simp add: reads_array[simplified])
next
  case (JObject m)
  let ?f = "\<lambda>(k, v). marshal_string k @ '':'' @ json_text v"
  have "reads_member (k, v) (?f (k, v))" if "(k, v) \<in> set m" for k v
    using that JObject by (fastforce simp: list_all_iff reads_member_def)
  then have "list_all2 reads_member m (map ?f m)"
    by (auto simp: list_all2_map2 list_all2_same)
  then show ?case using JObject.prems reads_object[of m "map ?f m"] by simp
qed (simp_all add: reads_null reads_bool[simplified] reads_string reads_number)

section \<open>What the parser accepts\<close>

lemma lex_scalar_utf8: "lex_scalar s = Some (TString x, t) \<Longrightarrow> utf8_valid x"
  by (auto simp: lex_scalar_def dest: lex_str_valid split: list.splits if_splits)

lemma token_utf8: "token d = Inr (TString x, d') \<Longrightarrow> utf8_valid x"
proof (induction d rule: token.induct)
  case (1 d)
  then show ?case
    by (auto simp: token.simps[of d] token_open_def token_close_def dest: lex_str_valid lex_scalar_utf8
        split: if_splits option.splits prod.splits list.splits)
qed

lemma JSONNumber_utf8: "JSONNumber x = Inr v \<Longrightarrow> jv_utf8 v"
  by (auto simp: JSONNumber_def split: option.splits)

lemma parse_utf8:
  "parseJSONValue n d p = Inr (v, d') \<Longrightarrow> jv_utf8 v"
  "parseJSONObject n d p seen vals = Inr (v, d') \<Longrightarrow> jv_utf8 (JObject vals) \<Longrightarrow> jv_utf8 v"
  "parseJSONArray n d p avals = Inr (v, d') \<Longrightarrow> jv_utf8 (JArray avals) \<Longrightarrow> jv_utf8 v"
proof (induction n d p and n d p seen vals and n d p avals arbitrary: v d' and v d' and v d'
    rule: parseJSONValue_parseJSONObject_parseJSONArray.induct)
  case (2 n d path)
  then show ?case
    by (auto split: sum.splits prod.splits json_token.splits if_splits dest: JSONNumber_utf8 token_utf8)
next
  case (4 n d path seen vals)
  then show ?case
    by (fastforce split: sum.splits prod.splits json_token.splits if_splits
        intro!: list_all_put dest: token_utf8)
next
  case (6 n d path vals)
  then show ?case
    by (auto split: sum.splits prod.splits json_token.splits if_splits)
qed simp_all

lemma ParseJSONValue_Inr: "ParseJSONValue s = Inr v \<Longrightarrow> \<exists>n d d'. parseJSONValue n d [] = Inr (v, d')"
  by (auto simp: ParseJSONValue_def simp del: parseJSONValue.simps
      split: sum.splits prod.splits tok_err.splits)

lemma ParseJSONValue_wf: "ParseJSONValue s = Inr v \<Longrightarrow> jv_wf v \<and> jv_utf8 v"
  by (auto dest!: ParseJSONValue_Inr dest: parse_wf(1) parse_utf8(1))

lemma marshal_parse:
  assumes "jv_wf v" "jv_utf8 v"
  shows "MarshalJSON v = Inr (json_text v)" "ParseJSONValue (json_text v) = Inr v"
proof -
  let ?s = "json_text v"
  show "MarshalJSON v = Inr ?s" using write_text[OF assms(1)] by (simp add: MarshalJSON_def)
  have "parseJSONValue (2 * length ?s + 1) (new_decoder ?s) [] = Inr (v, new_decoder [])"
    using readsD[OF reads_text[OF assms], of "[]" TokenTopValue "2 * length ?s + 1" "[]" "[]"]
    by (simp add: num_stop_def value_allowed_def value_end_def new_decoder_def)
  then show "ParseJSONValue ?s = Inr v"
    by (simp add: ParseJSONValue_def new_decoder_def
        token.simps[of "\<lparr>dec_input = [], dec_state = TokenTopValue, dec_stack = []\<rparr>"])
qed

text \<open>
  C2: what \<open>MarshalJSON\<close> writes of a well-formed value with valid UTF-8 strings, \<open>ParseJSONValue\<close>
  parses back to exactly that value.
\<close>

theorem marshal_parse_roundtrip:
  assumes "jv_wf v" "jv_utf8 v"
  shows "\<exists>s. MarshalJSON v = Inr s \<and> ParseJSONValue s = Inr v"
  using marshal_parse[OF assms] by blast

definition example_value :: JSONValue where
  "example_value = JObject [(''a'', JArray [JNumber ''-1.5e3'', JNull]), (''b'', JString ''x'')]"

lemma example_value_ok: "jv_wf example_value" "jv_utf8 example_value"
  by code_simp+

theorem marshal_parse_roundtrip_witness:
  "jv_wf example_value \<and> jv_utf8 example_value \<and>
   (\<exists>s. MarshalJSON example_value = Inr s \<and> ParseJSONValue s = Inr example_value)"
  using marshal_parse_roundtrip[OF example_value_ok] example_value_ok by blast


lemma example_parse: "ParseJSONValue ''[1, true]'' = Inr (JArray [JNumber ''1'', JBool True])"
  by code_simp


text \<open>
  The parser never runs out of fuel: \<open>2 * length data + 1\<close> rounds are enough on every input, so
  \<open>ParseJSONValue\<close> returns a value or one of the source's errors.
\<close>

theorem ParseJSONValue_fuel: "ParseJSONValue data \<noteq> Inl OutOfFuel"
  by (rule ParseJSONValue_no_fuel)

end
