(* ===== verification/Attribution.thy ===== *)
theory Attribution
  imports JSON_Scan Reflect
begin

text \<open>
  \<open>codexsdk/notification_attribution.go\<close>: which run a server notification is evidence for.

  A \<open>ServerNotification\<close> is a generated union. The model keeps what this package reads of one: its
  kind, the text \<open>json.Marshal\<close> gives it (\<open>None\<close> when marshalling fails), the payloads of the two
  cases the runs look at, and its reflected value for the retention charge. The generated method
  registry is the parameter \<open>LookupMethod\<close>.
\<close>

datatype MessagePhase = MessagePhaseFinalAnswer | MessagePhaseOther gostring

text \<open>An agent message carries its text and its phase (\<open>None\<close>: absent or null).\<close>

datatype ThreadItem = AgentMessage gostring "MessagePhase option" | OtherItem

text \<open>
  A pointer to a \<open>Nullable\<close> is absent (\<open>None\<close>), null (\<open>Some None\<close>) or a value. The error and the items view
  of a turn are kept as their JSON text.
\<close>

record Turn =
  tn_ID :: gostring
  tn_Items :: "ThreadItem slice"
  tn_Status :: gostring
  tn_CompletedAt :: "int option option"
  tn_DurationMS :: "int option option"
  tn_Error :: "gostring option option"
  tn_ItemsView :: "gostring option"
  tn_RootTurnID :: "gostring option option"
  tn_StartedAt :: "int option option"

definition empty_turn :: Turn where
  "empty_turn = \<lparr>tn_ID = [], tn_Items = None, tn_Status = [], tn_CompletedAt = None, tn_DurationMS = None, tn_Error = None,
     tn_ItemsView = None, tn_RootTurnID = None, tn_StartedAt = None\<rparr>"

record TokenUsageBreakdown =
  tb_CacheWriteInputTokens :: "int option"
  tb_CachedInputTokens :: int
  tb_InputTokens :: int
  tb_OutputTokens :: int
  tb_ReasoningOutputTokens :: int
  tb_TotalTokens :: int

record ThreadTokenUsage =
  tu_Last :: TokenUsageBreakdown
  tu_ModelContextWindow :: "int option option"
  tu_Total :: TokenUsageBreakdown

record ServerNotification =
  sn_Kind :: gostring
  sn_json :: "gostring option"
  sn_TurnCompleted :: "Turn option"
  sn_TokenUsage :: "ThreadTokenUsage option"
  sn_value :: reflect_value

datatype MethodDirection = MethodDirectionServerToClient | MethodDirectionClientToServer
datatype MethodKind = MethodKindNotification | MethodKindRequest

record MethodInfo =
  mi_Direction :: MethodDirection
  mi_Kind :: MethodKind

datatype notificationAttributionClass =
    notificationAttributionUnsupported
  | notificationAttributionTurn
  | notificationAttributionThread
  | notificationAttributionGlobal

record notificationIdentity =
  ni_threadID :: gostring
  ni_turnID :: gostring

definition no_identity :: notificationIdentity where
  "no_identity = \<lparr>ni_threadID = [], ni_turnID = []\<rparr>"

definition matchesRun :: "notificationIdentity \<Rightarrow> gostring \<Rightarrow> gostring \<Rightarrow> bool" where
  "matchesRun identity threadID turnID =
     (if ni_threadID identity \<noteq> [] \<and> ni_threadID identity \<noteq> threadID then False
      else if ni_turnID identity \<noteq> [] \<and> turnID \<noteq> [] \<and> ni_turnID identity \<noteq> turnID then False
      else ni_threadID identity \<noteq> [] \<or> ni_turnID identity \<noteq> [])"

text \<open>A Go map lookup with a type assertion: absent, or of another type, is the zero value.\<close>

definition as_object :: "JSONValue option \<Rightarrow> (string \<times> JSONValue) list option" where
  "as_object v = (case v of Some (JObject m) \<Rightarrow> Some m | _ \<Rightarrow> None)"

definition jsonString :: "JSONValue option \<Rightarrow> gostring" where
  "jsonString v = (case v of Some (JString s) \<Rightarrow> s | _ \<Rightarrow> [])"

definition knownServerNotificationKind :: "(gostring \<Rightarrow> MethodInfo option) \<Rightarrow> gostring \<Rightarrow> bool" where
  "knownServerNotificationKind LookupMethod kind = (case LookupMethod kind of None \<Rightarrow> False
     | Some info \<Rightarrow> mi_Direction info = MethodDirectionServerToClient \<and> mi_Kind info = MethodKindNotification)"

definition identity_of_params :: "(string \<times> JSONValue) list \<Rightarrow> notificationIdentity" where
  "identity_of_params params =
     (let turnID = jsonString (map_of params ''turnId'');
          threadID = jsonString (map_of params ''threadId'');
          turnID = (if turnID = [] then (case as_object (map_of params ''turn'') of
             Some turn \<Rightarrow> jsonString (map_of turn ''id'') | None \<Rightarrow> []) else turnID);
          threadID = (if threadID = [] then (case as_object (map_of params ''thread'') of
             Some thread \<Rightarrow> jsonString (map_of thread ''id'') | None \<Rightarrow> []) else threadID)
      in \<lparr>ni_threadID = threadID, ni_turnID = turnID\<rparr>)"

definition extractNotificationIdentity :: "ServerNotification \<Rightarrow> notificationIdentity" where
  "extractNotificationIdentity n = (case sn_json n of None \<Rightarrow> no_identity
     | Some raw \<Rightarrow> (case unmarshal_any raw of
         Some (JObject envelope) \<Rightarrow> identity_of_params
           (case as_object (map_of envelope ''params'') of Some params \<Rightarrow> params | None \<Rightarrow> envelope)
       | _ \<Rightarrow> no_identity))"

definition attributionFor ::
  "(gostring \<Rightarrow> MethodInfo option) \<Rightarrow> ServerNotification \<Rightarrow> notificationAttributionClass \<times> notificationIdentity" where
  "attributionFor LookupMethod n =
     (if \<not> knownServerNotificationKind LookupMethod (sn_Kind n)
      then (notificationAttributionUnsupported, no_identity)
      else let identity = extractNotificationIdentity n in
        if ni_turnID identity \<noteq> [] then (notificationAttributionTurn, identity)
        else if ni_threadID identity \<noteq> [] then (notificationAttributionThread, identity)
        else (notificationAttributionGlobal, identity))"

definition attributionClassForKind ::
  "(gostring \<Rightarrow> MethodInfo option) \<Rightarrow> gostring \<Rightarrow> notificationAttributionClass" where
  "attributionClassForKind LookupMethod kind =
     (if \<not> knownServerNotificationKind LookupMethod kind then notificationAttributionUnsupported
      else notificationAttributionGlobal)"

text \<open>
  The attribution class says exactly which identities are present, and a notification matches a run
  exactly when it names at least one identity and contradicts none the run has published.
\<close>

theorem attribution_sound:
  "(case attributionFor LookupMethod n of (class, i) \<Rightarrow>
     (class = notificationAttributionUnsupported \<longleftrightarrow> \<not> knownServerNotificationKind LookupMethod (sn_Kind n)) \<and>
     (class = notificationAttributionTurn \<longleftrightarrow> ni_turnID i \<noteq> []) \<and>
     (class = notificationAttributionThread \<longleftrightarrow> ni_turnID i = [] \<and> ni_threadID i \<noteq> []) \<and>
     (matchesRun i threadID turnID \<longleftrightarrow>
        (class = notificationAttributionTurn \<or> class = notificationAttributionThread) \<and>
        (ni_threadID i = [] \<or> ni_threadID i = threadID) \<and>
        (ni_turnID i = [] \<or> turnID = [] \<or> ni_turnID i = turnID)))"
  by (auto simp: attributionFor_def Let_def matchesRun_def no_identity_def)

end
