(* ===== verification/Retention.thy ===== *)
theory Retention
  imports Reflect "HOL-Library.Multiset"
begin

text \<open>
  The notification retention budget of \<open>codexsdk/notification_retention.go\<close>: one budget per client
  limits how many notification representations, and how many bytes of them, the SDK holds. A lease is
  a reference-counted charge against the budget; the run states, the pending queues and the dispatcher
  share leases by \<open>retain\<close> and \<open>release\<close>.

  A \<open>*retentionLease\<close> is an index into the budget's list of leases (\<open>None\<close> is the nil pointer), so
  that two owners of one lease share its reference count. Counts and byte sizes are Go's signed
  64-bit integers: every sum and difference is wrapped by \<open>wrap64\<close>. A Go panic is \<open>Inl\<close>.
\<close>

section \<open>The charge of a value\<close>

fun retainedReflectBytes :: "reflect_value \<Rightarrow> int" where
  "retainedReflectBytes RInvalid = 0"
| "retainedReflectBytes (RScalar n) = int n"
| "retainedReflectBytes (RString n len) = int n + int len"
| "retainedReflectBytes (RPointer n p) =
     int n + (case p of None \<Rightarrow> 0 | Some v \<Rightarrow> retainedReflectBytes v)"
| "retainedReflectBytes (RInterface n p) =
     int n + (case p of None \<Rightarrow> 0 | Some v \<Rightarrow> retainedReflectBytes v)"
| "retainedReflectBytes (RSlice n p) =
     int n + (case p of None \<Rightarrow> 0
       | Some (cap, sz, vs) \<Rightarrow> int cap * int sz + sum_list (map retainedReflectBytes vs))"
| "retainedReflectBytes (RArray n vs) = int n + sum_list (map retainedReflectBytes vs)"
| "retainedReflectBytes (RStruct n vs) = int n + sum_list (map retainedReflectBytes vs)"
| "retainedReflectBytes (RMap n p) =
     int n + 256 + (case p of None \<Rightarrow> 0
       | Some es \<Rightarrow>
           sum_list (map (\<lambda>(k, v). 128 + retainedReflectBytes k + retainedReflectBytes v) es))"
| "retainedReflectBytes (RChan n _) = int n"
| "retainedReflectBytes (RFunc n _) = int n"
| "retainedReflectBytes (RUnsafePointer n _) = int n"

definition retainedValueBytes :: "reflect_value \<Rightarrow> int" where
  "retainedValueBytes v = retainedReflectBytes v + 256"

lemma sum_list_nonneg_map: "(\<And>x. x \<in> set xs \<Longrightarrow> 0 \<le> f x) \<Longrightarrow> 0 \<le> sum_list (map f xs)"
  for f :: "'a \<Rightarrow> int"
  by (induction xs) auto

lemma retainedReflectBytes_nonneg: "0 \<le> retainedReflectBytes v"
proof (induction v rule: retainedReflectBytes.induct)
  case (9 n p)
  then show ?case
    by (auto split: option.split intro!: add_nonneg_nonneg sum_list_nonneg_map)
qed (auto split: option.split intro!: add_nonneg_nonneg sum_list_nonneg_map)

lemma retainedValueBytes_pos: "256 \<le> retainedValueBytes v"
  using retainedReflectBytes_nonneg[of v] by (simp add: retainedValueBytes_def)

section \<open>Budget and leases\<close>

record NotificationRetentionBudget =
  MaxCount :: int
  MaxBytes :: int

definition DefaultNotificationRetentionCount :: int where
  "DefaultNotificationRetentionCount = 65536"

definition DefaultNotificationRetentionBytes :: int where
  "DefaultNotificationRetentionBytes = 64 * 2 ^ 20"

record retentionLease =
  lease_count :: int
  lease_bytes :: int
  lease_refs :: int

record notificationRetention =
  ret_limit :: NotificationRetentionBudget
  ret_count :: int
  ret_bytes :: int
  ret_leases :: "retentionLease list"

type_synonym lease_ptr = "nat option"

datatype panic = Panic gostring

definition ErrNotificationRetention :: go_error where
  "ErrNotificationRetention = ErrNew ''codexsdk: notification retention budget exhausted''"

text \<open>\<open>reserve\<close> on a nil budget charges nothing and returns a nil lease.\<close>

fun reserve :: "int \<Rightarrow> int \<Rightarrow> notificationRetention option
    \<Rightarrow> (go_error + lease_ptr) \<times> notificationRetention option" where
  "reserve c n None = (Inr None, None)"
| "reserve c n (Some b) =
     (if c > wrap64 (MaxCount (ret_limit b) - ret_count b)
         \<or> n > wrap64 (MaxBytes (ret_limit b) - ret_bytes b)
      then (Inl ErrNotificationRetention, Some b)
      else (Inr (Some (length (ret_leases b))),
            Some (b\<lparr>ret_count := wrap64 (ret_count b + c), ret_bytes := wrap64 (ret_bytes b + n),
              ret_leases := ret_leases b
                @ [\<lparr>lease_count = c, lease_bytes = n, lease_refs = 1\<rparr>]\<rparr>)))"

text \<open>
  \<open>retain\<close> and \<open>release\<close> of a lease that belongs to the budget. A Go pointer cannot dangle; an
  index outside the list, which no operation produces, is a panic of its own.
\<close>

definition retain :: "nat \<Rightarrow> notificationRetention \<Rightarrow> panic + notificationRetention" where
  "retain i b =
     (if length (ret_leases b) \<le> i then Inl (Panic ''dangling lease'')
      else let l = ret_leases b ! i in
        if lease_refs l \<le> 0 then Inl (Panic ''codexsdk: released retention ownership reused'')
        else Inr (b\<lparr>ret_leases := (ret_leases b)[i := l\<lparr>lease_refs := lease_refs l + 1\<rparr>]\<rparr>))"

definition release :: "nat \<Rightarrow> notificationRetention \<Rightarrow> panic + notificationRetention" where
  "release i b =
     (if length (ret_leases b) \<le> i then Inl (Panic ''dangling lease'')
      else let l = ret_leases b ! i; r = lease_refs l - 1 in
        if r < 0 then Inl (Panic ''codexsdk: retention ownership released twice'')
        else let b' = b\<lparr>ret_leases := (ret_leases b)[i := l\<lparr>lease_refs := r\<rparr>]\<rparr> in
          if r = 0
          then Inr (b'\<lparr>ret_count := wrap64 (ret_count b - lease_count l),
                 ret_bytes := wrap64 (ret_bytes b - lease_bytes l)\<rparr>)
          else Inr b')"

text \<open>The methods on a lease pointer: nothing happens on nil.\<close>

definition retain_ptr :: "lease_ptr \<Rightarrow> notificationRetention \<Rightarrow> panic + notificationRetention" where
  "retain_ptr p b = (case p of None \<Rightarrow> Inr b | Some i \<Rightarrow> retain i b)"

definition release_ptr :: "lease_ptr \<Rightarrow> notificationRetention \<Rightarrow> panic + notificationRetention" where
  "release_ptr p b = (case p of None \<Rightarrow> Inr b | Some i \<Rightarrow> release i b)"

text \<open>\<open>retentionOwners\<close>: the leases one run history owns.\<close>

record retentionOwners =
  owner_leases :: "nat list"

definition owners_add :: "lease_ptr \<Rightarrow> retentionOwners \<times> notificationRetention
    \<Rightarrow> panic + retentionOwners \<times> notificationRetention" where
  "owners_add p ob = (case p of None \<Rightarrow> Inr ob
     | Some i \<Rightarrow> (case retain i (snd ob) of Inl x \<Rightarrow> Inl x
         | Inr b \<Rightarrow> Inr ((fst ob)\<lparr>owner_leases := owner_leases (fst ob) @ [i]\<rparr>, b)))"

definition owners_release :: "retentionOwners \<times> notificationRetention
    \<Rightarrow> panic + retentionOwners \<times> notificationRetention" where
  "owners_release ob =
     (case fold_res release (owner_leases (fst ob)) (snd ob) of Inl x \<Rightarrow> Inl x
      | Inr b \<Rightarrow> Inr ((fst ob)\<lparr>owner_leases := []\<rparr>, b))"

section \<open>Accounting invariant\<close>

definition live_sum :: "(retentionLease \<Rightarrow> int) \<Rightarrow> retentionLease list \<Rightarrow> int" where
  "live_sum f ls = sum_list (map (\<lambda>l. if 0 < lease_refs l then f l else 0) ls)"

definition lease_ok :: "retentionLease \<Rightarrow> bool" where
  "lease_ok l \<longleftrightarrow> 0 \<le> lease_refs l \<and> 0 \<le> lease_count l \<and> 0 \<le> lease_bytes l"

definition retention_inv :: "notificationRetention \<Rightarrow> bool" where
  "retention_inv b \<longleftrightarrow>
     ret_count b = live_sum lease_count (ret_leases b) \<and>
     ret_bytes b = live_sum lease_bytes (ret_leases b) \<and>
     (\<forall>l \<in> set (ret_leases b). lease_ok l) \<and>
     ret_count b \<le> MaxCount (ret_limit b) \<and> ret_bytes b \<le> MaxBytes (ret_limit b) \<and>
     in_int64 (MaxCount (ret_limit b)) \<and> in_int64 (MaxBytes (ret_limit b))"

text \<open>How many references to lease \<open>i\<close> are outstanding.\<close>

definition refs_of :: "notificationRetention \<Rightarrow> nat \<Rightarrow> nat" where
  "refs_of b i = (if i < length (ret_leases b) then nat (lease_refs (ret_leases b ! i)) else 0)"

lemma live_sum_append: "live_sum f (xs @ ys) = live_sum f xs + live_sum f ys"
  by (simp add: live_sum_def)

lemma sum_list_update_int:
  "i < length xs \<Longrightarrow> sum_list (map f (xs[i := x])) = sum_list (map f xs) - f (xs ! i) + f x"
  for f :: "'a \<Rightarrow> int"
  by (induction xs arbitrary: i) (auto split: nat.split)

lemma live_sum_update:
  "i < length ls \<Longrightarrow> live_sum f (ls[i := l]) = live_sum f ls
     - (if 0 < lease_refs (ls ! i) then f (ls ! i) else 0) + (if 0 < lease_refs l then f l else 0)"
  by (simp add: live_sum_def sum_list_update_int)

lemma live_sum_nonneg: "(\<And>l. l \<in> set ls \<Longrightarrow> 0 \<le> f l) \<Longrightarrow> 0 \<le> live_sum f ls"
  by (auto simp: live_sum_def intro!: sum_list_nonneg_map)

lemma live_sum_nth_le:
  assumes "i < length ls" "0 < lease_refs (ls ! i)" "\<And>l. l \<in> set ls \<Longrightarrow> 0 \<le> f l"
  shows "f (ls ! i) \<le> live_sum f ls"
  using assms
proof (induction ls arbitrary: i)
  case (Cons l ls)
  have rest: "0 \<le> live_sum f ls" using Cons.prems(3) by (intro live_sum_nonneg) auto
  show ?case
  proof (cases i)
    case 0
    with Cons.prems rest show ?thesis by (simp add: live_sum_def)
  next
    case (Suc j)
    with Cons have "f (ls ! j) \<le> live_sum f ls" by auto
    with Suc Cons.prems(3)[of l] show ?thesis by (simp add: live_sum_def)
  qed
qed simp

lemma retention_inv_bounds:
  assumes "retention_inv b"
  shows "0 \<le> ret_count b" "0 \<le> ret_bytes b"
    "0 \<le> MaxCount (ret_limit b)" "0 \<le> MaxBytes (ret_limit b)"
proof -
  show "0 \<le> ret_count b" "0 \<le> ret_bytes b"
    using assms by (auto simp: retention_inv_def lease_ok_def intro!: live_sum_nonneg)
  then show "0 \<le> MaxCount (ret_limit b)" "0 \<le> MaxBytes (ret_limit b)"
    using assms by (auto simp: retention_inv_def)
qed

lemma count_exact: "retention_inv b \<Longrightarrow> 0 \<le> x \<Longrightarrow> x \<le> MaxCount (ret_limit b) \<Longrightarrow> wrap64 x = x"
  by (rule wrap64_between[where hi = "MaxCount (ret_limit b)"]) (auto simp: retention_inv_def)

lemma bytes_exact: "retention_inv b \<Longrightarrow> 0 \<le> x \<Longrightarrow> x \<le> MaxBytes (ret_limit b) \<Longrightarrow> wrap64 x = x"
  by (rule wrap64_between[where hi = "MaxBytes (ret_limit b)"]) (auto simp: retention_inv_def)

lemma retention_inv_room:
  "retention_inv b \<Longrightarrow> ret_count b \<le> MaxCount (ret_limit b)"
  "retention_inv b \<Longrightarrow> ret_bytes b \<le> MaxBytes (ret_limit b)"
  by (auto simp: retention_inv_def)

text \<open>Under the invariant no difference wraps, so the admission test is the exact one.\<close>

lemma room_exact:
  assumes "retention_inv b"
  shows "wrap64 (MaxCount (ret_limit b) - ret_count b) = MaxCount (ret_limit b) - ret_count b"
    and "wrap64 (MaxBytes (ret_limit b) - ret_bytes b) = MaxBytes (ret_limit b) - ret_bytes b"
  using retention_inv_bounds[OF assms] retention_inv_room[OF assms]
  by (auto intro: count_exact[OF assms] bytes_exact[OF assms])

section \<open>Every operation keeps the invariant\<close>

lemma reserve_success_iff:
  assumes "retention_inv b"
  shows "(\<exists>i. fst (reserve c n (Some b)) = Inr i) \<longleftrightarrow>
     ret_count b + c \<le> MaxCount (ret_limit b) \<and> ret_bytes b + n \<le> MaxBytes (ret_limit b)"
  using assms by (auto simp: room_exact)

lemma reserve_keeps_inv:
  assumes "retention_inv b" "0 \<le> c" "0 \<le> n" "reserve c n (Some b) = (r, Some b')"
  shows "retention_inv b'"
proof (cases "\<exists>i. r = Inr i")
  case True
  with assms have room: "ret_count b + c \<le> MaxCount (ret_limit b)"
      "ret_bytes b + n \<le> MaxBytes (ret_limit b)"
    using reserve_success_iff[OF assms(1), of c n] by auto
  have "wrap64 (ret_count b + c) = ret_count b + c" "wrap64 (ret_bytes b + n) = ret_bytes b + n"
    using assms(2,3) room retention_inv_bounds[OF assms(1)]
    by (auto intro: count_exact[OF assms(1)] bytes_exact[OF assms(1)])
  with assms room True show ?thesis
    by (auto simp: retention_inv_def live_sum_append lease_ok_def live_sum_def split: if_splits)
next
  case False
  with assms show ?thesis by (cases r) (auto split: if_splits)
qed

lemma reserve_refs:
  assumes "reserve c n (Some b) = (Inr (Some i), Some b')"
  shows "refs_of b i = 0" "refs_of b' = (refs_of b)(i := 1)"
  using assms by (auto simp: refs_of_def nth_append fun_eq_iff split: if_splits)

lemma retain_ok:
  assumes "retention_inv b" "0 < refs_of b i"
  shows "\<exists>b'. retain i b = Inr b' \<and> retention_inv b' \<and> refs_of b' = (refs_of b)(i := Suc (refs_of b i))"
proof -
  let ?l = "ret_leases b ! i"
  from assms(2) have i: "i < length (ret_leases b)" and live: "0 < lease_refs ?l"
    by (auto simp: refs_of_def split: if_splits)
  let ?b' = "b\<lparr>ret_leases := (ret_leases b)[i := ?l\<lparr>lease_refs := lease_refs ?l + 1\<rparr>]\<rparr>"
  have "lease_ok ?l" using assms(1) i by (auto simp: retention_inv_def)
  then have "\<forall>l \<in> set (ret_leases ?b'). lease_ok l"
    using assms(1) live by (auto simp: retention_inv_def lease_ok_def dest!: set_update_subset_insert[THEN subsetD])
  then have "retention_inv ?b'"
    using assms(1) i live by (auto simp: retention_inv_def live_sum_update)
  moreover have "refs_of ?b' = (refs_of b)(i := Suc (refs_of b i))"
    using i live by (auto simp: refs_of_def fun_eq_iff nth_list_update)
  moreover have "retain i b = Inr ?b'"
    using i live by (simp add: retain_def Let_def)
  ultimately show ?thesis by blast
qed

text \<open>What a release gives back: the charge of the lease, exactly when its last reference goes.\<close>

definition returned :: "(retentionLease \<Rightarrow> int) \<Rightarrow> notificationRetention \<Rightarrow> nat \<Rightarrow> int" where
  "returned f b i = (if refs_of b i = 1 then f (ret_leases b ! i) else 0)"

lemma release_charge:
  assumes "retention_inv b" "0 < refs_of b i" "release i b = Inr b'"
  shows "ret_count b' = ret_count b - returned lease_count b i"
    "ret_bytes b' = ret_bytes b - returned lease_bytes b i"
    "ret_limit b' = ret_limit b"
proof -
  let ?l = "ret_leases b ! i"
  from assms(2) have i: "i < length (ret_leases b)" and live: "0 < lease_refs ?l"
    by (auto simp: refs_of_def split: if_splits)
  have l: "lease_ok ?l" using assms(1) i by (auto simp: retention_inv_def)
  have "lease_count ?l \<le> ret_count b" "lease_bytes ?l \<le> ret_bytes b"
    using assms(1) i live by (auto simp: retention_inv_def lease_ok_def intro!: live_sum_nth_le)
  then have "wrap64 (ret_count b - lease_count ?l) = ret_count b - lease_count ?l"
    "wrap64 (ret_bytes b - lease_bytes ?l) = ret_bytes b - lease_bytes ?l"
    using l retention_inv_room[OF assms(1)]
    by (simp_all add: lease_ok_def count_exact[OF assms(1)] bytes_exact[OF assms(1)])
  with assms(3) i live show "ret_count b' = ret_count b - returned lease_count b i"
    "ret_bytes b' = ret_bytes b - returned lease_bytes b i" "ret_limit b' = ret_limit b"
    by (auto simp: release_def Let_def returned_def refs_of_def split: if_splits)
qed

lemma release_ok:
  assumes "retention_inv b" "0 < refs_of b i"
  shows "\<exists>b'. release i b = Inr b' \<and> retention_inv b' \<and> refs_of b' = (refs_of b)(i := refs_of b i - 1)"
proof -
  let ?l = "ret_leases b ! i"
  from assms(2) have i: "i < length (ret_leases b)" and live: "0 < lease_refs ?l"
    by (auto simp: refs_of_def split: if_splits)
  then obtain b' where b': "release i b = Inr b'"
    by (cases "lease_refs ?l = 1") (auto simp: release_def Let_def)
  have ls: "ret_leases b' = (ret_leases b)[i := ?l\<lparr>lease_refs := lease_refs ?l - 1\<rparr>]"
    using b' i live by (auto simp: release_def Let_def split: if_splits)
  have "lease_ok ?l" using assms(1) i by (auto simp: retention_inv_def)
  then have ok: "\<forall>l \<in> set (ret_leases b'). lease_ok l"
    using assms(1) live
    by (auto simp: ls retention_inv_def lease_ok_def dest!: set_update_subset_insert[THEN subsetD])
  have "0 \<le> returned lease_count b i" "0 \<le> returned lease_bytes b i"
    using \<open>lease_ok ?l\<close> by (auto simp: returned_def lease_ok_def)
  then have "ret_count b' \<le> MaxCount (ret_limit b')" "ret_bytes b' \<le> MaxBytes (ret_limit b')"
    using release_charge[OF assms b'] retention_inv_room[OF assms(1)] by auto
  moreover have "ret_count b' = live_sum lease_count (ret_leases b')"
    "ret_bytes b' = live_sum lease_bytes (ret_leases b')"
    using assms(1) i live release_charge[OF assms b']
    by (auto simp: retention_inv_def ls live_sum_update returned_def refs_of_def)
  ultimately have "retention_inv b'"
    using assms(1) ok release_charge(3)[OF assms b'] by (simp add: retention_inv_def)
  moreover have "refs_of b' = (refs_of b)(i := refs_of b i - 1)"
    using i live by (auto simp: refs_of_def fun_eq_iff nth_list_update ls)
  ultimately show ?thesis using b' by blast
qed

section \<open>Reference counting as an interface\<close>

text \<open>
  What an owner of leases may rely on: while it holds a reference, \<open>retain\<close> and \<open>release\<close> do not
  panic, and they change only the count of their own lease.
\<close>

locale refcount =
  fixes inv :: "'s \<Rightarrow> bool"
    and refs :: "'s \<Rightarrow> nat \<Rightarrow> nat"
    and inc :: "nat \<Rightarrow> 's \<Rightarrow> 'e + 's"
    and dec :: "nat \<Rightarrow> 's \<Rightarrow> 'e + 's"
  assumes inc_ok: "inv s \<Longrightarrow> 0 < refs s i \<Longrightarrow>
      \<exists>s'. inc i s = Inr s' \<and> inv s' \<and> refs s' = (refs s)(i := Suc (refs s i))"
    and dec_ok: "inv s \<Longrightarrow> 0 < refs s i \<Longrightarrow>
      \<exists>s'. dec i s = Inr s' \<and> inv s' \<and> refs s' = (refs s)(i := refs s i - 1)"
begin

text \<open>Dropping a list of references never fails when each is covered, and drops exactly those.\<close>

lemma dec_all:
  "inv s \<Longrightarrow> (\<And>i. count_list xs i \<le> refs s i) \<Longrightarrow>
     \<exists>s'. fold_res dec xs s = Inr s' \<and> inv s' \<and> (\<forall>i. refs s' i = refs s i - count_list xs i)"
proof (induction xs arbitrary: s)
  case (Cons x xs)
  from Cons.prems(2)[of x] have "0 < refs s x" by simp
  with dec_ok[OF Cons.prems(1)] obtain s1 where s1: "dec x s = Inr s1" "inv s1"
    "refs s1 = (refs s)(x := refs s x - 1)" by blast
  have "count_list xs i \<le> refs s1 i" for i
    using Cons.prems(2)[of i] s1(3) by auto
  from Cons.IH[OF s1(2) this] obtain s' where "fold_res dec xs s1 = Inr s'" "inv s'"
    "\<forall>i. refs s' i = refs s1 i - count_list xs i" by blast
  with s1 show ?case by auto
qed simp

text \<open>Taking a reference and dropping it again restores every count.\<close>

lemma inc_dec:
  assumes "inv s" "0 < refs s i"
  shows "\<exists>s1 s2. inc i s = Inr s1 \<and> dec i s1 = Inr s2 \<and> inv s2 \<and> refs s2 = refs s"
proof -
  from inc_ok[OF assms] obtain s1 where s1: "inc i s = Inr s1" "inv s1"
    "refs s1 = (refs s)(i := Suc (refs s i))" by blast
  then have "0 < refs s1 i" by simp
  from dec_ok[OF s1(2) this] obtain s2 where "dec i s1 = Inr s2" "inv s2"
    "refs s2 = (refs s1)(i := refs s1 i - 1)" by blast
  with s1 show ?thesis by auto
qed

end

interpretation lease: refcount retention_inv refs_of retain release
  by unfold_locales (rule retain_ok release_ok; assumption)+

text \<open>\<open>retentionOwners.release\<close> on leases it owns gives every reference back and never panics.\<close>

lemma owners_release_ok:
  assumes "retention_inv b" "\<And>i. count_list (owner_leases os) i \<le> refs_of b i"
  shows "\<exists>b'. owners_release (os, b) = Inr (os\<lparr>owner_leases := []\<rparr>, b') \<and> retention_inv b' \<and>
     (\<forall>i. refs_of b' i = refs_of b i - count_list (owner_leases os) i)"
  using lease.dec_all[OF assms] by (auto simp: owners_release_def)

lemma owners_add_ok:
  assumes "retention_inv b" "0 < refs_of b i"
  shows "\<exists>b'. owners_add (Some i) (os, b) = Inr (os\<lparr>owner_leases := owner_leases os @ [i]\<rparr>, b')
     \<and> retention_inv b' \<and> refs_of b' = (refs_of b)(i := Suc (refs_of b i))"
  using retain_ok[OF assms] by (auto simp: owners_add_def)

section \<open>Runs of a whole client\<close>

text \<open>
  A state of the budget together with the references its users hold. Users reserve, hand out further
  references to a lease they hold, and drop a reference they hold, in any order.
\<close>

definition new_budget :: "int \<Rightarrow> int \<Rightarrow> notificationRetention" where
  "new_budget c n = \<lparr>ret_limit = \<lparr>MaxCount = c, MaxBytes = n\<rparr>, ret_count = 0, ret_bytes = 0,
     ret_leases = []\<rparr>"

inductive retention_step ::
  "notificationRetention \<times> nat multiset \<Rightarrow> notificationRetention \<times> nat multiset \<Rightarrow> bool" where
  admitted: "0 \<le> c \<Longrightarrow> 0 \<le> n \<Longrightarrow> reserve c n (Some b) = (Inr (Some i), Some b') \<Longrightarrow>
     retention_step (b, H) (b', add_mset i H)"
| refused: "reserve c n (Some b) = (Inl e, Some b') \<Longrightarrow> retention_step (b, H) (b', H)"
| retained: "i \<in># H \<Longrightarrow> retain i b = Inr b' \<Longrightarrow> retention_step (b, H) (b', add_mset i H)"
| released: "i \<in># H \<Longrightarrow> release i b = Inr b' \<Longrightarrow> retention_step (b, H) (b', H - {#i#})"

inductive retention_reachable :: "notificationRetention \<times> nat multiset \<Rightarrow> bool" where
  start: "0 \<le> c \<Longrightarrow> 0 \<le> n \<Longrightarrow> in_int64 c \<Longrightarrow> in_int64 n \<Longrightarrow>
     retention_reachable (new_budget c n, {#})"
| step: "retention_reachable s \<Longrightarrow> retention_step s t \<Longrightarrow> retention_reachable t"

inductive_cases retention_stepE: "retention_step (b, H) t"

definition held_inv :: "notificationRetention \<times> nat multiset \<Rightarrow> bool" where
  "held_inv s \<longleftrightarrow> retention_inv (fst s) \<and> (\<forall>i. refs_of (fst s) i = count (snd s) i)"

lemma held_inv_step:
  assumes "retention_step s t" "held_inv s"
  shows "held_inv t"
  using assms
proof (cases rule: retention_step.cases)
  case (admitted c n b i b' H)
  with assms(2) reserve_refs[OF admitted(5)] reserve_keeps_inv[OF _ admitted(3,4,5)]
  show ?thesis by (auto simp: held_inv_def)
next
  case (refused c n b e b' H)
  with assms(2) show ?thesis by (auto simp: held_inv_def split: if_splits)
next
  case (retained i H b b')
  from retained assms(2) have "retention_inv b" "0 < refs_of b i" by (auto simp: held_inv_def)
  from retain_ok[OF this] retained assms(2) show ?thesis by (auto simp: held_inv_def)
next
  case (released i H b b')
  from released assms(2) have "retention_inv b" "0 < refs_of b i" by (auto simp: held_inv_def)
  from release_ok[OF this] released assms(2) show ?thesis by (auto simp: held_inv_def)
qed

lemma held_inv_reachable: "retention_reachable s \<Longrightarrow> held_inv s"
proof (induction rule: retention_reachable.induct)
  case (start c n)
  then show ?case
    by (simp add: held_inv_def retention_inv_def new_budget_def live_sum_def refs_of_def)
qed (rule held_inv_step)


text \<open>One reservation, shared once, both references dropped again.\<close>

definition example_budget :: notificationRetention where
  "example_budget = \<lparr>ret_limit = \<lparr>MaxCount = 4, MaxBytes = 1024\<rparr>, ret_count = 3, ret_bytes = 768,
     ret_leases = [\<lparr>lease_count = 3, lease_bytes = 768, lease_refs = 1\<rparr>]\<rparr>"

lemma example_budget_reachable: "retention_reachable (example_budget, {#0#})"
proof (rule retention_reachable.step)
  show "retention_reachable (new_budget 4 1024, {#})"
    by (rule retention_reachable.start) (auto simp: in_int64_def int64_min_def int64_max_def)
  have "reserve 3 768 (Some (new_budget 4 1024)) = (Inr (Some 0), Some example_budget)"
    by (simp add: new_budget_def example_budget_def wrap64_def)
  then show "retention_step (new_budget 4 1024, {#}) (example_budget, {#0#})"
    using retention_step.admitted[of 3 768 "new_budget 4 1024" 0 example_budget "{#}"] by simp
qed


text \<open>The admission test of \<open>reserve\<close>, which compares with a 64-bit difference so that a sum cannot
  overflow, admits a charge exactly when the true sums fit the limits; a refused charge changes
  nothing and an admitted one adds exactly its count and bytes with one reference outstanding.\<close>

theorem reserve_exact:
  assumes "retention_inv b" "0 \<le> c" "0 \<le> n"
  shows "if ret_count b + c \<le> MaxCount (ret_limit b) \<and> ret_bytes b + n \<le> MaxBytes (ret_limit b)
    then \<exists>i b'. reserve c n (Some b) = (Inr (Some i), Some b') \<and> retention_inv b' \<and>
      ret_count b' = ret_count b + c \<and> ret_bytes b' = ret_bytes b + n \<and>
      refs_of b' = (refs_of b)(i := 1)
    else reserve c n (Some b) = (Inl ErrNotificationRetention, Some b)"
proof (cases "ret_count b + c \<le> MaxCount (ret_limit b) \<and> ret_bytes b + n \<le> MaxBytes (ret_limit b)")
  case True
  let ?i = "length (ret_leases b)"
  obtain b' where r: "reserve c n (Some b) = (Inr (Some ?i), Some b')"
    using True assms(1) by (simp add: room_exact)
  moreover have "ret_count b' = ret_count b + c" "ret_bytes b' = ret_bytes b + n"
    using r True assms retention_inv_bounds[OF assms(1)]
    by (auto simp: room_exact count_exact[OF assms(1)] bytes_exact[OF assms(1)] split: if_splits)
  ultimately show ?thesis
    using True reserve_keeps_inv[OF assms r] reserve_refs(2)[OF r] by auto
next
  case False
  then show ?thesis using assms(1) by (auto simp: room_exact)
qed

theorem reserve_exact_witness:
  "retention_inv example_budget \<and>
   reserve 2 16 (Some example_budget) = (Inl ErrNotificationRetention, Some example_budget)"
proof -
  have inv: "retention_inv example_budget"
    using held_inv_reachable[OF example_budget_reachable] by (simp add: held_inv_def)
  from reserve_exact[OF inv, of 2 16] inv show ?thesis
    by (simp add: example_budget_def)
qed

end
