(* ===== verification/Exact_Run.thy ===== *)
theory Exact_Run
  imports Attribution Retention "HOL-Library.Sublist"
begin

text \<open>
  The state of one exact run (\<open>exactRunState\<close> of \<open>codexsdk/exact_runner.go\<close>) and the history cursor
  over it (\<open>Stream\<close>). Every function below is one critical section of the run's mutex, so that any
  interleaving of goroutines is a sequence of them.

  The retention budget the run charges is shared with the rest of the client; \<open>store\<close> holds it
  together with the first panic of a retention operation. A Go panic ends the process: no claim is made
  of what follows once \<open>st_panic\<close> is set.

  Parameters: \<open>proto\<close> collects what the run asks of the generated protocol package: the method registry
  and the JSON clones of a notification, of a turn (its value and its error) and of a usage object.
\<close>

record proto =
  pr_LookupMethod :: "gostring \<Rightarrow> MethodInfo option"
  pr_clone :: "ServerNotification \<Rightarrow> go_error + ServerNotification"
  pr_clone_turn :: "Turn \<Rightarrow> Turn \<times> go_error option"
  pr_clone_usage :: "ThreadTokenUsage \<Rightarrow> go_error + ThreadTokenUsage"

record store =
  st_budget :: notificationRetention
  st_panic :: "panic option"

definition store_reserve :: "int \<Rightarrow> int \<Rightarrow> store \<Rightarrow> (go_error + lease_ptr) \<times> store" where
  "store_reserve c n st = (case reserve c n (Some (st_budget st)) of
      (r, Some b) \<Rightarrow> (r, st\<lparr>st_budget := b\<rparr>) | (r, None) \<Rightarrow> (r, st))"

definition store_release :: "lease_ptr \<Rightarrow> store \<Rightarrow> store" where
  "store_release l st = (case release_ptr l (st_budget st) of
      Inl p \<Rightarrow> st\<lparr>st_panic := Some p\<rparr> | Inr b \<Rightarrow> st\<lparr>st_budget := b\<rparr>)"

definition store_retain :: "lease_ptr \<Rightarrow> store \<Rightarrow> store" where
  "store_retain l st = (case retain_ptr l (st_budget st) of
      Inl p \<Rightarrow> st\<lparr>st_panic := Some p\<rparr> | Inr b \<Rightarrow> st\<lparr>st_budget := b\<rparr>)"

definition store_add :: "lease_ptr \<Rightarrow> retentionOwners \<Rightarrow> store \<Rightarrow> retentionOwners \<times> store" where
  "store_add l os st = (case owners_add l (os, st_budget st) of
      Inl p \<Rightarrow> (os, st\<lparr>st_panic := Some p\<rparr>) | Inr (os', b) \<Rightarrow> (os', st\<lparr>st_budget := b\<rparr>))"

section \<open>Results\<close>

record InputStats =
  is_ItemsCount :: nat
  is_TextBytes :: nat
  is_AttachmentCount :: nat
  is_InputItemsHash :: gostring

record DiagnosticRef =
  dr_Kind :: gostring
  dr_ID :: gostring
  dr_Path :: gostring
  dr_SizeBytes :: int
  dr_SHA256 :: gostring

record ThreadRunResult =
  rr_Turn :: Turn
  rr_Usage :: "ThreadTokenUsage option"
  rr_Notifications :: "ServerNotification list"
  rr_FinalResponse :: gostring
  rr_FinalResponsePresent :: bool
  rr_InputStats :: InputStats
  rr_Diagnostics :: "DiagnosticRef list"

text \<open>The exact thread/start or thread/resume response: its thread id and the rest of it.\<close>

record ThreadResponse =
  tr_ThreadID :: gostring
  tr_payload :: gostring

datatype run_result = StartedThreadRun ThreadResponse ThreadRunResult | ResumedThreadRun ThreadResponse ThreadRunResult

fun run_of :: "run_result \<Rightarrow> ThreadRunResult" where
  "run_of (StartedThreadRun _ r) = r"
| "run_of (ResumedThreadRun _ r) = r"

record exactRunState =
  rn_threadID :: gostring
  rn_turnID :: gostring
  rn_updated :: nat
  rn_done :: bool
  rn_result :: run_result
  rn_hasResult :: bool
  rn_err :: "go_error option"
  rn_terminal :: bool
  rn_terminalAdmitted :: bool
  rn_retained :: retentionOwners

definition ErrTurnFailed :: go_error where "ErrTurnFailed = ErrNew ''codexsdk: turn failed''"
definition ErrTurnInterrupted :: go_error where "ErrTurnInterrupted = ErrNew ''codexsdk: turn interrupted''"
definition ErrStreamClosed :: go_error where "ErrStreamClosed = ErrNew ''codexsdk: stream closed''"

definition TurnError :: "gostring \<Rightarrow> Turn \<Rightarrow> go_error \<Rightarrow> go_error" where
  "TurnError threadID turn err = ErrTyped ''codexsdk.TurnError'' [threadID, tn_ID turn, tn_Status turn] [err]"

definition newExactRunState :: "gostring \<Rightarrow> run_result \<Rightarrow> exactRunState" where
  "newExactRunState threadID result = \<lparr>rn_threadID = threadID, rn_turnID = [], rn_updated = 0, rn_done = False,
     rn_result = result, rn_hasResult = True, rn_err = None, rn_terminal = False, rn_terminalAdmitted = False,
     rn_retained = \<lparr>owner_leases = []\<rparr>\<rparr>"

definition updateRunLocked :: "(ThreadRunResult \<Rightarrow> ThreadRunResult) \<Rightarrow> exactRunState \<Rightarrow> exactRunState" where
  "updateRunLocked update s = s\<lparr>rn_result := (case rn_result s of
      StartedThreadRun a run \<Rightarrow> StartedThreadRun a (update run)
    | ResumedThreadRun a run \<Rightarrow> ResumedThreadRun a (update run))\<rparr>"

definition setTurn :: "Turn \<Rightarrow> exactRunState \<Rightarrow> exactRunState" where
  "setTurn turn s = updateRunLocked (\<lambda>run. if tn_ID (rr_Turn run) = [] then run\<lparr>rr_Turn := turn\<rparr> else run)
     (s\<lparr>rn_turnID := tn_ID turn\<rparr>)"

text \<open>The final response: the latest explicit final answer, or else the latest phase-absent message that
  is not blank. The loop runs from the last item to the first.\<close>

fun final_scan :: "ThreadItem list \<Rightarrow> gostring option \<Rightarrow> gostring \<times> bool" where
  "final_scan [] fallback = (case fallback of Some t \<Rightarrow> (t, True) | None \<Rightarrow> ([], False))"
| "final_scan (OtherItem # items) fallback = final_scan items fallback"
| "final_scan (AgentMessage text (Some phase) # items) fallback =
     (if phase = MessagePhaseFinalAnswer then (text, True) else final_scan items fallback)"
| "final_scan (AgentMessage text None # items) fallback =
     final_scan items (if fallback = None \<and> trim_space text \<noteq> [] then Some text else fallback)"

definition finalResponseFromExactTurn :: "Turn \<Rightarrow> gostring \<times> bool" where
  "finalResponseFromExactTurn turn = final_scan (rev (elems (tn_Items turn))) None"

section \<open>Accepting evidence\<close>

text \<open>The turn statuses are a string type in the source.\<close>

definition applyTerminalLocked ::
  "proto \<Rightarrow> ServerNotification \<Rightarrow> exactRunState \<Rightarrow> (bool \<times> go_error option) \<times> exactRunState" where
  "applyTerminalLocked P n s = (case sn_TurnCompleted n of None \<Rightarrow> ((False, None), s)
     | Some turn \<Rightarrow>
         let resultTurn = fst (pr_clone_turn P turn);
             (finalResponse, present) = finalResponseFromExactTurn resultTurn;
             s' = updateRunLocked (\<lambda>run. run\<lparr>rr_Turn := resultTurn, rr_FinalResponse := finalResponse,
                rr_FinalResponsePresent := present\<rparr>) s;
             errorTurn = fst (pr_clone_turn P turn)
         in ((True,
              if tn_Status turn = ''completed'' then None
              else if tn_Status turn = ''failed'' then Some (TurnError (rn_threadID s) errorTurn ErrTurnFailed)
              else if tn_Status turn = ''interrupted'' then Some (TurnError (rn_threadID s) errorTurn ErrTurnInterrupted)
              else Some (TurnError (rn_threadID s) turn (ErrWrap ''unexpected terminal status'' []))), s'))"

definition record_notification :: "ServerNotification \<Rightarrow> exactRunState \<Rightarrow> exactRunState" where
  "record_notification cloned = updateRunLocked (\<lambda>run.
     let run = run\<lparr>rr_Notifications := rr_Notifications run @ [cloned]\<rparr>
     in case sn_TokenUsage cloned of Some usage \<Rightarrow> run\<lparr>rr_Usage := Some usage\<rparr> | None \<Rightarrow> run)"

definition commit_notification ::
  "proto \<Rightarrow> ServerNotification \<Rightarrow> exactRunState \<Rightarrow> go_error option option \<times> exactRunState" where
  "commit_notification P cloned s =
     (case applyTerminalLocked P cloned (record_notification cloned s) of ((terminal, terminalErr), s) \<Rightarrow>
        (if terminal then Some terminalErr else None,
         s\<lparr>rn_terminalAdmitted := terminal, rn_updated := Suc (rn_updated s)\<rparr>))"

text \<open>
  The result is the completion to run once callbacks have seen the notification (\<open>Some\<close> of the error
  it finishes the run with) and the delivery error. A lease the caller supplies stays the caller's; one
  reserved here is released here.
\<close>

definition acceptRetainedBeforeTerminalCompletion ::
  "proto \<Rightarrow> ServerNotification \<Rightarrow> lease_ptr \<Rightarrow> exactRunState \<Rightarrow> store
    \<Rightarrow> (go_error option option \<times> go_error option) \<times> exactRunState \<times> store" where
  "acceptRetainedBeforeTerminalCompletion P n retained s st =
     (case attributionFor (pr_LookupMethod P) n of (class, identity) \<Rightarrow>
        if rn_terminal s \<or> rn_terminalAdmitted s \<or> class = notificationAttributionUnsupported
           \<or> \<not> matchesRun identity (rn_threadID s) (rn_turnID s)
        then ((None, None), s, st)
        else case (if retained \<noteq> None then (Inr retained, st)
                   else store_reserve 3 (wrap64 (3 * retainedValueBytes (sn_value n))) st) of
            (Inl err, st) \<Rightarrow> ((None, Some err), s, st)
          | (Inr lease, st) \<Rightarrow>
              let done = (\<lambda>st. if retained = None then store_release lease st else st)
              in case pr_clone P n of
                  Inl err \<Rightarrow> ((None, Some err), s, done st)
                | Inr cloned \<Rightarrow>
                    let (os, st) = store_add lease (rn_retained s) st;
                        (completion, s) = commit_notification P cloned (s\<lparr>rn_retained := os\<rparr>)
                    in ((completion, None), s, done st))"

definition addDiagnosticRetained ::
  "reflect_value \<Rightarrow> DiagnosticRef \<Rightarrow> lease_ptr \<Rightarrow> exactRunState \<Rightarrow> store \<Rightarrow> go_error option \<times> exactRunState \<times> store" where
  "addDiagnosticRetained refv ref l s st =
     (case (if l \<noteq> None then (Inr l, st) else store_reserve 1 (retainedValueBytes refv) st) of
        (Inl err, st) \<Rightarrow> (Some err, s, st)
      | (Inr lease, st) \<Rightarrow>
          let done = (\<lambda>st. if l = None then store_release lease st else st)
          in if rn_terminal s then (None, s, done st)
             else let (os, st) = store_add lease (rn_retained s) st
                  in (None, updateRunLocked (\<lambda>run. run\<lparr>rr_Diagnostics := rr_Diagnostics run @ [ref]\<rparr>)
                        (s\<lparr>rn_retained := os\<rparr>), done st))"

text \<open>
  \<open>finishState\<close>: the client's close reason, or else its failure, takes the place of the given error.
  Closing \<open>done\<close> a second time would panic; \<open>rn_done\<close> says whether it is closed.
\<close>

definition finishState ::
  "go_error option \<Rightarrow> go_error option \<Rightarrow> go_error option \<Rightarrow> exactRunState \<Rightarrow> (panic + bool) \<times> exactRunState" where
  "finishState closeReason failure err s =
     (if rn_terminal s then (Inr False, s)
      else let err = (if closeReason \<noteq> None then closeReason else if failure \<noteq> None then failure else err)
           in if rn_done s then (Inl (Panic ''close of closed channel''), s\<lparr>rn_err := err, rn_terminal := True\<rparr>)
              else (Inr True, s\<lparr>rn_err := err, rn_terminal := True, rn_done := True\<rparr>))"

section \<open>Cursors\<close>

record Stream =
  str_cursor :: nat
  str_current :: "ServerNotification option"

definition notificationAtLocked :: "nat \<Rightarrow> exactRunState \<Rightarrow> ServerNotification option" where
  "notificationAtLocked index s =
     (if index < length (rr_Notifications (run_of (rn_result s)))
      then Some (rr_Notifications (run_of (rn_result s)) ! index) else None)"

text \<open>What ends the \<open>select\<close> of one round of \<open>Next\<close>.\<close>

datatype wake = WakeUpdated | WakeCtx | WakeDone

text \<open>
  \<open>Next\<close> on the run states its rounds see, each with the event that ends the round's wait; \<open>None\<close> when
  the list ends while it still waits.
\<close>

fun Next :: "(exactRunState \<times> wake) list \<Rightarrow> Stream \<Rightarrow> bool option \<times> Stream" where
  "Next [] c = (None, c)"
| "Next ((s, w) # rounds) c = (case notificationAtLocked (str_cursor c) s of
      Some n \<Rightarrow> (Some True, \<lparr>str_cursor = Suc (str_cursor c), str_current = Some n\<rparr>)
    | None \<Rightarrow>
        if rn_terminal s then (Some False, c)
        else if w = WakeCtx then (Some False, c)
        else Next rounds c)"

definition cloneThreadRunResult :: "proto \<Rightarrow> ThreadRunResult \<Rightarrow> go_error + ThreadRunResult" where
  "cloneThreadRunResult P run =
     (let t = rr_Turn run;
          turn = (if tn_ID t \<noteq> [] \<or> tn_Items t \<noteq> None \<or> tn_Status t \<noteq> []
                  then (case pr_clone_turn P t of (_, Some e) \<Rightarrow> Inl e | (c, None) \<Rightarrow> Inr c) else Inr t);
          usage = (case rr_Usage run of None \<Rightarrow> Inr None
            | Some u \<Rightarrow> (case pr_clone_usage P u of Inl e \<Rightarrow> Inl e | Inr c \<Rightarrow> Inr (Some c)))
      in case turn of Inl e \<Rightarrow> Inl e
       | Inr turn \<Rightarrow> (case usage of Inl e \<Rightarrow> Inl e
           | Inr usage \<Rightarrow> (case seq_res (map (pr_clone P) (rr_Notifications run)) of Inl e \<Rightarrow> Inl e
               | Inr ns \<Rightarrow> Inr (run\<lparr>rr_Turn := turn, rr_Usage := usage, rr_Notifications := ns\<rparr>))))"

text \<open>The exact thread response is cloned by the generated decoder, the parameter \<open>clone_response\<close>.\<close>

definition cloneExactResult ::
  "(ThreadResponse \<Rightarrow> go_error + ThreadResponse) \<Rightarrow> proto \<Rightarrow> run_result \<Rightarrow> go_error + run_result" where
  "cloneExactResult clone_response P result = (case result of
      StartedThreadRun start run \<Rightarrow> (case clone_response start of Inl e \<Rightarrow> Inl e
        | Inr start \<Rightarrow> (case cloneThreadRunResult P run of Inl e \<Rightarrow> Inl e | Inr run \<Rightarrow> Inr (StartedThreadRun start run)))
    | ResumedThreadRun resume run \<Rightarrow> (case clone_response resume of Inl e \<Rightarrow> Inl e
        | Inr resume \<Rightarrow> (case cloneThreadRunResult P run of Inl e \<Rightarrow> Inl e | Inr run \<Rightarrow> Inr (ResumedThreadRun resume run))))"

text \<open>The clone of a result may fail; \<open>clone_result\<close> below stands for \<open>cloneExactResult\<close>.\<close>

definition waitSnapshot ::
  "(run_result \<Rightarrow> go_error + run_result) \<Rightarrow> exactRunState \<Rightarrow> go_error option
    \<Rightarrow> run_result option \<times> go_error option \<times> bool" where
  "waitSnapshot clone_result s waitErr =
     (if \<not> rn_hasResult s then
        (if rn_terminal s then (None, rn_err s, True) else (None, waitErr, False))
      else case clone_result (rn_result s) of
          Inl err \<Rightarrow> (None, Some err, rn_terminal s)
        | Inr cloned \<Rightarrow> if rn_terminal s then (Some cloned, rn_err s, True) else (Some cloned, waitErr, False))"

text \<open>\<open>Wait\<close> with the state at its first look and the state and event that end its wait.\<close>

definition Wait ::
  "(run_result \<Rightarrow> go_error + run_result) \<Rightarrow> exactRunState \<Rightarrow> exactRunState \<Rightarrow> go_error option
    \<Rightarrow> run_result option \<times> go_error option" where
  "Wait clone_result first later ctxErr =
     (case waitSnapshot clone_result first None of
        (result, err, True) \<Rightarrow> (result, err)
      | _ \<Rightarrow> (case waitSnapshot clone_result later ctxErr of (result, err, _) \<Rightarrow> (result, err)))"

definition Stream_Result :: "(run_result \<Rightarrow> go_error + run_result) \<Rightarrow> exactRunState \<Rightarrow> run_result option" where
  "Stream_Result clone_result s = (if \<not> rn_hasResult s then None
     else case clone_result (rn_result s) of Inl _ \<Rightarrow> None | Inr r \<Rightarrow> Some r)"

definition Stream_Err :: "exactRunState option \<Rightarrow> go_error option" where
  "Stream_Err s = (case s of None \<Rightarrow> Some ErrStreamClosed | Some s \<Rightarrow> rn_err s)"

section \<open>Input statistics\<close>

text \<open>\<open>UserInput\<close> is a generated union; the hash of the marshalled input is the parameter \<open>input_hash\<close>.\<close>

datatype UserInput =
    UserInputText gostring | UserInputImage | UserInputLocalImage | UserInputSkill | UserInputMention | UserInputOther

definition exactInputStats :: "(UserInput slice \<Rightarrow> gostring) \<Rightarrow> UserInput slice \<Rightarrow> InputStats" where
  "exactInputStats input_hash input =
     \<lparr>is_ItemsCount = length (elems input),
      is_TextBytes = sum_list (map (\<lambda>i. case i of UserInputText t \<Rightarrow> length t | _ \<Rightarrow> 0) (elems input)),
      is_AttachmentCount = length (filter (\<lambda>i. i \<in> {UserInputImage, UserInputLocalImage, UserInputSkill, UserInputMention}) (elems input)),
      is_InputItemsHash = input_hash input\<rparr>"

section \<open>Frozen and growing evidence\<close>

definition notifications :: "exactRunState \<Rightarrow> ServerNotification list" where
  "notifications s = rr_Notifications (run_of (rn_result s))"

definition diagnostics :: "exactRunState \<Rightarrow> DiagnosticRef list" where
  "diagnostics s = rr_Diagnostics (run_of (rn_result s))"

text \<open>The evidence of a run apart from its diagnostics.\<close>

definition evidence :: "exactRunState \<Rightarrow> ServerNotification list \<times> ThreadTokenUsage option \<times> gostring \<times> bool" where
  "evidence s = (let r = run_of (rn_result s) in
     (rr_Notifications r, rr_Usage r, rr_FinalResponse r, rr_FinalResponsePresent r))"

text \<open>
  How a run may change: the history only grows, it is frozen once a terminal notification is admitted,
  and a finished run keeps its error, its diagnostics and its end.
\<close>

definition run_le :: "exactRunState \<Rightarrow> exactRunState \<Rightarrow> bool" where
  "run_le s s' \<longleftrightarrow> rn_threadID s' = rn_threadID s \<and> rn_hasResult s' = rn_hasResult s \<and>
     prefix (notifications s) (notifications s') \<and> prefix (diagnostics s) (diagnostics s') \<and>
     (rn_terminalAdmitted s \<longrightarrow> rn_terminalAdmitted s' \<and> evidence s' = evidence s) \<and>
     (rn_terminal s \<longrightarrow> rn_terminal s' \<and> rn_err s' = rn_err s \<and> evidence s' = evidence s \<and> diagnostics s' = diagnostics s)"

lemma run_le_refl [simp]: "run_le s s"
  by (simp add: run_le_def)

lemma run_le_trans: "run_le a b \<Longrightarrow> run_le b c \<Longrightarrow> run_le a c"
  by (auto simp: run_le_def intro: prefix_order.trans)

text \<open>A run is closed exactly when it is terminal, and only a terminal run has an error.\<close>

definition run_ok :: "exactRunState \<Rightarrow> bool" where
  "run_ok s \<longleftrightarrow> rn_done s = rn_terminal s \<and> (rn_err s = None \<or> rn_terminal s)"

lemma updateRunLocked_simps [simp]:
  "run_of (rn_result (updateRunLocked f s)) = f (run_of (rn_result s))"
  "rn_threadID (updateRunLocked f s) = rn_threadID s" "rn_turnID (updateRunLocked f s) = rn_turnID s"
  "rn_done (updateRunLocked f s) = rn_done s" "rn_err (updateRunLocked f s) = rn_err s"
  "rn_terminal (updateRunLocked f s) = rn_terminal s" "rn_hasResult (updateRunLocked f s) = rn_hasResult s"
  "rn_terminalAdmitted (updateRunLocked f s) = rn_terminalAdmitted s"
  "rn_updated (updateRunLocked f s) = rn_updated s" "rn_retained (updateRunLocked f s) = rn_retained s"
  by (auto simp: updateRunLocked_def split: run_result.splits)

lemmas run_views = notifications_def diagnostics_def evidence_def Let_def

lemma setTurn_le: "run_le s (setTurn t s)" "run_ok s \<Longrightarrow> run_ok (setTurn t s)"
  by (auto simp: setTurn_def run_le_def run_views run_ok_def)

lemma record_notification_run:
  "rr_Notifications (run_of (rn_result (record_notification n s))) = notifications s @ [n]"
  "rr_Diagnostics (run_of (rn_result (record_notification n s))) = diagnostics s"
  by (auto simp: record_notification_def run_views split: option.splits)

lemma record_notification_simps [simp]:
  "rn_threadID (record_notification n s) = rn_threadID s" "rn_turnID (record_notification n s) = rn_turnID s"
  "rn_done (record_notification n s) = rn_done s" "rn_err (record_notification n s) = rn_err s"
  "rn_terminal (record_notification n s) = rn_terminal s" "rn_hasResult (record_notification n s) = rn_hasResult s"
  "rn_terminalAdmitted (record_notification n s) = rn_terminalAdmitted s"
  by (auto simp: record_notification_def)

lemma applyTerminal_run:
  assumes "applyTerminalLocked P n s = ((terminal, err), s')"
  shows "notifications s' = notifications s \<and> diagnostics s' = diagnostics s \<and> rn_threadID s' = rn_threadID s \<and>
    rn_turnID s' = rn_turnID s \<and> rn_done s' = rn_done s \<and> rn_err s' = rn_err s \<and> rn_terminal s' = rn_terminal s \<and>
    rn_hasResult s' = rn_hasResult s \<and> (terminal \<longleftrightarrow> sn_TurnCompleted n \<noteq> None)"
  using assms by (auto simp: applyTerminalLocked_def run_views split: option.splits prod.splits if_splits)

lemma commit_run:
  assumes "commit_notification P m s = (completion, s')"
  shows "notifications s' = notifications s @ [m] \<and> diagnostics s' = diagnostics s \<and> rn_threadID s' = rn_threadID s \<and>
    rn_turnID s' = rn_turnID s \<and> rn_done s' = rn_done s \<and> rn_err s' = rn_err s \<and> rn_terminal s' = rn_terminal s \<and>
    rn_hasResult s' = rn_hasResult s \<and> (rn_terminalAdmitted s' \<longleftrightarrow> completion \<noteq> None) \<and>
    (completion \<noteq> None \<longleftrightarrow> sn_TurnCompleted m \<noteq> None)"
proof -
  obtain terminal err s1 where t: "applyTerminalLocked P m (record_notification m s) = ((terminal, err), s1)"
    by (metis prod.exhaust)
  from assms t have s': "completion = (if terminal then Some err else None)"
    "s' = s1\<lparr>rn_terminalAdmitted := terminal, rn_updated := Suc (rn_updated s1)\<rparr>"
    by (auto simp: commit_notification_def)
  from applyTerminal_run[OF t] show ?thesis
    using record_notification_run[of m s] unfolding s' by (simp add: notifications_def diagnostics_def)
qed

text \<open>What accepting a notification does to the run: nothing, or it appends exactly one clone of it.\<close>

definition admissible :: "proto \<Rightarrow> ServerNotification \<Rightarrow> exactRunState \<Rightarrow> bool" where
  "admissible P n s \<longleftrightarrow> \<not> rn_terminal s \<and> \<not> rn_terminalAdmitted s \<and>
     fst (attributionFor (pr_LookupMethod P) n) \<noteq> notificationAttributionUnsupported \<and>
     matchesRun (snd (attributionFor (pr_LookupMethod P) n)) (rn_threadID s) (rn_turnID s)"

definition reserve_for :: "lease_ptr \<Rightarrow> ServerNotification \<Rightarrow> store \<Rightarrow> (go_error + lease_ptr) \<times> store" where
  "reserve_for l n st = (if l \<noteq> None then (Inr l, st)
     else store_reserve 3 (wrap64 (3 * retainedValueBytes (sn_value n))) st)"

lemma accept_unfold:
  "acceptRetainedBeforeTerminalCompletion P n l s st =
     (if \<not> admissible P n s then ((None, None), s, st)
      else case reserve_for l n st of (Inl err, st) \<Rightarrow> ((None, Some err), s, st)
        | (Inr lease, st) \<Rightarrow> (case pr_clone P n of
            Inl err \<Rightarrow> ((None, Some err), s, if l = None then store_release lease st else st)
          | Inr m \<Rightarrow> (case store_add lease (rn_retained s) st of (os, st) \<Rightarrow>
              (case commit_notification P m (s\<lparr>rn_retained := os\<rparr>) of (completion, s) \<Rightarrow>
                 ((completion, None), s, if l = None then store_release lease st else st)))))"
  by (auto simp: acceptRetainedBeforeTerminalCompletion_def admissible_def reserve_for_def Let_def split: prod.split sum.split)

lemma accept_cases:
  assumes "acceptRetainedBeforeTerminalCompletion P n l s st = ((completion, err), s', st')"
  obtains (ignored) "s' = s" "completion = None"
  | (accepted) m os where "admissible P n s" "pr_clone P n = Inr m" "err = None"
      "commit_notification P m (s\<lparr>rn_retained := os\<rparr>) = (completion, s')"
  using assms
  by (auto simp: accept_unfold split: prod.splits sum.splits if_splits)

lemma accept_le_ok:
  assumes "acceptRetainedBeforeTerminalCompletion P n l s st = ((completion, err), s', st')"
  shows "run_le s s' \<and> (run_ok s \<longrightarrow> run_ok s')"
  using assms
proof (cases rule: accept_cases)
  case (accepted m os)
  have s: "\<not> rn_terminal s" "\<not> rn_terminalAdmitted s" using accepted(1) by (auto simp: admissible_def)
  from commit_run[OF accepted(4)] show ?thesis
    using s by (auto simp: run_le_def run_ok_def notifications_def diagnostics_def)
qed simp

lemmas accept_le = accept_le_ok[THEN conjunct1]
lemmas accept_ok = accept_le_ok[THEN conjunct2, THEN mp]

lemma addDiagnostic_le:
  assumes "addDiagnosticRetained v ref l s st = (err, s', st')"
  shows "run_le s s'" "run_ok s \<Longrightarrow> run_ok s'"
  using assms
  by (auto simp: addDiagnosticRetained_def Let_def run_le_def run_views run_ok_def
      split: prod.splits sum.splits if_splits)

lemma finishState_le:
  assumes "finishState reason failure e s = (r, s')"
  shows "run_le s s'"
  using assms by (auto simp: finishState_def Let_def run_le_def run_views split: if_splits)

lemma finishState_ok:
  assumes "finishState reason failure e s = (r, s')" "run_ok s"
  shows "run_ok s' \<and> r = Inr (\<not> rn_terminal s) \<and> rn_terminal s'"
  using assms by (auto simp: finishState_def Let_def run_ok_def split: if_splits)

section \<open>The final response\<close>

text \<open>The agent messages of a turn, in order, that are final answers, and those that may stand in.\<close>

definition final_answers :: "ThreadItem list \<Rightarrow> gostring list" where
  "final_answers items = List.map_filter (\<lambda>i. case i of AgentMessage t (Some MessagePhaseFinalAnswer) \<Rightarrow> Some t | _ \<Rightarrow> None) items"

definition fallbacks :: "ThreadItem list \<Rightarrow> gostring list" where
  "fallbacks items = List.map_filter (\<lambda>i. case i of AgentMessage t None \<Rightarrow> if trim_space t \<noteq> [] then Some t else None | _ \<Rightarrow> None) items"

lemma message_simps [simp]:
  "final_answers [] = []" "fallbacks [] = []"
  "final_answers (OtherItem # items) = final_answers items" "fallbacks (OtherItem # items) = fallbacks items"
  "final_answers (AgentMessage t (Some ph) # items) =
     (if ph = MessagePhaseFinalAnswer then t # final_answers items else final_answers items)"
  "fallbacks (AgentMessage t (Some ph) # items) = fallbacks items"
  "final_answers (AgentMessage t None # items) = final_answers items"
  "fallbacks (AgentMessage t None # items) = (if trim_space t \<noteq> [] then t # fallbacks items else fallbacks items)"
  by (auto simp: final_answers_def fallbacks_def List.map_filter_simps split: MessagePhase.split)

lemma final_scan_spec:
  "final_scan items fb =
     (case final_answers items of t # _ \<Rightarrow> (t, True)
      | [] \<Rightarrow> (case fb of Some t \<Rightarrow> (t, True)
          | None \<Rightarrow> (case fallbacks items of t # _ \<Rightarrow> (t, True) | [] \<Rightarrow> ([], False))))"
  by (induction items fb rule: final_scan.induct) (auto split: list.splits option.splits)

lemma map_filter_rev: "List.map_filter f (rev xs) = rev (List.map_filter f xs)"
  by (simp add: List.map_filter_def rev_filter rev_map)

text \<open>
  The final response of a completed turn is its latest explicit final answer, even an empty one;
  without one, its latest phase-absent message that is not blank; and otherwise it is reported absent.
\<close>

theorem finalResponse_spec:
  "finalResponseFromExactTurn turn =
     (let items = elems (tn_Items turn) in
      if final_answers items \<noteq> [] then (last (final_answers items), True)
      else if fallbacks items \<noteq> [] then (last (fallbacks items), True)
      else ([], False))"
proof -
  have "(case rev xs of t # _ \<Rightarrow> (t, True) | [] \<Rightarrow> d) = (if xs \<noteq> [] then (last xs, True) else d)"
    for xs :: "gostring list" and d
    by (cases xs rule: rev_cases) auto
  then show ?thesis
    by (simp add: finalResponseFromExactTurn_def final_scan_spec final_answers_def fallbacks_def map_filter_rev Let_def)
qed

section \<open>The life of a run\<close>

text \<open>One critical section of some goroutine, on a run and the shared budget.\<close>

inductive run_step :: "proto \<Rightarrow> exactRunState \<times> store \<Rightarrow> exactRunState \<times> store \<Rightarrow> bool" for P where
  accept: "acceptRetainedBeforeTerminalCompletion P n l s st = (r, s', st') \<Longrightarrow> run_step P (s, st) (s', st')"
| diagnostic: "addDiagnosticRetained v ref l s st = (r, s', st') \<Longrightarrow> run_step P (s, st) (s', st')"
| set_turn: "run_step P (s, st) (setTurn t s, st)"
| finish: "finishState reason failure e s = (r, s') \<Longrightarrow> run_step P (s, st) (s', st)"
| elsewhere: "run_step P (s, st) (s, st')"

inductive_cases run_stepE: "run_step P (s, st) t"

lemma run_step_le: "run_step P x y \<Longrightarrow> run_le (fst x) (fst y)"
proof (induction rule: run_step.induct)
  case (accept n l s st r s' st')
  then show ?case by (cases r) (auto dest: accept_le)
qed (auto dest: addDiagnostic_le(1) finishState_le simp: setTurn_le)

lemma run_step_ok: "run_step P x y \<Longrightarrow> run_ok (fst x) \<Longrightarrow> run_ok (fst y)"
proof (induction rule: run_step.induct)
  case (accept n l s st r s' st')
  then show ?case by (cases r) (auto dest: accept_ok)
qed (auto dest: addDiagnostic_le(2) finishState_ok simp: setTurn_le)

text \<open>
  C4: whatever goroutines do to a run, in whatever order: its history only grows; once a terminal
  notification is admitted the evidence is frozen, even while its callback is still pending; once it is
  finished its error and its diagnostics are frozen too; and its \<open>done\<close> channel is closed exactly once.
\<close>

theorem run_history_frozen:
  assumes "(run_step P)\<^sup>*\<^sup>* (s, st) (s', st')" "run_ok s"
  shows "run_le s s' \<and> run_ok s' \<and> (\<forall>reason failure e. fst (finishState reason failure e s') = Inr (\<not> rn_terminal s'))"
proof -
  have "run_le (fst x) (fst y) \<and> (run_ok (fst x) \<longrightarrow> run_ok (fst y))" if "(run_step P)\<^sup>*\<^sup>* x y" for x y
    using that
  proof (induction rule: rtranclp_induct)
    case (step y z)
    then show ?case using run_step_le run_step_ok run_le_trans by blast
  qed simp
  from this[OF assms(1)] assms(2) have "run_le s s'" "run_ok s'" by auto
  moreover from \<open>run_ok s'\<close> have "fst (finishState reason failure e s') = Inr (\<not> rn_terminal s')" for reason failure e
    using finishState_ok[of reason failure e s'] by (metis prod.collapse)
  ultimately show ?thesis by blast
qed

text \<open>A run that records one token-usage notification and is then closed.\<close>

definition example_proto :: proto where
  "example_proto = \<lparr>pr_LookupMethod = (\<lambda>_. Some \<lparr>mi_Direction = MethodDirectionServerToClient, mi_Kind = MethodKindNotification\<rparr>),
     pr_clone = Inr, pr_clone_turn = (\<lambda>t. (t, None)), pr_clone_usage = Inr\<rparr>"

definition example_notification :: ServerNotification where
  "example_notification = \<lparr>sn_Kind = ''k'',
     sn_json = Some (''{'' @ marshal_string ''threadId'' @ '':'' @ marshal_string ''t'' @ ''}''),
     sn_TurnCompleted = None, sn_TokenUsage = None, sn_value = RInvalid\<rparr>"

definition example_run :: exactRunState where
  "example_run = newExactRunState ''t'' (StartedThreadRun \<lparr>tr_ThreadID = ''t'', tr_payload = []\<rparr>
     \<lparr>rr_Turn = empty_turn, rr_Usage = None, rr_Notifications = [],
      rr_FinalResponse = [], rr_FinalResponsePresent = False,
      rr_InputStats = \<lparr>is_ItemsCount = 0, is_TextBytes = 0, is_AttachmentCount = 0, is_InputItemsHash = []\<rparr>,
      rr_Diagnostics = []\<rparr>)"

definition example_store :: store where
  "example_store = \<lparr>st_budget = new_budget 10 10000, st_panic = None\<rparr>"

definition example_after :: exactRunState where
  "example_after = fst (snd (acceptRetainedBeforeTerminalCompletion example_proto example_notification None example_run example_store))"

lemma example_accepts: "notifications example_after = [example_notification]"
  by code_simp

lemma example_steps: "(run_step example_proto)\<^sup>*\<^sup>* (example_run, example_store) (example_after,
    snd (snd (acceptRetainedBeforeTerminalCompletion example_proto example_notification None example_run example_store)))"
  by (rule r_into_rtranclp, rule run_step.accept) (auto simp: example_after_def intro: prod_eqI)

theorem run_history_frozen_witness:
  "prefix (notifications example_run) (notifications example_after) \<and> run_ok example_after"
  using run_history_frozen[OF example_steps]
  by (simp add: run_ok_def example_run_def newExactRunState_def run_le_def)

section \<open>Reading a history\<close>

text \<open>The notifications that repeated calls of \<open>Next\<close> on one cursor deliver, until one returns false.\<close>

fun drain :: "(exactRunState \<times> wake) list list \<Rightarrow> Stream \<Rightarrow> ServerNotification list" where
  "drain [] c = []"
| "drain (r # rs) c = (case Next r c of
      (Some True, c') \<Rightarrow> the (str_current c') # drain rs c' | _ \<Rightarrow> [])"

lemma Next_True:
  "Next r c = (Some True, c') \<Longrightarrow> \<exists>s w. (s, w) \<in> set r \<and> str_cursor c < length (notifications s) \<and>
     c' = \<lparr>str_cursor = Suc (str_cursor c), str_current = Some (notifications s ! str_cursor c)\<rparr>"
  by (induction r c rule: Next.induct)
    (auto simp: notificationAtLocked_def notifications_def split: option.splits if_splits)

lemma Next_False:
  "Next r c = (Some False, c') \<Longrightarrow> c' = c \<and> (\<exists>s w. (s, w) \<in> set r \<and> length (notifications s) \<le> str_cursor c \<and>
     (rn_terminal s \<or> w = WakeCtx))"
  by (induction r c rule: Next.induct)
    (fastforce simp: notificationAtLocked_def notifications_def not_less split: option.splits if_splits)+

lemma drain_take:
  assumes "\<And>r s w. r \<in> set rs \<Longrightarrow> (s, w) \<in> set r \<Longrightarrow> prefix (notifications s) h"
  shows "drain rs c = take (length (drain rs c)) (drop (str_cursor c) h)"
  using assms
proof (induction rs arbitrary: c)
  case (Cons r rs)
  show ?case
  proof (cases "\<exists>c'. Next r c = (Some True, c')")
    case True
    then obtain c' where c': "Next r c = (Some True, c')" by blast
    then obtain s w where s: "(s, w) \<in> set r" "str_cursor c < length (notifications s)"
      "c' = \<lparr>str_cursor = Suc (str_cursor c), str_current = Some (notifications s ! str_cursor c)\<rparr>"
      using Next_True by blast
    from Cons.prems[of r] s(1) have p: "prefix (notifications s) h" by simp
    with s(2) have "drop (str_cursor c) h = notifications s ! str_cursor c # drop (Suc (str_cursor c)) h"
      by (metis Cons_nth_drop_Suc nth_append prefixE prefix_length_le order.strict_trans2)
    moreover have "drain rs c' = take (length (drain rs c')) (drop (str_cursor c') h)"
      using Cons.prems by (intro Cons.IH) auto
    ultimately show ?thesis using c' s(3) by simp
  next
    case False
    then show ?thesis by (cases "Next r c") (auto split: option.splits bool.splits)
  qed
qed simp

text \<open>
  C5: a cursor reads the run's history in order, without gaps or repetitions, however the run grows
  between the calls; and it reports the end only when its context ends or the run is finished and every
  notification has been delivered.
\<close>

theorem cursor_reads_history:
  assumes "\<forall>r \<in> set rs. \<forall>(s, w) \<in> set r. run_le s final"
  shows "drain rs c = take (length (drain rs c)) (drop (str_cursor c) (notifications final)) \<and>
    (\<forall>r \<in> set rs. Next r c = (Some False, c) \<longrightarrow>
       (\<exists>(s, w) \<in> set r. w = WakeCtx \<or> rn_terminal s \<and> notifications s = notifications final \<and>
          length (notifications final) \<le> str_cursor c))"
proof (intro conjI ballI impI)
  show "drain rs c = take (length (drain rs c)) (drop (str_cursor c) (notifications final))"
    using assms by (intro drain_take) (auto simp: run_le_def)
  fix r assume r: "r \<in> set rs" "Next r c = (Some False, c)"
  from Next_False[OF r(2)] obtain s w where s: "(s, w) \<in> set r" "length (notifications s) \<le> str_cursor c"
    "rn_terminal s \<or> w = WakeCtx" by blast
  with assms r(1) have "run_le s final" by blast
  then have "rn_terminal s \<Longrightarrow> notifications s = notifications final"
    by (simp add: run_le_def run_views)
  with s show "\<exists>(s, w) \<in> set r. w = WakeCtx \<or> rn_terminal s \<and> notifications s = notifications final \<and>
      length (notifications final) \<le> str_cursor c"
    by force
qed

definition example_rounds :: "(exactRunState \<times> wake) list list" where
  "example_rounds = [[(example_run, WakeUpdated), (example_after, WakeUpdated)]]"

theorem cursor_reads_history_witness:
  "drain example_rounds \<lparr>str_cursor = 0, str_current = None\<rparr> = [example_notification]"
proof -
  have "run_le example_run example_after"
    unfolding example_after_def by (metis accept_le prod.collapse)
  then have "\<forall>r \<in> set example_rounds. \<forall>(s, w) \<in> set r. run_le s example_after"
    by (simp add: example_rounds_def)
  from cursor_reads_history[OF this, of "\<lparr>str_cursor = 0, str_current = None\<rparr>"]
  have "drain example_rounds \<lparr>str_cursor = 0, str_current = None\<rparr>
      = take (length (drain example_rounds \<lparr>str_cursor = 0, str_current = None\<rparr>)) [example_notification]"
    using example_accepts by simp
  moreover have "length (drain example_rounds \<lparr>str_cursor = 0, str_current = None\<rparr>) = 1"
    using example_accepts
    by (simp add: example_rounds_def notificationAtLocked_def notifications_def example_run_def newExactRunState_def)
  ultimately show ?thesis by simp
qed

section \<open>Waiting\<close>

lemma cloneThreadRunResult_id:
  assumes "\<And>n. pr_clone P n = Inr n" "\<And>t. pr_clone_turn P t = (t, None)" "\<And>u. pr_clone_usage P u = Inr u"
  shows "cloneThreadRunResult P run = Inr run"
proof -
  have "seq_res (map Inr xs :: (go_error + ServerNotification) list) = Inr xs" for xs
    by (induction xs) auto
  moreover have "pr_clone P = Inr" using assms(1) by auto
  ultimately show ?thesis
    using assms(2,3) by (auto simp: cloneThreadRunResult_def Let_def split: option.splits)
qed

text \<open>
  Waiting on a run returns the run's own outcome whenever the run has finished, even if the waiting
  context ended at the same time; a context that ends first gives its error with the evidence so far.
  Clones are assumed to preserve what they clone.
\<close>

theorem Wait_terminal_wins:
  assumes "\<forall>n. pr_clone P n = Inr n" "\<forall>t. pr_clone_turn P t = (t, None)" "\<forall>u. pr_clone_usage P u = Inr u"
    "\<forall>r. clone_response r = Inr r" "rn_hasResult first" "run_le first later"
  shows "Wait (cloneExactResult clone_response P) first later ctxErr =
    (if rn_terminal first then (Some (rn_result first), rn_err first)
     else if rn_terminal later then (Some (rn_result later), rn_err later)
     else (Some (rn_result later), ctxErr))"
proof -
  have "cloneExactResult clone_response P r = Inr r" for r
    using assms(1-4) by (cases r) (simp_all add: cloneExactResult_def cloneThreadRunResult_id)
  with assms(5,6) show ?thesis by (auto simp: Wait_def waitSnapshot_def run_le_def)
qed

theorem Wait_terminal_wins_witness:
  "Wait (cloneExactResult Inr example_proto) example_run example_after (Some ErrStreamClosed)
   = (Some (rn_result example_after), Some ErrStreamClosed)"
proof -
  have le: "run_le example_run example_after"
    unfolding example_after_def by (metis accept_le prod.collapse)
  have t: "\<not> rn_terminal example_run" "rn_hasResult example_run" "\<not> rn_terminal example_after"
    by code_simp+
  show ?thesis
    using Wait_terminal_wins[of example_proto Inr, OF _ _ _ _ t(2) le, of "Some ErrStreamClosed"] t
    by (simp add: example_proto_def)
qed

end
