(* ===== verification/Envelope.thy ===== *)
theory Envelope
  imports JSON_Scan
begin

text \<open>
  \<open>codexsdk/jsonrpc_envelope.go\<close>: the strict JSON-RPC envelope. One pass over the frame collects the
  top-level fields as raw messages and rejects duplicates; the presence of \<open>id\<close>, \<open>method\<close>,
  \<open>result\<close> and \<open>error\<close> selects the kind; the kind's validator checks the fields; and every field is
  kept in the message that is routed.

  The generated decoder of the request's optional trace context is the parameter \<open>trace_ok\<close>: whether
  \<open>json.Unmarshal\<close> accepts the raw field. \<open>RequestId\<close> is the generated union of
  \<open>protocolv2/protocol_types.gen.go\<close>.
\<close>

datatype jsonRPCEnvelopeKind = jsonRPCRequest | jsonRPCNotification | jsonRPCResponse | jsonRPCError

record jsonRPCEnvelope =
  env_kind :: jsonRPCEnvelopeKind
  env_message :: "(string \<times> JSONValue) list"

datatype env_error =
    EnvToken string tok_err
  | EnvExpectedObject string
  | EnvExpectedKey string
  | EnvDuplicateKey string
  | EnvInvalidField string tok_err
  | EnvExpectedEnd string
  | EnvTrailing string
  | EnvShape
  | EnvMissing string
  | EnvExpectedString string
  | EnvExpectedInteger string
  | EnvNullID string
  | EnvInvalidValue string
  | EnvInvalidTrace
  | EnvFuel

section \<open>Raw fields\<close>

text \<open>\<open>Decoder.Decode\<close> between two tokens: a pending colon or comma is consumed first.\<close>

definition tokenPrepareForDecode :: "decoder \<Rightarrow> tok_err + decoder" where
  "tokenPrepareForDecode d =
     (if dec_state d = TokenArrayComma \<or> dec_state d = TokenObjectColon then
        (case skip_space (dec_input d) of [] \<Rightarrow> Inl EOF
         | c # s \<Rightarrow>
             if dec_state d = TokenArrayComma then
               (if c = CHR '','' then Inr (d\<lparr>dec_input := s, dec_state := TokenArrayValue\<rparr>) else Inl Syntax)
             else if c = CHR '':'' then Inr (d\<lparr>dec_input := s, dec_state := TokenObjectValue\<rparr>) else Inl Syntax)
      else Inr d)"

definition decode_raw :: "decoder \<Rightarrow> tok_err + string \<times> decoder" where
  "decode_raw d = (case tokenPrepareForDecode d of Inl e \<Rightarrow> Inl e
     | Inr d1 \<Rightarrow>
         if \<not> value_allowed (dec_state d1) then Inl Syntax
         else let start = skip_space (dec_input d1) in
           if start = [] then Inl EOF
           else (case scan_value (2 * length start + 1) 0 start of Inl _ \<Rightarrow> Inl Syntax
             | Inr (v, rest) \<Rightarrow> Inr (take (length start - length rest) start,
                 d1\<lparr>dec_input := rest, dec_state := value_end (dec_state d1)\<rparr>)))"

fun object_fields :: "nat \<Rightarrow> string \<Rightarrow> decoder \<Rightarrow> (string \<times> string) list \<Rightarrow> env_error + (string \<times> string) list \<times> decoder" where
  "object_fields 0 path d fs = Inl EnvFuel"
| "object_fields (Suc n) path d fs =
     (if \<not> JSON_Decoder.more d then Inr (fs, d)
      else case token d of Inl e \<Rightarrow> Inl (EnvToken path e)
        | Inr (t, d1) \<Rightarrow> (case t of
            TString key \<Rightarrow>
              if map_of fs key \<noteq> None then Inl (EnvDuplicateKey path)
              else (case decode_raw d1 of Inl e \<Rightarrow> Inl (EnvInvalidField path e)
                | Inr (raw, d2) \<Rightarrow> object_fields n path d2 (map_put key raw fs))
          | _ \<Rightarrow> Inl (EnvExpectedKey path)))"

definition decodeJSONRPCObjectFields :: "string \<Rightarrow> string \<Rightarrow> env_error + (string \<times> string) list" where
  "decodeJSONRPCObjectFields data path = (case token (new_decoder data) of Inl e \<Rightarrow> Inl (EnvToken path e)
     | Inr (t, d) \<Rightarrow>
         if t \<noteq> TDelim (CHR ''{'') then Inl (EnvExpectedObject path)
         else (case object_fields (length data + 1) path d [] of Inl e \<Rightarrow> Inl e
           | Inr (fs, d1) \<Rightarrow> (case token d1 of Inl e \<Rightarrow> Inl (EnvToken path e)
               | Inr (t, d2) \<Rightarrow>
                   if t \<noteq> TDelim (CHR ''}'') then Inl (EnvExpectedEnd path)
                   else (case decode_raw d2 of Inr _ \<Rightarrow> Inl (EnvTrailing path)
                     | Inl EOF \<Rightarrow> Inr fs
                     | Inl e \<Rightarrow> Inl (EnvToken path e)))))"

section \<open>Field validators\<close>

definition digit_val :: "char \<Rightarrow> nat" where
  "digit_val c = byte c - 48"

text \<open>\<open>strconv.ParseInt(s, 10, 64)\<close>\<close>

definition parse_int :: "string \<Rightarrow> int option" where
  "parse_int s =
     (let (neg, ds) = (case s of c # t \<Rightarrow> if c = CHR ''-'' then (True, t) else if c = CHR ''+'' then (False, t) else (False, s)
                       | [] \<Rightarrow> (False, s))
      in if ds = [] \<or> \<not> list_all is_digit ds then None
         else let n = foldl (\<lambda>a c. a * 10 + int (digit_val c)) 0 ds;
                  v = (if neg then - n else n)
              in if in_int64 v then Some v else None)"

datatype RequestId = RequestIdInt64 int | RequestIdString string

definition unmarshal_RequestId :: "string \<Rightarrow> RequestId option" where
  "unmarshal_RequestId raw = (case ParseJSONValue raw of
      Inr (JNumber n) \<Rightarrow> map_option RequestIdInt64 (parse_int n)
    | Inr (JString s) \<Rightarrow> Some (RequestIdString s)
    | _ \<Rightarrow> None)"

definition validateJSONRPCRequestID :: "string option \<Rightarrow> string \<Rightarrow> env_error option" where
  "validateJSONRPCRequestID raw path = (case raw of None \<Rightarrow> Some (EnvMissing path)
     | Some r \<Rightarrow>
         if trim_space r = ''null'' then Some (EnvNullID path)
         else if unmarshal_any r = None \<or> unmarshal_RequestId r = None then Some (EnvExpectedInteger path)
         else None)"

definition validateRequiredJSONString :: "string option \<Rightarrow> string \<Rightarrow> env_error option" where
  "validateRequiredJSONString raw path = (case raw of None \<Rightarrow> Some (EnvMissing path)
     | Some r \<Rightarrow> (case unmarshal_any r of
         Some (JString _) \<Rightarrow> None | Some JNull \<Rightarrow> None | _ \<Rightarrow> Some (EnvExpectedString path)))"

definition validateJSONInteger :: "string \<Rightarrow> string \<Rightarrow> env_error option" where
  "validateJSONInteger raw path = (case decode_json_number raw of Inl _ \<Rightarrow> Some (EnvExpectedInteger path)
     | Inr (number, _) \<Rightarrow>
         if list_ex (\<lambda>c. c \<in> set ''.eE'') number then Some (EnvExpectedInteger path)
         else if parse_int number = None then Some (EnvExpectedInteger path)
         else None)"

definition validateRequiredJSONInteger :: "string option \<Rightarrow> string \<Rightarrow> env_error option" where
  "validateRequiredJSONInteger raw path = (case raw of None \<Rightarrow> Some (EnvMissing path)
     | Some r \<Rightarrow> validateJSONInteger r path)"

definition unmarshal_JSONValue :: "string \<Rightarrow> JSONValue option" where
  "unmarshal_JSONValue raw = (if unmarshal_any raw = None then None
     else case ParseJSONValue raw of Inl _ \<Rightarrow> None | Inr v \<Rightarrow> Some v)"

definition validateRequiredJSONValue :: "string option \<Rightarrow> string \<Rightarrow> env_error option" where
  "validateRequiredJSONValue raw path = (case raw of None \<Rightarrow> Some (EnvMissing path)
     | Some r \<Rightarrow> if unmarshal_JSONValue r = None then Some (EnvInvalidValue path) else None)"

definition validateOptionalJSONValue :: "(string \<times> string) list \<Rightarrow> string \<Rightarrow> string \<Rightarrow> env_error option" where
  "validateOptionalJSONValue fs name path = (case map_of fs name of None \<Rightarrow> None
     | Some r \<Rightarrow> if unmarshal_JSONValue r = None then Some (EnvInvalidValue path) else None)"

section \<open>Kinds\<close>

text \<open>The first validator that fails.\<close>

fun first_error :: "env_error option list \<Rightarrow> env_error option" where
  "first_error [] = None"
| "first_error (e # es) = (case e of Some x \<Rightarrow> Some x | None \<Rightarrow> first_error es)"

definition validateJSONRPCRequest :: "(string \<Rightarrow> bool) \<Rightarrow> (string \<times> string) list \<Rightarrow> env_error option" where
  "validateJSONRPCRequest trace_ok fs = first_error
     [validateJSONRPCRequestID (map_of fs ''id'') ''JSONRPCRequest.id'',
      validateRequiredJSONString (map_of fs ''method'') ''JSONRPCRequest.method'',
      validateOptionalJSONValue fs ''params'' ''JSONRPCRequest.params'',
      (case map_of fs ''trace'' of None \<Rightarrow> None
       | Some r \<Rightarrow> if trace_ok r then None else Some EnvInvalidTrace)]"

definition validateJSONRPCNotification :: "(string \<times> string) list \<Rightarrow> env_error option" where
  "validateJSONRPCNotification fs = first_error
     [validateRequiredJSONString (map_of fs ''method'') ''JSONRPCNotification.method'',
      validateOptionalJSONValue fs ''params'' ''JSONRPCNotification.params'']"

definition validateJSONRPCResponse :: "(string \<times> string) list \<Rightarrow> env_error option" where
  "validateJSONRPCResponse fs = first_error
     [validateJSONRPCRequestID (map_of fs ''id'') ''JSONRPCResponse.id'',
      validateRequiredJSONValue (map_of fs ''result'') ''JSONRPCResponse.result'']"

definition validateJSONRPCError :: "(string \<times> string) list \<Rightarrow> env_error option" where
  "validateJSONRPCError fs = (case validateJSONRPCRequestID (map_of fs ''id'') ''JSONRPCError.id'' of
      Some e \<Rightarrow> Some e
    | None \<Rightarrow> (case decodeJSONRPCObjectFields (case map_of fs ''error'' of None \<Rightarrow> [] | Some r \<Rightarrow> r) ''JSONRPCErrorError'' of
        Inl e \<Rightarrow> Some e
      | Inr errorFields \<Rightarrow> first_error
          [validateRequiredJSONInteger (map_of errorFields ''code'') ''JSONRPCErrorError.code'',
           validateRequiredJSONString (map_of errorFields ''message'') ''JSONRPCErrorError.message'',
           validateOptionalJSONValue errorFields ''data'' ''JSONRPCErrorError.data'']))"

definition envelope_kind :: "(string \<times> string) list \<Rightarrow> jsonRPCEnvelopeKind option" where
  "envelope_kind fs =
     (let hasID = map_of fs ''id'' \<noteq> None; hasMethod = map_of fs ''method'' \<noteq> None;
          hasResult = map_of fs ''result'' \<noteq> None; hasError = map_of fs ''error'' \<noteq> None
      in if hasID \<and> hasMethod \<and> \<not> hasResult \<and> \<not> hasError then Some jsonRPCRequest
         else if \<not> hasID \<and> hasMethod \<and> \<not> hasResult \<and> \<not> hasError then Some jsonRPCNotification
         else if hasID \<and> \<not> hasMethod \<and> hasResult \<and> \<not> hasError then Some jsonRPCResponse
         else if hasID \<and> \<not> hasMethod \<and> \<not> hasResult \<and> hasError then Some jsonRPCError
         else None)"

definition unmarshalJSONPreserveNumbers :: "string \<Rightarrow> tok_err + JSONValue" where
  "unmarshalJSONPreserveNumbers data = (case decode_any data of Inl e \<Rightarrow> Inl e | Inr (v, _) \<Rightarrow> Inr v)"

fun decode_message :: "(string \<times> string) list \<Rightarrow> env_error + (string \<times> JSONValue) list" where
  "decode_message [] = Inr []"
| "decode_message ((name, raw) # fs) = (case unmarshalJSONPreserveNumbers raw of
      Inl e \<Rightarrow> Inl (EnvInvalidField ''JSONRPCMessage'' e)
    | Inr v \<Rightarrow> (case decode_message fs of Inl e \<Rightarrow> Inl e | Inr m \<Rightarrow> Inr ((name, v) # m)))"

definition validate_kind :: "(string \<Rightarrow> bool) \<Rightarrow> jsonRPCEnvelopeKind \<Rightarrow> (string \<times> string) list \<Rightarrow> env_error option" where
  "validate_kind trace_ok kind fs = (case kind of
      jsonRPCRequest \<Rightarrow> validateJSONRPCRequest trace_ok fs
    | jsonRPCNotification \<Rightarrow> validateJSONRPCNotification fs
    | jsonRPCResponse \<Rightarrow> validateJSONRPCResponse fs
    | jsonRPCError \<Rightarrow> validateJSONRPCError fs)"

definition decodeJSONRPCEnvelope :: "(string \<Rightarrow> bool) \<Rightarrow> string \<Rightarrow> env_error + jsonRPCEnvelope" where
  "decodeJSONRPCEnvelope trace_ok data = (case decodeJSONRPCObjectFields data ''JSONRPCMessage'' of
      Inl e \<Rightarrow> Inl e
    | Inr fs \<Rightarrow> (case envelope_kind fs of None \<Rightarrow> Inl EnvShape
        | Some kind \<Rightarrow> (case validate_kind trace_ok kind fs of Some e \<Rightarrow> Inl e
            | None \<Rightarrow> (case decode_message fs of Inl e \<Rightarrow> Inl e
                | Inr m \<Rightarrow> Inr \<lparr>env_kind = kind, env_message = m\<rparr>))))"

definition validateJSONRPCEnvelope :: "(string \<Rightarrow> bool) \<Rightarrow> string \<Rightarrow> env_error option" where
  "validateJSONRPCEnvelope trace_ok data = (case decodeJSONRPCEnvelope trace_ok data of Inl e \<Rightarrow> Some e | Inr _ \<Rightarrow> None)"

section \<open>Progress\<close>

lemma tokenPrepareForDecode_length:
  "tokenPrepareForDecode d = Inr d' \<Longrightarrow> length (dec_input d') \<le> length (dec_input d)"
  by (auto simp: tokenPrepareForDecode_def split: if_splits list.splits dest!: skip_space_Cons)

lemma decode_raw_length: "decode_raw d = Inr (r, d') \<Longrightarrow> length (dec_input d') < length (dec_input d)"
proof -
  assume r: "decode_raw d = Inr (r, d')"
  then obtain d1 v where d1: "tokenPrepareForDecode d = Inr d1"
    and v: "scan_value (2 * length (skip_space (dec_input d1)) + 1) 0 (skip_space (dec_input d1)) = Inr (v, dec_input d')"
    by (auto simp: decode_raw_def Let_def simp del: scan_value.simps split: sum.splits if_splits)
  have "length (dec_input d') < length (skip_space (dec_input d1))" by (rule scan_shorter(1)[OF v])
  also have "\<dots> \<le> length (dec_input d)"
    using skip_space_length[of "dec_input d1"] tokenPrepareForDecode_length[OF d1] by linarith
  finally show ?thesis .
qed

lemma object_fields_fuel: "length (dec_input d) < n \<Longrightarrow> object_fields n path d fs \<noteq> Inl EnvFuel"
proof (induction n path d fs rule: object_fields.induct)
  case (2 n path d fs)
  then show ?case
    by (fastforce split: sum.splits prod.splits json_token.splits if_splits dest: token_length decode_raw_length)
qed simp

lemma object_fields_ok: "object_fields n path d fs = Inr (fs', d') \<Longrightarrow> map_ok fs \<Longrightarrow> map_ok fs'"
proof (induction n path d fs rule: object_fields.induct)
  case (2 n path d fs)
  then show ?case
    by (fastforce split: sum.splits prod.splits json_token.splits if_splits intro: map_ok_put)
qed simp

lemma decodeJSONRPCObjectFields_fuel: "decodeJSONRPCObjectFields data path \<noteq> Inl EnvFuel"
proof -
  have "object_fields (length data + 1) path d [] \<noteq> Inl EnvFuel"
    if "token (new_decoder data) = Inr (t, d)" for t d
    using token_length[OF that] by (intro object_fields_fuel) (simp add: new_decoder_def)
  then show ?thesis
    by (auto simp: decodeJSONRPCObjectFields_def simp del: object_fields.simps
        split: sum.splits prod.splits tok_err.splits)
qed

lemma decodeJSONRPCObjectFields_ok: "decodeJSONRPCObjectFields data path = Inr fs \<Longrightarrow> map_ok fs"
  by (auto simp: decodeJSONRPCObjectFields_def simp del: object_fields.simps
      split: sum.splits prod.splits tok_err.splits if_splits dest!: object_fields_ok)

lemma decode_message_keys: "decode_message fs = Inr m \<Longrightarrow> keys m = keys fs"
  by (induction fs arbitrary: m) (auto split: sum.splits)

section \<open>Admitted envelopes\<close>

text \<open>The identifier a raw field carries.\<close>

definition carries_id :: "(string \<times> string) list \<Rightarrow> bool" where
  "carries_id fs \<longleftrightarrow> (\<exists>r i. map_of fs ''id'' = Some r \<and> unmarshal_RequestId r = Some i)"

lemma validateJSONRPCRequestID_None:
  "validateJSONRPCRequestID (map_of fs ''id'') path = None \<Longrightarrow> carries_id fs"
  by (auto simp: validateJSONRPCRequestID_def carries_id_def split: option.splits if_splits)


text \<open>The frame \<open>{"id":7,"result":null}\<close>, written with the code of the double quote.\<close>

definition quoted :: "string \<Rightarrow> string" where
  "quoted s = [CHR 0x22] @ s @ [CHR 0x22]"

definition example_response :: string where
  "example_response = ''{'' @ quoted ''id'' @ '':7,'' @ quoted ''result'' @ '':null}''"

lemma example_response_decodes:
  "decodeJSONRPCEnvelope (\<lambda>_. False) example_response
   = Inr \<lparr>env_kind = jsonRPCResponse, env_message = [(''id'', JNumber ''7''), (''result'', JNull)]\<rparr>"
  by code_simp


definition null_method :: string where
  "null_method = ''{'' @ quoted ''method'' @ '':null}''"

definition quoted_code :: string where
  "quoted_code = ''{'' @ quoted ''id'' @ '':1,'' @ quoted ''error'' @ '':{'' @ quoted ''code'' @ '':''
     @ quoted ''5'' @ '','' @ quoted ''message'' @ '':null}}''"


end
