(* ===== verification/Client.thy ===== *)
theory Client
  imports Exact_Run Envelope "HOL-Library.AList"
begin

text \<open>
  The client of \<open>codexsdk/client.go\<close>, \<open>lifecycle.go\<close> and \<open>notification_dispatch.go\<close>: pending calls,
  live and attaching runs, evidence waiting for its run, the notification queue, and the way a client
  fails or closes.

  Pointers are indexes: \<open>cl_runs\<close> and \<open>cl_evidence\<close> are the heaps of run states and of evidence
  records. A Go map is an association list; iterating over one, whose order Go leaves open, goes through
  the list. Channels that are only ever closed are booleans, the response channel of a call is the list
  of responses sent for its id, and the notification channel is a bounded list. Waiting for another
  goroutine is not an operation on this state. Every function that releases a lock in the middle is built
  from the critical sections defined before it.
\<close>

record rpcNotification =
  rpc_method :: gostring
  rpc_params :: "(string \<times> JSONValue) list option"
  rpc_evidence :: "nat option"
  rpc_retained :: lease_ptr

record notificationEvidence =
  ne_state :: nat
  ne_resolved :: bool
  ne_completion :: "go_error option option"
  ne_err :: "go_error option"
  ne_dispatched :: bool

record pendingCall =
  pc_thread :: bool
  pc_turn :: "nat option"
  pc_method :: gostring
  pc_validate :: "((string \<times> JSONValue) list \<Rightarrow> go_error option) option"

datatype rpcResponse = RpcResult "(string \<times> JSONValue) list" | RpcError go_error

record RawNotification =
  raw_Method :: gostring
  raw_ThreadID :: gostring
  raw_TurnID :: gostring
  raw_Envelope :: JSONValue

record acceptedNotification =
  an_raw :: "RawNotification option"
  an_notification :: "ServerNotification option"
  an_evidence :: "nat option"
  an_retained :: lease_ptr
  an_completions :: "(nat \<times> go_error option) list"

record Client =
  cl_closed :: bool
  cl_failure :: "go_error option"
  cl_normalClosing :: bool
  cl_constructing :: bool
  cl_closeReason :: "go_error option"
  cl_callbackFailure :: "go_error option"
  cl_callbackWork :: int
  cl_causePublished :: bool
  cl_shutdownStarted :: bool
  cl_store :: store
  cl_attachmentRetention :: "(gostring \<times> lease_ptr) list"
  cl_nextID :: nat
  cl_pending :: "(gostring \<times> pendingCall) list"
  cl_responses :: "(gostring \<times> rpcResponse) list"
  cl_exactStreams :: "(gostring \<times> nat) list"
  cl_exactAttaching :: "(gostring \<times> nat) list"
  cl_pendingEvents :: "(gostring \<times> rpcNotification list) list"
  cl_armedThreadAttach :: "gostring list"
  cl_armedTurnAttach :: "(gostring \<times> nat) list"
  cl_pendingThreadNotifications :: "(gostring \<times> ServerNotification list) list"
  cl_pendingThreadRetention :: "(gostring \<times> lease_ptr list) list"
  cl_pendingDiagnostics :: "(gostring \<times> DiagnosticRef list) list"
  cl_pendingDiagnosticRetention :: "(gostring \<times> lease_ptr list) list"
  cl_replayingEvents :: "(nat \<times> rpcNotification list) list"
  cl_runs :: "exactRunState list"
  cl_evidence :: "notificationEvidence list"
  cl_queue :: "acceptedNotification list"
  cl_queueCapacity :: nat
  cl_interrupts :: "(gostring \<times> gostring) list"
  cl_writes :: "(string \<times> JSONValue) list list"

text \<open>
  What the client asks of code outside this development: the generated notification decoder, the
  callbacks that are configured, the raw-item schema check, the reflected value of decoded params and
  the diagnostic digest of params, the outcome of writing a message to the app-server, and the text of
  an error.
\<close>

record client_env =
  ce_proto :: proto
  ce_decode :: "gostring \<Rightarrow> (string \<times> JSONValue) list option \<Rightarrow> go_error + ServerNotification"
  ce_handler :: bool
  ce_raw :: "gostring list option"
  ce_raw_schema :: "(string \<times> JSONValue) list option \<Rightarrow> go_error option"
  ce_params_value :: "(string \<times> JSONValue) list option \<Rightarrow> reflect_value"
  ce_raw_value :: "RawNotification \<Rightarrow> reflect_value"
  ce_sha256 :: "gostring \<Rightarrow> gostring"
  ce_write :: "(string \<times> JSONValue) list \<Rightarrow> go_error option"
  ce_error_text :: "go_error \<Rightarrow> gostring"

definition ErrClientClosed :: go_error where "ErrClientClosed = ErrNew ''codexsdk: client closed''"
definition ErrNotificationBackpressure :: go_error where
  "ErrNotificationBackpressure = ErrNew ''codexsdk: notification backpressure''"
definition ErrHandlerFailed :: go_error where "ErrHandlerFailed = ErrNew ''codexsdk: handler failed''"
definition ErrRawNotificationDecode :: go_error where
  "ErrRawNotificationDecode = ErrNew ''codexsdk: required raw notification invalid''"
definition errConcurrentTurnStart :: go_error where
  "errConcurrentTurnStart = ErrNew ''codexsdk: turn/start is already attaching for thread''"

definition values_at :: "'k \<Rightarrow> ('k \<times> 'v list) list \<Rightarrow> 'v list" where
  "values_at k m = (case map_of m k of None \<Rightarrow> [] | Some vs \<Rightarrow> vs)"

definition append_at :: "'k \<Rightarrow> 'v \<Rightarrow> ('k \<times> 'v list) list \<Rightarrow> ('k \<times> 'v list) list" where
  "append_at k v m = AList.update k (values_at k m @ [v]) m"

definition owners_of :: "'k \<Rightarrow> ('k \<times> nat) list \<Rightarrow> nat list" where
  "owners_of k m = map snd (filter (\<lambda>e. fst e = k) m)"

definition lease_at :: "nat \<Rightarrow> lease_ptr list \<Rightarrow> lease_ptr" where
  "lease_at i ls = (if i < length ls then ls ! i else None)"

definition hasNotificationHandler :: "client_env \<Rightarrow> bool" where
  "hasNotificationHandler E = (ce_handler E \<or> ce_raw E \<noteq> None)"

section \<open>Runs of the client\<close>

definition on_store :: "(store \<Rightarrow> store) \<Rightarrow> Client \<Rightarrow> Client" where
  "on_store f c = c\<lparr>cl_store := f (cl_store c)\<rparr>"

definition release_all :: "lease_ptr list \<Rightarrow> Client \<Rightarrow> Client" where
  "release_all ls c = on_store (fold store_release ls) c"

definition turnIDSnapshot :: "nat \<Rightarrow> Client \<Rightarrow> gostring" where
  "turnIDSnapshot i c = rn_turnID (cl_runs c ! i)"

definition accept_run ::
  "client_env \<Rightarrow> nat \<Rightarrow> ServerNotification \<Rightarrow> lease_ptr \<Rightarrow> Client \<Rightarrow> (go_error option option \<times> go_error option) \<times> Client" where
  "accept_run E i n l c = (case acceptRetainedBeforeTerminalCompletion (ce_proto E) n l (cl_runs c ! i) (cl_store c) of
      (r, s, st) \<Rightarrow> (r, c\<lparr>cl_runs := (cl_runs c)[i := s], cl_store := st\<rparr>))"

definition ref_value :: "DiagnosticRef \<Rightarrow> reflect_value" where
  "ref_value ref = RStruct 72 [RString 16 (length (dr_Kind ref)), RString 16 (length (dr_ID ref)),
     RString 16 (length (dr_Path ref)), RScalar 8, RString 16 (length (dr_SHA256 ref))]"

definition diagnostic_run :: "nat \<Rightarrow> DiagnosticRef \<Rightarrow> lease_ptr \<Rightarrow> Client \<Rightarrow> go_error option \<times> Client" where
  "diagnostic_run i ref l c = (case addDiagnosticRetained (ref_value ref) ref l (cl_runs c ! i) (cl_store c) of
      (r, s, st) \<Rightarrow> (r, c\<lparr>cl_runs := (cl_runs c)[i := s], cl_store := st\<rparr>))"

definition unregisterExactRun :: "nat \<Rightarrow> Client \<Rightarrow> Client" where
  "unregisterExactRun i c =
     c\<lparr>cl_exactAttaching := filter (\<lambda>e. e \<noteq> (rn_threadID (cl_runs c ! i), i)) (cl_exactAttaching c),
       cl_exactStreams := filter (\<lambda>e. e \<noteq> (turnIDSnapshot i c, i)) (cl_exactStreams c)\<rparr>"

text \<open>\<open>finish\<close>: the run ends with the client's first cause, if it has one, and leaves the registries.\<close>

definition finish_run :: "nat \<Rightarrow> go_error option \<Rightarrow> Client \<Rightarrow> Client" where
  "finish_run i err c = (case finishState (cl_closeReason c) (cl_failure c) err (cl_runs c ! i) of
      (Inl p, s) \<Rightarrow> c\<lparr>cl_runs := (cl_runs c)[i := s], cl_store := (cl_store c)\<lparr>st_panic := Some p\<rparr>\<rparr>
    | (Inr True, s) \<Rightarrow> unregisterExactRun i (c\<lparr>cl_runs := (cl_runs c)[i := s]\<rparr>)
    | (Inr False, s) \<Rightarrow> c)"

text \<open>\<open>cancel\<close>: shared run cancellation, with a best-effort interrupt of the turn on the server.\<close>

definition cancel_run :: "nat \<Rightarrow> go_error \<Rightarrow> Client \<Rightarrow> Client" where
  "cancel_run i err c =
     (if rn_terminal (cl_runs c ! i) then c
      else let threadID = rn_threadID (cl_runs c ! i); turnID = rn_turnID (cl_runs c ! i);
               c = finish_run i (Some err) c
           in if turnID \<noteq> [] then c\<lparr>cl_interrupts := cl_interrupts c @ [(threadID, turnID)]\<rparr> else c)"

section \<open>Evidence\<close>

text \<open>
  \<open>resolveEvidence\<close>: the first caller decodes the notification and commits it to the run; later callers
  see the same error. Resolving closes \<open>ready\<close>.
\<close>

definition resolveEvidence :: "client_env \<Rightarrow> nat \<Rightarrow> rpcNotification \<Rightarrow> Client \<Rightarrow> go_error option \<times> Client" where
  "resolveEvidence E stream n c = (case rpc_evidence n of None \<Rightarrow> (None, c)
     | Some e \<Rightarrow>
         if ne_resolved (cl_evidence c ! e) then (ne_err (cl_evidence c ! e), c)
         else (case ce_decode E (rpc_method n) (rpc_params n) of
             Inl err \<Rightarrow> (Some err, c\<lparr>cl_evidence := (cl_evidence c)[e := (cl_evidence c ! e)\<lparr>ne_resolved := True, ne_err := Some err\<rparr>]\<rparr>)
           | Inr typed \<Rightarrow> (case accept_run E stream typed (rpc_retained n) c of
               ((completion, err), c) \<Rightarrow>
                 (err, c\<lparr>cl_evidence := (cl_evidence c)[e := (cl_evidence c ! e)
                    \<lparr>ne_resolved := True, ne_completion := completion, ne_err := err\<rparr>]\<rparr>))))"

definition evidence_state :: "rpcNotification \<Rightarrow> Client \<Rightarrow> nat" where
  "evidence_state n c = ne_state (cl_evidence c ! the (rpc_evidence n))"

text \<open>\<open>resolvePendingEvidence\<close> and \<open>resolveReplayingEvidence\<close> are the same function.\<close>

definition resolvePendingEvidence :: "client_env \<Rightarrow> rpcNotification \<Rightarrow> Client \<Rightarrow> go_error option \<times> Client" where
  "resolvePendingEvidence E n c = (if rpc_evidence n = None then (None, c)
     else resolveEvidence E (evidence_state n c) n c)"

definition evidenceCompletion :: "rpcNotification \<Rightarrow> Client \<Rightarrow> go_error option option" where
  "evidenceCompletion n c = (case rpc_evidence n of None \<Rightarrow> None | Some e \<Rightarrow> ne_completion (cl_evidence c ! e))"

definition completeEvidenceTerminal :: "nat \<Rightarrow> rpcNotification \<Rightarrow> Client \<Rightarrow> Client" where
  "completeEvidenceTerminal i n c = (case evidenceCompletion n c of None \<Rightarrow> c | Some err \<Rightarrow> finish_run i err c)"

section \<open>Closing\<close>

definition firstCloseReason :: "go_error \<Rightarrow> Client \<Rightarrow> go_error" where
  "firstCloseReason fallback c = (case cl_closeReason c of Some r \<Rightarrow> r
     | None \<Rightarrow> (case cl_failure c of Some f \<Rightarrow> f | None \<Rightarrow> fallback))"

definition claimFailureLocked :: "go_error option \<Rightarrow> Client \<Rightarrow> bool \<times> Client" where
  "claimFailureLocked err c =
     (if err = None \<or> cl_closed c then (False, c)
      else (True, c\<lparr>cl_failure := err, cl_closeReason := err, cl_closed := True\<rparr>))"

definition claimStartupFailure :: "go_error option \<Rightarrow> Client \<Rightarrow> bool \<times> Client" where
  "claimStartupFailure err c = (if \<not> cl_constructing c then (False, c) else claimFailureLocked err c)"

definition beginShutdown :: "Client \<Rightarrow> Client" where
  "beginShutdown c =
     (if cl_shutdownStarted c then c
      else c\<lparr>cl_shutdownStarted := True, cl_closed := True, cl_normalClosing := (cl_failure c = None),
             cl_closeReason := (if cl_closeReason c = None then Some ErrClientClosed else cl_closeReason c)\<rparr>)"

definition publishCloseCause :: "Client \<Rightarrow> Client" where
  "publishCloseCause c = c\<lparr>cl_causePublished := True\<rparr>"

definition addHandlerWork :: "Client \<Rightarrow> Client" where
  "addHandlerWork c = c\<lparr>cl_callbackWork := cl_callbackWork c + 1\<rparr>"

definition endHandlerWork :: "Client \<Rightarrow> Client" where
  "endHandlerWork c = c\<lparr>cl_callbackWork := cl_callbackWork c - 1\<rparr>"

text \<open>
  \<open>failAll\<close>. The registries are emptied in one critical section; then the evidence that was already
  accepted is committed, the runs are finished with the first cause, and every pending call is answered.
\<close>

definition deliver :: "gostring \<Rightarrow> rpcResponse \<Rightarrow> Client \<Rightarrow> Client" where
  "deliver call r c = c\<lparr>cl_responses := cl_responses c @ [(call, r)]\<rparr>"

definition fail_snapshot :: "Client \<Rightarrow> Client" where
  "fail_snapshot c =
     (let c1 = release_all (concat (map snd (cl_pendingThreadRetention c)) @ map snd (cl_attachmentRetention c)) c
      in c1\<lparr>cl_pendingEvents := [], cl_pendingThreadNotifications := [], cl_pendingThreadRetention := [],
            cl_attachmentRetention := [], cl_armedThreadAttach := [], cl_armedTurnAttach := [],
            cl_pendingDiagnostics := [], cl_pendingDiagnosticRetention := []\<rparr>)"

definition with_evidence :: "rpcNotification list \<Rightarrow> rpcNotification list" where
  "with_evidence ns = filter (\<lambda>n. rpc_evidence n \<noteq> None) ns"

definition commit_evidence :: "client_env \<Rightarrow> rpcNotification \<Rightarrow> Client \<Rightarrow> Client" where
  "commit_evidence E n c = on_store (store_release (rpc_retained n)) (snd (resolvePendingEvidence E n c))"

definition fail_diagnostic :: "nat list \<Rightarrow> gostring \<times> DiagnosticRef \<times> lease_ptr \<Rightarrow> Client \<Rightarrow> Client" where
  "fail_diagnostic streams d c = (case d of (turnID, ref, l) \<Rightarrow>
     on_store (store_release l) (fold (\<lambda>i c. if turnIDSnapshot i c = turnID then snd (diagnostic_run i ref l c) else c) streams c))"

definition pending_diagnostics :: "Client \<Rightarrow> (gostring \<times> DiagnosticRef \<times> lease_ptr) list" where
  "pending_diagnostics c = concat (map (\<lambda>(turnID, refs). map2 (\<lambda>j ref.
     (turnID, ref, lease_at j (values_at turnID (cl_pendingDiagnosticRetention c)))) [0..<length refs] refs) (cl_pendingDiagnostics c))"

definition failAll :: "client_env \<Rightarrow> go_error \<Rightarrow> Client \<Rightarrow> Client" where
  "failAll E err c =
     (let err = firstCloseReason err c;
          pendingCalls = cl_pending c;
          c = c\<lparr>cl_pending := []\<rparr>;
          streams = map snd (cl_exactStreams c) @ map snd (cl_exactAttaching c);
          pendingEvidence = with_evidence (concat (map snd (cl_pendingEvents c)));
          replaying = with_evidence (concat (map snd (cl_replayingEvents c)));
          diags = pending_diagnostics c;
          c = on_store (fold (\<lambda>n. store_retain (rpc_retained n)) replaying) (fail_snapshot c);
          c = fold (commit_evidence E) (pendingEvidence @ replaying) c;
          c = fold (fail_diagnostic streams) diags c;
          c = fold (\<lambda>i. finish_run i (Some err)) streams c
      in fold (\<lambda>(call, _). deliver call (RpcError err)) pendingCalls c)"

text \<open>\<open>failClient\<close>: the first failure claims the client, publishes and starts teardown; later ones do nothing.\<close>

definition failClient :: "client_env \<Rightarrow> go_error \<Rightarrow> Client \<Rightarrow> Client" where
  "failClient E err c = (case claimFailureLocked (Some err) c of
      (False, c) \<Rightarrow> c
    | (True, c) \<Rightarrow> beginShutdown (publishCloseCause (failAll E err c)))"

text \<open>The part of \<open>shutdown\<close> that acts on this state: a normal closure ends everything itself.\<close>

definition shutdown :: "client_env \<Rightarrow> Client \<Rightarrow> Client" where
  "shutdown E c = (if cl_failure c = None then publishCloseCause (failAll E ErrClientClosed c) else c)"

definition checkOpen :: "Client \<Rightarrow> go_error option" where
  "checkOpen c = (if cl_closed c then Some ErrClientClosed else None)"

section \<open>Pending calls\<close>

definition admitPending :: "gostring \<Rightarrow> pendingCall \<Rightarrow> Client \<Rightarrow> go_error option \<times> Client" where
  "admitPending call pc c = (if cl_closed c then (Some ErrClientClosed, c)
     else (None, c\<lparr>cl_pending := AList.update call pc (cl_pending c)\<rparr>))"

definition takePending :: "gostring \<Rightarrow> Client \<Rightarrow> pendingCall option \<times> Client" where
  "takePending call c = (case map_of (cl_pending c) call of None \<Rightarrow> (None, c)
     | Some pc \<Rightarrow> (Some pc, c\<lparr>cl_pending := AList.delete call (cl_pending c)\<rparr>))"

text \<open>
  The start of \<open>callValidated\<close>: a fresh id is admitted. The write and the wait follow; either may end
  with \<open>abandonCall\<close>, which withdraws the call unless a response already owns it.
\<close>

definition beginCall :: "pendingCall \<Rightarrow> Client \<Rightarrow> (go_error + gostring) \<times> Client" where
  "beginCall pc c =
     (let n = (cl_nextID c + 1) mod 2 ^ 64; c = c\<lparr>cl_nextID := n\<rparr>; call = ''go-sdk-'' @ itoa n
      in case admitPending call pc c of (Some e, c) \<Rightarrow> (Inl e, c) | (None, c) \<Rightarrow> (Inr call, c))"

definition abandonCall :: "gostring \<Rightarrow> go_error \<Rightarrow> Client \<Rightarrow> rpcResponse option \<times> Client" where
  "abandonCall call err c = (case takePending call c of
      (Some _, c) \<Rightarrow> (Some (RpcError err), c)
    | (None, c) \<Rightarrow> (map_of (cl_responses c) call, c))"

section \<open>Responses\<close>

definition key_value :: "gostring \<Rightarrow> reflect_value" where
  "key_value key = RString 16 (length key)"

definition retainAttachmentLocked :: "gostring \<Rightarrow> Client \<Rightarrow> go_error option \<times> Client" where
  "retainAttachmentLocked key c =
     (if cl_closed c then (Some ErrClientClosed, c)
      else if map_of (cl_attachmentRetention c) key \<noteq> None then (None, c)
      else case store_reserve 1 (wrap64 (2 * retainedValueBytes (key_value key))) (cl_store c) of
          (Inl e, st) \<Rightarrow> (Some e, c\<lparr>cl_store := st\<rparr>)
        | (Inr l, st) \<Rightarrow> (None, c\<lparr>cl_store := st, cl_attachmentRetention := AList.update key l (cl_attachmentRetention c)\<rparr>))"

definition releaseAttachmentLocked :: "gostring \<Rightarrow> Client \<Rightarrow> Client" where
  "releaseAttachmentLocked key c =
     (let c1 = on_store (store_release (case map_of (cl_attachmentRetention c) key of None \<Rightarrow> None | Some l \<Rightarrow> l)) c
      in c1\<lparr>cl_attachmentRetention := AList.delete key (cl_attachmentRetention c1)\<rparr>)"

definition armThreadAttach :: "gostring \<Rightarrow> Client \<Rightarrow> go_error option \<times> Client" where
  "armThreadAttach threadID c = (case retainAttachmentLocked (''thread:'' @ threadID) c of
      (Some e, c) \<Rightarrow> (Some e, c)
    | (None, c) \<Rightarrow> (None, c\<lparr>cl_armedThreadAttach := List.insert threadID (cl_armedThreadAttach c)\<rparr>))"

definition armTurnAttach :: "gostring \<Rightarrow> nat \<Rightarrow> Client \<Rightarrow> go_error option \<times> Client" where
  "armTurnAttach turnID owner c =
     (if turnID = [] then (None, c)
      else case retainAttachmentLocked (''turn:'' @ turnID) c of
          (Some e, c) \<Rightarrow> (Some e, c)
        | (None, c) \<Rightarrow> (None, c\<lparr>cl_armedTurnAttach := AList.update turnID owner (cl_armedTurnAttach c)\<rparr>))"

definition threadIDFromProtocolResult :: "(string \<times> JSONValue) list \<Rightarrow> gostring" where
  "threadIDFromProtocolResult result = (case as_object (map_of result ''thread'') of
      None \<Rightarrow> [] | Some thread \<Rightarrow> jsonString (map_of thread ''id''))"

definition turnIDFromProtocolResult :: "(string \<times> JSONValue) list \<Rightarrow> gostring" where
  "turnIDFromProtocolResult result = (case as_object (map_of result ''turn'') of
      None \<Rightarrow> [] | Some turn \<Rightarrow> jsonString (map_of turn ''id''))"

text \<open>\<open>typed.Int64()\<close> with its error ignored: 0 on a malformed token, the nearest bound out of range.\<close>

definition parse_int_lossy :: "string \<Rightarrow> int" where
  "parse_int_lossy s = (case parse_int s of Some v \<Rightarrow> v
     | None \<Rightarrow>
         let ds = (if s \<noteq> [] \<and> (hd s = CHR ''-'' \<or> hd s = CHR ''+'') then tl s else s)
         in if ds = [] \<or> \<not> list_all is_digit ds then 0
            else if hd s = CHR ''-'' then int64_min else int64_max)"

definition intFromAny :: "JSONValue option \<Rightarrow> int" where
  "intFromAny v = (case v of Some (JNumber n) \<Rightarrow> parse_int_lossy n | _ \<Rightarrow> 0)"

text \<open>\<open>fmt.Sprint\<close> of a decoded id: a string is itself, a number is its token.\<close>

definition sprint_id :: "JSONValue option \<Rightarrow> gostring" where
  "sprint_id v = (case v of Some (JString s) \<Rightarrow> s | Some (JNumber n) \<Rightarrow> n | Some (JBool b) \<Rightarrow> (if b then ''true'' else ''false'')
     | _ \<Rightarrow> ''<nil>'')"

record ProtocolError =
  pe_RequestID :: gostring
  pe_Method :: gostring
  pe_Code :: int
  pe_Message :: gostring
  pe_Data :: "JSONValue option"

definition protocolError :: "JSONValue option \<Rightarrow> gostring \<Rightarrow> JSONValue \<Rightarrow> ProtocolError" where
  "protocolError reqid method rawError =
     (let e = (case as_object (Some rawError) of None \<Rightarrow> [] | Some m \<Rightarrow> m)
      in \<lparr>pe_RequestID = sprint_id reqid, pe_Method = method, pe_Code = intFromAny (map_of e ''code''),
          pe_Message = jsonString (map_of e ''message''),
          pe_Data = (case map_of e ''data'' of None \<Rightarrow> None
            | Some d \<Rightarrow> (case MarshalJSON d of Inl _ \<Rightarrow> None
                | Inr encoded \<Rightarrow> (case ParseJSONValue encoded of Inl _ \<Rightarrow> None | Inr v \<Rightarrow> Some v)))\<rparr>)"

definition protocol_error :: "ProtocolError \<Rightarrow> go_error" where
  "protocol_error e = ErrTyped ''codexsdk.ProtocolError'' [pe_RequestID e, pe_Method e, pe_Message e]
     [ErrNew ''codexsdk: protocol request failed'']"

definition MethodThreadStart :: gostring where "MethodThreadStart = ''thread/start''"
definition MethodThreadResume :: gostring where "MethodThreadResume = ''thread/resume''"
definition MethodTurnStart :: gostring where "MethodTurnStart = ''turn/start''"

definition arm_response :: "pendingCall \<Rightarrow> (string \<times> JSONValue) list \<Rightarrow> Client \<Rightarrow> go_error option \<times> Client" where
  "arm_response pc result c =
     (case (if pc_thread pc \<and> (pc_method pc = MethodThreadStart \<or> pc_method pc = MethodThreadResume)
               \<and> threadIDFromProtocolResult result \<noteq> []
            then armThreadAttach (threadIDFromProtocolResult result) c else (None, c)) of
        (Some e, c) \<Rightarrow> (Some e, c)
      | (None, c) \<Rightarrow> (case pc_turn pc of None \<Rightarrow> (None, c)
          | Some owner \<Rightarrow>
              if pc_method pc = MethodTurnStart then armTurnAttach (turnIDFromProtocolResult result) owner c else (None, c)))"

definition route_result :: "client_env \<Rightarrow> gostring \<Rightarrow> pendingCall \<Rightarrow> (string \<times> JSONValue) list \<Rightarrow> Client \<Rightarrow> Client" where
  "route_result E call pc message c = (case as_object (map_of message ''result'') of
      None \<Rightarrow> deliver call (RpcError (ErrWrap ''response missing object result'' [])) c
    | Some result \<Rightarrow> (case (case pc_validate pc of None \<Rightarrow> None | Some v \<Rightarrow> v result) of
        Some e \<Rightarrow> deliver call (RpcError e) c
      | None \<Rightarrow> (case arm_response pc result c of
          (Some e, c) \<Rightarrow> failClient E e (deliver call (RpcError e) c)
        | (None, c) \<Rightarrow> deliver call (RpcResult result) c)))"

definition routeResponse :: "client_env \<Rightarrow> (string \<times> JSONValue) list \<Rightarrow> Client \<Rightarrow> Client" where
  "routeResponse E message c =
     (let call = sprint_id (map_of message ''id'')
      in case takePending call c of (None, c) \<Rightarrow> c
       | (Some pc, c) \<Rightarrow>
           (case map_of message ''error'' of
              Some e \<Rightarrow> if e = JNull then route_result E call pc message c
                else deliver call (RpcError (protocol_error (protocolError (map_of message ''id'') (pc_method pc) e))) c
            | None \<Rightarrow> route_result E call pc message c))"

section \<open>The notification queue\<close>

text \<open>\<open>releaseDispatchWaiter\<close>: the queue's lease goes back; the fence it also closes only wakes waiters.\<close>

definition releaseDispatchWaiter :: "acceptedNotification \<Rightarrow> Client \<Rightarrow> Client" where
  "releaseDispatchWaiter a c = on_store (store_release (an_retained a)) c"

definition accepted_charge :: "client_env \<Rightarrow> acceptedNotification \<Rightarrow> int \<times> int" where
  "accepted_charge E a =
     (let (k, n) = (case an_notification a of None \<Rightarrow> (0, 0) | Some t \<Rightarrow> (1, retainedValueBytes (sn_value t)))
      in case an_raw a of None \<Rightarrow> (k, n) | Some r \<Rightarrow> (k + 1, wrap64 (n + retainedValueBytes (ce_raw_value E r))))"

definition enqueueAcceptedNotification ::
  "client_env \<Rightarrow> acceptedNotification \<Rightarrow> Client \<Rightarrow> go_error option \<times> Client" where
  "enqueueAcceptedNotification E a c =
     (if cl_closed c then (None, releaseDispatchWaiter a c)
      else case accepted_charge E a of (k, n) \<Rightarrow> (case store_reserve k n (cl_store c) of
          (Inl e, st) \<Rightarrow> (Some e, releaseDispatchWaiter a (failClient E e (c\<lparr>cl_store := st\<rparr>)))
        | (Inr l, st) \<Rightarrow>
            let c = c\<lparr>cl_store := st\<rparr>; c = (if hasNotificationHandler E then addHandlerWork c else c)
            in if length (cl_queue c) < cl_queueCapacity c
               then (None, c\<lparr>cl_queue := cl_queue c @ [a\<lparr>an_retained := l\<rparr>]\<rparr>)
               else let c = on_store (store_release l) c; c = (if hasNotificationHandler E then endHandlerWork c else c)
                    in (Some ErrNotificationBackpressure,
                        releaseDispatchWaiter a (failClient E ErrNotificationBackpressure c))))"

definition discardAcceptedNotifications :: "client_env \<Rightarrow> Client \<Rightarrow> Client" where
  "discardAcceptedNotifications E c =
     fold (\<lambda>a c. (if hasNotificationHandler E then endHandlerWork else (\<lambda>c. c)) (releaseDispatchWaiter a c))
       (cl_queue c) (c\<lparr>cl_queue := []\<rparr>)"

text \<open>
  \<open>dispatchAcceptedNotification\<close> for one entry taken from the queue, with the error its callbacks
  returned (\<open>None\<close>: none). Callbacks that panic return an error here, \<open>invoke\<close> recovers them.
\<close>

definition complete_all :: "(nat \<times> go_error option) list \<Rightarrow> Client \<Rightarrow> Client" where
  "complete_all cs c = fold (\<lambda>(i, err). finish_run i err) cs c"

definition complete_evidence :: "nat option \<Rightarrow> Client \<Rightarrow> Client" where
  "complete_evidence e c = (case e of None \<Rightarrow> c
     | Some e \<Rightarrow> (case ne_completion (cl_evidence c ! e) of None \<Rightarrow> c
         | Some err \<Rightarrow> finish_run (ne_state (cl_evidence c ! e)) err c))"

definition endNotificationHandler :: "client_env \<Rightarrow> Client \<Rightarrow> Client" where
  "endNotificationHandler E c = (if hasNotificationHandler E then endHandlerWork c else c)"

definition dispatchAcceptedNotification ::
  "client_env \<Rightarrow> go_error option \<Rightarrow> acceptedNotification \<Rightarrow> Client \<Rightarrow> bool \<times> Client" where
  "dispatchAcceptedNotification E err a c = (case err of
      None \<Rightarrow> (True, endNotificationHandler E (complete_all (an_completions a)
          (complete_evidence (an_evidence a) (releaseDispatchWaiter a c))))
    | Some e \<Rightarrow>
        let c = (if cl_normalClosing c \<and> cl_callbackFailure c = None then c\<lparr>cl_callbackFailure := Some e\<rparr> else c);
            c = discardAcceptedNotifications E (failClient E e c)
        in (False, endNotificationHandler E (releaseDispatchWaiter a c)))"

definition discardCurrentAndQueuedNotifications :: "client_env \<Rightarrow> acceptedNotification \<Rightarrow> Client \<Rightarrow> Client" where
  "discardCurrentAndQueuedNotifications E a c =
     discardAcceptedNotifications E (endNotificationHandler E (releaseDispatchWaiter a c))"

text \<open>
  One entry, whose callbacks answer as \<open>cb\<close> says; whether the dispatcher goes on. After \<open>dispatchStop\<close>
  the dispatcher drains the queue, which admits nothing more.
\<close>

definition dispatch_entry ::
  "client_env \<Rightarrow> (acceptedNotification \<Rightarrow> go_error option) \<Rightarrow> acceptedNotification \<Rightarrow> Client \<Rightarrow> bool \<times> Client" where
  "dispatch_entry E cb a c = (if hasNotificationHandler E then dispatchAcceptedNotification E (cb a) a c
     else (True, releaseDispatchWaiter a c))"

fun drain_queue ::
  "client_env \<Rightarrow> (acceptedNotification \<Rightarrow> go_error option) \<Rightarrow> acceptedNotification list \<Rightarrow> Client \<Rightarrow> Client" where
  "drain_queue E cb [] c = c"
| "drain_queue E cb (a # q) c = (case dispatch_entry E cb a (c\<lparr>cl_queue := q\<rparr>) of
      (False, c) \<Rightarrow> c | (True, c) \<Rightarrow> drain_queue E cb q c)"

definition finishDispatchStop ::
  "client_env \<Rightarrow> (acceptedNotification \<Rightarrow> go_error option) \<Rightarrow> acceptedNotification option \<Rightarrow> Client \<Rightarrow> Client" where
  "finishDispatchStop E cb current c = (case current of
      None \<Rightarrow> drain_queue E cb (cl_queue c) c
    | Some a \<Rightarrow> (case dispatch_entry E cb a c of
        (False, c) \<Rightarrow> c | (True, c) \<Rightarrow> drain_queue E cb (cl_queue c) c))"

text \<open>
  One round of \<open>notificationDispatcher\<close>, by the case its \<open>select\<close> took: an entry that is dispatched,
  an entry taken when (or waiting until) the client's context is done, an entry whose evidence is still
  open when the dispatcher is stopped, the stop itself, and the context being done.
\<close>

datatype dispatch_case = DispatchEntry | EntryCancelled | EntryStopped | DispatchStop | DispatchCancelled

definition dispatch_round ::
  "client_env \<Rightarrow> (acceptedNotification \<Rightarrow> go_error option) \<Rightarrow> dispatch_case \<Rightarrow> Client \<Rightarrow> bool \<times> Client" where
  "dispatch_round E cb k c = (case k of
      DispatchStop \<Rightarrow> (False, finishDispatchStop E cb None c)
    | DispatchCancelled \<Rightarrow> (False, discardAcceptedNotifications E c)
    | _ \<Rightarrow> (case cl_queue c of [] \<Rightarrow> (True, c)
        | a # q \<Rightarrow>
            let c = c\<lparr>cl_queue := q\<rparr>
            in if k = EntryCancelled then (False, discardCurrentAndQueuedNotifications E a c)
               else if k = EntryStopped \<and> an_evidence a \<noteq> None then (False, finishDispatchStop E cb (Some a) c)
               else dispatch_entry E cb a c))"

definition beginHandler :: "Client \<Rightarrow> bool \<times> Client" where
  "beginHandler c = (if cl_closed c then (False, c) else (True, addHandlerWork c))"

section \<open>What no operation undoes\<close>

text \<open>
  \<open>client_le\<close>: runs change only as \<open>run_le\<close> allows, a closed client stays closed, and the first close
  reason and the first failure stay.
\<close>

definition client_le :: "Client \<Rightarrow> Client \<Rightarrow> bool" where
  "client_le c c' \<longleftrightarrow> length (cl_runs c') \<ge> length (cl_runs c) \<and>
     (\<forall>i < length (cl_runs c). run_le (cl_runs c ! i) (cl_runs c' ! i)) \<and>
     (cl_closed c \<longrightarrow> cl_closed c') \<and>
     (cl_closeReason c \<noteq> None \<longrightarrow> cl_closeReason c' = cl_closeReason c) \<and>
     (cl_failure c \<noteq> None \<longrightarrow> cl_failure c' = cl_failure c)"

text \<open>
  \<open>client_ok\<close>: every run is consistent, the client is closed exactly when it has a close reason, and a
  failure is the close reason.
\<close>

definition client_ok :: "Client \<Rightarrow> bool" where
  "client_ok c \<longleftrightarrow> (\<forall>r \<in> set (cl_runs c). run_ok r) \<and> (cl_closed c \<longleftrightarrow> cl_closeReason c \<noteq> None) \<and>
     (cl_failure c = None \<or> cl_closeReason c = cl_failure c)"

text \<open>An operation that keeps both, on every client that is consistent.\<close>

definition keeps :: "(Client \<Rightarrow> Client) \<Rightarrow> bool" where
  "keeps f \<longleftrightarrow> (\<forall>c. client_ok c \<longrightarrow> client_le c (f c) \<and> client_ok (f c))"

lemma client_le_refl [simp]: "client_le c c"
  by (simp add: client_le_def)

lemma client_le_trans: "client_le a b \<Longrightarrow> client_le b c \<Longrightarrow> client_le a c"
proof -
  assume ab: "client_le a b" and bc: "client_le b c"
  have "run_le (cl_runs a ! i) (cl_runs c ! i)" if "i < length (cl_runs a)" for i
    using that ab bc run_le_trans[of "cl_runs a ! i" "cl_runs b ! i" "cl_runs c ! i"]
    by (simp add: client_le_def)
  with ab bc show ?thesis by (simp add: client_le_def)
qed

named_theorems keeps_intros \<open>operations that keep \<open>client_ok\<close> and advance \<open>client_le\<close>\<close>

lemma keepsI: "(\<And>c. client_ok c \<Longrightarrow> client_le c (f c) \<and> client_ok (f c)) \<Longrightarrow> keeps f"
  by (simp add: keeps_def)

lemma keepsD: "keeps f \<Longrightarrow> client_ok c \<Longrightarrow> client_le c (f c) \<and> client_ok (f c)"
  by (simp add: keeps_def)

lemma keeps_comp: "keeps f \<Longrightarrow> keeps g \<Longrightarrow> keeps (\<lambda>c. g (f c))"
  unfolding keeps_def using client_le_trans by blast

lemma keeps_id [keeps_intros]: "keeps (\<lambda>c. c)"
  by (simp add: keeps_def)

lemma keeps_if: "(P \<Longrightarrow> keeps f) \<Longrightarrow> (\<not> P \<Longrightarrow> keeps g) \<Longrightarrow> keeps (if P then f else g)"
  by simp

lemma keeps_fold: "(\<And>x. x \<in> set xs \<Longrightarrow> keeps (f x)) \<Longrightarrow> keeps (fold f xs)"
proof (induction xs)
  case (Cons x xs)
  then have "keeps (\<lambda>c. fold f xs (f x c))" using keeps_comp[of "f x" "fold f xs"] by simp
  then show ?case by (simp add: comp_def)
qed (simp add: keeps_def)

text \<open>Operations that touch neither the runs nor the fields of closing.\<close>

lemma keeps_frame:
  assumes "\<And>c. cl_runs (f c) = cl_runs c" "\<And>c. cl_closed (f c) = cl_closed c"
    "\<And>c. cl_closeReason (f c) = cl_closeReason c" "\<And>c. cl_failure (f c) = cl_failure c"
  shows "keeps f"
  using assms by (auto simp: keeps_def client_le_def client_ok_def)

lemma keeps_run:
  assumes "\<And>c. cl_runs (f c) = (cl_runs c)[i := g (cl_runs c ! i) c]" "\<And>c. cl_closed (f c) = cl_closed c"
    "\<And>c. cl_closeReason (f c) = cl_closeReason c" "\<And>c. cl_failure (f c) = cl_failure c"
    "\<And>s c. run_le s (g s c)" "\<And>s c. run_ok s \<Longrightarrow> run_ok (g s c)"
  shows "keeps f"
proof (rule keepsI)
  fix c assume ok: "client_ok c"
  have "run_ok r" if "r \<in> set (cl_runs (f c))" for r
  proof (cases "i < length (cl_runs c)")
    case True
    with that assms(1) have "r \<in> insert (g (cl_runs c ! i) c) (set (cl_runs c))"
      using set_update_subset_insert by fastforce
    with ok assms(6) True show ?thesis by (auto simp: client_ok_def)
  next
    case False
    then have "cl_runs (f c) = cl_runs c" using assms(1)[of c] by (simp add: list_update_beyond)
    with that ok show ?thesis by (simp add: client_ok_def)
  qed
  moreover have "run_le (cl_runs c ! j) (cl_runs (f c) ! j)" if "j < length (cl_runs c)" for j
    using that assms(1,5) by (cases "j = i") auto
  ultimately show "client_le c (f c) \<and> client_ok (f c)"
    using ok assms(1-4) by (auto simp: client_le_def client_ok_def)
qed

lemma keeps_on_store [keeps_intros]: "keeps (on_store f)" "keeps (release_all ls)"
  by (rule keeps_frame; simp add: on_store_def release_all_def)+

lemma accept_run_keeps [keeps_intros]: "keeps (\<lambda>c. snd (accept_run E i n l c))"
proof (rule keeps_run[where i = i and g = "\<lambda>s c. fst (snd (acceptRetainedBeforeTerminalCompletion (ce_proto E) n l s (cl_store c)))"])
  fix s c
  show "run_le s (fst (snd (acceptRetainedBeforeTerminalCompletion (ce_proto E) n l s (cl_store c))))"
    by (metis accept_le prod.collapse)
  show "run_ok s \<Longrightarrow> run_ok (fst (snd (acceptRetainedBeforeTerminalCompletion (ce_proto E) n l s (cl_store c))))"
    by (metis accept_ok prod.collapse)
qed (auto simp: accept_run_def split: prod.splits)

lemma diagnostic_run_keeps [keeps_intros]: "keeps (\<lambda>c. snd (diagnostic_run i ref l c))"
proof (rule keeps_run[where i = i and g = "\<lambda>s c. fst (snd (addDiagnosticRetained (ref_value ref) ref l s (cl_store c)))"])
  fix s c
  show "run_le s (fst (snd (addDiagnosticRetained (ref_value ref) ref l s (cl_store c))))"
    by (metis addDiagnostic_le(1) prod.collapse)
  show "run_ok s \<Longrightarrow> run_ok (fst (snd (addDiagnosticRetained (ref_value ref) ref l s (cl_store c))))"
    by (metis addDiagnostic_le(2) prod.collapse)
qed (auto simp: diagnostic_run_def split: prod.splits)

lemma finish_run_keeps [keeps_intros]: "keeps (finish_run i err)"
proof (rule keeps_run[where i = i and g = "\<lambda>s c. snd (finishState (cl_closeReason c) (cl_failure c) err s)"])
  fix c
  show "cl_runs (finish_run i err c) = (cl_runs c)[i := snd (finishState (cl_closeReason c) (cl_failure c) err (cl_runs c ! i))]"
    by (auto simp: finish_run_def unregisterExactRun_def finishState_def Let_def split: prod.splits sum.splits bool.splits if_splits)
  fix s
  show "run_le s (snd (finishState (cl_closeReason c) (cl_failure c) err s))"
    by (metis finishState_le prod.collapse)
  show "run_ok s \<Longrightarrow> run_ok (snd (finishState (cl_closeReason c) (cl_failure c) err s))"
    by (metis finishState_ok prod.collapse)
qed (auto simp: finish_run_def unregisterExactRun_def split: prod.splits sum.splits bool.splits)

section \<open>Advancing\<close>

text \<open>
  \<open>adv c c'\<close>: from a consistent \<open>c\<close> the client only advanced to \<open>c'\<close>, which is consistent. The rules
  below move an operation out of the way, so that a composite operation advances by its parts.
\<close>

definition adv :: "Client \<Rightarrow> Client \<Rightarrow> bool" where
  "adv c c' \<longleftrightarrow> (client_ok c \<longrightarrow> client_le c c' \<and> client_ok c')"

lemma adv_refl [simp]: "adv c c"
  by (simp add: adv_def)

lemma adv_trans: "adv a b \<Longrightarrow> adv b c \<Longrightarrow> adv a c"
  unfolding adv_def using client_le_trans by blast

lemma adv_keeps: "keeps f \<Longrightarrow> adv c c' \<Longrightarrow> adv c (f c')"
  unfolding adv_def keeps_def using client_le_trans by blast

lemma keeps_adv: "(\<And>c. adv c (f c)) \<Longrightarrow> keeps f"
  by (simp add: adv_def keeps_def)

lemma adv_frame [simp]:
  "adv c (c'\<lparr>cl_normalClosing := x0\<rparr>) = adv c c'"
  "adv c (c'\<lparr>cl_constructing := x1\<rparr>) = adv c c'"
  "adv c (c'\<lparr>cl_callbackFailure := x2\<rparr>) = adv c c'"
  "adv c (c'\<lparr>cl_callbackWork := x3\<rparr>) = adv c c'"
  "adv c (c'\<lparr>cl_causePublished := x4\<rparr>) = adv c c'"
  "adv c (c'\<lparr>cl_shutdownStarted := x5\<rparr>) = adv c c'"
  "adv c (c'\<lparr>cl_store := x6\<rparr>) = adv c c'"
  "adv c (c'\<lparr>cl_attachmentRetention := x7\<rparr>) = adv c c'"
  "adv c (c'\<lparr>cl_nextID := x8\<rparr>) = adv c c'"
  "adv c (c'\<lparr>cl_pending := x9\<rparr>) = adv c c'"
  "adv c (c'\<lparr>cl_responses := x10\<rparr>) = adv c c'"
  "adv c (c'\<lparr>cl_exactStreams := x11\<rparr>) = adv c c'"
  "adv c (c'\<lparr>cl_exactAttaching := x12\<rparr>) = adv c c'"
  "adv c (c'\<lparr>cl_pendingEvents := x13\<rparr>) = adv c c'"
  "adv c (c'\<lparr>cl_armedThreadAttach := x14\<rparr>) = adv c c'"
  "adv c (c'\<lparr>cl_armedTurnAttach := x15\<rparr>) = adv c c'"
  "adv c (c'\<lparr>cl_pendingThreadNotifications := x16\<rparr>) = adv c c'"
  "adv c (c'\<lparr>cl_pendingThreadRetention := x17\<rparr>) = adv c c'"
  "adv c (c'\<lparr>cl_pendingDiagnostics := x18\<rparr>) = adv c c'"
  "adv c (c'\<lparr>cl_pendingDiagnosticRetention := x19\<rparr>) = adv c c'"
  "adv c (c'\<lparr>cl_replayingEvents := x20\<rparr>) = adv c c'"
  "adv c (c'\<lparr>cl_evidence := x21\<rparr>) = adv c c'"
  "adv c (c'\<lparr>cl_queue := x22\<rparr>) = adv c c'"
  "adv c (c'\<lparr>cl_queueCapacity := x23\<rparr>) = adv c c'"
  "adv c (c'\<lparr>cl_interrupts := x24\<rparr>) = adv c c'"
  "adv c (c'\<lparr>cl_writes := x25\<rparr>) = adv c c'"
  by (simp_all add: adv_def client_le_def client_ok_def)

lemmas adv_finish [intro] = adv_keeps[OF finish_run_keeps]
lemmas adv_store [intro] = adv_keeps[OF keeps_on_store(1)] adv_keeps[OF keeps_on_store(2)]
lemmas adv_accept = adv_keeps[OF accept_run_keeps]
lemmas adv_diagnostic = adv_keeps[OF diagnostic_run_keeps]

lemma adv_accept_eq: "accept_run E i n l c' = (r, c'') \<Longrightarrow> adv c c' \<Longrightarrow> adv c c''"
  using adv_accept[of c c' E i n l] by simp

lemma adv_diagnostic_eq: "diagnostic_run i ref l c' = (r, c'') \<Longrightarrow> adv c c' \<Longrightarrow> adv c c''"
  using adv_diagnostic[of c c' i ref l] by simp

lemma adv_fold: "(\<And>x c'. x \<in> set xs \<Longrightarrow> adv c' (f x c')) \<Longrightarrow> adv c c' \<Longrightarrow> adv c (fold f xs c')"
proof (induction xs arbitrary: c')
  case (Cons x xs)
  then show ?case using adv_trans[of c c' "f x c'"] by simp
qed simp

lemma adv_resolve: "resolveEvidence E i n c' = (r, c'') \<Longrightarrow> adv c c' \<Longrightarrow> adv c c''"
  by (auto simp: resolveEvidence_def split: option.splits if_splits sum.splits prod.splits dest: adv_accept_eq)

lemma adv_resolvePending: "adv c c' \<Longrightarrow> adv c (snd (resolvePendingEvidence E n c'))"
  unfolding resolvePendingEvidence_def
  using adv_resolve[OF prod.collapse[symmetric], of c c' E "evidence_state n c'" n] by auto

lemma adv_failAll: "adv c (failAll E err c)"
proof -
  have c1: "adv c (fail_snapshot (c\<lparr>cl_pending := []\<rparr>))"
    unfolding fail_snapshot_def Let_def by (simp add: adv_store)
  have commit: "adv d (commit_evidence E n d)" for n d
    unfolding commit_evidence_def by (intro adv_store adv_resolvePending adv_refl)
  have diag: "adv d (fail_diagnostic streams x d)" for streams x d
    unfolding fail_diagnostic_def
    by (cases x) (auto intro!: adv_store adv_fold adv_diagnostic split: prod.splits)
  have dl: "adv d (fold (\<lambda>(call, _). deliver call r) xs d)" for r d and xs :: "(gostring \<times> pendingCall) list"
    by (rule adv_fold) (auto simp: deliver_def)
  show ?thesis
    unfolding failAll_def Let_def
    by (rule adv_trans[OF _ dl]) (intro adv_fold adv_finish commit diag adv_refl adv_store c1)
qed

lemma adv_publish [simp]: "adv c (publishCloseCause c') = adv c c'"
  by (simp add: publishCloseCause_def)

lemma adv_claim: "claimFailureLocked err c = (r, c') \<Longrightarrow> adv c c'"
  by (auto simp: claimFailureLocked_def adv_def client_le_def client_ok_def split: if_splits)

lemma adv_beginShutdown [intro]: "adv c c' \<Longrightarrow> adv c (beginShutdown c')"
proof -
  have "adv c' (beginShutdown c')"
    by (auto simp: beginShutdown_def adv_def client_le_def client_ok_def)
  then show "adv c c' \<Longrightarrow> adv c (beginShutdown c')" by (rule adv_trans[rotated])
qed

lemma adv_failClient [intro]: "adv c c' \<Longrightarrow> adv c (failClient E err c')"
proof -
  have "adv c' (failClient E err c')"
  proof (cases "claimFailureLocked (Some err) c'")
    case (Pair r d)
    then have "adv c' d" by (rule adv_claim)
    then have "adv c' (failAll E err d)" by (rule adv_trans) (rule adv_failAll)
    with Pair \<open>adv c' d\<close> show ?thesis
      by (cases r) (auto simp: failClient_def claimFailureLocked_def split: if_splits)
  qed
  then show "adv c c' \<Longrightarrow> adv c (failClient E err c')" by (rule adv_trans[rotated])
qed

lemma adv_shutdown: "adv c (shutdown E c)"
  by (simp add: shutdown_def adv_failAll)

end
