(* ===== verification/Client_Routing.thy ===== *)
theory Client_Routing
  imports Client
begin

text \<open>
  Routing in \<open>codexsdk/client.go\<close>: which runs a notification reaches, evidence that waits for a run to
  attach, attaching and abandoning a run, and decode failures. The field \<open>pendingGlobal\<close>, which
  attachment reads, is never assigned and always nil.
\<close>

section \<open>Targets\<close>

definition run_matches :: "notificationIdentity \<Rightarrow> Client \<Rightarrow> nat \<Rightarrow> bool" where
  "run_matches identity c i = matchesRun identity (rn_threadID (cl_runs c ! i)) (turnIDSnapshot i c)"

definition route_targets :: "notificationAttributionClass \<Rightarrow> notificationIdentity \<Rightarrow> Client \<Rightarrow> nat list" where
  "route_targets class identity c = (case class of
      notificationAttributionTurn \<Rightarrow>
        filter (run_matches identity c) (owners_of (ni_turnID identity) (cl_exactStreams c)) @
        filter (\<lambda>i. turnIDSnapshot i c = ni_turnID identity \<and> run_matches identity c i) (map snd (cl_exactAttaching c))
    | notificationAttributionThread \<Rightarrow>
        filter (run_matches identity c) (map snd (cl_exactStreams c)) @
        filter (run_matches identity c) (map snd (cl_exactAttaching c))
    | _ \<Rightarrow> [])"

text \<open>The outcome of the critical section that looks for targets.\<close>

datatype route = RouteNone | RouteFail go_error | RoutePending nat | RouteTargets "nat list"

definition pend_thread :: "notificationIdentity \<Rightarrow> ServerNotification \<Rightarrow> Client \<Rightarrow> go_error option \<times> Client" where
  "pend_thread identity typed c =
     (if ni_threadID identity \<notin> set (cl_armedThreadAttach c) then (None, c)
      else case store_reserve 3 (wrap64 (3 * retainedValueBytes (sn_value typed))) (cl_store c) of
          (Inl e, st) \<Rightarrow> (Some e, c\<lparr>cl_store := st\<rparr>)
        | (Inr l, st) \<Rightarrow> (None, c\<lparr>cl_store := st,
            cl_pendingThreadRetention := append_at (ni_threadID identity) l (cl_pendingThreadRetention c),
            cl_pendingThreadNotifications := append_at (ni_threadID identity) typed (cl_pendingThreadNotifications c)\<rparr>))"

definition pend_turn ::
  "client_env \<Rightarrow> rpcNotification \<Rightarrow> notificationIdentity \<Rightarrow> ServerNotification \<Rightarrow> Client \<Rightarrow> route \<times> Client" where
  "pend_turn E n identity typed c = (case map_of (cl_armedTurnAttach c) (ni_turnID identity) of
      Some owner \<Rightarrow>
        if ni_turnID identity \<noteq> [] \<and> run_matches identity c owner then
          (case store_reserve 4 (wrap64 (retainedValueBytes (ce_params_value E (rpc_params n))
              + 3 * retainedValueBytes (sn_value typed))) (cl_store c) of
             (Inl e, st) \<Rightarrow> (RouteFail e, c\<lparr>cl_store := st\<rparr>)
           | (Inr l, st) \<Rightarrow>
               let e = length (cl_evidence c);
                   n = n\<lparr>rpc_retained := l, rpc_evidence := Some e\<rparr>
               in (RoutePending e, c\<lparr>cl_store := st,
                     cl_evidence := cl_evidence c @ [\<lparr>ne_state = owner, ne_resolved = False, ne_completion = None,
                        ne_err = None, ne_dispatched = hasNotificationHandler E\<rparr>],
                     cl_pendingEvents := append_at (ni_turnID identity) n (cl_pendingEvents c)\<rparr>))
        else (RouteTargets [], c)
    | None \<Rightarrow> (RouteTargets [], c))"

definition route_section ::
  "client_env \<Rightarrow> rpcNotification \<Rightarrow> ServerNotification \<Rightarrow> Client \<Rightarrow> route \<times> Client" where
  "route_section E n typed c = (case attributionFor (pr_LookupMethod (ce_proto E)) typed of (class, identity) \<Rightarrow>
     if class = notificationAttributionGlobal \<or> class = notificationAttributionUnsupported \<or> cl_closed c
     then (RouteNone, c)
     else let targets = route_targets class identity c in
       if targets \<noteq> [] then (RouteTargets targets, c)
       else if class = notificationAttributionThread then
         (case pend_thread identity typed c of (Some e, c) \<Rightarrow> (RouteFail e, c)
          | (None, c) \<Rightarrow> pend_turn E n identity typed c)
       else pend_turn E n identity typed c)"

text \<open>Delivery to the targets, each behind its own order gate: the completions and the first error.\<close>

definition deliver_target ::
  "client_env \<Rightarrow> ServerNotification \<Rightarrow> nat \<Rightarrow> ((nat \<times> go_error option) list \<times> (nat \<times> go_error) option) \<times> Client
    \<Rightarrow> ((nat \<times> go_error option) list \<times> (nat \<times> go_error) option) \<times> Client" where
  "deliver_target E typed i acc = (case acc of ((cs, failed), c) \<Rightarrow>
     (case accept_run E i typed None c of ((completion, err), c) \<Rightarrow>
        ((case completion of None \<Rightarrow> cs | Some e \<Rightarrow> cs @ [(i, e)],
          case err of Some e \<Rightarrow> if failed = None then Some (i, e) else failed | None \<Rightarrow> failed), c)))"

definition failExactNotificationDelivery :: "client_env \<Rightarrow> nat \<Rightarrow> go_error \<Rightarrow> Client \<Rightarrow> Client" where
  "failExactNotificationDelivery E i err c = failClient E
     (if errors_is err ErrNotificationBackpressure
      then ErrWrap (''turn_id='' @ turnIDSnapshot i c) [ErrNotificationBackpressure] else err) c"

definition routeExactNotificationBeforeTerminalCompletion ::
  "client_env \<Rightarrow> rpcNotification \<Rightarrow> ServerNotification \<Rightarrow> Client
    \<Rightarrow> (bool \<times> (nat \<times> go_error option) list \<times> nat option) \<times> Client" where
  "routeExactNotificationBeforeTerminalCompletion E n typed c = (case route_section E n typed c of
      (RouteNone, c) \<Rightarrow> ((False, [], None), c)
    | (RouteFail e, c) \<Rightarrow> ((False, [], None), failClient E e c)
    | (RoutePending e, c) \<Rightarrow> ((True, [], Some e), c)
    | (RouteTargets targets, c) \<Rightarrow>
        (case fold (deliver_target E typed) targets (([], None), c) of ((cs, failed), c) \<Rightarrow>
           ((targets \<noteq> [], cs, None),
            case failed of None \<Rightarrow> c | Some (i, e) \<Rightarrow> failExactNotificationDelivery E i e c)))"

section \<open>Ingesting a notification\<close>

definition RawResponseItemCompletedExtension :: gostring where
  "RawResponseItemCompletedExtension = ''rawResponseItem/completed''"

definition requiresRawNotification :: "client_env \<Rightarrow> gostring \<Rightarrow> bool" where
  "requiresRawNotification E method = (case ce_raw E of None \<Rightarrow> False | Some methods \<Rightarrow> method \<in> set methods)"

definition turnIDFromNotification :: "(string \<times> JSONValue) list option \<Rightarrow> gostring" where
  "turnIDFromNotification params = (case params of None \<Rightarrow> []
     | Some p \<Rightarrow>
         if jsonString (map_of p ''turnId'') \<noteq> [] then jsonString (map_of p ''turnId'')
         else (case as_object (map_of p ''turn'') of None \<Rightarrow> [] | Some turn \<Rightarrow> jsonString (map_of turn ''id'')))"

definition threadIDFromNotification :: "(string \<times> JSONValue) list option \<Rightarrow> gostring" where
  "threadIDFromNotification params = (case params of None \<Rightarrow> [] | Some p \<Rightarrow> jsonString (map_of p ''threadId''))"

definition rawNotification ::
  "client_env \<Rightarrow> rpcNotification \<Rightarrow> (string \<times> JSONValue) list \<Rightarrow> go_error + RawNotification" where
  "rawNotification E n envelope =
     (case (if rpc_method n = RawResponseItemCompletedExtension then ce_raw_schema E (rpc_params n) else None) of
        Some e \<Rightarrow> Inl e
      | None \<Rightarrow> (case MarshalJSON (JObject envelope) of Inl _ \<Rightarrow> Inl ErrRawNotificationDecode
          | Inr raw \<Rightarrow> (case ParseJSONValue raw of Inl _ \<Rightarrow> Inl ErrRawNotificationDecode
              | Inr value \<Rightarrow>
                  let threadID = threadIDFromNotification (rpc_params n);
                      threadID = (if threadID \<noteq> [] then threadID
                        else (case rpc_params n of None \<Rightarrow> []
                          | Some p \<Rightarrow> (case as_object (map_of p ''thread'') of None \<Rightarrow> [] | Some t \<Rightarrow> jsonString (map_of t ''id''))))
                  in Inr \<lparr>raw_Method = rpc_method n, raw_ThreadID = threadID,
                       raw_TurnID = turnIDFromNotification (rpc_params n), raw_Envelope = value\<rparr>)))"

definition diagnostic_targets :: "gostring \<Rightarrow> gostring \<Rightarrow> Client \<Rightarrow> nat list" where
  "diagnostic_targets turnID threadID c =
     map snd (filter (\<lambda>(candidate, i). turnID \<noteq> [] \<and> candidate = turnID \<or>
        turnID = [] \<and> (threadID = [] \<or> rn_threadID (cl_runs c ! i) = threadID)) (cl_exactStreams c)) @
     map snd (filter (\<lambda>(candidate, i). threadID = [] \<or> candidate = threadID) (cl_exactAttaching c))"

text \<open>The loop over the targets stops at the first budget error, which fails the client instead.\<close>

fun add_diagnostics :: "client_env \<Rightarrow> DiagnosticRef \<Rightarrow> go_error \<Rightarrow> nat list \<Rightarrow> Client \<Rightarrow> Client" where
  "add_diagnostics E ref err [] c = failClient E err c"
| "add_diagnostics E ref err (i # is) c = (case diagnostic_run i ref None c of
      (Some budgetErr, c) \<Rightarrow> failClient E budgetErr c
    | (None, c) \<Rightarrow> add_diagnostics E ref err is c)"

definition routeExactNotificationError :: "client_env \<Rightarrow> rpcNotification \<Rightarrow> go_error \<Rightarrow> Client \<Rightarrow> Client" where
  "routeExactNotificationError E n err c =
     (let raw = (case rpc_params n of None \<Rightarrow> ''null''
            | Some p \<Rightarrow> (case MarshalJSON (JObject p) of Inl _ \<Rightarrow> [] | Inr t \<Rightarrow> t));
          turnID = turnIDFromNotification (rpc_params n);
          ref = \<lparr>dr_Kind = ''notification_decode_error'', dr_ID = turnID, dr_Path = rpc_method n,
             dr_SizeBytes = int (length raw), dr_SHA256 = ce_sha256 E raw\<rparr>;
          threadID = threadIDFromNotification (rpc_params n)
      in if cl_closed c then c
         else let targets = diagnostic_targets turnID threadID c in
           if targets = [] \<and> turnID \<noteq> [] then
             (case store_reserve 1 (retainedValueBytes (ref_value ref)) (cl_store c) of
                (Inl e, st) \<Rightarrow> failClient E e (c\<lparr>cl_store := st\<rparr>)
              | (Inr l, st) \<Rightarrow> failClient E err (c\<lparr>cl_store := st,
                  cl_pendingDiagnosticRetention := append_at turnID l (cl_pendingDiagnosticRetention c),
                  cl_pendingDiagnostics := append_at turnID ref (cl_pendingDiagnostics c)\<rparr>))
           else add_diagnostics E ref err targets c)"

definition route_typed ::
  "client_env \<Rightarrow> rpcNotification \<Rightarrow> ServerNotification \<Rightarrow> RawNotification option \<Rightarrow> Client \<Rightarrow> Client" where
  "route_typed E n typed raw c = (case routeExactNotificationBeforeTerminalCompletion E n typed c of
      ((_, cs, ev), c) \<Rightarrow>
        let handled = hasNotificationHandler E;
            accepted = \<lparr>an_raw = raw, an_notification = Some typed, an_evidence = ev, an_retained = None,
              an_completions = (if handled then cs else [])\<rparr>
        in (case enqueueAcceptedNotification E accepted c of
              (Some e, c) \<Rightarrow> failClient E e c
            | (None, c) \<Rightarrow> if handled then c else complete_all cs c))"

definition routeNotification :: "client_env \<Rightarrow> rpcNotification \<Rightarrow> (string \<times> JSONValue) list \<Rightarrow> Client \<Rightarrow> Client" where
  "routeNotification E n envelope c =
     (if cl_closed c then c
      else let required = requiresRawNotification E (rpc_method n) in
        case (if required then map_sum id Some (rawNotification E n envelope) else Inr None) of
          Inl e \<Rightarrow> failClient E e c
        | Inr raw \<Rightarrow>
            if required \<and> rpc_method n = RawResponseItemCompletedExtension
            then snd (enqueueAcceptedNotification E \<lparr>an_raw = raw, an_notification = None, an_evidence = None,
                   an_retained = None, an_completions = []\<rparr> c)
            else if \<not> knownServerNotificationKind (pr_LookupMethod (ce_proto E)) (rpc_method n) then c
            else (case ce_decode E (rpc_method n) (rpc_params n) of
                Inl e \<Rightarrow> routeExactNotificationError E n (if raw \<noteq> None then ErrRawNotificationDecode else e) c
              | Inr typed \<Rightarrow> route_typed E n typed raw c))"

section \<open>Attaching a run\<close>

definition finishExactPendingReplay :: "nat \<Rightarrow> Client \<Rightarrow> Client" where
  "finishExactPendingReplay i c =
     (let pending = values_at i (cl_replayingEvents c)
      in release_all (map rpc_retained pending) (c\<lparr>cl_replayingEvents := AList.delete i (cl_replayingEvents c)\<rparr>))"

definition replay_one :: "client_env \<Rightarrow> nat \<Rightarrow> rpcNotification \<Rightarrow> Client \<Rightarrow> go_error option \<times> Client" where
  "replay_one E i n c = (case rpc_evidence n of
      None \<Rightarrow> (case ce_decode E (rpc_method n) (rpc_params n) of Inl e \<Rightarrow> (Some e, c)
        | Inr typed \<Rightarrow> (case accept_run E i typed (rpc_retained n) c of
            ((Some err, e), c) \<Rightarrow> (e, finish_run i err c) | ((None, e), c) \<Rightarrow> (e, c)))
    | Some _ \<Rightarrow> (case resolveEvidence E i n c of (e, c) \<Rightarrow>
        (e, if hasNotificationHandler E then c else completeEvidenceTerminal i n c)))"

fun replay :: "client_env \<Rightarrow> nat \<Rightarrow> rpcNotification list \<Rightarrow> Client \<Rightarrow> go_error option \<times> Client" where
  "replay E i [] c = (None, c)"
| "replay E i (n # ns) c = (case replay_one E i n c of
      (Some e, c) \<Rightarrow> (Some e, c) | (None, c) \<Rightarrow> replay E i ns c)"

fun attach_diagnostics :: "nat \<Rightarrow> DiagnosticRef list \<Rightarrow> lease_ptr list \<Rightarrow> Client \<Rightarrow> go_error option \<times> Client" where
  "attach_diagnostics i [] ls c = (None, c)"
| "attach_diagnostics i (ref # refs) ls c = (case diagnostic_run i ref (lease_at 0 ls) c of
      (Some e, c) \<Rightarrow> (Some e, c) | (None, c) \<Rightarrow> attach_diagnostics i refs (drop 1 ls) c)"

text \<open>The critical section of \<open>attachExactStreamLocked\<close>: what it takes over, if the run is still live.\<close>

definition attach_section :: "nat \<Rightarrow> Client \<Rightarrow> (rpcNotification list \<times> DiagnosticRef list \<times> lease_ptr list) option \<times> Client" where
  "attach_section i c =
     (let turnID = turnIDSnapshot i c; threadID = rn_threadID (cl_runs c ! i);
          terminal = rn_terminal (cl_runs c ! i);
          c = c\<lparr>cl_armedTurnAttach := AList.delete turnID (cl_armedTurnAttach c)\<rparr>;
          c = releaseAttachmentLocked (''turn:'' @ turnID) c;
          c = c\<lparr>cl_exactAttaching := filter (\<lambda>e. e \<noteq> (threadID, i)) (cl_exactAttaching c)\<rparr>
      in if terminal then (None, c)
         else let pending = values_at turnID (cl_pendingEvents c);
                  refs = values_at turnID (cl_pendingDiagnostics c);
                  ls = values_at turnID (cl_pendingDiagnosticRetention c)
              in (Some (pending, refs, ls),
                  c\<lparr>cl_exactStreams := List.insert (turnID, i) (cl_exactStreams c),
                    cl_pendingEvents := AList.delete turnID (cl_pendingEvents c),
                    cl_replayingEvents := (if pending \<noteq> [] then AList.update i pending (cl_replayingEvents c) else cl_replayingEvents c),
                    cl_pendingDiagnostics := AList.delete turnID (cl_pendingDiagnostics c),
                    cl_pendingDiagnosticRetention := AList.delete turnID (cl_pendingDiagnosticRetention c)\<rparr>))"

definition attachExactStreamForTurn :: "client_env \<Rightarrow> nat \<Rightarrow> Turn \<Rightarrow> Client \<Rightarrow> Client" where
  "attachExactStreamForTurn E i turn c =
     (let c = c\<lparr>cl_runs := (cl_runs c)[i := setTurn turn (cl_runs c ! i)]\<rparr>
      in case attach_section i c of (None, c) \<Rightarrow> c
       | (Some (pending, refs, ls), c) \<Rightarrow> release_all ls
           (case replay E i pending c of
              (Some e, c) \<Rightarrow> failExactNotificationDelivery E i e (finishExactPendingReplay i c)
            | (None, c) \<Rightarrow> (case attach_diagnostics i refs ls (finishExactPendingReplay i c) of
                (Some e, c) \<Rightarrow> failClient E e c | (None, c) \<Rightarrow> c)))"

fun replay_thread :: "client_env \<Rightarrow> nat \<Rightarrow> ServerNotification list \<Rightarrow> lease_ptr list \<Rightarrow> Client \<Rightarrow> go_error option \<times> Client" where
  "replay_thread E i [] ls c = (None, c)"
| "replay_thread E i (t # ts) ls c = (case accept_run E i t (lease_at 0 ls) c of
      ((completion, Some e), c) \<Rightarrow> (Some e, failClient E e c)
    | ((completion, None), c) \<Rightarrow>
        replay_thread E i ts (drop 1 ls) (case completion of None \<Rightarrow> c | Some err \<Rightarrow> finish_run i err c))"

definition registerAttachingExactStream :: "client_env \<Rightarrow> nat \<Rightarrow> Client \<Rightarrow> go_error option \<times> Client" where
  "registerAttachingExactStream E i c =
     (let threadID = rn_threadID (cl_runs c ! i)
      in if cl_closed c then (Some ErrClientClosed, c)
         else if owners_of threadID (cl_exactAttaching c) \<noteq> []
         then (Some (ErrWrap (''thread_id='' @ threadID) [errConcurrentTurnStart]), c)
         else let pending = values_at threadID (cl_pendingThreadNotifications c);
                  ls = values_at threadID (cl_pendingThreadRetention c);
                  c = c\<lparr>cl_exactAttaching := cl_exactAttaching c @ [(threadID, i)],
                        cl_pendingThreadRetention := AList.delete threadID (cl_pendingThreadRetention c),
                        cl_pendingThreadNotifications := AList.delete threadID (cl_pendingThreadNotifications c),
                        cl_armedThreadAttach := removeAll threadID (cl_armedThreadAttach c)\<rparr>;
                  c = releaseAttachmentLocked (''thread:'' @ threadID) c
              in (case replay_thread E i pending ls c of (e, c) \<Rightarrow> (e, release_all ls c)))"

section \<open>Abandoning a run that never attached\<close>

definition owned_by :: "Client \<Rightarrow> nat \<Rightarrow> rpcNotification \<Rightarrow> bool" where
  "owned_by c i n = (rpc_evidence n \<noteq> None \<and> evidence_state n c = i)"

definition abandon_section :: "nat \<Rightarrow> Client \<Rightarrow> rpcNotification list \<times> Client" where
  "abandon_section i c =
     (let threadID = rn_threadID (cl_runs c ! i);
          c = c\<lparr>cl_exactAttaching := filter (\<lambda>e. e \<noteq> (threadID, i)) (cl_exactAttaching c)\<rparr>;
          armed = map fst (filter (\<lambda>e. snd e = i) (cl_armedTurnAttach c));
          c = c\<lparr>cl_armedTurnAttach := filter (\<lambda>e. snd e \<noteq> i) (cl_armedTurnAttach c)\<rparr>;
          c = fold (\<lambda>turnID. releaseAttachmentLocked (''turn:'' @ turnID)) armed c;
          pending = concat (map (\<lambda>(_, ns). filter (owned_by c i) ns) (cl_pendingEvents c));
          kept = filter (\<lambda>(_, ns). ns \<noteq> []) (map (\<lambda>(turnID, ns). (turnID, filter (\<lambda>n. \<not> owned_by c i n) ns)) (cl_pendingEvents c))
      in (pending, c\<lparr>cl_pendingEvents := kept\<rparr>))"

definition resolve_first :: "client_env \<Rightarrow> nat \<Rightarrow> rpcNotification \<Rightarrow> go_error option \<times> Client \<Rightarrow> go_error option \<times> Client" where
  "resolve_first E i n ec = (case resolveEvidence E i n (snd ec) of (e, c) \<Rightarrow>
     (if fst ec = None then e else fst ec, c))"

definition finishAttachingExactStream :: "client_env \<Rightarrow> nat \<Rightarrow> go_error \<Rightarrow> Client \<Rightarrow> Client" where
  "finishAttachingExactStream E i finishErr c =
     (case abandon_section i c of (pending, c) \<Rightarrow>
       (case fold (resolve_first E i) pending (None, c) of
          (Some e, c) \<Rightarrow> release_all (map rpc_retained pending) (failExactNotificationDelivery E i e (finish_run i (Some e) c))
        | (None, c) \<Rightarrow> release_all (map rpc_retained pending)
            (finish_run i (Some finishErr) (fold (completeEvidenceTerminal i) pending c))))"

end
