(* ===== verification/Server_Request.thy ===== *)
theory Server_Request
  imports Client_Routing
begin

text \<open>
  \<open>codexsdk/server_request.go\<close> and \<open>exact_server_request.go\<close>: requests of the app-server to the
  application, which fail closed. The generated \<open>ServerRequest\<close> union is its kind and its JSON text; its
  decoder is the parameter \<open>decode_request\<close>, and the application's handler is the outcome it returned.
\<close>

record ServerRequest =
  sq_Kind :: gostring
  sq_json :: "gostring option"

definition zero_request :: ServerRequest where
  "zero_request = \<lparr>sq_Kind = [], sq_json = None\<rparr>"

record ServerRequestResponse =
  sp_kind :: gostring
  sp_value :: "(go_error + gostring) option"

definition ErrExactServerRequest :: go_error where
  "ErrExactServerRequest = ErrNew ''codexsdk: exact server request failed closed''"

definition ExactServerRequestError :: "gostring \<Rightarrow> gostring \<Rightarrow> go_error" where
  "ExactServerRequestError kind reason = ErrTyped ''codexsdk.ExactServerRequestError'' [kind, reason] [ErrExactServerRequest]"

definition unhandledExactServerRequest :: "gostring \<Rightarrow> go_error" where
  "unhandledExactServerRequest kind = ExactServerRequestError kind ''no server request handler is configured''"

text \<open>\<open>write\<close>: a message that was written is in \<open>cl_writes\<close>.\<close>

definition client_write :: "client_env \<Rightarrow> (string \<times> JSONValue) list \<Rightarrow> Client \<Rightarrow> go_error option \<times> Client" where
  "client_write E payload c = (case ce_write E payload of Some e \<Rightarrow> (Some e, c)
     | None \<Rightarrow> (None, c\<lparr>cl_writes := cl_writes c @ [payload]\<rparr>))"

definition itoa_int :: "int \<Rightarrow> string" where
  "itoa_int i = (if i < 0 then ''-'' @ itoa (nat (- i)) else itoa (nat i))"

definition writeServerRequestError :: "client_env \<Rightarrow> JSONValue \<Rightarrow> int \<Rightarrow> go_error \<Rightarrow> Client \<Rightarrow> go_error option \<times> Client" where
  "writeServerRequestError E reqid code err = client_write E
     [(''error'', JObject [(''code'', JNumber (itoa_int code)), (''message'', JString (ce_error_text E err))]), (''id'', reqid)]"

section \<open>Correlated runs\<close>

definition extractServerRequestIdentity :: "ServerRequest \<Rightarrow> gostring \<times> gostring" where
  "extractServerRequestIdentity request = (case sq_json request of None \<Rightarrow> ([], [])
     | Some raw \<Rightarrow> (case unmarshal_any raw of
         Some (JObject envelope) \<Rightarrow> (case as_object (map_of envelope ''params'') of None \<Rightarrow> ([], [])
           | Some params \<Rightarrow>
               let threadID = jsonString (map_of params ''threadId'')
               in (if threadID = [] then jsonString (map_of params ''conversationId'') else threadID,
                   jsonString (map_of params ''turnId'')))
       | _ \<Rightarrow> ([], [])))"

definition exactRunsForServerRequest :: "ServerRequest \<Rightarrow> Client \<Rightarrow> nat list" where
  "exactRunsForServerRequest request c = (case extractServerRequestIdentity request of (threadID, turnID) \<Rightarrow>
     if threadID = [] \<and> turnID = [] then []
     else if turnID \<noteq> [] then
       filter (\<lambda>i. threadID = [] \<or> rn_threadID (cl_runs c ! i) = threadID) (owners_of turnID (cl_exactStreams c)) @
       (if threadID \<noteq> [] then
          filter (\<lambda>i. turnIDSnapshot i c = turnID \<or> turnIDSnapshot i c = [] \<and> owners_of turnID (cl_exactStreams c) = [])
            (owners_of threadID (cl_exactAttaching c))
        else [])
     else map snd (filter (\<lambda>e. rn_threadID (cl_runs c ! snd e) = threadID) (cl_exactStreams c)) @
          owners_of threadID (cl_exactAttaching c))"

section \<open>Handling\<close>

definition failExactServerRequest ::
  "client_env \<Rightarrow> JSONValue \<Rightarrow> ServerRequest \<Rightarrow> int \<Rightarrow> go_error \<Rightarrow> Client \<Rightarrow> Client" where
  "failExactServerRequest E reqid request code failure c =
     (let c = fold (\<lambda>i. finish_run i (Some failure)) (exactRunsForServerRequest request c) c
      in case writeServerRequestError E reqid code failure c of
          (Some e, c) \<Rightarrow> failClient E e c | (None, c) \<Rightarrow> c)"

definition rejectExactServerRequestAfterAdmissionClosed ::
  "client_env \<Rightarrow> JSONValue \<Rightarrow> ServerRequest \<Rightarrow> Client \<Rightarrow> Client" where
  "rejectExactServerRequestAfterAdmissionClosed E reqid request c =
     snd (writeServerRequestError E reqid (-32000) (ExactServerRequestError (sq_Kind request) ''callback admission is closed'') c)"

definition closingNormally :: "Client \<Rightarrow> bool" where
  "closingNormally c = (cl_normalClosing c \<and> cl_failure c = None)"

definition writeExactServerRequestResponse ::
  "client_env \<Rightarrow> JSONValue \<Rightarrow> ServerRequest \<Rightarrow> go_error + gostring \<Rightarrow> Client \<Rightarrow> go_error option \<times> Client" where
  "writeExactServerRequestResponse E reqid request value c = (case value of
      Inl e \<Rightarrow> (None, failExactServerRequest E reqid request (-32602) (ErrWrap ''encode response'' [e]) c)
    | Inr raw \<Rightarrow> (case unmarshalJSONPreserveNumbers raw of
        Inr (JObject result) \<Rightarrow> client_write E [(''id'', reqid), (''result'', JObject result)] c
      | Inr JNull \<Rightarrow> client_write E [(''id'', reqid), (''result'', JNull)] c
      | _ \<Rightarrow> (None, failExactServerRequest E reqid request (-32602) (ErrWrap ''decode response object'' []) c)))"

text \<open>
  \<open>respondToExactServerRequest\<close> with the outcome of \<open>invokeExactServerRequestHandler\<close>: \<open>None\<close> when no
  handler is configured, \<open>Inl\<close> its error or recovered panic, \<open>Inr\<close> the handler's response.
\<close>

definition respondToExactServerRequest ::
  "client_env \<Rightarrow> (go_error + ServerRequestResponse) option \<Rightarrow> JSONValue \<Rightarrow> ServerRequest \<Rightarrow> Client \<Rightarrow> Client" where
  "respondToExactServerRequest E outcome reqid request c = (case outcome of
      None \<Rightarrow> failExactServerRequest E reqid request (-32000) (unhandledExactServerRequest (sq_Kind request)) c
    | Some (Inl err) \<Rightarrow>
        if closingNormally c then c
        else failExactServerRequest E reqid request (-32000) err c
    | Some (Inr response) \<Rightarrow>
        (case sp_value response of
           Some value \<Rightarrow>
             if sp_kind response \<noteq> sq_Kind request
             then failExactServerRequest E reqid request (-32602)
               (ExactServerRequestError (sq_Kind request) ''received mismatched or empty response'') c
             else (case writeExactServerRequestResponse E reqid request value c of
                 (Some e, c) \<Rightarrow> failClient E e c | (None, c) \<Rightarrow> c)
         | None \<Rightarrow> failExactServerRequest E reqid request (-32602)
             (ExactServerRequestError (sq_Kind request) ''received mismatched or empty response'') c))"

text \<open>
  \<open>handleExactServerRequest\<close>: admission, then the response of a goroutine of its own, here run at once.
\<close>

definition handleExactServerRequest ::
  "client_env \<Rightarrow> (go_error + ServerRequestResponse) option \<Rightarrow> JSONValue \<Rightarrow> ServerRequest \<Rightarrow> Client \<Rightarrow> Client" where
  "handleExactServerRequest E outcome reqid request c = (case beginHandler c of
      (False, c) \<Rightarrow> rejectExactServerRequestAfterAdmissionClosed E reqid request c
    | (True, c) \<Rightarrow> endHandlerWork (respondToExactServerRequest E outcome reqid request c))"

definition known_request :: "client_env \<Rightarrow> gostring \<Rightarrow> bool" where
  "known_request E method = (case pr_LookupMethod (ce_proto E) method of None \<Rightarrow> False
     | Some info \<Rightarrow> mi_Direction info = MethodDirectionServerToClient \<and> mi_Kind info = MethodKindRequest)"

definition handleServerRequest ::
  "client_env \<Rightarrow> ((string \<times> JSONValue) list \<Rightarrow> go_error + ServerRequest) \<Rightarrow> (go_error + ServerRequestResponse) option
    \<Rightarrow> (string \<times> JSONValue) list \<Rightarrow> Client \<Rightarrow> Client" where
  "handleServerRequest E decode_request outcome message c =
     (let reqid = (case map_of message ''id'' of None \<Rightarrow> JNull | Some v \<Rightarrow> v)
      in if \<not> known_request E (jsonString (map_of message ''method''))
         then failExactServerRequest E reqid zero_request (-32601) (ErrWrap ''unsupported ServerRequest method'' []) c
         else case decode_request message of
             Inl e \<Rightarrow> failExactServerRequest E reqid zero_request (-32602) (ErrWrap ''decode ServerRequest'' [e]) c
           | Inr typed \<Rightarrow>
               if cl_closed c then rejectExactServerRequestAfterAdmissionClosed E reqid typed c
               else handleExactServerRequest E outcome reqid typed c)"

section \<open>One line from the app-server\<close>

definition ingestJSONRPCLine ::
  "client_env \<Rightarrow> (string \<Rightarrow> bool) \<Rightarrow> ((string \<times> JSONValue) list \<Rightarrow> go_error + ServerRequest) \<Rightarrow> (go_error + ServerRequestResponse) option
    \<Rightarrow> gostring \<Rightarrow> Client \<Rightarrow> env_error option \<times> Client" where
  "ingestJSONRPCLine E trace_ok decode_request outcome line c = (case decodeJSONRPCEnvelope trace_ok line of
      Inl e \<Rightarrow> (Some e, c)
    | Inr frame \<Rightarrow>
        let message = env_message frame
        in (None, case env_kind frame of
              jsonRPCRequest \<Rightarrow> handleServerRequest E decode_request outcome message c
            | jsonRPCNotification \<Rightarrow> routeNotification E
                \<lparr>rpc_method = jsonString (map_of message ''method''), rpc_params = as_object (map_of message ''params''),
                 rpc_evidence = None, rpc_retained = None\<rparr> message c
            | jsonRPCResponse \<Rightarrow> routeResponse E message c
            | jsonRPCError \<Rightarrow> routeResponse E message c))"

end
