(* ===== verification/Client_Safety.thy ===== *)
theory Client_Safety
  imports Server_Request
begin

text \<open>
  What holds of a client under every operation. \<open>client_core\<close> and \<open>client_rel\<close> are the contracts of a
  relation that the primitive operations of the client keep: the composite operations of routing,
  attachment, dispatch and server requests are proved to keep it once, inside the locales. They are
  interpreted for three relations: advancing (\<open>adv\<close>: first cause and frozen runs), the accounting of
  calls (\<open>calls\<close>), and the shape of the registries (\<open>shape\<close>).
\<close>

section \<open>Relations kept by the primitives\<close>

locale client_core =
  fixes R :: "Client \<Rightarrow> Client \<Rightarrow> bool"
  assumes refl: "R c c" and trans: "R a b \<Longrightarrow> R b c \<Longrightarrow> R a c"
    and store: "R c (c\<lparr>cl_store := st\<rparr>)"
    and evid: "R c (c\<lparr>cl_evidence := ev\<rparr>)"
    and attachment: "R c (c\<lparr>cl_attachmentRetention := ar\<rparr>)"
    and armed_thread: "R c (c\<lparr>cl_armedThreadAttach := at\<rparr>)"
    and armed_turn: "R c (c\<lparr>cl_armedTurnAttach := tu\<rparr>)"
    and events: "R c (c\<lparr>cl_pendingEvents := pe\<rparr>)"
    and thread_notes: "R c (c\<lparr>cl_pendingThreadNotifications := tn\<rparr>)"
    and thread_leases: "R c (c\<lparr>cl_pendingThreadRetention := tr\<rparr>)"
    and diags: "R c (c\<lparr>cl_pendingDiagnostics := pd\<rparr>)"
    and diag_leases: "R c (c\<lparr>cl_pendingDiagnosticRetention := pr\<rparr>)"
    and replaying: "R c (c\<lparr>cl_replayingEvents := re\<rparr>)"
    and accept: "R c (snd (accept_run E i n l c))"
    and diagnostic: "R c (snd (diagnostic_run i ref l c))"
    and finish: "R c (finish_run i err c)"
begin

lemma chain: "(\<And>c. R c (f c)) \<Longrightarrow> R c c' \<Longrightarrow> R c (f c')"
  using trans by blast

lemmas frames =
  chain[of "\<lambda>c. c\<lparr>cl_store := x\<rparr>" for x, OF store]
  chain[of "\<lambda>c. c\<lparr>cl_evidence := x\<rparr>" for x, OF evid]
  chain[of "\<lambda>c. c\<lparr>cl_attachmentRetention := x\<rparr>" for x, OF attachment]
  chain[of "\<lambda>c. c\<lparr>cl_armedThreadAttach := x\<rparr>" for x, OF armed_thread]
  chain[of "\<lambda>c. c\<lparr>cl_armedTurnAttach := x\<rparr>" for x, OF armed_turn]
  chain[of "\<lambda>c. c\<lparr>cl_pendingEvents := x\<rparr>" for x, OF events]
  chain[of "\<lambda>c. c\<lparr>cl_pendingThreadNotifications := x\<rparr>" for x, OF thread_notes]
  chain[of "\<lambda>c. c\<lparr>cl_pendingThreadRetention := x\<rparr>" for x, OF thread_leases]
  chain[of "\<lambda>c. c\<lparr>cl_pendingDiagnostics := x\<rparr>" for x, OF diags]
  chain[of "\<lambda>c. c\<lparr>cl_pendingDiagnosticRetention := x\<rparr>" for x, OF diag_leases]
  chain[of "\<lambda>c. c\<lparr>cl_replayingEvents := x\<rparr>" for x, OF replaying]
  chain[of "finish_run i e" for i e, OF finish]

lemma accepted: "accept_run E i n l c' = (r, c'') \<Longrightarrow> R c c' \<Longrightarrow> R c c''"
  using chain[of "\<lambda>c. snd (accept_run E i n l c)" c c', OF accept] by simp

lemma diagnosed: "diagnostic_run i ref l c' = (r, c'') \<Longrightarrow> R c c' \<Longrightarrow> R c c''"
  using chain[of "\<lambda>c. snd (diagnostic_run i ref l c)" c c', OF diagnostic] by simp

lemma folds: "(\<And>x c'. x \<in> set xs \<Longrightarrow> R c' (f x c')) \<Longrightarrow> R c c' \<Longrightarrow> R c (fold f xs c')"
proof (induction xs arbitrary: c')
  case (Cons x xs)
  then show ?case using trans[of c c' "f x c'"] by simp
qed simp

lemma on_store: "R c c' \<Longrightarrow> R c (on_store f c')" and released: "R c c' \<Longrightarrow> R c (release_all ls c')"
  by (simp_all add: on_store_def release_all_def frames)

lemma resolved: "resolveEvidence E i n c' = (r, c'') \<Longrightarrow> R c c' \<Longrightarrow> R c c''"
  by (auto simp: resolveEvidence_def split: option.splits if_splits sum.splits prod.splits intro: frames dest: accepted)

lemma resolved_pending: "R c c' \<Longrightarrow> R c (snd (resolvePendingEvidence E n c'))"
  unfolding resolvePendingEvidence_def
  using resolved[OF prod.collapse[symmetric], of c c' E "evidence_state n c'" n] by auto

lemma committed: "R c c' \<Longrightarrow> R c (commit_evidence E n c')"
  unfolding commit_evidence_def by (intro on_store resolved_pending)

lemma diag_failed: "R c c' \<Longrightarrow> R c (fail_diagnostic streams d c')"
proof -
  have "R d (if P then snd (diagnostic_run i ref l d) else d)" for P i ref l d
    by (simp add: diagnostic refl)
  then show "R c c' \<Longrightarrow> R c (fail_diagnostic streams d c')"
    unfolding fail_diagnostic_def by (cases d) (auto intro!: on_store folds)
qed

lemma snapshot: "R c c' \<Longrightarrow> R c (fail_snapshot c')"
  unfolding fail_snapshot_def Let_def by (intro frames released)

lemma attachment_released: "R c c' \<Longrightarrow> R c (releaseAttachmentLocked key c')"
  by (simp add: releaseAttachmentLocked_def Let_def frames on_store)

lemma attachment_retained: "retainAttachmentLocked key c' = (r, c'') \<Longrightarrow> R c c' \<Longrightarrow> R c c''"
  by (auto simp: retainAttachmentLocked_def split: if_splits prod.splits sum.splits intro: frames)

lemma armed: "arm_response pc result c' = (r, c'') \<Longrightarrow> R c c' \<Longrightarrow> R c c''"
  by (auto simp: arm_response_def armThreadAttach_def armTurnAttach_def
      split: if_splits prod.splits option.splits intro: frames dest: attachment_retained)

lemma dispatch_released: "R c c' \<Longrightarrow> R c (releaseDispatchWaiter a c')"
  by (simp add: releaseDispatchWaiter_def on_store)

lemma completed: "R c c' \<Longrightarrow> R c (complete_all cs c')" "R c c' \<Longrightarrow> R c (complete_evidence ev c')"
  "R c c' \<Longrightarrow> R c (completeEvidenceTerminal i n c')"
  by (auto simp: complete_all_def complete_evidence_def completeEvidenceTerminal_def
      intro!: folds frames refl split: option.splits)

text \<open>Everything of \<open>failAll\<close> but the pending calls.\<close>

lemma failed_runs:
  "R c c' \<Longrightarrow> R c (fold (\<lambda>i. finish_run i e) streams (fold (fail_diagnostic streams') ds
     (fold (commit_evidence E) ns (on_store f (fail_snapshot c')))))"
  by (intro folds frames refl committed diag_failed on_store snapshot)

end

section \<open>Relations kept by every operation\<close>

text \<open>A dispatched entry leaves the rest of the queue alone, unless its callbacks failed.\<close>

lemma finish_run_queue [simp]: "cl_queue (finish_run i e c) = cl_queue c"
  by (simp add: finish_run_def unregisterExactRun_def split: prod.splits sum.splits bool.splits)

lemma fold_finish_queue [simp]: "cl_queue (fold (\<lambda>(i, e). finish_run i e) cs c) = cl_queue c"
  by (induction cs arbitrary: c) auto

lemma dispatch_entry_queue: "dispatch_entry E cb a c = (True, c') \<Longrightarrow> cl_queue c' = cl_queue c"
  by (auto simp: dispatch_entry_def dispatchAcceptedNotification_def Let_def endNotificationHandler_def endHandlerWork_def
      complete_all_def complete_evidence_def releaseDispatchWaiter_def on_store_def split: if_splits option.splits)

locale client_rel = client_core +
  assumes failClient: "R c (failClient E e c)"
    and routeResponse: "R c (routeResponse E message c)"
    and leave_attaching: "R c (c\<lparr>cl_exactAttaching := filter P (cl_exactAttaching c)\<rparr>)"
    and queue: "length q \<le> length (cl_queue c) \<or> length q \<le> cl_queueCapacity c \<Longrightarrow> R c (c\<lparr>cl_queue := q\<rparr>)"
    and work: "R c (c\<lparr>cl_callbackWork := w\<rparr>)"
    and callback_failure: "R c (c\<lparr>cl_callbackFailure := cf\<rparr>)"
    and writes: "R c (c\<lparr>cl_writes := ws\<rparr>)"
    and interrupts: "R c (c\<lparr>cl_interrupts := is\<rparr>)"
begin

lemmas more_frames = frames
  chain[of "\<lambda>c. c\<lparr>cl_callbackWork := x\<rparr>" for x, OF work]
  chain[of "\<lambda>c. c\<lparr>cl_callbackFailure := x\<rparr>" for x, OF callback_failure]
  chain[of "\<lambda>c. c\<lparr>cl_writes := x\<rparr>" for x, OF writes]
  chain[of "\<lambda>c. c\<lparr>cl_interrupts := x\<rparr>" for x, OF interrupts]
  chain[of "failClient E e" for E e, OF failClient]
  chain[of "routeResponse E m" for E m, OF routeResponse]

lemma handler_work: "R c c' \<Longrightarrow> R c (addHandlerWork c')" "R c c' \<Longrightarrow> R c (endHandlerWork c')"
  "R c c' \<Longrightarrow> R c (endNotificationHandler E c')"
  by (simp_all add: addHandlerWork_def endHandlerWork_def endNotificationHandler_def more_frames)

lemma cancelled: "R c c' \<Longrightarrow> R c (cancel_run i e c')"
  by (simp add: cancel_run_def Let_def more_frames)

lemma enqueued: "enqueueAcceptedNotification E a c' = (r, c'') \<Longrightarrow> R c c' \<Longrightarrow> R c c''"
proof -
  have "R c' c''" if "enqueueAcceptedNotification E a c' = (r, c'')"
  proof (cases "cl_closed c'")
    case True
    with that show ?thesis by (auto simp: enqueueAcceptedNotification_def intro!: dispatch_released refl)
  next
    case False
    obtain k n where kn: "accepted_charge E a = (k, n)" by fastforce
    obtain x st where res: "store_reserve k n (cl_store c') = (x, st)" by fastforce
    let ?h = "if hasNotificationHandler E then addHandlerWork (c'\<lparr>cl_store := st\<rparr>) else c'\<lparr>cl_store := st\<rparr>"
    have h: "R c' ?h" by (auto intro!: handler_work frames refl)
    have q: "R c' (?h\<lparr>cl_queue := cl_queue ?h @ [b]\<rparr>)" if "length (cl_queue ?h) < cl_queueCapacity ?h" for b
      using that by (intro trans[OF h queue]) simp
    show ?thesis
    proof (cases x)
      case (Inl e)
      with that False kn res show ?thesis
        by (auto simp: enqueueAcceptedNotification_def intro!: dispatch_released more_frames refl)
    next
      case (Inr l)
      with that False kn res show ?thesis
        using q[of "a\<lparr>an_retained := l\<rparr>"] h
        by (auto simp: enqueueAcceptedNotification_def Let_def
            intro!: dispatch_released more_frames refl on_store handler_work split: if_splits)
    qed
  qed
  then show "enqueueAcceptedNotification E a c' = (r, c'') \<Longrightarrow> R c c' \<Longrightarrow> R c c''" using trans by blast
qed

lemma discarded: "R c c' \<Longrightarrow> R c (discardAcceptedNotifications E c')"
proof -
  assume "R c c'"
  then have "R c (c'\<lparr>cl_queue := []\<rparr>)" by (rule trans) (rule queue, simp)
  then show ?thesis
    unfolding discardAcceptedNotifications_def
    by (rule folds[rotated]) (auto intro: handler_work dispatch_released refl)
qed

lemma dispatched_entry: "dispatch_entry E cb a c' = (r, c'') \<Longrightarrow> R c c' \<Longrightarrow> R c c''"
  by (auto simp: dispatch_entry_def dispatchAcceptedNotification_def Let_def split: option.splits if_splits
      intro!: handler_work completed dispatch_released discarded more_frames)

lemma popped: "cl_queue c' = a # q \<Longrightarrow> R c c' \<Longrightarrow> R c (c'\<lparr>cl_queue := q\<rparr>)"
  using trans queue[of q c'] by simp

lemma drained: "cl_queue c' = q \<Longrightarrow> R c c' \<Longrightarrow> R c (drain_queue E cb q c')"
proof (induction q arbitrary: c')
  case (Cons a q)
  obtain r d where d: "dispatch_entry E cb a (c'\<lparr>cl_queue := q\<rparr>) = (r, d)" by fastforce
  have "R c d" using d popped[OF Cons.prems] by (rule dispatched_entry)
  with d Cons.IH[of d] dispatch_entry_queue[of E cb a _ d] show ?case by (cases r) auto
qed simp

lemma dispatched: "dispatch_round E cb k c' = (r, c'') \<Longrightarrow> R c c' \<Longrightarrow> R c c''"
  by (cases k) (auto simp: dispatch_round_def finishDispatchStop_def discardCurrentAndQueuedNotifications_def Let_def
      split: list.splits if_splits option.splits prod.splits bool.splits
      intro!: drained discarded handler_work dispatch_released intro: popped dest!: dispatched_entry)

lemma delivered: "R c (snd acc) \<Longrightarrow> R c (snd (fold (deliver_target E typed) targets acc))"
  by (induction targets arbitrary: acc)
    (auto simp: deliver_target_def split: prod.splits dest: accepted)

lemma delivery_failed: "R c c' \<Longrightarrow> R c (failExactNotificationDelivery E i e c')"
  by (simp add: failExactNotificationDelivery_def more_frames)

lemma sectioned: "route_section E n typed c' = (r, c'') \<Longrightarrow> R c c' \<Longrightarrow> R c c''"
  by (auto simp: route_section_def pend_thread_def pend_turn_def Let_def
      split: prod.splits if_splits option.splits sum.splits intro!: frames)

lemma routed_exact:
  assumes "routeExactNotificationBeforeTerminalCompletion E n typed c' = (r, c'')" "R c c'"
  shows "R c c''"
proof -
  obtain x d where x: "route_section E n typed c' = (x, d)" by fastforce
  have d: "R c d" using x assms(2) by (rule sectioned)
  have "R c (snd (fold (deliver_target E typed) ts (([], None), d)))" for ts
    by (rule delivered) (simp add: d)
  with assms(1) x d show ?thesis
    by (auto simp: routeExactNotificationBeforeTerminalCompletion_def split: route.splits prod.splits option.splits
        intro!: delivery_failed more_frames) (metis snd_conv)+
qed

lemma diagnostics_added: "R c c' \<Longrightarrow> R c (add_diagnostics E ref e ts c')"
  by (induction ts arbitrary: c') (auto split: prod.splits option.splits intro: more_frames dest: diagnosed)

lemma routed_error: "R c c' \<Longrightarrow> R c (routeExactNotificationError E n e c')"
  by (auto simp: routeExactNotificationError_def Let_def split: prod.splits sum.splits
      intro!: more_frames diagnostics_added)

lemma routed_typed: "R c c' \<Longrightarrow> R c (route_typed E n typed raw c')"
  by (auto simp: route_typed_def Let_def split: prod.splits option.splits
      intro!: more_frames completed dest!: routed_exact enqueued)

lemma routed: "R c c' \<Longrightarrow> R c (routeNotification E n envelope c')"
  using enqueued[OF prod.collapse[symmetric]]
  by (auto simp: routeNotification_def Let_def split: sum.splits intro!: more_frames routed_error routed_typed)

text \<open>Attachment.\<close>

lemma left_attaching: "R c c' \<Longrightarrow> R c (c'\<lparr>cl_exactAttaching := filter P (cl_exactAttaching c')\<rparr>)"
  by (rule chain[of "\<lambda>c. c\<lparr>cl_exactAttaching := filter P (cl_exactAttaching c)\<rparr>"]) (rule leave_attaching)

lemma replay_finished: "R c c' \<Longrightarrow> R c (finishExactPendingReplay i c')"
  unfolding finishExactPendingReplay_def Let_def by (intro released frames)

lemma replayed_one: "replay_one E i n c' = (r, c'') \<Longrightarrow> R c c' \<Longrightarrow> R c c''"
  by (auto simp: replay_one_def split: option.splits sum.splits prod.splits if_splits
      intro!: frames completed dest: accepted resolved)

lemma replayed: "replay E i ns c' = (r, c'') \<Longrightarrow> R c c' \<Longrightarrow> R c c''"
  by (induction ns arbitrary: c') (auto split: prod.splits option.splits dest: replayed_one)

lemma diagnostics_attached: "attach_diagnostics i refs ls c' = (r, c'') \<Longrightarrow> R c c' \<Longrightarrow> R c c''"
  by (induction refs arbitrary: c' ls) (auto split: prod.splits option.splits dest: diagnosed)

lemma replayed_thread: "replay_thread E i ts ls c' = (r, c'') \<Longrightarrow> R c c' \<Longrightarrow> R c c''"
  by (induction ts arbitrary: c' ls)
    (auto split: prod.splits option.splits intro: more_frames dest: accepted)

lemma resolved_first: "R c (snd ec) \<Longrightarrow> R c (snd (fold (resolve_first E i) ns ec))"
  by (induction ns arbitrary: ec) (auto simp: resolve_first_def split: prod.splits dest: resolved)

lemma abandoned: "abandon_section i c' = (r, c'') \<Longrightarrow> R c c' \<Longrightarrow> R c c''"
  by (auto simp: abandon_section_def Let_def intro!: frames folds attachment_released left_attaching refl)

lemma attaching_finished: "R c c' \<Longrightarrow> R c (finishAttachingExactStream E i e c')"
proof -
  assume R: "R c c'"
  obtain ns d where d: "abandon_section i c' = (ns, d)" by fastforce
  obtain x d' where d': "fold (resolve_first E i) ns (None, d) = (x, d')" by fastforce
  have "R c d'" using resolved_first[of c "(None, d)" E i ns] abandoned[OF d R] d' by simp
  with d d' show ?thesis
    by (auto simp: finishAttachingExactStream_def split: option.splits
        intro!: released delivery_failed more_frames folds completed refl)
qed

text \<open>Server requests.\<close>

lemma written: "client_write E payload c' = (r, c'') \<Longrightarrow> R c c' \<Longrightarrow> R c c''"
  by (auto simp: client_write_def split: option.splits intro: more_frames)

lemma request_failed: "R c c' \<Longrightarrow> R c (failExactServerRequest E reqid request code e c')"
  by (auto simp: failExactServerRequest_def writeServerRequestError_def Let_def split: prod.splits option.splits
      intro!: more_frames folds refl dest!: written intro: folds)

lemma request_rejected: "R c c' \<Longrightarrow> R c (rejectExactServerRequestAfterAdmissionClosed E reqid request c')"
  unfolding rejectExactServerRequestAfterAdmissionClosed_def writeServerRequestError_def
  by (rule written[OF prod.collapse[symmetric]])

lemma response_written: "writeExactServerRequestResponse E reqid request v c' = (r, c'') \<Longrightarrow> R c c' \<Longrightarrow> R c c''"
  by (auto simp: writeExactServerRequestResponse_def split: sum.splits JSONValue.splits
      intro: request_failed dest: written)

lemma responded: "R c c' \<Longrightarrow> R c (respondToExactServerRequest E outcome reqid request c')"
  by (auto simp: respondToExactServerRequest_def split: option.splits sum.splits prod.splits
      intro!: request_failed more_frames dest!: response_written)

lemma requested: "R c c' \<Longrightarrow> R c (handleServerRequest E dec outcome message c')"
  by (auto simp: handleServerRequest_def handleExactServerRequest_def beginHandler_def Let_def
      split: sum.splits if_splits intro!: request_failed request_rejected handler_work responded)

lemma ingested: "ingestJSONRPCLine E tr dec outcome line c' = (r, c'') \<Longrightarrow> R c c' \<Longrightarrow> R c c''"
  by (auto simp: ingestJSONRPCLine_def Let_def split: sum.splits jsonRPCEnvelopeKind.splits
      intro!: requested routed more_frames)

end

text \<open>
  Attaching a run puts it into a registry and gives it its turn. A relation that allows this of any run
  is kept by the two operations that attach.
\<close>

locale client_register = client_rel +
  assumes enter_attaching: "owners_of k (cl_exactAttaching c) = [] \<Longrightarrow> R c (c\<lparr>cl_exactAttaching := cl_exactAttaching c @ [(k, i)]\<rparr>)"
begin

lemma registered: "registerAttachingExactStream E i c' = (r, c'') \<Longrightarrow> R c c' \<Longrightarrow> R c c''"
proof -
  assume reg: "registerAttachingExactStream E i c' = (r, c'')" and R: "R c c'"
  let ?th = "rn_threadID (cl_runs c' ! i)"
  show ?thesis
  proof (cases "cl_closed c' \<or> owners_of ?th (cl_exactAttaching c') \<noteq> []")
    case False
    then have e: "R c (c'\<lparr>cl_exactAttaching := cl_exactAttaching c' @ [(?th, i)]\<rparr>)"
      using trans[OF R enter_attaching[of ?th c' i]] by simp
    let ?ls = "values_at ?th (cl_pendingThreadRetention c')"
    let ?d = "releaseAttachmentLocked (''thread:'' @ ?th) (c'\<lparr>cl_exactAttaching := cl_exactAttaching c' @ [(?th, i)],
        cl_pendingThreadRetention := AList.delete ?th (cl_pendingThreadRetention c'),
        cl_pendingThreadNotifications := AList.delete ?th (cl_pendingThreadNotifications c'),
        cl_armedThreadAttach := removeAll ?th (cl_armedThreadAttach c')\<rparr>)"
    obtain x d where d: "replay_thread E i (values_at ?th (cl_pendingThreadNotifications c')) ?ls ?d = (x, d)" by fastforce
    have "R c ?d" by (intro attachment_released frames e)
    with d have "R c d" by (rule replayed_thread)
    moreover have "c'' = release_all ?ls d"
      using reg False d by (simp add: registerAttachingExactStream_def Let_def)
    ultimately show ?thesis by (simp add: released)
  qed (use reg R in \<open>auto simp: registerAttachingExactStream_def Let_def split: if_splits\<close>)
qed

end

locale client_attach = client_register +
  assumes set_turn: "R c (c\<lparr>cl_runs := (cl_runs c)[i := setTurn t (cl_runs c ! i)]\<rparr>)"
    and streams: "R c (c\<lparr>cl_exactStreams := es\<rparr>)"
begin

lemma streams_set: "R c c' \<Longrightarrow> R c (c'\<lparr>cl_exactStreams := x\<rparr>)"
  by (rule chain[of "\<lambda>c. c\<lparr>cl_exactStreams := x\<rparr>"]) (rule streams)

lemma attach_sectioned: "attach_section i c' = (r, c'') \<Longrightarrow> R c c' \<Longrightarrow> R c c''"
  by (auto simp: attach_section_def Let_def split: if_splits intro!: more_frames streams_set left_attaching attachment_released)

lemma turn_set: "R c c' \<Longrightarrow> R c (c'\<lparr>cl_runs := (cl_runs c')[i := setTurn t (cl_runs c' ! i)]\<rparr>)"
  by (rule chain[of "\<lambda>c. c\<lparr>cl_runs := (cl_runs c)[i := setTurn t (cl_runs c ! i)]\<rparr>"]) (rule set_turn)

lemma attached: "R c c' \<Longrightarrow> R c (attachExactStreamForTurn E i turn c')"
  by (auto simp: attachExactStreamForTurn_def Let_def split: prod.splits option.splits
      dest!: turn_set[of c c' i turn] attach_sectioned replayed diagnostics_attached
      intro!: released delivery_failed replay_finished more_frames)

end

section \<open>First cause and frozen runs\<close>

lemma setTurn_keeps: "keeps (\<lambda>c. c\<lparr>cl_runs := (cl_runs c)[i := setTurn t (cl_runs c ! i)]\<rparr>)"
  by (rule keeps_run[where i = i and g = "\<lambda>s c. setTurn t s"]) (auto intro: setTurn_le)

interpretation advance: client_core adv
  by unfold_locales (auto intro: adv_refl adv_trans adv_accept adv_diagnostic adv_finish)

lemma adv_routeResponse: "adv c (routeResponse E message c)"
proof -
  have "arm_response pc result (c\<lparr>cl_pending := p\<rparr>) = (r, d) \<Longrightarrow> adv c d" for pc result p r d
    by (erule advance.armed) simp
  then show ?thesis
    by (auto simp: routeResponse_def route_result_def takePending_def deliver_def Let_def
        split: option.splits prod.splits intro!: adv_failClient)
qed

interpretation advance: client_attach adv
  by unfold_locales (auto intro: adv_failClient adv_routeResponse adv_keeps[OF setTurn_keeps])

section \<open>Accounting of calls\<close>

text \<open>\<open>calls_ok\<close>: no id is pending twice, answered twice, or pending and answered.\<close>

definition calls_ok :: "Client \<Rightarrow> bool" where
  "calls_ok c = distinct (map fst (cl_pending c) @ map fst (cl_responses c))"

definition call_ids :: "Client \<Rightarrow> gostring set" where
  "call_ids c = set (map fst (cl_pending c)) \<union> set (map fst (cl_responses c))"

text \<open>
  \<open>calls\<close>: no call is admitted or lost. A pending call stays pending or is answered, and answers stay.
\<close>

definition calls :: "Client \<Rightarrow> Client \<Rightarrow> bool" where
  "calls c c' \<longleftrightarrow> cl_nextID c' = cl_nextID c \<and> set (cl_pending c') \<subseteq> set (cl_pending c) \<and>
     prefix (cl_responses c) (cl_responses c') \<and> (calls_ok c \<longrightarrow> calls_ok c' \<and> call_ids c' = call_ids c)"

definition same_calls :: "Client \<Rightarrow> Client \<Rightarrow> bool" where
  "same_calls c c' \<longleftrightarrow> cl_nextID c' = cl_nextID c \<and> cl_pending c' = cl_pending c \<and> cl_responses c' = cl_responses c"

interpretation same: client_core same_calls
  by unfold_locales (auto simp: same_calls_def accept_run_def diagnostic_run_def finish_run_def unregisterExactRun_def
      split: prod.splits sum.splits bool.splits)

lemma same_calls_calls: "same_calls c c' \<Longrightarrow> calls c c'"
  by (simp add: same_calls_def calls_def calls_ok_def call_ids_def)

lemma calls_refl [simp]: "calls c c"
  by (simp add: calls_def)

lemma calls_trans: "calls a b \<Longrightarrow> calls b c \<Longrightarrow> calls a c"
  by (auto simp: calls_def intro: prefix_order.trans)

lemma fold_deliver: "fold (\<lambda>(call, _). deliver call r) ps c = c\<lparr>cl_responses := cl_responses c @ map (\<lambda>p. (fst p, r)) ps\<rparr>"
  by (induction ps arbitrary: c) (auto simp: deliver_def)

text \<open>\<open>failAll\<close> answers every pending call with the first cause and leaves none pending.\<close>

lemma failAll_calls:
  "cl_pending (failAll E e c) = []"
  "cl_responses (failAll E e c) = cl_responses c @ map (\<lambda>p. (fst p, RpcError (firstCloseReason e c))) (cl_pending c)"
  "cl_nextID (failAll E e c) = cl_nextID c"
proof -
  let ?x = "\<lambda>f streams streams' ds ns. fold (\<lambda>i. finish_run i (Some (firstCloseReason e c))) streams (fold (fail_diagnostic streams') ds
     (fold (commit_evidence E) ns (on_store f (fail_snapshot (c\<lparr>cl_pending := []\<rparr>)))))"
  have "same_calls (c\<lparr>cl_pending := []\<rparr>) (?x f streams streams' ds ns)" for f streams streams' ds ns
    by (rule same.failed_runs) (rule same.refl)
  then have x: "cl_pending (?x f streams streams' ds ns) = []" "cl_responses (?x f streams streams' ds ns) = cl_responses c"
    "cl_nextID (?x f streams streams' ds ns) = cl_nextID c" for f streams streams' ds ns
    by (simp_all add: same_calls_def)
  show "cl_pending (failAll E e c) = []"
    "cl_responses (failAll E e c) = cl_responses c @ map (\<lambda>p. (fst p, RpcError (firstCloseReason e c))) (cl_pending c)"
    "cl_nextID (failAll E e c) = cl_nextID c"
    by (simp_all add: failAll_def Let_def fold_deliver x del: fold_append)
qed

lemma calls_failAll: "calls c (failAll E e c)"
  by (auto simp: calls_def failAll_calls calls_ok_def call_ids_def comp_def)

lemma calls_failClient: "calls c (failClient E e c)"
proof -
  have "calls c (failAll E e (c\<lparr>cl_failure := Some e, cl_closeReason := Some e, cl_closed := True\<rparr>))"
    by (rule calls_trans[OF _ calls_failAll]) (simp add: same_calls_calls same_calls_def)
  then show ?thesis
    by (auto simp: failClient_def claimFailureLocked_def beginShutdown_def publishCloseCause_def calls_def calls_ok_def call_ids_def)
qed

lemma taken:
  assumes "takePending call c = (Some pc, c1)" "same_calls c1 c2"
  shows "calls c (deliver call r c2)"
proof -
  from assms(1) have c1: "map_of (cl_pending c) call = Some pc" "c1 = c\<lparr>cl_pending := AList.delete call (cl_pending c)\<rparr>"
    by (auto simp: takePending_def split: option.splits)
  have "call \<in> set (map fst (cl_pending c))" using c1(1) by (metis map_of_eq_None_iff option.distinct(1) set_map)
  moreover have "set (map fst (AList.delete call (cl_pending c))) = set (map fst (cl_pending c)) - {call}"
    by (metis AList.delete_keys list.set_map set_filter set_removeAll removeAll_filter_not_eq)
  moreover have "distinct (map fst (cl_pending c)) \<Longrightarrow> distinct (map fst (AList.delete call (cl_pending c)))"
    by (rule AList.distinct_delete)
  moreover have "set (AList.delete call (cl_pending c)) \<subseteq> set (cl_pending c)"
    by (auto simp: AList.delete_eq)
  ultimately show ?thesis
    using assms(2) c1(2) by (auto simp: calls_def deliver_def same_calls_def calls_ok_def call_ids_def simp del: set_map)
qed

lemma calls_routeResponse: "calls c (routeResponse E message c)"
proof -
  let ?call = "sprint_id (map_of message ''id'')"
  obtain pc c1 where t: "takePending ?call c = (pc, c1)" by fastforce
  show ?thesis
  proof (cases pc)
    case None
    with t show ?thesis by (auto simp: routeResponse_def takePending_def split: option.splits)
  next
    case (Some p)
    note t = t[unfolded Some]
    have plain: "calls c (deliver ?call r c1)" for r
      using taken[OF t same.refl] .
    have armed: "calls c (deliver ?call r d)" if "arm_response p result c1 = (x, d)" for result x d r
      using taken[OF t same.armed[OF that same.refl]] .
    show ?thesis
      using plain armed
      by (auto simp: routeResponse_def route_result_def Let_def t split: option.splits prod.splits
          intro: calls_trans[OF _ calls_failClient])
  qed
qed

interpretation calls: client_attach calls
proof unfold_locales
  fix c and i :: nat and ref l e E n
  show "calls c (snd (accept_run E i n l c))" by (rule same_calls_calls) (rule same.accept)
  show "calls c (snd (diagnostic_run i ref l c))" by (rule same_calls_calls) (rule same.diagnostic)
  show "calls c (finish_run i e c)" by (rule same_calls_calls) (rule same.finish)
qed (auto intro: calls_trans calls_failClient calls_routeResponse same_calls_calls simp: same_calls_def)

section \<open>The queue and the attaching registry\<close>

text \<open>\<open>shape_ok\<close>: the queue never exceeds its capacity, and each thread has at most one attaching run.\<close>

definition shape_ok :: "Client \<Rightarrow> bool" where
  "shape_ok c \<longleftrightarrow> length (cl_queue c) \<le> cl_queueCapacity c \<and> distinct (map fst (cl_exactAttaching c))"

definition shape :: "Client \<Rightarrow> Client \<Rightarrow> bool" where
  "shape c c' \<longleftrightarrow> cl_queueCapacity c' = cl_queueCapacity c \<and> (shape_ok c \<longrightarrow> shape_ok c')"

lemma owners_of_Nil: "owners_of k m = [] \<longleftrightarrow> k \<notin> set (map fst m)"
  by (induction m) (auto simp: owners_of_def)

lemma distinct_fst_filter: "distinct (map fst m) \<Longrightarrow> distinct (map fst (filter P m))"
  by (simp add: distinct_map_filter)

interpretation shape: client_core shape
  by unfold_locales (auto simp: shape_def shape_ok_def accept_run_def diagnostic_run_def finish_run_def
      unregisterExactRun_def distinct_fst_filter split: prod.splits sum.splits bool.splits)

lemma shape_calls [simp]:
  "shape c (c'\<lparr>cl_pending := p\<rparr>) = shape c c'" "shape c (c'\<lparr>cl_responses := r\<rparr>) = shape c c'"
  "shape c (c'\<lparr>cl_closed := b\<rparr>) = shape c c'" "shape c (c'\<lparr>cl_failure := f\<rparr>) = shape c c'"
  "shape c (c'\<lparr>cl_closeReason := f\<rparr>) = shape c c'" "shape c (c'\<lparr>cl_causePublished := b\<rparr>) = shape c c'"
  "shape c (c'\<lparr>cl_shutdownStarted := b\<rparr>) = shape c c'" "shape c (c'\<lparr>cl_normalClosing := b\<rparr>) = shape c c'"
  "shape c (c'\<lparr>cl_nextID := n\<rparr>) = shape c c'"
  by (simp_all add: shape_def shape_ok_def)

lemma shape_failAll: "shape c (failAll E e c)"
  by (auto simp: failAll_def Let_def fold_deliver simp del: fold_append intro!: shape.failed_runs shape.refl)

lemma shape_failClient: "shape c (failClient E e c)"
  using shape.trans[OF _ shape_failAll[of "c\<lparr>cl_failure := Some e, cl_closeReason := Some e, cl_closed := True\<rparr>" E e], of c]
  by (auto simp: failClient_def claimFailureLocked_def beginShutdown_def publishCloseCause_def shape.refl)

lemma shape_routeResponse: "shape c (routeResponse E message c)"
proof -
  have "arm_response pc result (c\<lparr>cl_pending := p\<rparr>) = (r, d) \<Longrightarrow> shape c d" for pc result p r d
    by (erule shape.armed) (simp add: shape.refl)
  then show ?thesis
    by (auto simp: routeResponse_def route_result_def takePending_def deliver_def Let_def shape.refl
        split: option.splits prod.splits intro!: shape.trans[OF _ shape_failClient])
qed

interpretation shape: client_attach shape
proof unfold_locales
  show "shape c (failClient E e c)" for c E e by (rule shape_failClient)
  show "shape c (routeResponse E message c)" for c E message by (rule shape_routeResponse)
qed (auto simp: shape_def shape_ok_def distinct_fst_filter owners_of_Nil)

end
