(* ===== verification/Client_Registry.thy ===== *)
theory Client_Registry
  imports Client_Safety
begin

text \<open>
  Which runs a client holds, and how they end: the registries hold live runs only, under their own ids
  (\<open>reg\<close>), and once a client has a first cause every run that ends, ends with it (\<open>ends\<close>).
\<close>

section \<open>What accepting evidence leaves alone\<close>

definition run_ids :: "exactRunState \<Rightarrow> gostring \<times> gostring \<times> bool \<times> go_error option" where
  "run_ids s = (rn_threadID s, rn_turnID s, rn_terminal s, rn_err s)"

lemma commit_notification_ids: "commit_notification P m s = (r, s') \<Longrightarrow> run_ids s' = run_ids s"
  by (auto simp: commit_notification_def applyTerminalLocked_def record_notification_def run_ids_def Let_def
      split: prod.splits option.splits)

lemma accept_ids: "acceptRetainedBeforeTerminalCompletion P n l s st = (r, s', st') \<Longrightarrow> run_ids s' = run_ids s"
proof (cases r)
  case (Pair completion err)
  assume "acceptRetainedBeforeTerminalCompletion P n l s st = (r, s', st')"
  then show ?thesis unfolding Pair
    by (cases rule: accept_cases) (auto dest: commit_notification_ids simp: run_ids_def)
qed

lemma diagnostic_ids: "addDiagnosticRetained v ref l s st = (r, s', st') \<Longrightarrow> run_ids s' = run_ids s"
  by (auto simp: addDiagnosticRetained_def run_ids_def Let_def split: prod.splits sum.splits if_splits)

text \<open>The runs seen through their ids, ends and errors.\<close>

definition ids_at :: "Client \<Rightarrow> nat \<Rightarrow> gostring \<times> gostring \<times> bool \<times> go_error option" where
  "ids_at c i = run_ids (cl_runs c ! i)"

lemma ids_update: "run_ids s = run_ids (cl_runs c ! i) \<Longrightarrow> run_ids ((cl_runs c)[i := s] ! j) = ids_at c j"
  by (cases "i < length (cl_runs c)") (auto simp: ids_at_def nth_list_update list_update_beyond)

lemma accept_run_ids: "ids_at (snd (accept_run E i n l c)) = ids_at c"
  "length (cl_runs (snd (accept_run E i n l c))) = length (cl_runs c)"
  "cl_exactStreams (snd (accept_run E i n l c)) = cl_exactStreams c"
  "cl_exactAttaching (snd (accept_run E i n l c)) = cl_exactAttaching c"
  "cl_closeReason (snd (accept_run E i n l c)) = cl_closeReason c"
  by (auto simp: accept_run_def ids_at_def fun_eq_iff ids_update dest!: accept_ids intro: ids_update[unfolded ids_at_def]
      split: prod.splits)

lemma diagnostic_run_ids: "ids_at (snd (diagnostic_run i ref l c)) = ids_at c"
  "length (cl_runs (snd (diagnostic_run i ref l c))) = length (cl_runs c)"
  "cl_exactStreams (snd (diagnostic_run i ref l c)) = cl_exactStreams c"
  "cl_exactAttaching (snd (diagnostic_run i ref l c)) = cl_exactAttaching c"
  "cl_closeReason (snd (diagnostic_run i ref l c)) = cl_closeReason c"
  by (auto simp: diagnostic_run_def ids_at_def fun_eq_iff dest!: diagnostic_ids intro: ids_update[unfolded ids_at_def]
      split: prod.splits)

section \<open>Ends\<close>

text \<open>A run that has ended keeps its error; one that ends under a close reason ends with it.\<close>

definition run_ends :: "go_error option \<Rightarrow> exactRunState \<Rightarrow> exactRunState \<Rightarrow> bool" where
  "run_ends reason s s' = (if rn_terminal s then rn_terminal s' \<and> rn_err s' = rn_err s
     else rn_terminal s' \<longrightarrow> rn_err s' = reason)"

definition ends :: "Client \<Rightarrow> Client \<Rightarrow> bool" where
  "ends c c' \<longleftrightarrow> adv c c' \<and> (client_ok c \<and> cl_closed c \<longrightarrow>
     (\<forall>i < length (cl_runs c). run_ends (cl_closeReason c) (cl_runs c ! i) (cl_runs c' ! i)))"

lemma run_ends_refl [simp]: "run_ends r s s" by (simp add: run_ends_def)

lemma run_ends_trans: "run_ends r a b \<Longrightarrow> run_ends r b c \<Longrightarrow> run_ends r a c"
  by (auto simp: run_ends_def split: if_splits)

lemma ends_trans: "ends a b \<Longrightarrow> ends b c \<Longrightarrow> ends a c"
proof -
  assume ab: "ends a b" and bc: "ends b c"
  then have "adv a c" using adv_trans by (auto simp: ends_def)
  moreover have "run_ends (cl_closeReason a) (cl_runs a ! i) (cl_runs c ! i)"
    if ok: "client_ok a" "cl_closed a" and i: "i < length (cl_runs a)" for i
  proof -
    have b: "client_ok b" "client_le a b" using ab ok by (auto simp: ends_def adv_def)
    then have r: "cl_closed b" "cl_closeReason b = cl_closeReason a" "i < length (cl_runs b)"
      using ok i by (auto simp: client_le_def client_ok_def)
    show ?thesis using run_ends_trans ab bc ok i b r by (fastforce simp: ends_def)
  qed
  ultimately show ?thesis by (auto simp: ends_def)
qed

lemma ends_frame: "adv c c' \<Longrightarrow> cl_runs c' = cl_runs c \<Longrightarrow> ends c c'"
  by (simp add: ends_def)

lemma ends_ids: "adv c c' \<Longrightarrow> ids_at c' = ids_at c \<Longrightarrow> ends c c'"
  unfolding ends_def ids_at_def fun_eq_iff by (auto simp: run_ends_def run_ids_def)

lemma finishState_ends:
  "reason \<noteq> None \<Longrightarrow> run_ends reason s (snd (finishState reason failure e s))"
  by (auto simp: finishState_def run_ends_def Let_def split: if_splits)

lemma finish_run_runs:
  "cl_runs (finish_run i e c) = (cl_runs c)[i := snd (finishState (cl_closeReason c) (cl_failure c) e (cl_runs c ! i))]"
  by (auto simp: finish_run_def unregisterExactRun_def finishState_def Let_def split: prod.splits sum.splits bool.splits if_splits)

lemma ends_finish: "ends c (finish_run i e c)"
proof -
  have "run_ends (cl_closeReason c) (cl_runs c ! j) (cl_runs (finish_run i e c) ! j)"
    if "cl_closeReason c \<noteq> None" "j < length (cl_runs c)" for j
    using that finishState_ends[of "cl_closeReason c" "cl_runs c ! i" "cl_failure c" e]
    by (cases "j = i") (auto simp: finish_run_runs)
  then show ?thesis by (auto simp: ends_def client_ok_def intro: adv_finish adv_refl)
qed

interpretation ends: client_core ends
proof unfold_locales
  show "ends c c" for c by (simp add: ends_def)
  show "ends a b \<Longrightarrow> ends b c \<Longrightarrow> ends a c" for a b c by (rule ends_trans)
  show "ends c (finish_run i err c)" for c i err by (rule ends_finish)
  show "ends c (snd (accept_run E i n l c))" for c E i n l
    by (rule ends_ids) (simp_all add: adv_accept accept_run_ids)
  show "ends c (snd (diagnostic_run i ref l c))" for c i ref l
    by (rule ends_ids) (simp_all add: adv_diagnostic diagnostic_run_ids)
qed (rule ends_frame; simp)+

lemma ends_failClient: "ends c (failClient E e c)"
proof (cases "cl_closed c")
  case True
  then show ?thesis by (simp add: failClient_def claimFailureLocked_def ends.refl)
qed (auto simp: ends_def intro: adv_failClient)

lemma ends_calls [simp]: "ends c (c'\<lparr>cl_pending := p\<rparr>) = ends c c'" "ends c (c'\<lparr>cl_responses := r\<rparr>) = ends c c'"
  by (simp_all add: ends_def)

lemma ends_routeResponse: "ends c (routeResponse E message c)"
proof -
  have "arm_response pc result (c\<lparr>cl_pending := p\<rparr>) = (r, d) \<Longrightarrow> ends c d" for pc result p r d
    by (erule ends.armed) (simp add: ends.refl)
  then show ?thesis
    by (auto simp: routeResponse_def route_result_def takePending_def deliver_def Let_def ends.refl
        split: option.splits prod.splits intro!: ends.trans[OF _ ends_failClient])
qed

lemma ends_setTurn: "ends c (c\<lparr>cl_runs := (cl_runs c)[i := setTurn t (cl_runs c ! i)]\<rparr>)"
proof -
  have "run_ends r s (setTurn t s)" for r s by (simp add: run_ends_def setTurn_def)
  then have "run_ends r (cl_runs c ! j) ((cl_runs c)[i := setTurn t (cl_runs c ! i)] ! j)" if "j < length (cl_runs c)" for r j
    using that by (cases "j = i") auto
  then show ?thesis using advance.set_turn[of c i t] by (simp add: ends_def)
qed

interpretation ends: client_attach ends
proof unfold_locales
  show "ends c (failClient E e c)" for c E e by (rule ends_failClient)
  show "ends c (routeResponse E message c)" for c E message by (rule ends_routeResponse)
  show "ends c (c\<lparr>cl_runs := (cl_runs c)[i := setTurn t (cl_runs c ! i)]\<rparr>)" for c i t by (rule ends_setTurn)
qed (rule ends_frame; simp)+

section \<open>Registries\<close>

text \<open>
  \<open>reg_ok\<close>: a registered run is live, and it is registered under its own turn, or while attaching under
  its own thread.
\<close>

definition live_at :: "Client \<Rightarrow> (exactRunState \<Rightarrow> gostring) \<Rightarrow> gostring \<times> nat \<Rightarrow> bool" where
  "live_at c key e \<longleftrightarrow> snd e < length (cl_runs c) \<and> key (cl_runs c ! snd e) = fst e \<and> \<not> rn_terminal (cl_runs c ! snd e)"

definition reg_ok :: "Client \<Rightarrow> bool" where
  "reg_ok c \<longleftrightarrow> list_all (live_at c rn_turnID) (cl_exactStreams c) \<and> list_all (live_at c rn_threadID) (cl_exactAttaching c)"

lemma live_at_frame [simp]:
  "live_at (c\<lparr>cl_pending := p\<rparr>) = live_at c" "live_at (c\<lparr>cl_responses := r\<rparr>) = live_at c"
  "live_at (c\<lparr>cl_causePublished := b\<rparr>) = live_at c"
  by (simp_all add: live_at_def fun_eq_iff)

definition reg :: "Client \<Rightarrow> Client \<Rightarrow> bool" where
  "reg c c' \<longleftrightarrow> adv c c' \<and> (client_ok c \<and> reg_ok c \<longrightarrow> reg_ok c')"

lemma reg_ids:
  assumes "adv c c'" "ids_at c' = ids_at c" "length (cl_runs c') = length (cl_runs c)"
    "set (cl_exactStreams c') \<subseteq> set (cl_exactStreams c)" "set (cl_exactAttaching c') \<subseteq> set (cl_exactAttaching c)"
  shows "reg c c'"
proof -
  have "live_at c' key e = live_at c key e" if "key = rn_turnID \<or> key = rn_threadID" for key e
    using that assms(3) fun_cong[OF assms(2), of "snd e"] by (auto simp: live_at_def ids_at_def run_ids_def)
  with assms show ?thesis by (auto simp: reg_def reg_ok_def list_all_iff)
qed

lemma reg_frame: "adv c c' \<Longrightarrow> cl_runs c' = cl_runs c \<Longrightarrow> set (cl_exactStreams c') \<subseteq> set (cl_exactStreams c)
    \<Longrightarrow> set (cl_exactAttaching c') \<subseteq> set (cl_exactAttaching c) \<Longrightarrow> reg c c'"
  by (rule reg_ids) (simp_all add: ids_at_def fun_eq_iff)

text \<open>Finishing a run takes it out of the registries, and nothing else.\<close>

lemma finish_run_streams:
  "cl_exactStreams (finish_run i e c) = cl_exactStreams c \<or>
   (\<exists>k. cl_exactStreams (finish_run i e c) = filter (\<lambda>x. x \<noteq> (k, i)) (cl_exactStreams c))"
  "cl_exactAttaching (finish_run i e c) = cl_exactAttaching c \<or>
   (\<exists>k. cl_exactAttaching (finish_run i e c) = filter (\<lambda>x. x \<noteq> (k, i)) (cl_exactAttaching c))"
  by (cases "finishState (cl_closeReason c) (cl_failure c) e (cl_runs c ! i)";
      auto simp: finish_run_def unregisterExactRun_def split: sum.split bool.split)+

lemma finish_run_live:
  assumes "i < length (cl_runs c)" "\<not> rn_terminal (cl_runs c ! i)" "\<not> rn_done (cl_runs c ! i)"
  shows "cl_exactStreams (finish_run i e c) = filter (\<lambda>x. x \<noteq> (rn_turnID (cl_runs c ! i), i)) (cl_exactStreams c)"
    "cl_exactAttaching (finish_run i e c) = filter (\<lambda>x. x \<noteq> (rn_threadID (cl_runs c ! i), i)) (cl_exactAttaching c)"
  using assms by (simp_all add: finish_run_def finishState_def unregisterExactRun_def turnIDSnapshot_def Let_def)

lemma finish_run_registries:
  assumes "client_ok c" "reg_ok c"
  shows "set (cl_exactStreams (finish_run i e c)) = {x \<in> set (cl_exactStreams c). snd x \<noteq> i}"
    "set (cl_exactAttaching (finish_run i e c)) = {x \<in> set (cl_exactAttaching c). snd x \<noteq> i}"
proof -
  have live: "live_at c rn_turnID x" if "x \<in> set (cl_exactStreams c)" for x
    using that assms(2) by (auto simp: reg_ok_def list_all_iff)
  have att: "live_at c rn_threadID x" if "x \<in> set (cl_exactAttaching c)" for x
    using that assms(2) by (auto simp: reg_ok_def list_all_iff)
  have open_run: "\<not> rn_done (cl_runs c ! i)" if "i < length (cl_runs c)" "\<not> rn_terminal (cl_runs c ! i)"
    using that assms(1) by (auto simp: client_ok_def run_ok_def)
  have out: "x \<noteq> (k, i)" if "\<not> (i < length (cl_runs c) \<and> \<not> rn_terminal (cl_runs c ! i))" "live_at c key x" for x k key
    using that by (auto simp: live_at_def)
  show "set (cl_exactStreams (finish_run i e c)) = {x \<in> set (cl_exactStreams c). snd x \<noteq> i}"
  proof (cases "i < length (cl_runs c) \<and> \<not> rn_terminal (cl_runs c ! i)")
    case True
    then have "cl_exactStreams (finish_run i e c) = filter (\<lambda>x. x \<noteq> (rn_turnID (cl_runs c ! i), i)) (cl_exactStreams c)"
      using open_run by (simp add: finish_run_live)
    then show ?thesis using live[unfolded live_at_def] by fastforce
  next
    case False
    have "x \<noteq> (k, i)" if "x \<in> set (cl_exactStreams c)" for x k by (rule out[OF False live[OF that]])
    with finish_run_streams(1)[of i e c] show ?thesis by fastforce
  qed
  show "set (cl_exactAttaching (finish_run i e c)) = {x \<in> set (cl_exactAttaching c). snd x \<noteq> i}"
  proof (cases "i < length (cl_runs c) \<and> \<not> rn_terminal (cl_runs c ! i)")
    case True
    then have "cl_exactAttaching (finish_run i e c) = filter (\<lambda>x. x \<noteq> (rn_threadID (cl_runs c ! i), i)) (cl_exactAttaching c)"
      using open_run by (simp add: finish_run_live)
    then show ?thesis using att[unfolded live_at_def] by fastforce
  next
    case False
    have "x \<noteq> (k, i)" if "x \<in> set (cl_exactAttaching c)" for x k by (rule out[OF False att[OF that]])
    with finish_run_streams(2)[of i e c] show ?thesis by fastforce
  qed
qed

lemma finish_run_ids: "j \<noteq> i \<Longrightarrow> cl_runs (finish_run i e c) ! j = cl_runs c ! j"
  "length (cl_runs (finish_run i e c)) = length (cl_runs c)"
  by (simp_all add: finish_run_runs)

lemma reg_finish: "reg c (finish_run i e c)"
proof -
  have "reg_ok (finish_run i e c)" if "client_ok c" "reg_ok c"
    using that(2) finish_run_registries[OF that, of i e]
    by (auto simp: reg_ok_def list_all_iff live_at_def finish_run_ids)
  then show ?thesis by (auto simp: reg_def intro: adv_finish)
qed

interpretation reg: client_core reg
proof unfold_locales
  show "reg c c" for c by (simp add: reg_def)
  show "reg a b \<Longrightarrow> reg b c \<Longrightarrow> reg a c" for a b c
    unfolding reg_def by (meson adv_def adv_trans)
  show "reg c (finish_run i err c)" for c i err by (rule reg_finish)
  show "reg c (snd (accept_run E i n l c))" for c E i n l
    by (rule reg_ids) (simp_all add: adv_accept accept_run_ids)
  show "reg c (snd (diagnostic_run i ref l c))" for c i ref l
    by (rule reg_ids) (simp_all add: adv_diagnostic diagnostic_run_ids)
qed (rule reg_frame; simp)+

lemma reg_calls [simp]: "reg c (c'\<lparr>cl_pending := p\<rparr>) = reg c c'" "reg c (c'\<lparr>cl_responses := r\<rparr>) = reg c c'"
  by (simp_all add: reg_def reg_ok_def)

lemma reg_failAll: "reg c (failAll E e c)"
  by (auto simp: failAll_def Let_def fold_deliver simp del: fold_append intro!: reg.failed_runs reg.refl)

lemma reg_claim: "reg c (c\<lparr>cl_failure := Some e, cl_closeReason := Some e, cl_closed := True\<rparr>)" if "\<not> cl_closed c"
proof -
  have "adv c (c\<lparr>cl_failure := Some e, cl_closeReason := Some e, cl_closed := True\<rparr>)"
    using adv_claim[of "Some e" c True] that by (simp add: claimFailureLocked_def)
  then show ?thesis by (rule reg_frame) simp_all
qed

lemma reg_beginShutdown: "reg c (beginShutdown c)"
  by (rule reg_frame[OF adv_beginShutdown[OF adv_refl]]) (auto simp: beginShutdown_def)

lemma reg_failClient: "reg c (failClient E e c)"
proof (cases "cl_closed c")
  case False
  have "reg c (publishCloseCause (failAll E e (c\<lparr>cl_failure := Some e, cl_closeReason := Some e, cl_closed := True\<rparr>)))"
    using reg.trans[OF reg_claim[OF False] reg_failAll] by (simp add: publishCloseCause_def reg_def reg_ok_def)
  with False reg.trans[OF _ reg_beginShutdown] show ?thesis
    by (simp add: failClient_def claimFailureLocked_def)
qed (simp add: failClient_def claimFailureLocked_def reg.refl)

lemma reg_routeResponse: "reg c (routeResponse E message c)"
proof -
  have "arm_response pc result (c\<lparr>cl_pending := p\<rparr>) = (r, d) \<Longrightarrow> reg c d" for pc result p r d
    by (erule reg.armed) (simp add: reg.refl)
  then show ?thesis
    by (auto simp: routeResponse_def route_result_def takePending_def deliver_def Let_def reg.refl
        split: option.splits prod.splits intro!: reg.trans[OF _ reg_failClient])
qed

interpretation reg: client_rel reg
proof unfold_locales
  show "reg c (failClient E e c)" for c E e by (rule reg_failClient)
  show "reg c (routeResponse E message c)" for c E message by (rule reg_routeResponse)
qed (rule reg_frame; auto)+

section \<open>Attaching a run keeps the registries\<close>

lemma reg_okD: "reg c c' \<Longrightarrow> client_ok c \<Longrightarrow> reg_ok c \<Longrightarrow> client_ok c' \<and> reg_ok c'"
  by (auto simp: reg_def adv_def)

definition fresh_run :: "Client \<Rightarrow> nat \<Rightarrow> bool" where
  "fresh_run c i \<longleftrightarrow> i < length (cl_runs c) \<and> i \<notin> snd ` set (cl_exactStreams c)"

lemma setTurn_fields [simp]: "rn_threadID (setTurn t s) = rn_threadID s" "rn_terminal (setTurn t s) = rn_terminal s"
  "rn_turnID (setTurn t s) = tn_ID t"
  by (simp_all add: setTurn_def)

lemma setTurn_reg_ok:
  assumes "client_ok c" "reg_ok c" "fresh_run c i"
  shows "client_ok (c\<lparr>cl_runs := (cl_runs c)[i := setTurn t (cl_runs c ! i)]\<rparr>)"
    "reg_ok (c\<lparr>cl_runs := (cl_runs c)[i := setTurn t (cl_runs c ! i)]\<rparr>)"
proof -
  show "client_ok (c\<lparr>cl_runs := (cl_runs c)[i := setTurn t (cl_runs c ! i)]\<rparr>)"
    using keepsD[OF setTurn_keeps assms(1)] by blast
  show "reg_ok (c\<lparr>cl_runs := (cl_runs c)[i := setTurn t (cl_runs c ! i)]\<rparr>)"
    using assms(2,3) by (fastforce simp: reg_ok_def list_all_iff live_at_def fresh_run_def nth_list_update)
qed

lemma live_at_runs: "cl_runs c' = cl_runs c \<Longrightarrow> live_at c' = live_at c"
  by (simp add: live_at_def fun_eq_iff)

lemma attach_section_fields:
  assumes "attach_section i c = (r, c')"
  shows "cl_runs c' = cl_runs c" "set (cl_exactAttaching c') \<subseteq> set (cl_exactAttaching c)"
    "set (cl_exactStreams c') \<subseteq> set (cl_exactStreams c) \<union> (if rn_terminal (cl_runs c ! i) then {} else {(rn_turnID (cl_runs c ! i), i)})"
  using assms by (auto simp: attach_section_def releaseAttachmentLocked_def on_store_def turnIDSnapshot_def Let_def split: if_splits)

lemma attach_section_reg_ok:
  assumes "attach_section i c = (r, c')" "client_ok c" "reg_ok c" "i < length (cl_runs c)"
  shows "client_ok c' \<and> reg_ok c'"
proof
  show "client_ok c'" using advance.attach_sectioned[OF assms(1) adv_refl] assms(2) by (simp add: adv_def)
  have "live_at c rn_turnID x" if "x \<in> set (cl_exactStreams c')" for x
    using that attach_section_fields(3)[OF assms(1)] assms(3,4)
    by (auto simp: reg_ok_def list_all_iff live_at_def split: if_splits)
  moreover have "live_at c rn_threadID x" if "x \<in> set (cl_exactAttaching c')" for x
    using that attach_section_fields(2)[OF assms(1)] assms(3) by (auto simp: reg_ok_def list_all_iff)
  ultimately show "reg_ok c'"
    using live_at_runs[OF attach_section_fields(1)[OF assms(1)]] by (simp add: reg_ok_def list_all_iff)
qed

lemma attached_reg_ok:
  assumes "client_ok c" "reg_ok c" "fresh_run c i"
  shows "client_ok (attachExactStreamForTurn E i turn c) \<and> reg_ok (attachExactStreamForTurn E i turn c)"
proof -
  let ?c = "c\<lparr>cl_runs := (cl_runs c)[i := setTurn turn (cl_runs c ! i)]\<rparr>"
  obtain r d where d: "attach_section i ?c = (r, d)" by fastforce
  have ok: "client_ok d" "reg_ok d"
    using attach_section_reg_ok[OF d setTurn_reg_ok[OF assms]] assms(3) by (auto simp: fresh_run_def)
  have "reg d (attachExactStreamForTurn E i turn c)"
    using d by (auto simp: attachExactStreamForTurn_def Let_def split: option.splits prod.splits
      intro!: reg.released reg.delivery_failed reg.replay_finished reg.more_frames reg.refl
      dest!: reg.replayed[where c = d, OF _ reg.refl] reg.diagnostics_attached[where c = d])
  then show ?thesis using reg_okD ok by blast
qed

text \<open>Registration of a live run enters it under its thread.\<close>

lemma registered_reg_ok:
  assumes "registerAttachingExactStream E i c = (r, c')" "client_ok c" "reg_ok c"
    "i < length (cl_runs c)" "\<not> rn_terminal (cl_runs c ! i)"
  shows "client_ok c' \<and> reg_ok c'"
proof (cases "cl_closed c \<or> owners_of (rn_threadID (cl_runs c ! i)) (cl_exactAttaching c) \<noteq> []")
  case False
  let ?th = "rn_threadID (cl_runs c ! i)"
  let ?e = "c\<lparr>cl_exactAttaching := cl_exactAttaching c @ [(?th, i)]\<rparr>"
  let ?ls = "values_at ?th (cl_pendingThreadRetention c)"
  let ?d = "releaseAttachmentLocked (''thread:'' @ ?th) (?e\<lparr>
      cl_pendingThreadRetention := AList.delete ?th (cl_pendingThreadRetention c),
      cl_pendingThreadNotifications := AList.delete ?th (cl_pendingThreadNotifications c),
      cl_armedThreadAttach := removeAll ?th (cl_armedThreadAttach c)\<rparr>)"
  obtain x d where d: "replay_thread E i (values_at ?th (cl_pendingThreadNotifications c)) ?ls ?d = (x, d)" by fastforce
  have live: "live_at ?e = live_at c" by (rule live_at_runs) simp
  have e: "client_ok ?e" "reg_ok ?e"
    using assms(2-5) unfolding reg_ok_def live by (auto simp: client_ok_def live_at_def)
  have "reg ?e ?d" by (intro reg.attachment_released reg.frames reg.refl)
  then have "reg ?e d" by (rule reg.replayed_thread[OF d])
  moreover have "c' = release_all ?ls d"
    using assms(1) False d by (simp add: registerAttachingExactStream_def Let_def)
  ultimately have "reg ?e c'" by (simp add: reg.released)
  then show ?thesis using reg_okD e by blast
qed (use assms in \<open>auto simp: registerAttachingExactStream_def Let_def split: if_splits\<close>)

section \<open>A failure settles the client\<close>

text \<open>Everything between emptying the registries of evidence and finishing the runs leaves the registered runs alone.\<close>

definition same_runs :: "Client \<Rightarrow> Client \<Rightarrow> bool" where
  "same_runs c c' \<longleftrightarrow> set (cl_exactStreams c') \<subseteq> set (cl_exactStreams c) \<and> set (cl_exactAttaching c') \<subseteq> set (cl_exactAttaching c)"

interpretation same_runs: client_core same_runs
proof unfold_locales
  show "same_runs c (snd (accept_run E i n l c))" for c E i n l by (simp add: same_runs_def accept_run_ids)
  show "same_runs c (snd (diagnostic_run i ref l c))" for c i ref l by (simp add: same_runs_def diagnostic_run_ids)
  show "same_runs c (finish_run i err c)" for c i err
    using finish_run_streams[of i err c] by (auto simp: same_runs_def)
qed (auto simp: same_runs_def)

lemma fold_finish_registries:
  assumes "client_ok c" "reg_ok c"
  shows "set (cl_exactStreams (fold (\<lambda>i. finish_run i e) is c)) = {x \<in> set (cl_exactStreams c). snd x \<notin> set is} \<and>
    set (cl_exactAttaching (fold (\<lambda>i. finish_run i e) is c)) = {x \<in> set (cl_exactAttaching c). snd x \<notin> set is}"
  using assms
proof (induction "is" arbitrary: c)
  case (Cons i "is")
  have "client_ok (finish_run i e c)" "reg_ok (finish_run i e c)"
    using reg_okD[OF reg_finish Cons.prems] by blast+
  from Cons.IH[OF this] finish_run_registries[OF Cons.prems, of i e] show ?case by auto
qed simp

lemma failAll_registries:
  assumes "client_ok c" "reg_ok c"
  shows "cl_exactStreams (failAll E e c) = []" "cl_exactAttaching (failAll E e c) = []"
proof -
  let ?is = "map snd (cl_exactStreams c) @ map snd (cl_exactAttaching c)"
  let ?ns = "with_evidence (concat (map snd (cl_pendingEvents c))) @ with_evidence (concat (map snd (cl_replayingEvents c)))"
  let ?d = "fold (fail_diagnostic ?is) (pending_diagnostics (c\<lparr>cl_pending := []\<rparr>)) (fold (commit_evidence E) ?ns
    (on_store (fold (\<lambda>n. store_retain (rpc_retained n)) (with_evidence (concat (map snd (cl_replayingEvents c)))))
      (fail_snapshot (c\<lparr>cl_pending := []\<rparr>))))"
  have "reg c ?d"
    using reg.failed_runs[of c "c\<lparr>cl_pending := []\<rparr>" _ "[]"] by (simp add: reg.refl del: fold_append)
  then have d: "client_ok ?d" "reg_ok ?d" using reg_okD assms by blast+
  have "same_runs (c\<lparr>cl_pending := []\<rparr>) ?d"
    using same_runs.failed_runs[of "c\<lparr>cl_pending := []\<rparr>" "c\<lparr>cl_pending := []\<rparr>" _ "[]"]
    by (simp add: same_runs.refl del: fold_append)
  then have sub: "set (cl_exactStreams ?d) \<subseteq> set (cl_exactStreams c)" "set (cl_exactAttaching ?d) \<subseteq> set (cl_exactAttaching c)"
    by (simp_all add: same_runs_def)
  let ?f = "fold (\<lambda>i. finish_run i (Some (firstCloseReason e c))) ?is ?d"
  have e: "{x \<in> set (cl_exactStreams ?d). snd x \<notin> set ?is} = {}" "{x \<in> set (cl_exactAttaching ?d). snd x \<notin> set ?is} = {}"
    using sub by force+
  note ff = fold_finish_registries[OF d, of "Some (firstCloseReason e c)" ?is]
  have "cl_exactStreams ?f = []" "cl_exactAttaching ?f = []"
    using trans[OF conjunct1[OF ff] e(1)] trans[OF conjunct2[OF ff] e(2)] by (simp_all only: set_empty)
  then show "cl_exactStreams (failAll E e c) = []" "cl_exactAttaching (failAll E e c) = []"
    by (simp_all add: failAll_def Let_def fold_deliver del: fold_append)
qed

end
