(* ===== verification/Client_Steps.thy ===== *)
theory Client_Steps
  imports Client_Registry
begin

text \<open>
  The client as a state machine. A step is one operation of one goroutine: the reader's next line, a
  response of a server-request handler, a call that begins or is abandoned, a run that is started,
  attached, given up, cancelled or finished, a message that is written, a round of the dispatcher, a failure, the end of construction, or a part of the
  shutdown. Composite operations are also split at the points where their locks are released.
\<close>

section \<open>The state machine\<close>

text \<open>\<open>newClientContext\<close>: the client before its process is started.\<close>

definition new_client :: "int \<Rightarrow> int \<Rightarrow> int \<Rightarrow> Client" where
  "new_client maxCount maxBytes queueCapacity =
     \<lparr>cl_closed = False, cl_failure = None, cl_normalClosing = False, cl_constructing = True, cl_closeReason = None,
      cl_callbackFailure = None, cl_callbackWork = 0, cl_causePublished = False, cl_shutdownStarted = False,
      cl_store = \<lparr>st_budget = new_budget maxCount maxBytes, st_panic = None\<rparr>, cl_attachmentRetention = [],
      cl_nextID = 0, cl_pending = [], cl_responses = [], cl_exactStreams = [], cl_exactAttaching = [],
      cl_pendingEvents = [], cl_armedThreadAttach = [], cl_armedTurnAttach = [], cl_pendingThreadNotifications = [],
      cl_pendingThreadRetention = [], cl_pendingDiagnostics = [], cl_pendingDiagnosticRetention = [],
      cl_replayingEvents = [], cl_runs = [], cl_evidence = [], cl_queue = [],
      cl_queueCapacity = nat (if queueCapacity = 0 then 64 else queueCapacity), cl_interrupts = [], cl_writes = []\<rparr>"

definition add_run :: "gostring \<Rightarrow> run_result \<Rightarrow> Client \<Rightarrow> Client" where
  "add_run threadID result c = c\<lparr>cl_runs := cl_runs c @ [newExactRunState threadID result]\<rparr>"

text \<open>
  A run is created and registered at once; an error of the registration finishes it. Call ids are
  64-bit: a client that made \<open>2^64\<close> calls would reuse them.
\<close>

definition begin_run :: "client_env \<Rightarrow> gostring \<Rightarrow> run_result \<Rightarrow> Client \<Rightarrow> Client" where
  "begin_run E threadID result c = (case registerAttachingExactStream E (length (cl_runs c)) (add_run threadID result c) of
      (None, c') \<Rightarrow> c' | (Some e, c') \<Rightarrow> finish_run (length (cl_runs c)) (Some e) c')"

inductive client_step :: "client_env \<Rightarrow> Client \<Rightarrow> Client \<Rightarrow> bool" for E where
  line: "ingestJSONRPCLine E tr dec outcome frame c = (r, c') \<Longrightarrow> client_step E c c'"
| admit_request: "beginHandler c = (r, c') \<Longrightarrow> client_step E c c'"
| respond: "client_step E c (endHandlerWork (respondToExactServerRequest E outcome reqid request c))"
| call: "Suc (cl_nextID c) < 2 ^ 64 \<Longrightarrow> beginCall pc c = (r, c') \<Longrightarrow> client_step E c c'"
| abandon: "abandonCall call e c = (r, c') \<Longrightarrow> client_step E c c'"
| begin_run: "client_step E c (begin_run E threadID result c)"
| orphan_run: "client_step E c (finish_run (length (cl_runs c)) err (add_run threadID result c))"
| missing_turn: "fresh_run c i \<Longrightarrow> client_step E c (finishAttachingExactStream E i e
    (c\<lparr>cl_runs := (cl_runs c)[i := setTurn turn (cl_runs c ! i)]\<rparr>))"
| attach: "fresh_run c i \<Longrightarrow> client_step E c (attachExactStreamForTurn E i turn c)"
| give_up: "client_step E c (finishAttachingExactStream E i e c)"
| cancel: "client_step E c (cancel_run i e c)"
| finish: "client_step E c (finish_run i err c)"
| dispatch: "dispatch_round E cb k c = (r, c') \<Longrightarrow> client_step E c c'"
| fail: "client_step E c (failClient E e c)"
| begin_shutdown: "client_step E c (beginShutdown c)"
| shutdown: "cl_closed c \<Longrightarrow> client_step E c (shutdown E c)"
| send: "client_write E payload c = (r, c') \<Longrightarrow> client_step E c c'"
| constructed: "client_step E c (c\<lparr>cl_constructing := False\<rparr>)"
| section_route: "route_section E n typed c = (r, c') \<Longrightarrow> client_step E c c'"
| section_accept: "accept_run E i typed l c = (r, c') \<Longrightarrow> client_step E c c'"
| section_diagnostic: "diagnostic_run i ref l c = (r, c') \<Longrightarrow> client_step E c c'"
| section_evidence: "resolveEvidence E i n c = (r, c') \<Longrightarrow> client_step E c c'"
| section_enqueue: "enqueueAcceptedNotification E a c = (r, c') \<Longrightarrow> client_step E c c'"

inductive client_reachable :: "client_env \<Rightarrow> Client \<Rightarrow> bool" for E where
  new: "0 \<le> capacity \<Longrightarrow> client_reachable E (new_client maxCount maxBytes capacity)"
| step: "client_reachable E c \<Longrightarrow> client_step E c c' \<Longrightarrow> client_reachable E c'"

inductive_cases client_stepE: "client_step E c c'"

section \<open>Every step advances\<close>

lemma adv_add_run: "adv c (add_run threadID result c)"
  by (auto simp: adv_def add_run_def client_le_def client_ok_def nth_append newExactRunState_def run_ok_def)

lemma adv_abandon: "abandonCall call e c = (r, c') \<Longrightarrow> adv c c'"
  by (auto simp: abandonCall_def takePending_def split: option.splits prod.splits)

lemma adv_beginCall: "beginCall pc c = (r, c') \<Longrightarrow> adv c c'"
  by (auto simp: beginCall_def admitPending_def Let_def split: if_splits option.splits prod.splits)

lemma adv_beginHandler: "beginHandler c = (r, c') \<Longrightarrow> adv c c'"
  by (auto simp: beginHandler_def addHandlerWork_def split: if_splits)

text \<open>A relation that also allows new runs and the bookkeeping of calls and shutdown is kept by every step.\<close>

locale client_machine = client_attach +
  assumes add_run: "R c (add_run threadID result c)"
    and begin_call: "beginCall pc c = (r, c') \<Longrightarrow> R c c'"
    and abandon_call: "abandonCall call e c = (r', c') \<Longrightarrow> R c c'"
    and start_shutdown: "R c (beginShutdown c)"
    and shut_down: "R c (shutdown E c)"
    and finish_construction: "R c (c\<lparr>cl_constructing := b\<rparr>)"
begin

lemma began: "R c (begin_run E threadID result c)"
  by (auto simp: begin_run_def split: prod.splits option.splits intro!: frames
      intro: registered[OF _ add_run])

lemma admitted: "beginHandler c = (r, c') \<Longrightarrow> R c c'"
  by (auto simp: beginHandler_def split: if_splits intro: handler_work refl)

lemma stepped: "client_step E c c' \<Longrightarrow> R c c'"
proof (induction rule: client_step.induct)
  case line then show ?case by (rule ingested) (rule refl)
next case admit_request then show ?case by (rule admitted)
next case respond show ?case by (intro handler_work responded refl)
next case call then show ?case by (blast intro: begin_call)
next case abandon then show ?case by (rule abandon_call)
next case begin_run show ?case by (rule began)
next case orphan_run show ?case by (intro frames add_run)
next case missing_turn show ?case by (intro attaching_finished set_turn)
next case attach show ?case by (intro attached refl)
next case give_up show ?case by (intro attaching_finished refl)
next case cancel show ?case by (intro cancelled refl)
next case finish show ?case by (intro frames refl)
next case dispatch then show ?case by (rule dispatched) (rule refl)
next case fail show ?case by (rule failClient)
next case begin_shutdown show ?case by (rule start_shutdown)
next case shutdown show ?case by (rule shut_down)
next case send then show ?case by (auto simp: client_write_def split: option.splits intro: refl writes)
next case constructed show ?case by (rule finish_construction)
next case section_route then show ?case by (rule sectioned) (rule refl)
next case section_accept then show ?case by (rule accepted) (rule refl)
next case section_diagnostic then show ?case by (rule diagnosed) (rule refl)
next case section_evidence then show ?case by (rule resolved) (rule refl)
next case section_enqueue then show ?case by (rule enqueued) (rule refl)
qed

end

interpretation advance: client_machine adv
  by unfold_locales (auto intro: adv_add_run adv_beginCall adv_abandon adv_shutdown)

lemma shape_calls_ops: "beginCall pc c = (r, c') \<Longrightarrow> shape c c'" "abandonCall call e c = (r', c') \<Longrightarrow> shape c c'"
  by (auto simp: beginCall_def admitPending_def abandonCall_def takePending_def Let_def shape.refl
      split: if_splits option.splits prod.splits)

interpretation shape: client_machine shape
proof unfold_locales
  show "shape c (add_run threadID result c)" for c threadID result by (simp add: shape_def shape_ok_def add_run_def)
  show "shape c (beginShutdown c)" for c by (simp add: beginShutdown_def shape.refl)
  show "shape c (c\<lparr>cl_constructing := b\<rparr>)" for c b by (simp add: shape_def shape_ok_def)
  show "shape c (shutdown E c)" for c E by (simp add: shutdown_def publishCloseCause_def shape.refl shape_failAll)
qed (auto intro: shape_calls_ops)

lemma ends_failAll: "ends c (failAll E e c)"
  by (auto simp: failAll_def Let_def fold_deliver simp del: fold_append intro!: ends.failed_runs ends.refl)

interpretation ends: client_machine ends
proof unfold_locales
  show "ends c (add_run threadID result c)" for c threadID result
    using adv_add_run by (simp add: ends_def add_run_def nth_append)
  show "ends c (beginShutdown c)" for c
    using adv_beginShutdown[OF adv_refl] by (simp add: ends_def beginShutdown_def)
  show "ends c (c\<lparr>cl_constructing := b\<rparr>)" for c b by (simp add: ends_def adv_refl)
  show "ends c (shutdown E c)" for c E
    using ends_failAll[of c E] by (simp add: shutdown_def publishCloseCause_def ends_def)
  show "beginCall pc c = (r, c') \<Longrightarrow> ends c c'" for pc c r c'
    using adv_beginCall[of pc c r c']
    by (auto intro!: ends_frame simp: beginCall_def admitPending_def Let_def split: if_splits option.splits prod.splits)
  show "abandonCall call e c = (r, c') \<Longrightarrow> ends c c'" for call e c r c'
    using adv_abandon[of call e c r c']
    by (auto intro!: ends_frame simp: abandonCall_def takePending_def split: option.splits prod.splits)
qed

section \<open>The registries hold live runs\<close>

lemma add_run_reg:
  assumes "client_ok c" "reg_ok c"
  shows "client_ok (add_run threadID result c)" "reg_ok (add_run threadID result c)"
proof -
  show "client_ok (add_run threadID result c)" using adv_add_run assms(1) by (simp add: adv_def)
  show "reg_ok (add_run threadID result c)"
    using assms(2) by (auto simp: reg_ok_def list_all_iff live_at_def add_run_def nth_append)
qed

lemma begin_run_reg:
  assumes "client_ok c" "reg_ok c"
  shows "client_ok (begin_run E threadID result c) \<and> reg_ok (begin_run E threadID result c)"
proof -
  let ?c = "add_run threadID result c"
  have "length (cl_runs c) < length (cl_runs ?c)" "\<not> rn_terminal (cl_runs ?c ! length (cl_runs c))"
    by (simp_all add: add_run_def newExactRunState_def)
  then show ?thesis
    using registered_reg_ok add_run_reg[OF assms] reg_okD[OF reg_finish]
    by (fastforce simp: begin_run_def split: prod.splits option.splits)
qed

lemma reg_shutdown: "reg c (shutdown E c)"
  by (simp add: shutdown_def publishCloseCause_def reg.refl reg_failAll[unfolded reg_def reg_ok_def] reg_def reg_ok_def)

lemma reg_misc: "beginHandler c = (r, c') \<Longrightarrow> reg c c'" "beginCall pc c = (r', c') \<Longrightarrow> reg c c'"
  "abandonCall call e c = (r'', c') \<Longrightarrow> reg c c'"
  by (auto simp: beginHandler_def addHandlerWork_def beginCall_def admitPending_def abandonCall_def takePending_def Let_def
      intro!: reg_frame split: if_splits option.splits prod.splits)

lemma reg_send: "client_write E payload c = (r, c') \<Longrightarrow> reg c c'"
  by (auto simp: client_write_def reg.refl intro: reg.writes split: option.splits)

lemma client_step_reg: "client_step E c c' \<Longrightarrow> client_ok c \<Longrightarrow> reg_ok c \<Longrightarrow> client_ok c' \<and> reg_ok c'"
proof (induction rule: client_step.induct)
  case line then show ?case using reg_okD[OF reg.ingested] reg.refl by blast
next case respond then show ?case using reg_okD[OF reg.handler_work(2)[OF reg.responded[OF reg.refl]]] by blast
next case begin_run then show ?case using begin_run_reg by blast
next case orphan_run then show ?case using add_run_reg reg_okD[OF reg_finish] by blast
next case missing_turn then show ?case using setTurn_reg_ok reg_okD[OF reg.attaching_finished[OF reg.refl]] by blast
next case attach then show ?case using attached_reg_ok by blast
next case dispatch then show ?case using reg_okD[OF reg.dispatched] reg.refl by blast
next case section_route then show ?case using reg_okD[OF reg.sectioned] reg.refl by blast
next case section_accept then show ?case using reg_okD[OF reg.accepted] reg.refl by blast
next case section_diagnostic then show ?case using reg_okD[OF reg.diagnosed] reg.refl by blast
next case section_evidence then show ?case using reg_okD[OF reg.resolved] reg.refl by blast
next case section_enqueue then show ?case using reg_okD[OF reg.enqueued] reg.refl by blast
next case give_up then show ?case using reg_okD[OF reg.attaching_finished[OF reg.refl]] by blast
next case cancel then show ?case using reg_okD[OF reg.cancelled[OF reg.refl]] by blast
next case admit_request then show ?case using reg_okD[OF reg_misc(1)] by blast
next case call then show ?case using reg_okD[OF reg_misc(2)] by blast
next case abandon then show ?case using reg_okD[OF reg_misc(3)] by blast
next case finish then show ?case using reg_okD[OF reg_finish] by blast
next case fail then show ?case using reg_okD[OF reg_failClient] by blast
next case begin_shutdown then show ?case using reg_okD[OF reg_beginShutdown] by blast
next case shutdown then show ?case using reg_okD[OF reg_shutdown] by blast
next case send then show ?case using reg_okD[OF reg_send] by blast
next case constructed then show ?case by (auto simp: client_ok_def reg_ok_def live_at_def list_all_iff)
qed

lemma new_client_ok: "client_ok (new_client a b k)" "reg_ok (new_client a b k)" "shape_ok (new_client a b k)"
  by (simp_all add: new_client_def client_ok_def reg_ok_def shape_ok_def)

lemma reachable_ok: "client_reachable E c \<Longrightarrow> client_ok c \<and> reg_ok c"
  by (induction rule: client_reachable.induct) (auto simp: new_client_ok dest: client_step_reg)

lemma reachable_steps: "(client_step E)\<^sup>*\<^sup>* c c' \<Longrightarrow> client_reachable E c \<Longrightarrow> client_reachable E c'"
  by (induction rule: rtranclp_induct) (auto intro: client_reachable.step)

lemma steps_adv: "(client_step E)\<^sup>*\<^sup>* c c' \<Longrightarrow> adv c c'"
  by (induction rule: rtranclp_induct) (auto intro: adv_trans advance.stepped)

section \<open>Every call is answered at most once\<close>

fun atoi :: "string \<Rightarrow> nat" where
  "atoi s = foldl (\<lambda>a d. 10 * a + (of_char d - 48)) 0 s"

lemma atoi_itoa: "atoi (itoa n) = n"
proof (induction n rule: itoa.induct)
  case (1 n)
  have "of_char (chr (48 + m)) = 48 + m" if "m < 10" for m :: nat
    using that by simp
  with 1 show ?case by (subst itoa.simps) (auto split: if_splits)
qed

definition call_id :: "nat \<Rightarrow> gostring" where
  "call_id n = ''go-sdk-'' @ itoa n"

lemma call_id_inj: "call_id m = call_id n \<longleftrightarrow> m = n"
  by (metis append_same_eq atoi_itoa call_id_def same_append_eq)

text \<open>The ids that are pending and the ids that are answered, when \<open>n\<close> ids have been given out.\<close>

definition used :: "gostring list \<Rightarrow> gostring list \<Rightarrow> nat \<Rightarrow> bool" where
  "used ps rs n \<longleftrightarrow> distinct (ps @ rs) \<and> n < 2 ^ 64 \<and> set ps \<union> set rs \<subseteq> call_id ` {0<..n}"

definition ids_used :: "Client \<Rightarrow> bool" where
  "ids_used c = used (map fst (cl_pending c)) (map fst (cl_responses c)) (cl_nextID c)"

lemma used_Suc: "used ps rs n \<Longrightarrow> Suc n < 2 ^ 64 \<Longrightarrow> used ps rs (Suc n)"
proof -
  have "call_id ` {0<..n} \<subseteq> call_id ` {0<..Suc n}" by (rule image_mono) auto
  then show "used ps rs n \<Longrightarrow> Suc n < 2 ^ 64 \<Longrightarrow> used ps rs (Suc n)" unfolding used_def by blast
qed

lemma used_fresh: "used ps rs n \<Longrightarrow> call_id (Suc n) \<notin> set ps \<union> set rs"
  by (auto simp: used_def call_id_inj)

lemma used_admit: "used ps rs n \<Longrightarrow> Suc n < 2 ^ 64 \<Longrightarrow> used (ps @ [call_id (Suc n)]) rs (Suc n)"
  using used_fresh[of ps rs n] used_Suc[of ps rs n] by (auto simp: used_def)

lemma used_withdraw: "used ps rs n \<Longrightarrow> used (removeAll k ps) rs n"
  by (auto simp: used_def distinct_removeAll)

lemma calls_ids_used: "calls c c' \<Longrightarrow> ids_used c \<Longrightarrow> ids_used c'"
  by (auto simp: ids_used_def used_def calls_def calls_ok_def call_ids_def simp del: set_map)

lemma update_keys_fresh: "k \<notin> set (map fst m) \<Longrightarrow> map fst (AList.update k v m) = map fst m @ [k]"
  by (simp add: AList.update_keys)

lemma delete_keys: "map fst (AList.delete k m) = removeAll k (map fst m)"
  by (induction m) (auto simp: AList.delete_eq)

lemma ids_used_beginCall:
  assumes "beginCall pc c = (r, c')" "ids_used c" "Suc (cl_nextID c) < 2 ^ 64"
  shows "ids_used c'"
proof (cases "cl_closed c")
  case True
  then have "cl_pending c' = cl_pending c" "cl_responses c' = cl_responses c" "cl_nextID c' = Suc (cl_nextID c)"
    using assms(1,3) by (auto simp: beginCall_def admitPending_def Let_def)
  then show ?thesis using used_Suc assms(2,3) by (simp add: ids_used_def)
next
  case False
  let ?n = "Suc (cl_nextID c)"
  have c': "cl_pending c' = AList.update (call_id ?n) pc (cl_pending c)" "cl_responses c' = cl_responses c" "cl_nextID c' = ?n"
    using assms(1,3) False by (auto simp: beginCall_def admitPending_def Let_def call_id_def)
  have "call_id ?n \<notin> set (map fst (cl_pending c))" using used_fresh assms(2) unfolding ids_used_def by blast
  then have "map fst (cl_pending c') = map fst (cl_pending c) @ [call_id ?n]"
    unfolding c' by (rule update_keys_fresh)
  then show ?thesis using used_admit assms(2,3) c' by (simp add: ids_used_def)
qed

lemma ids_used_abandon: "abandonCall call e c = (r, c') \<Longrightarrow> ids_used c \<Longrightarrow> ids_used c'"
  by (auto simp: abandonCall_def takePending_def ids_used_def delete_keys intro: used_withdraw
      split: option.splits prod.splits)

text \<open>Every other step moves calls from pending to answered only.\<close>

definition call_moves :: "Client \<Rightarrow> Client \<Rightarrow> bool" where
  "call_moves c c' \<longleftrightarrow> calls c c' \<or> (\<exists>pc r. Suc (cl_nextID c) < 2 ^ 64 \<and> beginCall pc c = (r, c')) \<or>
     (\<exists>call e r. abandonCall call e c = (r, c'))"

lemma calls_add_run: "calls c (add_run threadID result c)"
  by (simp add: calls_def add_run_def calls_ok_def call_ids_def)

lemma calls_begin_run: "calls c (begin_run E threadID result c)"
  by (auto simp: begin_run_def split: prod.splits option.splits intro!: calls.frames
      intro: calls.registered[OF _ calls_add_run])

lemma calls_shutdown: "calls c (beginShutdown c)" "calls c (shutdown E c)"
  using calls_failAll[of c E ErrClientClosed]
  by (auto simp: beginShutdown_def shutdown_def publishCloseCause_def calls_def calls_ok_def call_ids_def)

lemma calls_constructed: "calls c (c\<lparr>cl_constructing := b\<rparr>)"
  by (simp add: calls_def calls_ok_def call_ids_def)

lemma client_step_calls: "client_step E c c' \<Longrightarrow> call_moves c c'"
proof (induction rule: client_step.induct)
  case line then show ?case unfolding call_moves_def using calls.ingested calls_refl by blast
next case admit_request then show ?case
    by (auto simp: call_moves_def beginHandler_def split: if_splits intro: calls.handler_work)
next case respond show ?case unfolding call_moves_def by (intro disjI1 calls.handler_work calls.responded calls_refl)
next case call then show ?case unfolding call_moves_def by blast
next case abandon then show ?case unfolding call_moves_def by blast
next case begin_run show ?case unfolding call_moves_def by (intro disjI1 calls_begin_run)
next case orphan_run show ?case unfolding call_moves_def by (intro disjI1 calls.frames calls_add_run)
next case missing_turn show ?case unfolding call_moves_def by (intro disjI1 calls.attaching_finished calls.set_turn)
next case attach show ?case unfolding call_moves_def by (intro disjI1 calls.attached calls_refl)
next case give_up show ?case unfolding call_moves_def by (intro disjI1 calls.attaching_finished calls_refl)
next case cancel show ?case unfolding call_moves_def by (intro disjI1 calls.cancelled calls_refl)
next case finish show ?case unfolding call_moves_def by (intro disjI1 calls.frames calls_refl)
next case dispatch then show ?case unfolding call_moves_def using calls.dispatched calls_refl by blast
next case fail show ?case unfolding call_moves_def by (intro disjI1 calls_failClient)
next case begin_shutdown show ?case unfolding call_moves_def by (intro disjI1 calls_shutdown)
next case shutdown show ?case unfolding call_moves_def by (intro disjI1 calls_shutdown)
next case send then show ?case
    by (auto simp: call_moves_def client_write_def split: option.splits intro: calls.writes)
next case constructed show ?case unfolding call_moves_def by (intro disjI1 calls_constructed)
next case section_route then show ?case unfolding call_moves_def using calls.sectioned calls_refl by blast
next case section_accept then show ?case unfolding call_moves_def using calls.accepted calls_refl by blast
next case section_diagnostic then show ?case unfolding call_moves_def using calls.diagnosed calls_refl by blast
next case section_evidence then show ?case unfolding call_moves_def using calls.resolved calls_refl by blast
next case section_enqueue then show ?case unfolding call_moves_def using calls.enqueued calls_refl by blast
qed

lemma reachable_ids: "client_reachable E c \<Longrightarrow> ids_used c"
proof (induction rule: client_reachable.induct)
  case (step c c')
  then show ?case
    using client_step_calls[OF step(2)] calls_ids_used ids_used_beginCall ids_used_abandon
    unfolding call_moves_def by blast
qed (simp add: ids_used_def used_def new_client_def)

lemma reachable_shape: "client_reachable E c \<Longrightarrow> shape_ok c"
proof (induction rule: client_reachable.induct)
  case (step c c')
  then show ?case using shape.stepped[OF step(2)] by (simp add: shape_def)
qed (rule new_client_ok)

section \<open>Properties\<close>

lemma finish_run_terminal: "i < length (cl_runs c) \<Longrightarrow> rn_terminal (cl_runs (finish_run i e c) ! i)"
  by (auto simp: finish_run_runs finishState_def Let_def)

lemma finish_run_stays: "j < length (cl_runs c) \<Longrightarrow> rn_terminal (cl_runs c ! j) \<Longrightarrow> rn_terminal (cl_runs (finish_run i e c) ! j)"
  by (cases "j = i") (simp_all add: finish_run_terminal finish_run_ids)

lemma fold_finish_terminal:
  assumes "j < length (cl_runs c)" "j \<in> set is \<or> rn_terminal (cl_runs c ! j)"
  shows "rn_terminal (cl_runs (fold (\<lambda>i. finish_run i e) is c) ! j)"
  using assms
proof (induction "is" arbitrary: c)
  case (Cons i "is")
  then show ?case
    using finish_run_terminal finish_run_stays by (cases "j = i") (auto simp: finish_run_ids)
qed simp

lemma fold_finish_length: "length (cl_runs (fold (\<lambda>i. finish_run i e) is c)) = length (cl_runs c)"
  by (induction "is" arbitrary: c) (simp_all add: finish_run_ids)

text \<open>The runs that were registered are finished by \<open>failAll\<close>.\<close>

lemma failAll_terminal:
  assumes "client_ok c" "reg_ok c" "x \<in> set (cl_exactStreams c) \<union> set (cl_exactAttaching c)"
  shows "rn_terminal (cl_runs (failAll E e c) ! snd x)"
proof -
  let ?is = "map snd (cl_exactStreams c) @ map snd (cl_exactAttaching c)"
  let ?ns = "with_evidence (concat (map snd (cl_pendingEvents c))) @ with_evidence (concat (map snd (cl_replayingEvents c)))"
  let ?d = "fold (fail_diagnostic ?is) (pending_diagnostics (c\<lparr>cl_pending := []\<rparr>)) (fold (commit_evidence E) ?ns
    (on_store (fold (\<lambda>n. store_retain (rpc_retained n)) (with_evidence (concat (map snd (cl_replayingEvents c)))))
      (fail_snapshot (c\<lparr>cl_pending := []\<rparr>))))"
  have "adv c ?d"
    using advance.failed_runs[of c "c\<lparr>cl_pending := []\<rparr>" _ "[]"] by (simp del: fold_append)
  then have "length (cl_runs c) \<le> length (cl_runs ?d)" using assms(1) by (simp add: adv_def client_le_def)
  moreover have "snd x < length (cl_runs c)" "snd x \<in> set ?is"
    using assms(2,3) by (auto simp: reg_ok_def list_all_iff live_at_def)
  ultimately have "rn_terminal (cl_runs (fold (\<lambda>i. finish_run i (Some (firstCloseReason e c))) ?is ?d) ! snd x)"
    using fold_finish_terminal[of "snd x" ?d ?is] by simp
  then show ?thesis by (simp add: failAll_def Let_def fold_deliver del: fold_append)
qed

text \<open>C8: a failure of an open client settles everything at once: the failure is the close reason, every
  pending call is answered with it and none stays pending, no run stays registered, and every run that
  was registered has ended with that failure.\<close>

theorem client_failure_settles:
  assumes "client_reachable E c" "\<not> cl_closed c"
  shows "let c' = failClient E e c in
    cl_closed c' \<and> cl_failure c' = Some e \<and> cl_closeReason c' = Some e \<and> cl_pending c' = [] \<and>
    cl_responses c' = cl_responses c @ map (\<lambda>p. (fst p, RpcError e)) (cl_pending c) \<and>
    cl_exactStreams c' = [] \<and> cl_exactAttaching c' = [] \<and>
    list_all (\<lambda>x. rn_terminal (cl_runs c' ! snd x) \<and> rn_err (cl_runs c' ! snd x) = Some e) (cl_exactStreams c @ cl_exactAttaching c)"
proof -
  let ?c = "c\<lparr>cl_failure := Some e, cl_closeReason := Some e, cl_closed := True\<rparr>"
  let ?a = "failAll E e ?c"
  have ok: "client_ok ?c" "reg_ok ?c"
    using reg_okD[OF reg_claim[OF assms(2)]] reachable_ok[OF assms(1)] by blast+
  have "client_le ?c ?a" using adv_failAll ok(1) by (simp add: adv_def)
  then have a: "cl_closed ?a" "cl_failure ?a = Some e" "cl_closeReason ?a = Some e" by (simp_all add: client_le_def)
  have err: "rn_terminal (cl_runs ?a ! snd x) \<and> rn_err (cl_runs ?a ! snd x) = Some e"
    if x: "x \<in> set (cl_exactStreams c) \<union> set (cl_exactAttaching c)" for x
  proof -
    have live: "\<not> rn_terminal (cl_runs c ! snd x)" "snd x < length (cl_runs c)"
      using reachable_ok[OF assms(1)] x by (auto simp: reg_ok_def list_all_iff live_at_def)
    have t: "rn_terminal (cl_runs ?a ! snd x)" using failAll_terminal[OF ok, of x E e] x by simp
    have "run_ends (Some e) (cl_runs c ! snd x) (cl_runs ?a ! snd x)"
      using ends_failAll[of ?c E e] ok(1) live(2) by (simp add: ends_def)
    with t live(1) show ?thesis by (simp add: run_ends_def)
  qed
  have f: "failClient E e c = beginShutdown (publishCloseCause ?a)"
    using assms(2) by (simp add: failClient_def claimFailureLocked_def)
  show ?thesis
    unfolding f Let_def
    using a err failAll_calls[of E e ?c] failAll_registries[OF ok, of E e]
    by (auto simp: beginShutdown_def publishCloseCause_def firstCloseReason_def list_all_iff)
qed

text \<open>C9: once a client has closed, nothing changes its close reason, no later step reopens it, and every run
  that ends from then on, by whatever step, ends with that reason; runs that had ended keep their own
  outcome, their history and their diagnostics.\<close>

theorem closed_client_keeps_cause:
  assumes "client_reachable E c" "cl_closed c" "(client_step E)\<^sup>*\<^sup>* c c'"
  shows "cl_closed c' \<and> cl_closeReason c \<noteq> None \<and> cl_closeReason c' = cl_closeReason c \<and>
    list_all (\<lambda>i. run_le (cl_runs c ! i) (cl_runs c' ! i) \<and> run_ends (cl_closeReason c) (cl_runs c ! i) (cl_runs c' ! i))
      [0..<length (cl_runs c)]"
proof -
  have "ends c c'" using assms(3)
    by (induction rule: rtranclp_induct) (auto intro: ends.refl ends_trans ends.stepped)
  moreover have "client_ok c" using reachable_ok[OF assms(1)] by blast
  ultimately show ?thesis using assms(2) by (auto simp: ends_def adv_def client_le_def client_ok_def list_all_iff)
qed

text \<open>C10: in every reachable client no call is answered twice and no answered call is still pending. A step
  never loses a call: a pending call stays pending, or is answered, or is withdrawn by its own caller.\<close>

theorem calls_answered_once:
  assumes "client_reachable E c"
  shows "distinct (map fst (cl_pending c) @ map fst (cl_responses c)) \<and>
    (client_step E c c' \<longrightarrow> (k, pc) \<in> set (cl_pending c) \<longrightarrow>
       k \<in> set (map fst (cl_pending c')) \<or> k \<in> set (map fst (cl_responses c')) \<or> (\<exists>e r. abandonCall k e c = (r, c')))"
proof -
  have ids: "ids_used c" using reachable_ids[OF assms] .
  have "k \<in> set (map fst (cl_pending c')) \<or> k \<in> set (map fst (cl_responses c')) \<or> (\<exists>e r. abandonCall k e c = (r, c'))"
    if st: "client_step E c c'" and kp: "(k, pc) \<in> set (cl_pending c)"
  proof -
    have k: "k \<in> call_ids c" using kp by (force simp: call_ids_def)
    consider "calls c c'" | pc' r where "beginCall pc' c = (r, c')" | call e r where "abandonCall call e c = (r, c')"
      using client_step_calls[OF st] unfolding call_moves_def by blast
    then show ?thesis
    proof cases
      case 1
      then show ?thesis using k ids by (auto simp: calls_def call_ids_def ids_used_def used_def calls_ok_def simp del: set_map)
    next
      case 2
      have "set (map fst (cl_pending c)) \<subseteq> set (map fst (cl_pending c'))"
        using 2 by (auto simp: beginCall_def admitPending_def Let_def AList.update_keys split: if_splits simp del: set_map)
      then show ?thesis using kp by force
    next
      case 3
      show ?thesis
      proof (cases "call = k")
        case False
        then have "k \<in> set (map fst (cl_pending c'))"
          using 3 kp by (force simp: abandonCall_def takePending_def AList.delete_eq split: option.splits)
        then show ?thesis by blast
      qed (use 3 in blast)
    qed
  qed
  with ids show ?thesis by (auto simp: ids_used_def used_def)
qed


section \<open>An example client\<close>

text \<open>A client with one attaching run and one pending call.\<close>

definition example_env :: client_env where
  "example_env = \<lparr>ce_proto = example_proto, ce_decode = (\<lambda>_ _. Inr example_notification), ce_handler = True, ce_raw = None,
     ce_raw_schema = (\<lambda>_. None), ce_params_value = (\<lambda>_. RScalar 8), ce_raw_value = (\<lambda>_. RScalar 8), ce_sha256 = id,
     ce_write = (\<lambda>_. None), ce_error_text = (\<lambda>_. [])\<rparr>"

definition example_call :: pendingCall where
  "example_call = \<lparr>pc_thread = False, pc_turn = None, pc_method = ''model/list'', pc_validate = None\<rparr>"

definition example_attaching :: Client where
  "example_attaching = begin_run example_env ''t'' (rn_result example_run) (new_client 100 100000 4)"

lemma example_attaching_fields: "cl_nextID example_attaching = 0" "cl_closed example_attaching = False"
  "map fst (cl_pending example_attaching) = []" "cl_exactAttaching example_attaching = [(''t'', 0)]"
  "cl_exactStreams example_attaching = []" "length (cl_runs example_attaching) = 1"
  by (code_simp, code_simp, code_simp, code_simp, code_simp, code_simp)

definition example_client :: Client where
  "example_client = snd (beginCall example_call example_attaching)"

lemma example_attaching_reachable: "client_reachable example_env example_attaching"
  unfolding example_attaching_def by (rule client_reachable.step[OF client_reachable.new client_step.begin_run]) simp

lemma example_client_reachable: "client_reachable example_env example_client"
proof -
  note example_attaching_reachable
  moreover have "Suc (cl_nextID example_attaching) < 2 ^ 64" by (simp add: example_attaching_fields)
  ultimately show ?thesis
    unfolding example_client_def by (rule client_reachable.step[OF _ client_step.call[OF _ prod.collapse[symmetric]]])
qed

lemma example_client_eq: "example_client = example_attaching\<lparr>cl_nextID := 1, cl_pending := [(call_id 1, example_call)]\<rparr>"
  using example_attaching_fields
  by (simp add: example_client_def beginCall_def admitPending_def Let_def call_id_def)

lemma example_client_fields: "cl_closed example_client = False" "cl_pending example_client = [(call_id 1, example_call)]"
  "cl_exactAttaching example_client = [(''t'', 0)]" "cl_exactStreams example_client = []" "length (cl_runs example_client) = 1"
  by (simp_all add: example_client_eq example_attaching_fields)

theorem client_failure_settles_witness:
  "client_reachable example_env example_client \<and> \<not> cl_closed example_client \<and>
   rn_err (cl_runs (failClient example_env ErrHandlerFailed example_client) ! 0) = Some ErrHandlerFailed \<and>
   (call_id 1, RpcError ErrHandlerFailed) \<in> set (cl_responses (failClient example_env ErrHandlerFailed example_client))"
  using client_failure_settles[OF example_client_reachable, of ErrHandlerFailed] example_client_reachable
  by (simp add: example_client_fields Let_def)

definition example_failed :: Client where
  "example_failed = failClient example_env ErrHandlerFailed example_client"

lemma example_failed_reachable: "client_reachable example_env example_failed"
  unfolding example_failed_def by (rule client_reachable.step[OF example_client_reachable client_step.fail])

lemma failClient_closed: "client_ok c \<Longrightarrow> cl_closed (failClient E e c)"
proof (cases "cl_closed c")
  case False
  assume ok: "client_ok c"
  let ?c = "c\<lparr>cl_failure := Some e, cl_closeReason := Some e, cl_closed := True\<rparr>"
  have "client_ok ?c" using ok reg_claim[OF False] by (simp add: reg_def adv_def)
  then have "cl_closed (failAll E e ?c)" using adv_failAll[of ?c E e] by (simp add: adv_def client_le_def)
  with False show ?thesis by (simp add: failClient_def claimFailureLocked_def beginShutdown_def publishCloseCause_def)
qed (simp add: failClient_def claimFailureLocked_def)

lemma example_failed_closed: "cl_closed example_failed"
  unfolding example_failed_def using reachable_ok[OF example_client_reachable] by (simp add: failClient_closed)

theorem closed_client_keeps_cause_witness:
  "client_reachable example_env example_failed \<and> cl_closed example_failed \<and>
   cl_closeReason (cancel_run 0 ErrStreamClosed example_failed) = cl_closeReason example_failed"
  using closed_client_keeps_cause[OF example_failed_reachable example_failed_closed
      r_into_rtranclp[of "client_step example_env", OF client_step.cancel[of _ _ 0 ErrStreamClosed]]]
    example_failed_reachable example_failed_closed by blast

theorem calls_answered_once_witness:
  "call_id 1 \<in> set (map fst (cl_pending example_failed)) \<or> call_id 1 \<in> set (map fst (cl_responses example_failed)) \<or>
   (\<exists>e r. abandonCall (call_id 1) e example_client = (r, example_failed))"
  using calls_answered_once[OF example_client_reachable, of example_failed "call_id 1" example_call]
    client_step.fail[of example_env example_client ErrHandlerFailed]
  by (simp add: example_client_fields example_failed_def)


end
