(* ===== verification/Client_Requests.thy ===== *)
theory Client_Requests
  imports Client_Steps
begin

text \<open>
  What a client does for one request and one notification of the app-server: every server request is
  answered, a failed one ends exactly its own runs first, and a notification reaches matching runs only.
\<close>

section \<open>Answers\<close>

definition same_writes :: "Client \<Rightarrow> Client \<Rightarrow> bool" where
  "same_writes c c' \<longleftrightarrow> cl_writes c' = cl_writes c"

interpretation writes: client_core same_writes
  by unfold_locales (auto simp: same_writes_def accept_run_def diagnostic_run_def finish_run_def unregisterExactRun_def
      split: prod.splits sum.splits bool.splits)

lemma failAll_writes: "cl_writes (failAll E e c) = cl_writes c"
proof -
  have "same_writes (c\<lparr>cl_pending := []\<rparr>) (fold (\<lambda>i. finish_run i x) is (fold (fail_diagnostic is') ds
     (fold (commit_evidence E) ns (on_store f (fail_snapshot (c\<lparr>cl_pending := []\<rparr>))))))" for x "is" is' ds ns f
    by (rule writes.failed_runs) (rule writes.refl)
  then show ?thesis by (simp add: failAll_def Let_def fold_deliver same_writes_def del: fold_append)
qed

lemma failClient_writes [simp]: "cl_writes (failClient E e c) = cl_writes c"
  by (simp add: failClient_def claimFailureLocked_def beginShutdown_def publishCloseCause_def failAll_writes)

lemma fold_finish_writes [simp]: "cl_writes (fold (\<lambda>i. finish_run i e) is c) = cl_writes c"
  using writes.folds[of "is" "\<lambda>i. finish_run i e" c c] writes.finish writes.refl by (simp add: same_writes_def)

lemma fold_finish_ok: "client_ok c \<Longrightarrow> client_ok (fold (\<lambda>i. finish_run i e) is c)"
  using advance.folds[of "is" "\<lambda>i. finish_run i e" c c] advance.finish by (simp add: adv_def)

text \<open>The message answers the request: it carries the request's id and either an error or a result.\<close>

definition answers :: "JSONValue \<Rightarrow> (string \<times> JSONValue) list \<Rightarrow> bool" where
  "answers reqid payload \<longleftrightarrow> map_of payload ''id'' = Some reqid \<and>
     (map_of payload ''error'' = None) \<noteq> (map_of payload ''result'' = None)"

definition settled :: "JSONValue \<Rightarrow> Client \<Rightarrow> Client \<Rightarrow> bool" where
  "settled reqid c c' \<longleftrightarrow> (\<exists>p. cl_writes c' = cl_writes c @ [p] \<and> answers reqid p) \<or>
     cl_writes c' = cl_writes c \<and> cl_closed c'"

lemma failExact_settled: "client_ok c \<Longrightarrow> settled reqid c (failExactServerRequest E reqid request code e c)"
  by (auto simp: failExactServerRequest_def writeServerRequestError_def client_write_def settled_def answers_def Let_def
      fold_finish_ok failClient_closed split: option.splits)

lemma reject_settled: "cl_closed c \<Longrightarrow> settled reqid c (rejectExactServerRequestAfterAdmissionClosed E reqid request c)"
  by (auto simp: rejectExactServerRequestAfterAdmissionClosed_def writeServerRequestError_def client_write_def settled_def
      answers_def split: option.splits)

lemma client_write_settled:
  assumes "client_write E p c = (r, c')" "answers reqid p" "client_ok c"
  shows "settled reqid c (case r of Some e \<Rightarrow> failClient E e c' | None \<Rightarrow> c')"
  using assms by (auto simp: client_write_def settled_def failClient_closed split: option.splits)

lemma respond_settled:
  assumes "client_ok c" "cl_closed c \<or> \<not> cl_normalClosing c"
  shows "settled reqid c (respondToExactServerRequest E outcome reqid request c)"
proof -
  have ans: "answers reqid [(''id'', reqid), (''result'', v)]" for v by (simp add: answers_def)
  have fail: "settled reqid c (failExactServerRequest E reqid request code e c)" for code e
    by (rule failExact_settled[OF assms(1)])
  have resp: "settled reqid c (case writeExactServerRequestResponse E reqid request v c of
      (Some e, c) \<Rightarrow> failClient E e c | (None, c) \<Rightarrow> c)" for v
    using client_write_settled[OF prod.collapse[symmetric] ans assms(1)] fail
    by (auto simp: writeExactServerRequestResponse_def case_prod_beta split: sum.split JSONValue.split)
  have closing: "closingNormally c \<Longrightarrow> settled reqid c c"
    using assms(2) by (auto simp: closingNormally_def settled_def)
  show ?thesis
    using fail resp closing by (auto simp: respondToExactServerRequest_def split: option.split sum.split)
qed

text \<open>A client that shuts down, normally or not, is closed.\<close>

definition closing_ok :: "Client \<Rightarrow> bool" where
  "closing_ok c \<longleftrightarrow> (cl_shutdownStarted c \<or> cl_normalClosing c \<longrightarrow> cl_closed c)"

definition closing :: "Client \<Rightarrow> Client \<Rightarrow> bool" where
  "closing c c' \<longleftrightarrow> (cl_closed c \<longrightarrow> cl_closed c') \<and> (closing_ok c \<longrightarrow> closing_ok c')"

lemmas closing_defs = closing_def closing_ok_def

interpretation closing: client_core closing
  by unfold_locales (auto simp: closing_defs accept_run_def diagnostic_run_def finish_run_def
      unregisterExactRun_def split: prod.splits sum.splits bool.splits)

lemma closing_frame [simp]:
  "closing c (c'\<lparr>cl_pending := p\<rparr>) = closing c c'" "closing c (c'\<lparr>cl_responses := r\<rparr>) = closing c c'"
  "closing c (c'\<lparr>cl_failure := f\<rparr>) = closing c c'" "closing c (c'\<lparr>cl_closeReason := f\<rparr>) = closing c c'"
  "closing c (c'\<lparr>cl_causePublished := b\<rparr>) = closing c c'"
  "closing c (c'\<lparr>cl_nextID := n\<rparr>) = closing c c'"
  by (simp_all add: closing_defs)

lemma closing_closed [simp]: "closing c c' \<Longrightarrow> closing c (c'\<lparr>cl_closed := True\<rparr>)"
  by (simp_all add: closing_defs)

lemma closing_failAll: "closing c (failAll E e c)"
  by (auto simp: failAll_def Let_def fold_deliver simp del: fold_append intro!: closing.failed_runs closing.refl)

lemma closing_beginShutdown: "closing c c' \<Longrightarrow> closing c (beginShutdown c')"
  by (simp add: beginShutdown_def closing_defs)

lemma closing_failClient: "closing c (failClient E e c)"
  using closing.trans[OF _ closing_failAll[of "c\<lparr>cl_failure := Some e, cl_closeReason := Some e, cl_closed := True\<rparr>" E e], of c]
  by (auto simp: failClient_def claimFailureLocked_def publishCloseCause_def closing.refl intro!: closing_beginShutdown)

lemma closing_routeResponse: "closing c (routeResponse E message c)"
proof -
  have "arm_response pc result (c\<lparr>cl_pending := p\<rparr>) = (r, d) \<Longrightarrow> closing c d" for pc result p r d
    by (erule closing.armed) (simp add: closing.refl)
  then show ?thesis
    by (auto simp: routeResponse_def route_result_def takePending_def deliver_def Let_def closing.refl
        split: option.splits prod.splits intro!: closing.trans[OF _ closing_failClient])
qed

lemma closing_calls: "beginCall pc c = (r, c') \<Longrightarrow> closing c c'" "abandonCall call e c = (r', c') \<Longrightarrow> closing c c'"
  by (auto simp: beginCall_def admitPending_def abandonCall_def takePending_def Let_def closing.refl
      split: if_splits option.splits prod.splits)

interpretation closing: client_machine closing
proof unfold_locales
  show "closing c (failClient E e c)" for c E e by (rule closing_failClient)
  show "closing c (routeResponse E message c)" for c E message by (rule closing_routeResponse)
  show "closing c (beginShutdown c)" for c by (intro closing_beginShutdown closing.refl)
  show "closing c (shutdown E c)" for c E
    by (simp add: shutdown_def publishCloseCause_def closing.refl closing_failAll)
qed (auto simp: add_run_def intro: closing_calls, auto simp: closing_defs)

lemma reachable_closing: "client_reachable E c \<Longrightarrow> closing_ok c"
proof (induction rule: client_reachable.induct)
  case (step c c')
  then show ?case using closing.stepped[OF step(2)] by (simp add: closing_def)
qed (simp add: closing_ok_def new_client_def)

lemma settled_work: "settled reqid c (endHandlerWork c') = settled reqid c c'" "settled reqid (addHandlerWork c) c' = settled reqid c c'"
  by (simp_all add: settled_def endHandlerWork_def addHandlerWork_def)

text \<open>C12: every request of the app-server is settled: exactly one message is written, it carries the
  request's id and either an error or a result; or nothing is written, and then the client is closed.\<close>

theorem server_request_settled:
  assumes "client_reachable E c"
  shows "settled (case map_of message ''id'' of None \<Rightarrow> JNull | Some v \<Rightarrow> v) c (handleServerRequest E dec outcome message c)"
proof -
  have ok: "client_ok c" "cl_normalClosing c \<longrightarrow> cl_closed c"
    using reachable_ok[OF assms] reachable_closing[OF assms] by (auto simp: closing_ok_def)
  have work: "client_ok (addHandlerWork c) = client_ok c" "cl_closed (addHandlerWork c) = cl_closed c"
    "cl_normalClosing (addHandlerWork c) = cl_normalClosing c"
    by (simp_all add: addHandlerWork_def client_ok_def)
  have "settled reqid c (endHandlerWork (respondToExactServerRequest E outcome reqid request (addHandlerWork c)))" for reqid request
    using respond_settled[of "addHandlerWork c" reqid E outcome request] ok by (auto simp: settled_work work)
  then show ?thesis
    using failExact_settled[OF ok(1)] reject_settled
    by (auto simp: handleServerRequest_def handleExactServerRequest_def beginHandler_def Let_def split: sum.split)
qed

definition example_message :: "(string \<times> JSONValue) list" where
  "example_message = [(''id'', JNumber ''7''), (''method'', JString ''item/tool/call'')]"

theorem server_request_settled_witness:
  "settled (JNumber ''7'') example_client
     (handleServerRequest example_env (\<lambda>_. Inr zero_request) None example_message example_client)"
  using server_request_settled[OF example_client_reachable, of example_message "\<lambda>_. Inr zero_request" None]
  by (simp add: example_message_def)

text \<open>A server request that fails ends its correlated runs before the error is written, with the failure
  or the client's first cause, and those are runs of the request's own thread and turn.\<close>

theorem server_request_fails_own_runs:
  assumes "client_reachable E c" "i \<in> set (exactRunsForServerRequest request c)"
  shows "rn_terminal (cl_runs (failExactServerRequest E reqid request code e c) ! i) \<and> \<not> rn_terminal (cl_runs c ! i) \<and>
    (fst (extractServerRequestIdentity request) \<noteq> [] \<longrightarrow>
       rn_threadID (cl_runs c ! i) = fst (extractServerRequestIdentity request)) \<and>
    (snd (extractServerRequestIdentity request) \<noteq> [] \<longrightarrow>
       rn_turnID (cl_runs c ! i) \<in> {snd (extractServerRequestIdentity request), []}) \<and>
    extractServerRequestIdentity request \<noteq> ([], [])"
proof -
  obtain th tu where id: "extractServerRequestIdentity request = (th, tu)" by fastforce
  have ok: "client_ok c" "reg_ok c" using reachable_ok[OF assms(1)] by blast+
  have live: "live_at c rn_turnID x" if "x \<in> set (cl_exactStreams c)" for x
    using that ok(2) by (auto simp: reg_ok_def list_all_iff)
  have att: "live_at c rn_threadID x" if "x \<in> set (cl_exactAttaching c)" for x
    using that ok(2) by (auto simp: reg_ok_def list_all_iff)
  have i: "\<not> rn_terminal (cl_runs c ! i)" "i < length (cl_runs c)" "th \<noteq> [] \<longrightarrow> rn_threadID (cl_runs c ! i) = th"
    "tu \<noteq> [] \<longrightarrow> rn_turnID (cl_runs c ! i) \<in> {tu, []}" "(th, tu) \<noteq> ([], [])"
    using assms(2) live[unfolded live_at_def] att[unfolded live_at_def]
    by (auto simp: exactRunsForServerRequest_def id owners_of_def turnIDSnapshot_def split: if_splits)
  have t: "rn_terminal (cl_runs (fold (\<lambda>i. finish_run i (Some e)) (exactRunsForServerRequest request c) c) ! i)"
    (is "rn_terminal (cl_runs ?d ! i)")
    using fold_finish_terminal[OF i(2)] assms(2) by blast
  have "client_ok ?d" by (rule fold_finish_ok[OF ok(1)])
  moreover have "adv ?d (failExactServerRequest E reqid request code e c)"
    by (auto simp: failExactServerRequest_def writeServerRequestError_def client_write_def Let_def split: option.splits
        intro: adv_failClient)
  ultimately have "rn_terminal (cl_runs (failExactServerRequest E reqid request code e c) ! i)"
    using t i(2) fold_finish_length[of "Some e" "exactRunsForServerRequest request c" c]
    by (auto simp: adv_def client_le_def run_le_def)
  with i id show ?thesis by simp
qed

definition example_request :: ServerRequest where
  "example_request = \<lparr>sq_Kind = ''item/tool/call'', sq_json = Some (''{'' @ marshal_string ''params'' @ '':{'' @
     marshal_string ''threadId'' @ '':'' @ marshal_string ''t'' @ ''}}'')\<rparr>"

lemma example_request_runs: "exactRunsForServerRequest example_request example_attaching = [0]"
  by code_simp

theorem server_request_fails_own_runs_witness:
  "rn_terminal (cl_runs (failExactServerRequest example_env JNull example_request (-32000) ErrHandlerFailed example_attaching) ! 0)"
  using server_request_fails_own_runs[OF example_attaching_reachable, of 0 example_request]
  by (simp add: example_request_runs)

section \<open>Routing\<close>

text \<open>Delivery changes the runs it is made to, and leaves the rest of the runs alone.\<close>

lemma deliver_targets_others:
  "j \<notin> set targets \<Longrightarrow> cl_runs (snd (fold (deliver_target E typed) targets acc)) ! j = cl_runs (snd acc) ! j"
proof (induction targets arbitrary: acc)
  case (Cons i targets)
  have "cl_runs (snd (deliver_target E typed i acc)) ! j = cl_runs (snd acc) ! j"
    using Cons.prems by (auto simp: deliver_target_def accept_run_def split: prod.splits)
  with Cons show ?case by simp
qed simp

lemma route_targets_match:
  "i \<in> set (route_targets class identity c) \<Longrightarrow> run_matches identity c i \<and>
     i \<in> snd ` (set (cl_exactStreams c) \<union> set (cl_exactAttaching c)) \<and>
     class \<in> {notificationAttributionTurn, notificationAttributionThread}"
  by (auto simp: route_targets_def owners_of_def split: notificationAttributionClass.splits)

lemma route_section_runs: "route_section E n typed c = (r, c') \<Longrightarrow> cl_runs c' = cl_runs c"
  by (auto simp: route_section_def pend_thread_def pend_turn_def Let_def
      split: prod.splits if_splits option.splits sum.splits)

lemma route_section_targets:
  "route_section E n typed c = (RouteTargets ts, c') \<Longrightarrow> ts \<noteq> [] \<Longrightarrow>
     ts = route_targets (fst (attributionFor (pr_LookupMethod (ce_proto E)) typed)) (snd (attributionFor (pr_LookupMethod (ce_proto E)) typed)) c"
  by (auto simp: route_section_def pend_thread_def pend_turn_def Let_def
      split: prod.splits if_splits option.splits sum.splits)


definition example_rpc :: rpcNotification where
  "example_rpc = \<lparr>rpc_method = ''k'', rpc_params = None, rpc_evidence = None, rpc_retained = None\<rparr>"

definition example_routed :: Client where
  "example_routed = snd (routeExactNotificationBeforeTerminalCompletion example_env example_rpc example_notification example_attaching)"

lemma example_routed_fields: "cl_closed example_routed = False" "length (notifications (cl_runs example_routed ! 0)) = 1"
  "length (notifications (cl_runs example_attaching ! 0)) = 0"
  by (code_simp, code_simp, code_simp)


end
