(* ===== verification/Child_Env.thy ===== *)
theory Child_Env
  imports UTF8
begin

text \<open>
  The environment of the app-server process, \<open>codexsdk/process_env.go\<close>: entries are checked, and of
  several entries for one key the last one is kept, at the place of the first. On Windows keys are
  compared in lower case; the Unicode tables of \<open>strings.ToLower\<close> are the parameter \<open>lower\<close>.
\<close>

definition ErrInvalidEnvironment :: go_error where
  "ErrInvalidEnvironment = ErrNew ''codexsdk: invalid child environment''"

text \<open>\<open>strings.IndexByte\<close>, with \<open>None\<close> for -1.\<close>

fun index_byte :: "char \<Rightarrow> gostring \<Rightarrow> nat option" where
  "index_byte b [] = None"
| "index_byte b (c # s) = (if c = b then Some 0 else map_option Suc (index_byte b s))"

text \<open>The key of one entry, as the body of the loop computes it.\<close>

definition entry_key :: "(gostring \<Rightarrow> gostring) \<Rightarrow> bool \<Rightarrow> gostring \<Rightarrow> gostring option" where
  "entry_key lower windows entry =
     (if CHR 0x00 \<in> set entry then None
      else let start = (if windows \<and> has_prefix entry ''='' then 1 else 0) in
        case index_byte (CHR ''='') (drop start entry) of None \<Rightarrow> None
        | Some separator \<Rightarrow>
            let separator = separator + start in
            if separator = 0 then None
            else let key = take separator entry in Some (if windows then lower key else key))"

fun normalize_loop :: "(gostring \<Rightarrow> gostring) \<Rightarrow> bool \<Rightarrow> gostring list \<Rightarrow> (gostring \<times> nat) list \<Rightarrow> gostring list
    \<Rightarrow> go_error + gostring list" where
  "normalize_loop lower windows [] positions normalized = Inr normalized"
| "normalize_loop lower windows (entry # env) positions normalized =
     (case entry_key lower windows entry of None \<Rightarrow> Inl ErrInvalidEnvironment
      | Some key \<Rightarrow> (case map_of positions key of
          Some index \<Rightarrow> normalize_loop lower windows env positions (normalized[index := entry])
        | None \<Rightarrow> normalize_loop lower windows env ((key, length normalized) # positions) (normalized @ [entry])))"

definition normalizeChildEnvironment :: "(gostring \<Rightarrow> gostring) \<Rightarrow> bool \<Rightarrow> gostring slice \<Rightarrow> go_error + gostring slice" where
  "normalizeChildEnvironment lower windows env = (case env of None \<Rightarrow> Inr None
     | Some entries \<Rightarrow> map_sum id Some (normalize_loop lower windows entries [] []))"

section \<open>The specification\<close>

text \<open>Keys in the order of their first entries, each with its last entry.\<close>

definition first_keys :: "('a \<Rightarrow> 'k) \<Rightarrow> 'a list \<Rightarrow> 'k list" where
  "first_keys key xs = rev (remdups (rev (map key xs)))"

definition last_entry :: "('a \<Rightarrow> 'k) \<Rightarrow> 'a list \<Rightarrow> 'k \<Rightarrow> 'a" where
  "last_entry key xs k = last (filter (\<lambda>x. key x = k) xs)"

definition last_wins :: "('a \<Rightarrow> 'k) \<Rightarrow> 'a list \<Rightarrow> 'a list" where
  "last_wins key xs = map (last_entry key xs) (first_keys key xs)"

lemma first_keys_snoc: "first_keys key (xs @ [x]) = (if key x \<in> key ` set xs then first_keys key xs else first_keys key xs @ [key x])"
  by (simp add: first_keys_def)

lemma first_keys_set: "set (first_keys key xs) = key ` set xs" and first_keys_distinct: "distinct (first_keys key xs)"
  by (simp_all add: first_keys_def)

lemma last_entry_snoc: "last_entry key (xs @ [x]) k = (if key x = k then x else last_entry key xs k)"
  by (simp add: last_entry_def)

lemma last_entry_key: "k \<in> key ` set xs \<Longrightarrow> key (last_entry key xs k) = k"
proof -
  assume "k \<in> key ` set xs"
  then have "filter (\<lambda>x. key x = k) xs \<noteq> []" by (auto simp: filter_empty_conv)
  then have "last (filter (\<lambda>x. key x = k) xs) \<in> set (filter (\<lambda>x. key x = k) xs)" by (rule last_in_set)
  then show ?thesis by (simp add: last_entry_def)
qed

lemma last_wins_keys: "map key (last_wins key xs) = first_keys key xs"
  by (auto simp: last_wins_def first_keys_set last_entry_key intro!: map_idI)

lemma last_wins_length: "length (last_wins key xs) = length (first_keys key xs)"
  by (simp add: last_wins_def)

lemma last_wins_new: "key x \<notin> key ` set xs \<Longrightarrow> last_wins key (xs @ [x]) = last_wins key xs @ [x]"
  by (auto simp: last_wins_def first_keys_snoc last_entry_snoc first_keys_set)

lemma last_wins_old:
  assumes "i < length (first_keys key xs)" "first_keys key xs ! i = key x"
  shows "last_wins key (xs @ [x]) = (last_wins key xs)[i := x]"
proof -
  have "key x \<in> key ` set xs" using assms nth_mem[of i "first_keys key xs"] by (simp add: first_keys_set)
  then have fk: "first_keys key (xs @ [x]) = first_keys key xs" by (simp add: first_keys_snoc)
  show ?thesis
  proof (rule nth_equalityI)
    fix j assume "j < length (last_wins key (xs @ [x]))"
    then have j: "j < length (first_keys key xs)" by (simp add: last_wins_length fk)
    have "first_keys key xs ! j = key x \<longleftrightarrow> j = i"
      using nth_eq_iff_index_eq[OF first_keys_distinct[of key xs] j assms(1)] assms(2) by simp
    then show "last_wins key (xs @ [x]) ! j = (last_wins key xs)[i := x] ! j"
      using j by (auto simp: last_wins_def fk last_entry_snoc nth_list_update last_wins_length)
  qed (simp add: last_wins_length fk)
qed

section \<open>The loop computes it\<close>

definition key_of :: "(gostring \<Rightarrow> gostring) \<Rightarrow> bool \<Rightarrow> gostring \<Rightarrow> gostring" where
  "key_of lower windows entry = the (entry_key lower windows entry)"

definition positions_ok :: "gostring list \<Rightarrow> (gostring \<times> nat) list \<Rightarrow> bool" where
  "positions_ok keys positions \<longleftrightarrow>
     (\<forall>k i. map_of positions k = Some i \<longleftrightarrow> i < length keys \<and> keys ! i = k)"

lemma positions_new:
  assumes "positions_ok keys positions" "map_of positions k = None"
  shows "positions_ok (keys @ [k]) ((k, length keys) # positions)" "k \<notin> set keys"
proof -
  show k: "k \<notin> set keys" using assms by (metis in_set_conv_nth option.distinct(1) positions_ok_def)
  show "positions_ok (keys @ [k]) ((k, length keys) # positions)"
    unfolding positions_ok_def
  proof (intro allI)
    fix j i
    show "map_of ((k, length keys) # positions) j = Some i \<longleftrightarrow> i < length (keys @ [k]) \<and> (keys @ [k]) ! i = j"
    proof (cases "i < length keys")
      case True
      then have "keys ! i \<noteq> k" using k nth_mem by metis
      with True assms(1) show ?thesis by (simp add: positions_ok_def nth_append)
    next
      case False
      with assms(1) have "map_of positions j \<noteq> Some i" by (simp add: positions_ok_def)
      with False show ?thesis by (auto simp: nth_append less_Suc_eq)
    qed
  qed
qed

lemma normalize_loop_ok:
  assumes "list_all (\<lambda>e. entry_key lower windows e \<noteq> None) env"
    "positions_ok (first_keys (key_of lower windows) seen) positions" "normalized = last_wins (key_of lower windows) seen"
  shows "normalize_loop lower windows env positions normalized = Inr (last_wins (key_of lower windows) (seen @ env))"
  using assms
proof (induction env arbitrary: seen positions normalized)
  case (Cons entry env)
  let ?key = "key_of lower windows"
  from Cons.prems(1) obtain key where key: "entry_key lower windows entry = Some key" by auto
  then have k: "?key entry = key" by (simp add: key_of_def)
  show ?case
  proof (cases "map_of positions key")
    case None
    from positions_new[OF Cons.prems(2) None] have new: "key \<notin> ?key ` set seen"
      "positions_ok (first_keys ?key (seen @ [entry])) ((key, length normalized) # positions)"
      by (simp_all add: first_keys_set first_keys_snoc k Cons.prems(3) last_wins_length)
    have "normalized @ [entry] = last_wins ?key (seen @ [entry])"
      using new(1) by (simp add: last_wins_new k Cons.prems(3))
    from Cons.IH[OF _ new(2) this] Cons.prems(1) key None show ?thesis by simp
  next
    case (Some i)
    then have i: "i < length (first_keys ?key seen)" "first_keys ?key seen ! i = ?key entry"
      using Cons.prems(2) by (simp_all add: positions_ok_def k)
    then have "?key entry \<in> ?key ` set seen" using nth_mem[of i "first_keys ?key seen"] by (simp add: first_keys_set)
    then have "positions_ok (first_keys ?key (seen @ [entry])) positions" using Cons.prems(2) by (simp add: first_keys_snoc)
    moreover have "normalized[i := entry] = last_wins ?key (seen @ [entry])"
      using last_wins_old[OF i] Cons.prems(3) by simp
    ultimately show ?thesis using Cons.IH[of "seen @ [entry]" positions] Cons.prems(1) key Some by simp
  qed
qed simp

lemma normalize_loop_invalid:
  "\<not> list_all (\<lambda>e. entry_key lower windows e \<noteq> None) env \<Longrightarrow>
   normalize_loop lower windows env positions normalized = Inl ErrInvalidEnvironment"
  by (induction env arbitrary: positions normalized) (auto split: option.split)

lemma normalize_env_cases:
  "normalizeChildEnvironment lower windows env = (case env of None \<Rightarrow> Inr None
     | Some entries \<Rightarrow>
         if list_all (\<lambda>e. entry_key lower windows e \<noteq> None) entries
         then Inr (Some (last_wins (key_of lower windows) entries)) else Inl ErrInvalidEnvironment)"
proof (cases env)
  case (Some entries)
  have "positions_ok (first_keys (key_of lower windows) []) []" by (simp add: positions_ok_def first_keys_def)
  then show ?thesis
    using normalize_loop_ok[of lower windows entries "[]" "[]" "[]"] normalize_loop_invalid[of lower windows entries "[]" "[]"] Some
    by (simp add: normalizeChildEnvironment_def last_wins_def first_keys_def)
qed (simp add: normalizeChildEnvironment_def)

text \<open>The child environment is refused exactly when some entry is malformed; otherwise every key of the
  input has one entry, the last one given for it, and the keys come in the order of their first entries.
  A nil environment stays nil, so that the child inherits its parent's.\<close>

theorem normalizeChildEnvironment_last_wins:
  "normalizeChildEnvironment lower windows env = (case env of None \<Rightarrow> Inr None
     | Some entries \<Rightarrow>
         if list_all (\<lambda>e. entry_key lower windows e \<noteq> None) entries
         then Inr (Some (last_wins (key_of lower windows) entries)) else Inl ErrInvalidEnvironment)"
  by (rule normalize_env_cases)

lemma last_wins_subset: "set (last_wins key xs) \<subseteq> set xs"
proof
  fix y assume "y \<in> set (last_wins key xs)"
  then obtain k where "k \<in> key ` set xs" "y = last_entry key xs k" by (auto simp: last_wins_def first_keys_set)
  then have "filter (\<lambda>x. key x = k) xs \<noteq> []" by (auto simp: filter_empty_conv)
  then have "y \<in> set (filter (\<lambda>x. key x = k) xs)" using last_in_set \<open>y = _\<close> unfolding last_entry_def by blast
  then show "y \<in> set xs" by simp
qed

end
