(* ===== verification/Client_Options.thy ===== *)
theory Client_Options
  imports Client_Steps Child_Env
begin

text \<open>
  \<open>ClientOptions\<close> of \<open>codexsdk/types.go\<close> and how they are copied, defaulted and checked before a client
  starts (\<open>codexsdk/client.go\<close>, \<open>raw_notification.go\<close>). Handlers are present or nil. The file system, the
  JSON clone of generated parameters, the compiled raw-item schema and the method registry are parameters.
\<close>

record RawNotificationSubscription =
  rs_Methods :: "gostring slice"
  rs_EnableRawResponseItemExtension :: bool
  rs_Handler :: bool

text \<open>The generated \<open>InitializeParams\<close>: the client info, and the capabilities by their JSON text.\<close>

record ClientInfo =
  ci_Name :: gostring
  ci_Title :: "gostring option option"
  ci_Version :: gostring

record InitializeParams =
  ip_Capabilities :: "gostring option option"
  ip_ClientInfo :: ClientInfo

definition zero_params :: InitializeParams where
  "zero_params = \<lparr>ip_Capabilities = None, ip_ClientInfo = \<lparr>ci_Name = [], ci_Title = None, ci_Version = []\<rparr>\<rparr>"

record ClientOptions =
  co_RawNotifications :: "RawNotificationSubscription option"
  co_CWD :: gostring
  co_Command :: "gostring slice"
  co_Env :: "gostring slice"
  co_Initialize :: InitializeParams
  co_ServerRequestHandler :: bool
  co_ServerNotificationHandler :: bool
  co_NotificationQueueCapacity :: int
  co_NotificationRetention :: NotificationRetentionBudget

record start_env =
  se_stat :: "gostring \<Rightarrow> go_error + bool"
  se_clone :: "InitializeParams \<Rightarrow> go_error + InitializeParams"
  se_lower :: "gostring \<Rightarrow> gostring"
  se_windows :: bool
  se_raw_schema :: "go_error option"
  se_lookup :: "gostring \<Rightarrow> MethodInfo option"

definition ErrRawNotificationUnsupported :: go_error where
  "ErrRawNotificationUnsupported = ErrNew ''codexsdk: required raw notification unsupported''"

section \<open>Copying\<close>

definition copyStartupOptions :: "start_env \<Rightarrow> ClientOptions \<Rightarrow> go_error + ClientOptions" where
  "copyStartupOptions S o1 =
     (let o1 = o1\<lparr>co_Command := append_nil (co_Command o1)\<rparr>;
          o1 = o1\<lparr>co_RawNotifications := map_option (\<lambda>r. r\<lparr>rs_Methods := append_nil (rs_Methods r)\<rparr>) (co_RawNotifications o1)\<rparr>
      in if co_Initialize o1 \<noteq> zero_params then
           (case se_clone S (co_Initialize o1) of
              Inl e \<Rightarrow> Inl (ErrWrap ''codexsdk: invalid ClientOptions.Initialize'' [e])
            | Inr cloned \<Rightarrow> Inr (o1\<lparr>co_Initialize := cloned\<rparr>))
         else Inr o1)"

section \<open>Validation\<close>

definition initializeParams :: InitializeParams where
  "initializeParams = \<lparr>ip_Capabilities = Some (Some ''{}''),
     ip_ClientInfo = \<lparr>ci_Name = ''codex-go-sdk'', ci_Title = Some (Some ''Codex Go SDK''), ci_Version = ''codex-go-sdk-v1''\<rparr>\<rparr>"

text \<open>The body of the loop of \<open>validateRawSubscription\<close> for one method, once it is known to be new.\<close>

definition raw_method_error :: "start_env \<Rightarrow> bool \<Rightarrow> gostring \<Rightarrow> go_error option" where
  "raw_method_error S enabled method =
     (if method = RawResponseItemCompletedExtension \<and> enabled then se_raw_schema S
      else case se_lookup S method of None \<Rightarrow> Some ErrRawNotificationUnsupported
        | Some info \<Rightarrow>
            if mi_Direction info \<noteq> MethodDirectionServerToClient \<or> mi_Kind info \<noteq> MethodKindNotification
            then Some ErrRawNotificationUnsupported else None)"

fun check_raw_methods :: "start_env \<Rightarrow> bool \<Rightarrow> gostring list \<Rightarrow> gostring list \<Rightarrow> go_error option" where
  "check_raw_methods S enabled seen [] = None"
| "check_raw_methods S enabled seen (method # methods) =
     (if method \<in> set seen then Some ErrRawNotificationUnsupported
      else case raw_method_error S enabled method of Some e \<Rightarrow> Some e
        | None \<Rightarrow> check_raw_methods S enabled (method # seen) methods)"

definition validateRawSubscription :: "start_env \<Rightarrow> ClientOptions \<Rightarrow> go_error + ClientOptions" where
  "validateRawSubscription S o1 = (case co_RawNotifications o1 of None \<Rightarrow> Inr o1
     | Some r \<Rightarrow>
         let subscription = r\<lparr>rs_Methods := append_nil (rs_Methods r)\<rparr>
         in if \<not> rs_Handler subscription \<or> elems (rs_Methods subscription) = [] then Inl ErrRawNotificationUnsupported
            else case check_raw_methods S (rs_EnableRawResponseItemExtension subscription) [] (elems (rs_Methods subscription)) of
                Some e \<Rightarrow> Inl e
              | None \<Rightarrow> Inr (o1\<lparr>co_RawNotifications := Some subscription\<rparr>))"

definition default_budget :: "NotificationRetentionBudget \<Rightarrow> NotificationRetentionBudget" where
  "default_budget b = \<lparr>MaxCount = (if MaxCount b = 0 then DefaultNotificationRetentionCount else MaxCount b),
     MaxBytes = (if MaxBytes b = 0 then DefaultNotificationRetentionBytes else MaxBytes b)\<rparr>"

definition initialize_or_default :: "start_env \<Rightarrow> InitializeParams \<Rightarrow> go_error + InitializeParams" where
  "initialize_or_default S p = (if p = zero_params then Inr initializeParams
     else case se_clone S p of Inl e \<Rightarrow> Inl (ErrWrap ''codexsdk: invalid ClientOptions.Initialize'' [e]) | Inr c \<Rightarrow> Inr c)"

definition validateOptions :: "start_env \<Rightarrow> ClientOptions \<Rightarrow> go_error + ClientOptions" where
  "validateOptions S o1 =
     (if trim_space (co_CWD o1) = [] then Inl (ErrNew ''codexsdk: ClientOptions.CWD is required'')
      else case se_stat S (co_CWD o1) of
        Inl e \<Rightarrow> Inl (ErrWrap ''codexsdk: invalid ClientOptions.CWD'' [e])
      | Inr isDir \<Rightarrow>
          if \<not> isDir then Inl (ErrNew (''codexsdk: ClientOptions.CWD is not a directory: '' @ co_CWD o1))
          else if elems (co_Command o1) = [] \<or> trim_space (hd (elems (co_Command o1))) = []
          then Inl (ErrNew ''codexsdk: ClientOptions.Command is required'')
          else let o1 = o1\<lparr>co_Command := append_nil (co_Command o1)\<rparr> in
            case normalizeChildEnvironment (se_lower S) (se_windows S) (co_Env o1) of Inl e \<Rightarrow> Inl e
            | Inr env \<Rightarrow>
                let o1 = o1\<lparr>co_Env := env\<rparr> in
                case initialize_or_default S (co_Initialize o1) of Inl e \<Rightarrow> Inl e
                | Inr init \<Rightarrow>
                    let o1 = o1\<lparr>co_Initialize := init\<rparr> in
                    if trim_space (ci_Name (ip_ClientInfo init)) = [] \<or> trim_space (ci_Version (ip_ClientInfo init)) = []
                    then Inl (ErrNew ''codexsdk: ClientOptions.Initialize.ClientInfo name and version are required'')
                    else if co_NotificationQueueCapacity o1 < 0
                    then Inl (ErrNew ''codexsdk: ClientOptions.NotificationQueueCapacity must not be negative'')
                    else if MaxCount (co_NotificationRetention o1) < 0 \<or> MaxBytes (co_NotificationRetention o1) < 0
                    then Inl (ErrNew ''codexsdk: invalid notification retention budget'')
                    else validateRawSubscription S (o1\<lparr>co_NotificationRetention := default_budget (co_NotificationRetention o1)\<rparr>))"

section \<open>What valid options are\<close>

lemma check_raw_methods_None:
  "check_raw_methods S enabled seen methods = None \<longleftrightarrow>
     distinct methods \<and> set seen \<inter> set methods = {} \<and> list_all (\<lambda>m. raw_method_error S enabled m = None) methods"
  by (induction methods arbitrary: seen) (auto split: option.split)

definition raw_ok :: "start_env \<Rightarrow> RawNotificationSubscription \<Rightarrow> bool" where
  "raw_ok S r \<longleftrightarrow> rs_Handler r \<and> elems (rs_Methods r) \<noteq> [] \<and> distinct (elems (rs_Methods r)) \<and>
     list_all (\<lambda>m. raw_method_error S (rs_EnableRawResponseItemExtension r) m = None) (elems (rs_Methods r))"

lemma validateRawSubscription_iff:
  "validateRawSubscription S o1 = Inr o2 \<longleftrightarrow>
     (case co_RawNotifications o1 of None \<Rightarrow> o2 = o1
      | Some r \<Rightarrow> raw_ok S r \<and> o2 = o1\<lparr>co_RawNotifications := Some (r\<lparr>rs_Methods := append_nil (rs_Methods r)\<rparr>)\<rparr>)"
proof (cases "co_RawNotifications o1")
  case (Some r)
  let ?check = "check_raw_methods S (rs_EnableRawResponseItemExtension r) [] (elems (rs_Methods r))"
  have "raw_ok S r \<longleftrightarrow> rs_Handler r \<and> elems (rs_Methods r) \<noteq> [] \<and> ?check = None"
    by (simp add: raw_ok_def check_raw_methods_None)
  with Some show ?thesis by (cases ?check) (auto simp: validateRawSubscription_def Let_def)
qed (auto simp: validateRawSubscription_def)

text \<open>The conditions on the caller's options, and the options a client runs with.\<close>

definition options_ok :: "start_env \<Rightarrow> ClientOptions \<Rightarrow> bool" where
  "options_ok S o1 \<longleftrightarrow> trim_space (co_CWD o1) \<noteq> [] \<and> se_stat S (co_CWD o1) = Inr True \<and>
     elems (co_Command o1) \<noteq> [] \<and> trim_space (hd (elems (co_Command o1))) \<noteq> [] \<and>
     list_all (\<lambda>e. entry_key (se_lower S) (se_windows S) e \<noteq> None) (elems (co_Env o1)) \<and>
     (case initialize_or_default S (co_Initialize o1) of Inl _ \<Rightarrow> False
      | Inr p \<Rightarrow> trim_space (ci_Name (ip_ClientInfo p)) \<noteq> [] \<and> trim_space (ci_Version (ip_ClientInfo p)) \<noteq> []) \<and>
     0 \<le> co_NotificationQueueCapacity o1 \<and> 0 \<le> MaxCount (co_NotificationRetention o1) \<and> 0 \<le> MaxBytes (co_NotificationRetention o1) \<and>
     (case co_RawNotifications o1 of None \<Rightarrow> True | Some r \<Rightarrow> raw_ok S r)"

definition normal_options :: "start_env \<Rightarrow> ClientOptions \<Rightarrow> ClientOptions" where
  "normal_options S o1 = o1\<lparr>co_Command := append_nil (co_Command o1),
     co_Env := map_option (last_wins (key_of (se_lower S) (se_windows S))) (co_Env o1),
     co_Initialize := (case initialize_or_default S (co_Initialize o1) of Inl _ \<Rightarrow> co_Initialize o1 | Inr p \<Rightarrow> p),
     co_NotificationRetention := default_budget (co_NotificationRetention o1),
     co_RawNotifications := map_option (\<lambda>r. r\<lparr>rs_Methods := append_nil (rs_Methods r)\<rparr>) (co_RawNotifications o1)\<rparr>"

lemma validateOptions_iff: "validateOptions S o1 = Inr o2 \<longleftrightarrow> options_ok S o1 \<and> o2 = normal_options S o1"
proof -
  have env: "normalizeChildEnvironment (se_lower S) (se_windows S) e =
      (if list_all (\<lambda>e. entry_key (se_lower S) (se_windows S) e \<noteq> None) (elems e)
       then Inr (map_option (last_wins (key_of (se_lower S) (se_windows S))) e) else Inl ErrInvalidEnvironment)" for e
    by (auto simp: normalize_env_cases elems_def split: option.split)
  show ?thesis
    by (auto simp: validateOptions_def options_ok_def normal_options_def env validateRawSubscription_iff Let_def
        split: sum.split sum.split_asm option.split option.split_asm if_splits)
qed

lemma last_wins_id: "distinct (map key xs) \<Longrightarrow> last_wins key xs = xs"
proof (induction xs rule: rev_induct)
  case (snoc x xs)
  then show ?case using last_wins_new[of key x xs] by auto
qed (simp add: last_wins_def first_keys_def)

lemma last_wins_idem: "last_wins key (last_wins key xs) = last_wins key xs"
  by (rule last_wins_id) (simp add: last_wins_keys first_keys_distinct)

lemma append_nil_idem [simp]: "append_nil (append_nil s) = append_nil s"
  by (simp add: append_nil_def)

lemma default_budget_props [simp]: "default_budget (default_budget b) = default_budget b"
  "0 \<le> MaxCount b \<Longrightarrow> 0 < MaxCount (default_budget b)" "0 \<le> MaxBytes b \<Longrightarrow> 0 < MaxBytes (default_budget b)"
  by (auto simp: default_budget_def DefaultNotificationRetentionCount_def DefaultNotificationRetentionBytes_def)

lemma raw_ok_copy [simp]: "raw_ok S (r\<lparr>rs_Methods := append_nil (rs_Methods r)\<rparr>) = raw_ok S r"
  by (simp add: raw_ok_def)

text \<open>Options are accepted exactly when they meet every documented condition, and a client then runs
  with a positive retention budget, a queue capacity that is not negative, one environment entry per
  key, and distinct supported raw methods; validating accepted options again changes nothing.\<close>

theorem validateOptions_normal_form:
  assumes clone: "\<And>p q. se_clone S p = Inr q \<Longrightarrow> se_clone S q = Inr q \<and> q \<noteq> zero_params"
    and default: "se_clone S initializeParams = Inr initializeParams"
  shows "(validateOptions S o1 = Inr o2 \<longleftrightarrow> options_ok S o1 \<and> o2 = normal_options S o1) \<and>
    (validateOptions S o1 = Inr o2 \<longrightarrow>
       validateOptions S o2 = Inr o2 \<and> 0 < MaxCount (co_NotificationRetention o2) \<and> 0 < MaxBytes (co_NotificationRetention o2) \<and>
       0 \<le> co_NotificationQueueCapacity o2 \<and>
       distinct (map (key_of (se_lower S) (se_windows S)) (elems (co_Env o2))))"
proof -
  have "options_ok S (normal_options S o1) \<and> normal_options S (normal_options S o1) = normal_options S o1"
    if ok: "options_ok S o1"
  proof
    obtain p where p: "initialize_or_default S (co_Initialize o1) = Inr p"
      using ok by (auto simp: options_ok_def split: sum.splits)
    have pp: "initialize_or_default S p = Inr p"
      using p clone default by (auto simp: initialize_or_default_def split: if_splits sum.splits)
    have env: "list_all (\<lambda>e. entry_key (se_lower S) (se_windows S) e \<noteq> None)
        (elems (map_option (last_wins (key_of (se_lower S) (se_windows S))) (co_Env o1)))"
      using ok last_wins_subset by (fastforce simp: options_ok_def elems_def list_all_iff split: option.splits)
    have budget: "0 \<le> MaxCount (default_budget (co_NotificationRetention o1))" "0 \<le> MaxBytes (default_budget (co_NotificationRetention o1))"
      using ok by (auto simp: options_ok_def intro: order_less_imp_le)
    show "options_ok S (normal_options S o1)"
      using ok p pp env budget by (auto simp: options_ok_def normal_options_def split: option.splits)
    show "normal_options S (normal_options S o1) = normal_options S o1"
      using p pp by (simp add: normal_options_def last_wins_idem option.map_comp comp_def)
  qed
  moreover have "distinct (map (key_of (se_lower S) (se_windows S)) (elems (co_Env (normal_options S o1))))"
    by (auto simp: normal_options_def elems_def last_wins_keys first_keys_distinct split: option.splits)
  moreover have "0 < MaxCount (co_NotificationRetention (normal_options S o1))" "0 < MaxBytes (co_NotificationRetention (normal_options S o1))"
    "0 \<le> co_NotificationQueueCapacity (normal_options S o1)" if "options_ok S o1"
    using that by (simp_all add: options_ok_def normal_options_def)
  ultimately show ?thesis by (auto simp: validateOptions_iff)
qed

definition example_start :: start_env where
  "example_start = \<lparr>se_stat = (\<lambda>_. Inr True), se_clone = (\<lambda>p. if p = zero_params then Inl (ErrNew ''zero'') else Inr p),
     se_lower = id, se_windows = False, se_raw_schema = None, se_lookup = (\<lambda>_. None)\<rparr>"

definition example_options :: ClientOptions where
  "example_options = \<lparr>co_RawNotifications = None, co_CWD = ''/w'', co_Command = Some [''codex''],
     co_Env = Some [''A=1'', ''B=2'', ''A=3''], co_Initialize = zero_params, co_ServerRequestHandler = False,
     co_ServerNotificationHandler = False, co_NotificationQueueCapacity = 0,
     co_NotificationRetention = \<lparr>MaxCount = 0, MaxBytes = 5\<rparr>\<rparr>"

lemma example_options_ok: "options_ok example_start example_options" by code_simp

lemma example_options_env: "co_Env (normal_options example_start example_options) = Some [''A=3'', ''B=2'']" by code_simp

theorem validateOptions_normal_form_witness:
  "validateOptions example_start example_options = Inr (normal_options example_start example_options) \<and>
   validateOptions example_start (normal_options example_start example_options) = Inr (normal_options example_start example_options) \<and>
   co_Env (normal_options example_start example_options) = Some [''A=3'', ''B=2'']"
proof -
  have "se_clone example_start p = Inr q \<Longrightarrow> se_clone example_start q = Inr q \<and> q \<noteq> zero_params" for p q
    by (auto simp: example_start_def split: if_splits)
  moreover have "se_clone example_start initializeParams = Inr initializeParams"
    by (simp add: example_start_def initializeParams_def zero_params_def)
  ultimately show ?thesis
    using validateOptions_normal_form[of example_start example_options "normal_options example_start example_options"]
      example_options_ok example_options_env by blast
qed

end
