(* ===== verification/Framing.thy ===== *)
theory Framing
  imports Client_Requests Child_Env
begin

text \<open>
  Reading frames from the app-server, \<open>readFrame\<close> and \<open>readLoopWithLimit\<close> of \<open>codexsdk/client.go\<close>. The
  reader is the bytes it still has to deliver and the way it ends; \<open>bufio.Reader.ReadSlice\<close> cuts them at
  newlines and at its buffer size, which is at least 16.
\<close>

section \<open>\<open>bufio.Reader\<close>\<close>

abbreviation newline :: char where "newline \<equiv> CHR 0x0A"

datatype slice_end = SliceLine | SliceFull | SliceEnd

definition buffer_size :: "nat \<Rightarrow> nat" where
  "buffer_size bufsize = max 16 bufsize"

definition read_slice :: "nat \<Rightarrow> gostring \<Rightarrow> gostring \<times> slice_end \<times> gostring" where
  "read_slice bufsize data = (case index_byte newline (take (buffer_size bufsize) data) of
      Some i \<Rightarrow> (take (Suc i) data, SliceLine, drop (Suc i) data)
    | None \<Rightarrow>
        if buffer_size bufsize \<le> length data then (take (buffer_size bufsize) data, SliceFull, drop (buffer_size bufsize) data)
        else (data, SliceEnd, []))"

section \<open>Frames\<close>

text \<open>Errors carry the number of consumed bytes and the digest of them.\<close>

datatype frame_error =
    FrameLimit
  | FrameEOF
  | FrameTooLarge nat gostring
  | FrameUnterminated nat gostring
  | FrameRead nat gostring go_error

text \<open>
  The loop of \<open>readFrame\<close>. The frame and the bytes written to the digest are the same bytes, \<open>consumed\<close>
  counts them. \<open>fin\<close> is the error the reader ends with, \<open>None\<close> for \<open>io.EOF\<close>.
\<close>

lemma read_slice_shrinks [termination_simp]:
  "(frag, SliceFull, rest) = read_slice bufsize data \<Longrightarrow> length rest < length data"
  by (auto simp: read_slice_def buffer_size_def split: option.splits if_splits)

function read_loop :: "(gostring \<Rightarrow> gostring) \<Rightarrow> nat \<Rightarrow> int \<Rightarrow> go_error option \<Rightarrow> gostring \<Rightarrow> gostring
    \<Rightarrow> (frame_error + gostring) \<times> gostring" where
  "read_loop sha bufsize maxBytes fin frame data = (case read_slice bufsize data of (fragment, status, rest) \<Rightarrow>
     let frame = frame @ fragment; consumed = length frame in
     if fragment \<noteq> [] \<and> int consumed > maxBytes then (Inl (FrameTooLarge consumed (sha frame)), rest)
     else case status of
        SliceLine \<Rightarrow> (Inr frame, rest)
      | SliceFull \<Rightarrow> read_loop sha bufsize maxBytes fin frame rest
      | SliceEnd \<Rightarrow> (case fin of
          None \<Rightarrow> if consumed = 0 then (Inl FrameEOF, rest) else (Inl (FrameUnterminated consumed (sha frame)), rest)
        | Some e \<Rightarrow> (Inl (FrameRead consumed (sha frame) e), rest)))"
  by pat_completeness auto
termination
  by (relation "measure (\<lambda>(_, _, _, _, _, data). length data)") (auto dest: read_slice_shrinks)

declare read_loop.simps [simp del]

definition readFrame :: "(gostring \<Rightarrow> gostring) \<Rightarrow> nat \<Rightarrow> int \<Rightarrow> go_error option \<Rightarrow> gostring \<Rightarrow> (frame_error + gostring) \<times> gostring" where
  "readFrame sha bufsize maxBytes fin data =
     (if maxBytes \<le> 0 then (Inl FrameLimit, data) else read_loop sha bufsize maxBytes fin [] data)"

section \<open>What a frame is\<close>

lemma index_byte_Some:
  "index_byte b s = Some i \<longleftrightarrow> i < length s \<and> s ! i = b \<and> b \<notin> set (take i s)"
proof (induction s arbitrary: i)
  case (Cons c s)
  show ?case by (cases i) (auto simp: Cons.IH)
qed simp

lemma index_byte_None: "index_byte b s = None \<longleftrightarrow> b \<notin> set s"
  by (induction s) auto

lemma index_byte_line: "b \<notin> set s \<Longrightarrow> index_byte b (s @ b # t) = Some (length s)"
  by (induction s) auto

lemma read_slice_line:
  assumes "newline \<notin> set line" "length line < buffer_size bufsize"
  shows "read_slice bufsize (line @ newline # rest) = (line @ [newline], SliceLine, rest)"
proof -
  obtain n where "buffer_size bufsize = Suc (length line + n)" using assms(2) less_iff_Suc_add by auto
  then have "take (buffer_size bufsize) (line @ newline # rest) = line @ newline # take n rest" by simp
  then show ?thesis using assms(1) by (simp add: read_slice_def index_byte_line)
qed

lemma read_slice_full:
  assumes "newline \<notin> set frag" "length frag = buffer_size bufsize"
  shows "read_slice bufsize (frag @ rest) = (frag, SliceFull, rest)"
  using assms by (simp add: read_slice_def index_byte_None[THEN iffD2])

lemma read_slice_end:
  assumes "newline \<notin> set data" "length data < buffer_size bufsize"
  shows "read_slice bufsize data = (data, SliceEnd, [])"
  using assms by (simp add: read_slice_def index_byte_None[THEN iffD2])

lemma buffer_pos: "0 < buffer_size bufsize"
  by (simp add: buffer_size_def)

lemma split_buffer:
  assumes "buffer_size bufsize \<le> length xs"
  obtains frag ys where "xs = frag @ ys" "length frag = buffer_size bufsize"
  using assms by (metis append_take_drop_id length_take min.absorb2)

text \<open>A complete line within the limit is the frame, whatever the buffer size.\<close>

lemma read_loop_line:
  assumes "newline \<notin> set line" "int (length frame + length line) < maxBytes"
  shows "read_loop sha bufsize maxBytes fin frame (line @ newline # rest) = (Inr (frame @ line @ [newline]), rest)"
  using assms
proof (induction "length line" arbitrary: line frame rule: less_induct)
  case less
  show ?case
  proof (cases "length line < buffer_size bufsize")
    case True
    then show ?thesis using less.prems by (subst read_loop.simps) (simp add: read_slice_line)
  next
    case False
    then obtain frag ys where ys: "line = frag @ ys" "length frag = buffer_size bufsize" using split_buffer[of bufsize line] by auto
    have "read_loop sha bufsize maxBytes fin (frame @ frag) (ys @ newline # rest) = (Inr ((frame @ frag) @ ys @ [newline]), rest)"
      using less.hyps[of ys "frame @ frag"] less.prems ys buffer_pos[of bufsize] by auto
    then show ?thesis using less.prems ys
      by (subst read_loop.simps) (simp add: read_slice_full)
  qed
qed

text \<open>Data without a newline that fits the limit ends with the reader.\<close>

definition end_error :: "(gostring \<Rightarrow> gostring) \<Rightarrow> go_error option \<Rightarrow> gostring \<Rightarrow> frame_error" where
  "end_error sha fin data = (case fin of
      None \<Rightarrow> if data = [] then FrameEOF else FrameUnterminated (length data) (sha data)
    | Some e \<Rightarrow> FrameRead (length data) (sha data) e)"

lemma read_loop_unterminated:
  assumes "newline \<notin> set data" "int (length frame + length data) \<le> maxBytes"
  shows "read_loop sha bufsize maxBytes fin frame data = (Inl (end_error sha fin (frame @ data)), [])"
  using assms
proof (induction "length data" arbitrary: data frame rule: less_induct)
  case less
  show ?case
  proof (cases "length data < buffer_size bufsize")
    case True
    then show ?thesis using less.prems by (subst read_loop.simps) (auto simp: read_slice_end end_error_def Let_def split: option.split)
  next
    case False
    then obtain frag ys where ys: "data = frag @ ys" "length frag = buffer_size bufsize" using split_buffer[of bufsize data] by auto
    then show ?thesis
      using less.hyps[of ys "frame @ frag"] less.prems buffer_pos[of bufsize]
      by (subst read_loop.simps) (simp add: read_slice_full)
  qed
qed

text \<open>
  A line or unterminated data over the limit is refused, after at most a buffer's worth of bytes more
  than the limit has been consumed.
\<close>

lemma read_loop_too_large:
  assumes "newline \<notin> set line" "int (length frame + length line) \<ge> maxBytes"
    "tail = [] \<and> int (length frame + length line) > maxBytes \<or> hd tail = newline \<and> tail \<noteq> []" "int (length frame) \<le> maxBytes"
  shows "\<exists>p. fst (read_loop sha bufsize maxBytes fin frame (line @ tail)) = Inl (FrameTooLarge (length p) (sha p)) \<and>
    prefix p (frame @ line @ tail) \<and> maxBytes < int (length p) \<and>
    int (length p) \<le> maxBytes + int (buffer_size bufsize)"
  using assms
proof (induction "length line" arbitrary: line frame rule: less_induct)
  case less
  show ?case
  proof (cases "length line < buffer_size bufsize")
    case True
    show ?thesis
    proof (cases tail)
      case Nil
      with True less.prems show ?thesis
        by (subst read_loop.simps) (auto simp: read_slice_end Let_def intro!: exI[of _ "frame @ line"])
    next
      case (Cons c rest)
      with True less.prems show ?thesis
        by (subst read_loop.simps) (auto simp: read_slice_line intro!: exI[of _ "frame @ line @ [newline]"])
    qed
  next
    case False
    then obtain frag ys where ys: "line = frag @ ys" "length frag = buffer_size bufsize" using split_buffer[of bufsize line] by auto
    then have ne: "frag \<noteq> []" "newline \<notin> set frag" "newline \<notin> set ys" using buffer_pos[of bufsize] less.prems(1) by auto
    show ?thesis
    proof (cases "int (length frame + length frag) > maxBytes")
      case True
      then show ?thesis using ys ne less.prems(4)
        by (subst read_loop.simps) (auto simp: read_slice_full intro!: exI[of _ "frame @ frag"])
    next
      case False
      have "length ys < length line" using ys ne buffer_pos by simp
      from less.hyps[OF this, of "frame @ frag"] less.prems ys ne False
      have "\<exists>p. fst (read_loop sha bufsize maxBytes fin (frame @ frag) (ys @ tail)) = Inl (FrameTooLarge (length p) (sha p)) \<and>
        prefix p (frame @ frag @ ys @ tail) \<and> maxBytes < int (length p) \<and>
        int (length p) \<le> maxBytes + int (buffer_size bufsize)" by (simp add: add.assoc)
      moreover have "read_loop sha bufsize maxBytes fin frame (line @ tail) = read_loop sha bufsize maxBytes fin (frame @ frag) (ys @ tail)"
        using False ys ne by (subst read_loop.simps) (simp add: read_slice_full)
      ultimately show ?thesis using ys by simp
    qed
  qed
qed



section \<open>The reader goroutine\<close>

text \<open>
  \<open>readLoopWithLimit\<close> over everything the app-server will write. \<open>dec\<close> and \<open>outcome\<close> are the decoder and
  the application's answer for each line. A reader that finds the client closed only waits for the
  publication of the cause.
\<close>

definition frame_failure :: "frame_error \<Rightarrow> go_error" where
  "frame_failure e = (case e of
      FrameLimit \<Rightarrow> ErrNew ''codexsdk: invalid inbound JSON-RPC frame limit''
    | FrameEOF \<Rightarrow> ErrNew ''EOF''
    | FrameTooLarge n d \<Rightarrow> ErrWrap (''prefix_bytes prefix_sha256='' @ d) [ErrNew ''codexsdk: app-server JSON-RPC frame too large'']
    | FrameUnterminated n d \<Rightarrow> ErrWrap (''bytes sha256='' @ d) [ErrNew ''codexsdk: app-server JSON-RPC frame missing newline'']
    | FrameRead n d e \<Rightarrow> ErrWrap (''codexsdk: read app-server JSON-RPC frame bytes sha256='' @ d) [e])"

definition line_failure :: "(gostring \<Rightarrow> gostring) \<Rightarrow> gostring \<Rightarrow> go_error" where
  "line_failure sha line = ErrWrap (''codexsdk: invalid app-server JSON-RPC line bytes sha256='' @ sha line) []"

definition fail_open :: "client_env \<Rightarrow> go_error \<Rightarrow> Client \<Rightarrow> Client" where
  "fail_open E e c = (if cl_closed c then c else failClient E e c)"

text \<open>A frame consumes at least one byte.\<close>

lemma read_slice_rest: "read_slice bufsize data = (frag, status, rest) \<Longrightarrow> data = frag @ rest"
  by (auto simp: read_slice_def split: option.splits if_splits)

lemma read_slice_nonempty: "read_slice bufsize data = (frag, SliceLine, rest) \<Longrightarrow> length rest < length data"
  by (auto simp: read_slice_def index_byte_Some split: option.splits if_splits)

lemma read_loop_shrinks: "read_loop sha bufsize maxBytes fin frame data = (Inr f, rest) \<Longrightarrow> length rest < length data"
proof (induction sha bufsize maxBytes fin frame data rule: read_loop.induct)
  case (1 sha bufsize maxBytes fin frame data)
  obtain frag status rest' where r: "read_slice bufsize data = (frag, status, rest')" by (metis prod_cases3)
  show ?case
  proof (cases status)
    case SliceLine
    with 1(2) r read_slice_nonempty[of bufsize data frag rest'] show ?thesis
      by (subst (asm) read_loop.simps) (auto simp: Let_def split: if_splits)
  next
    case SliceFull
    have "read_loop sha bufsize maxBytes fin (frame @ frag) rest' = (Inr f, rest) \<and>
      \<not> (frag \<noteq> [] \<and> int (length (frame @ frag)) > maxBytes)"
      using 1(2) r SliceFull by (subst (asm) read_loop.simps) (auto simp: Let_def split: if_splits)
    with 1(1)[OF r[symmetric] refl refl refl] SliceFull have "length rest < length rest'" by simp
    with read_slice_shrinks[of frag rest' bufsize data] r SliceFull show ?thesis by simp
  next
    case SliceEnd
    with 1(2) r show ?thesis by (subst (asm) read_loop.simps) (auto simp: Let_def split: if_splits option.splits)
  qed
qed

lemma readFrame_shrinks: "readFrame sha bufsize maxBytes fin data = (Inr f, rest) \<Longrightarrow> length rest < length data"
  by (auto simp: readFrame_def split: if_splits dest: read_loop_shrinks)

function readLoopWithLimit ::
  "client_env \<Rightarrow> (string \<Rightarrow> bool) \<Rightarrow> nat \<Rightarrow> int \<Rightarrow> ((string \<times> JSONValue) list \<Rightarrow> go_error + ServerRequest)
    \<Rightarrow> (gostring \<Rightarrow> (go_error + ServerRequestResponse) option) \<Rightarrow> go_error option \<Rightarrow> gostring \<Rightarrow> Client \<Rightarrow> Client" where
  "readLoopWithLimit E tr bufsize maxBytes dec outcome fin data c =
     (case readFrame (ce_sha256 E) bufsize maxBytes fin data of
        (Inl FrameEOF, rest) \<Rightarrow> fail_open E (ErrNew ''codexsdk: app-server closed stdout'') c
      | (Inl e, rest) \<Rightarrow> fail_open E (frame_failure e) c
      | (Inr line, rest) \<Rightarrow> (case ingestJSONRPCLine E tr dec (outcome line) line c of
          (Some e, c) \<Rightarrow> failClient E (line_failure (ce_sha256 E) line) c
        | (None, c) \<Rightarrow> readLoopWithLimit E tr bufsize maxBytes dec outcome fin rest c))"
  by pat_completeness auto
termination
  by (relation "measure (\<lambda>(_, _, _, _, _, _, _, data, _). length data)") (auto dest!: readFrame_shrinks[OF sym])

declare readLoopWithLimit.simps [simp del]

lemma fail_open_steps: "(client_step E)\<^sup>*\<^sup>* c (fail_open E e c)"
  by (auto simp: fail_open_def intro: client_step.fail)

lemma fail_open_closed: "client_reachable E c \<Longrightarrow> cl_closed (fail_open E e c)" "client_reachable E c \<Longrightarrow> cl_closed (failClient E e c)"
  using failClient_closed reachable_ok by (auto simp: fail_open_def)

lemma readLoop_steps:
  "client_reachable E c \<Longrightarrow> (client_step E)\<^sup>*\<^sup>* c (readLoopWithLimit E tr bufsize maxBytes dec outcome fin data c) \<and>
    cl_closed (readLoopWithLimit E tr bufsize maxBytes dec outcome fin data c)"
proof (induction E tr bufsize maxBytes dec outcome fin data c rule: readLoopWithLimit.induct)
  case (1 E tr bufsize maxBytes dec outcome fin data c)
  obtain r rest where r: "readFrame (ce_sha256 E) bufsize maxBytes fin data = (r, rest)" by fastforce
  show ?case
  proof (cases r)
    case (Inl e)
    then show ?thesis
      using r fail_open_steps fail_open_closed(1)[OF 1(2)] by (subst (1 2) readLoopWithLimit.simps) (auto split: frame_error.splits)
  next
    case (Inr line)
    obtain x d where d: "ingestJSONRPCLine E tr dec (outcome line) line c = (x, d)" by fastforce
    have step: "client_step E c d" by (rule client_step.line[OF d])
    then have reach: "client_reachable E d" by (rule client_reachable.step[OF 1(2)])
    show ?thesis
    proof (cases x)
      case (Some e)
      with r Inr d show ?thesis
        using step fail_open_closed(2)[OF reach] client_step.fail[of E d]
        by (subst (1 2) readLoopWithLimit.simps) (auto intro: rtranclp.rtrancl_into_rtrancl)
    next
      case None
      have "readLoopWithLimit E tr bufsize maxBytes dec outcome fin data c = readLoopWithLimit E tr bufsize maxBytes dec outcome fin rest d"
        using r Inr d None by (subst readLoopWithLimit.simps) simp
      moreover have "(client_step E)\<^sup>*\<^sup>* d (readLoopWithLimit E tr bufsize maxBytes dec outcome fin rest d) \<and>
          cl_closed (readLoopWithLimit E tr bufsize maxBytes dec outcome fin rest d)"
        using 1(1)[OF r[symmetric] Inr d[symmetric] None reach] .
      ultimately show ?thesis using step by (auto intro: converse_rtranclp_into_rtranclp)
    qed
  qed
qed

text \<open>C32: the reader goroutine refines the state machine of the client: whatever bytes the app-server writes, what
  the reader does to the client is a sequence of steps, so every invariant of the machine holds after it;
  and when the reader returns the client is closed.\<close>

theorem readLoop_refines_steps:
  assumes "client_reachable E c"
  shows "(client_step E)\<^sup>*\<^sup>* c (readLoopWithLimit E tr bufsize maxBytes dec outcome fin data c) \<and>
    client_reachable E (readLoopWithLimit E tr bufsize maxBytes dec outcome fin data c) \<and>
    cl_closed (readLoopWithLimit E tr bufsize maxBytes dec outcome fin data c)"
  using readLoop_steps[OF assms] reachable_steps[OF _ assms] by blast

theorem readLoop_refines_steps_witness:
  "cl_closed (readLoopWithLimit example_env (\<lambda>_. True) 16 100 (\<lambda>_. Inr zero_request) (\<lambda>_. None) None [] example_client)"
  using readLoop_refines_steps[OF example_client_reachable] by blast

end
