(* ===== verification/Lifecycle.thy ===== *)
theory Lifecycle
  imports Client_Requests
begin

text \<open>
  Closing a client, \<open>codexsdk/lifecycle.go\<close>: what \<open>CloseContext\<close> reports. Waiting lets other goroutines
  act on the client; \<open>later\<close> is what they did, and the way the wait ended is an argument.
\<close>

record ShutdownResult =
  sr_ProcessReaped :: bool
  sr_CallbackWorkPending :: int
  sr_Cause :: "go_error option"

definition ErrCallbackWorkPending :: go_error where
  "ErrCallbackWorkPending = ErrNew ''codexsdk: callback work remains unresolved''"

text \<open>A \<open>ShutdownError\<close> as its \<open>Unwrap\<close> shows it: the error, the cause, and pending callback work.\<close>

definition ShutdownError :: "ShutdownResult \<Rightarrow> go_error option \<Rightarrow> go_error" where
  "ShutdownError result err = ErrTyped ''codexsdk.ShutdownError'' []
     ((case err of None \<Rightarrow> [] | Some e \<Rightarrow> [e]) @ (case sr_Cause result of None \<Rightarrow> [] | Some e \<Rightarrow> [e]) @
      (if 0 < sr_CallbackWorkPending result then [ErrCallbackWorkPending] else []))"

text \<open>\<open>reaped\<close> is whether the process was reaped, once \<open>processDone\<close> is closed.\<close>

definition shutdownSnapshot :: "bool option \<Rightarrow> Client \<Rightarrow> ShutdownResult" where
  "shutdownSnapshot reaped c = \<lparr>sr_ProcessReaped = (case reaped of None \<Rightarrow> False | Some b \<Rightarrow> b),
     sr_CallbackWorkPending = cl_callbackWork c, sr_Cause = Some (firstCloseReason ErrClientClosed c)\<rparr>"

datatype close_wait = ShutdownDone bool "go_error option" | CloseContextDone "bool option" go_error

definition CloseContext :: "bool \<Rightarrow> bool \<Rightarrow> close_wait \<Rightarrow> (Client \<Rightarrow> Client) \<Rightarrow> (Client \<Rightarrow> Client) \<Rightarrow> Client \<Rightarrow>
    (ShutdownResult \<times> go_error option) \<times> Client" where
  "CloseContext ctx_nil inert wait later later' c =
     (if ctx_nil then ((\<lparr>sr_ProcessReaped = False, sr_CallbackWorkPending = 0, sr_Cause = None\<rparr>,
        Some (ErrNew ''codexsdk: shutdown context is required'')), c)
      else if inert then ((\<lparr>sr_ProcessReaped = True, sr_CallbackWorkPending = 0, sr_Cause = None\<rparr>, None), c)
      else let c = later (beginShutdown c) in
        (case wait of
           ShutdownDone reaped cleanupErr \<Rightarrow>
             let result = shutdownSnapshot (Some reaped) c; c = later' c
             in ((result,
               if cleanupErr \<noteq> None then Some (ShutdownError result cleanupErr)
               else if 0 < sr_CallbackWorkPending result then Some (ShutdownError result (Some ErrCallbackWorkPending))
               else if cl_failure c \<noteq> None then cl_failure c
               else if cl_callbackFailure c \<noteq> None then Some (ShutdownError result (cl_callbackFailure c))
               else None), c)
         | CloseContextDone reaped err \<Rightarrow>
             let result = shutdownSnapshot reaped c in ((result, Some (ShutdownError result (Some err))), c)))"

section \<open>What closing reports\<close>

lemma beginShutdown_closed: "client_reachable E c \<Longrightarrow> cl_closed (beginShutdown c)"
  using reachable_closing[of E c] by (simp add: beginShutdown_def closing_ok_def)

lemma firstCloseReason_closed: "client_ok c \<Longrightarrow> cl_closed c \<Longrightarrow> Some (firstCloseReason e c) = cl_closeReason c"
  by (auto simp: client_ok_def firstCloseReason_def)

lemma ShutdownError_is: "sr_Cause result = Some e \<Longrightarrow> errors_is (ShutdownError result err) e"
  by (simp add: ShutdownError_def)

text \<open>C38: closing a client closes it for good whatever the other goroutines do meanwhile. The cause that is
  reported is the first one the client ever had; every error that is returned is found to be that cause; and
  when no error is returned the shutdown has finished cleanly: no callback work is left, the process was cleaned
  up without error, and neither the client nor a callback failed.\<close>

theorem CloseContext_reports_cause:
  assumes "client_reachable E c" "(client_step E)\<^sup>*\<^sup>* (beginShutdown c) (later (beginShutdown c))"
    "(client_step E)\<^sup>*\<^sup>* (later (beginShutdown c)) (later' (later (beginShutdown c)))"
    "CloseContext False False wait later later' c = ((result, err), c')"
  shows "cl_closed c' \<and> sr_Cause result = cl_closeReason c' \<and> cl_closeReason c' \<noteq> None \<and>
    (cl_closeReason c \<noteq> None \<longrightarrow> cl_closeReason c' = cl_closeReason c) \<and>
    (case err of Some e \<Rightarrow> errors_is e (the (cl_closeReason c'))
     | None \<Rightarrow> cl_failure c' = None \<and> cl_callbackFailure c' = None \<and> sr_CallbackWorkPending result \<le> 0 \<and>
         (\<exists>reaped. wait = ShutdownDone reaped None))"
proof -
  let ?b = "beginShutdown c" and ?d = "later (beginShutdown c)"
  have b: "client_step E c ?b" "client_reachable E ?b"
    using client_step.begin_shutdown client_reachable.step[OF assms(1)] by blast+
  have d: "client_reachable E ?d" "client_reachable E (later' ?d)"
    using reachable_steps[OF assms(2) b(2)] reachable_steps[OF assms(3)] by blast+
  note ok = reachable_ok[OF assms(1)] reachable_ok[OF b(2)] reachable_ok[OF d(1)] reachable_ok[OF d(2)]
  have le: "client_le c ?b" "client_le ?b ?d" "client_le ?d (later' ?d)"
    using advance.stepped[OF b(1)] steps_adv[OF assms(2)] steps_adv[OF assms(3)] ok by (auto simp: adv_def)
  have closed: "cl_closed ?b" "cl_closed ?d" "cl_closed (later' ?d)"
    using beginShutdown_closed[OF assms(1)] le by (auto simp: client_le_def)
  have cause: "Some (firstCloseReason ErrClientClosed ?d) = cl_closeReason ?d"
    using firstCloseReason_closed ok closed by blast
  have reason: "cl_closeReason ?d \<noteq> None" "cl_closeReason (later' ?d) = cl_closeReason ?d"
    "cl_closeReason c \<noteq> None \<Longrightarrow> cl_closeReason ?d = cl_closeReason c"
    using ok closed le by (auto simp: client_ok_def client_le_def)
  have failure: "cl_failure (later' ?d) \<noteq> None \<Longrightarrow> cl_failure (later' ?d) = cl_closeReason ?d"
    using ok(4) reason(2) by (auto simp: client_ok_def)
  show ?thesis
  proof (cases wait)
    case (ShutdownDone reaped cleanupErr)
    with assms(4) closed cause reason failure show ?thesis
      by (auto simp: CloseContext_def Let_def shutdownSnapshot_def intro!: ShutdownError_is split: if_splits)
  next
    case (CloseContextDone reaped e)
    with assms(4) closed cause reason show ?thesis
      by (auto simp: CloseContext_def Let_def shutdownSnapshot_def intro!: ShutdownError_is)
  qed
qed

theorem CloseContext_reports_cause_witness:
  "\<exists>result c'. CloseContext False False (ShutdownDone True None) (\<lambda>c. c) (\<lambda>c. c) (new_client 1 1 1) = ((result, None), c') \<and>
     sr_Cause result = cl_closeReason c' \<and> cl_closed c'"
  using CloseContext_reports_cause[OF client_reachable.new[of 1 example_env 1 1], of "\<lambda>c. c" "\<lambda>c. c" "ShutdownDone True None"]
  by (simp add: CloseContext_def Let_def shutdownSnapshot_def beginShutdown_def new_client_def)

end
