(* ===== verification/Runner.thy ===== *)
theory Runner
  imports Client_Requests
begin

text \<open>
  Starting and resuming a run: \<open>StartStream\<close>, \<open>ResumeStream\<close> and \<open>admitContinuation\<close> of
  \<open>codexsdk/exact_runner.go\<close>. A protocol call waits for the app-server while other goroutines act on the
  client, so a call is a function of the client to its outcome and the client it returns to. The JSON
  clones of generated values and the hash of the input are parameters too.
\<close>

section \<open>Requests\<close>

record 'u TurnStartParams =
  tp_ThreadID :: gostring
  tp_Input :: "UserInput slice"
  tp_rest :: 'u

record ('t, 'u) ThreadRunRequest =
  rq_Thread :: 't
  rq_Turn :: "'u TurnStartParams"
  rq_AdmitTurn :: "(ThreadResponse \<Rightarrow> 'u TurnStartParams \<Rightarrow> go_error option) option"

record ('t, 'u) runner_lib =
  ru_clone_thread :: "'t \<Rightarrow> go_error + 't"
  ru_clone_turn :: "'u TurnStartParams \<Rightarrow> go_error + 'u TurnStartParams"
  ru_clone_response :: "ThreadResponse \<Rightarrow> go_error + ThreadResponse"
  ru_input_hash :: "UserInput slice \<Rightarrow> gostring"
  ru_call_thread :: "'t \<Rightarrow> Client \<Rightarrow> (go_error + ThreadResponse) \<times> Client"
  ru_call_turn :: "nat \<Rightarrow> 'u TurnStartParams \<Rightarrow> Client \<Rightarrow> (go_error + Turn) \<times> Client"

definition ErrMissingThreadID :: go_error where "ErrMissingThreadID = ErrNew ''codexsdk: thread response missing thread id''"
definition ErrMissingTurnID :: go_error where "ErrMissingTurnID = ErrNew ''codexsdk: turn response missing turn id''"
definition ErrTurnAdmissionRejected :: go_error where "ErrTurnAdmissionRejected = ErrNew ''codexsdk: turn admission rejected''"

text \<open>\<open>Unwrap\<close> of a \<open>TurnAdmissionError\<close> joins the sentinel with the caller's error.\<close>

definition TurnAdmissionError :: "go_error \<Rightarrow> go_error" where
  "TurnAdmissionError err = ErrTyped ''codexsdk.TurnAdmissionError'' [] [ErrJoin [ErrTurnAdmissionRejected, err]]"

definition admitContinuation :: "('t, 'u) runner_lib \<Rightarrow> (ThreadResponse \<Rightarrow> 'u TurnStartParams \<Rightarrow> go_error option) option
    \<Rightarrow> ThreadResponse \<Rightarrow> 'u TurnStartParams \<Rightarrow> go_error option" where
  "admitContinuation L admit observed pending = (case admit of None \<Rightarrow> None
     | Some f \<Rightarrow> (case ru_clone_response L observed of
         Inl e \<Rightarrow> Some (ErrWrap ''codexsdk: clone lifecycle observation'' [e])
       | Inr observedCopy \<Rightarrow> (case ru_clone_turn L pending of
           Inl e \<Rightarrow> Some (ErrWrap ''codexsdk: clone pending turn/start params'' [e])
         | Inr pendingCopy \<Rightarrow> (case f observedCopy pendingCopy of None \<Rightarrow> None | Some e \<Rightarrow> Some (TurnAdmissionError e)))))"

section \<open>Streams\<close>

definition initial_run :: "('t, 'u) runner_lib \<Rightarrow> UserInput slice \<Rightarrow> ThreadRunResult" where
  "initial_run L input = \<lparr>rr_Turn = empty_turn, rr_Usage = None, rr_Notifications = [], rr_FinalResponse = [],
     rr_FinalResponsePresent = False, rr_InputStats = exactInputStats (ru_input_hash L) input, rr_Diagnostics = []\<rparr>"

definition finishMissingTurnID :: "client_env \<Rightarrow> nat \<Rightarrow> Turn \<Rightarrow> Client \<Rightarrow> Client" where
  "finishMissingTurnID E i turn c = finishAttachingExactStream E i
     (ErrWrap ''codexsdk: turn/start response missing turn id'' [ErrMissingTurnID])
     (c\<lparr>cl_runs := (cl_runs c)[i := setTurn turn (cl_runs c ! i)]\<rparr>)"

text \<open>
  The part both functions share, from the response to thread/start or thread/resume on. The result is the
  run of the stream that is returned.
\<close>

definition continue_turn :: "client_env \<Rightarrow> ('t, 'u) runner_lib \<Rightarrow> nat \<Rightarrow> 'u TurnStartParams \<Rightarrow> Client \<Rightarrow> Client" where
  "continue_turn E L i turnParams c = (case ru_call_turn L i turnParams c of
      (Inl e, c) \<Rightarrow> finishAttachingExactStream E i e c
    | (Inr turn, c) \<Rightarrow>
        if tn_ID turn = [] then finishMissingTurnID E i turn c else attachExactStreamForTurn E i turn c)"

definition continue_run :: "client_env \<Rightarrow> ('t, 'u) runner_lib \<Rightarrow> (ThreadResponse \<Rightarrow> 'u TurnStartParams \<Rightarrow> go_error option) option
    \<Rightarrow> gostring \<Rightarrow> run_result \<Rightarrow> ThreadResponse \<Rightarrow> 'u TurnStartParams \<Rightarrow> Client \<Rightarrow> nat \<times> Client" where
  "continue_run E L admit missing initial observed turnParams c =
     (let i = length (cl_runs c); threadID = tr_ThreadID observed; c = add_run threadID initial c
      in (i, if threadID = [] then finish_run i (Some (ErrWrap missing [ErrMissingThreadID])) c
        else case registerAttachingExactStream E i c of
            (Some e, c) \<Rightarrow> finish_run i (Some e) c
          | (None, c) \<Rightarrow>
              let turnParams = turnParams\<lparr>tp_ThreadID := threadID\<rparr> in
              case admitContinuation L admit observed turnParams of
                Some e \<Rightarrow> finishAttachingExactStream E i e c
              | None \<Rightarrow> continue_turn E L i turnParams c))"

definition StartStream :: "client_env \<Rightarrow> ('t, 'u) runner_lib \<Rightarrow> ('t, 'u) ThreadRunRequest \<Rightarrow> Client \<Rightarrow> (go_error + nat) \<times> Client" where
  "StartStream E L request c = (case checkOpen c of Some e \<Rightarrow> (Inl e, c)
     | None \<Rightarrow>
         if tp_ThreadID (rq_Turn request) \<noteq> []
         then (Inl (ErrNew ''codexsdk: StartThreadRunRequest.Turn.ThreadID is composition-owned''), c)
         else (case ru_clone_thread L (rq_Thread request) of
             Inl e \<Rightarrow> (Inl (ErrWrap ''codexsdk: clone thread/start params'' [e]), c)
           | Inr threadParams \<Rightarrow> (case ru_clone_turn L (rq_Turn request) of
               Inl e \<Rightarrow> (Inl (ErrWrap ''codexsdk: clone turn/start params'' [e]), c)
             | Inr turnParams \<Rightarrow> (case ru_call_thread L threadParams c of
                 (Inl e, c) \<Rightarrow> (Inl e, c)
               | (Inr started, c) \<Rightarrow> map_prod Inr id (continue_run E L (rq_AdmitTurn request)
                   ''codexsdk: thread/start response missing thread id''
                   (StartedThreadRun started (initial_run L (tp_Input turnParams))) started turnParams c)))))"

definition ResumeStream :: "client_env \<Rightarrow> ('t, 'u) runner_lib \<Rightarrow> ('t, 'u) ThreadRunRequest \<Rightarrow> Client \<Rightarrow> (go_error + nat) \<times> Client" where
  "ResumeStream E L request c = (case checkOpen c of Some e \<Rightarrow> (Inl e, c)
     | None \<Rightarrow>
         if tp_ThreadID (rq_Turn request) \<noteq> []
         then (Inl (ErrNew ''codexsdk: ResumeThreadRunRequest.Turn.ThreadID is composition-owned''), c)
         else (case ru_clone_thread L (rq_Thread request) of
             Inl e \<Rightarrow> (Inl (ErrWrap ''codexsdk: clone thread/resume params'' [e]), c)
           | Inr threadParams \<Rightarrow> (case ru_clone_turn L (rq_Turn request) of
               Inl e \<Rightarrow> (Inl (ErrWrap ''codexsdk: clone turn/start params'' [e]), c)
             | Inr turnParams \<Rightarrow> (case ru_call_thread L threadParams c of
                 (Inl e, c) \<Rightarrow> (Inl e, c)
               | (Inr resumed, c) \<Rightarrow> map_prod Inr id (continue_run E L (rq_AdmitTurn request)
                   ''codexsdk: thread/resume response missing thread id''
                   (ResumedThreadRun resumed (initial_run L (tp_Input turnParams))) resumed turnParams c)))))"

definition Stream_Close :: "nat option \<Rightarrow> Client \<Rightarrow> Client" where
  "Stream_Close s c = (case s of None \<Rightarrow> c | Some i \<Rightarrow> cancel_run i ErrStreamClosed c)"

section \<open>Every path is steps of the client\<close>

text \<open>
  What the runner relies on: while a call waits, the client makes steps of its own, and nobody else
  attaches the run that is waiting for its turn.
\<close>

definition calls_are_steps :: "client_env \<Rightarrow> ('t, 'u) runner_lib \<Rightarrow> bool" where
  "calls_are_steps E L \<longleftrightarrow>
     (\<forall>p c r c'. ru_call_thread L p c = (r, c') \<longrightarrow> (client_step E)\<^sup>*\<^sup>* c c') \<and>
     (\<forall>i p c r c'. ru_call_turn L i p c = (r, c') \<longrightarrow> (client_step E)\<^sup>*\<^sup>* c c' \<and> (fresh_run c i \<longrightarrow> fresh_run c' i))"

lemma begin_run_eq:
  "registerAttachingExactStream E (length (cl_runs c)) (add_run th res c) = (None, c') \<Longrightarrow> begin_run E th res c = c'"
  "registerAttachingExactStream E (length (cl_runs c)) (add_run th res c) = (Some e, c') \<Longrightarrow>
     begin_run E th res c = finish_run (length (cl_runs c)) (Some e) c'"
  by (simp_all add: begin_run_def)

lemma length_adv: "adv c c' \<Longrightarrow> client_ok c \<Longrightarrow> length (cl_runs c) \<le> length (cl_runs c')"
  by (simp add: adv_def client_le_def)

text \<open>Registration adds no live stream.\<close>

definition fewer :: "Client \<Rightarrow> Client \<Rightarrow> bool" where
  "fewer c c' \<longleftrightarrow> set (cl_exactStreams c') \<subseteq> set (cl_exactStreams c)"

interpretation fewer: client_core fewer
proof unfold_locales
  show "fewer c (snd (accept_run E i n l c))" for c E i n l by (simp add: fewer_def accept_run_ids)
  show "fewer c (snd (diagnostic_run i ref l c))" for c i ref l by (simp add: fewer_def diagnostic_run_ids)
  show "fewer c (finish_run i err c)" for c i err using finish_run_streams(1)[of i err c] by (auto simp: fewer_def)
qed (auto simp: fewer_def)

lemma fewer_calls [simp]: "fewer c (c'\<lparr>cl_pending := p\<rparr>) = fewer c c'" "fewer c (c'\<lparr>cl_responses := r\<rparr>) = fewer c c'"
  "fewer c (c'\<lparr>cl_failure := f, cl_closeReason := f, cl_closed := b\<rparr>) = fewer c c'"
  by (simp_all add: fewer_def)

lemma fewer_failAll: "fewer c (failAll E e c)"
  by (auto simp: failAll_def Let_def fold_deliver simp del: fold_append intro!: fewer.failed_runs fewer.refl)

lemma fewer_failClient: "fewer c (failClient E e c)"
  using fewer_failAll[of "c\<lparr>cl_failure := Some e, cl_closeReason := Some e, cl_closed := True\<rparr>" E e]
  by (simp add: failClient_def claimFailureLocked_def beginShutdown_def publishCloseCause_def fewer_def)

lemma fewer_routeResponse: "fewer c (routeResponse E message c)"
proof -
  have "arm_response pc result (c\<lparr>cl_pending := p\<rparr>) = (r, d) \<Longrightarrow> fewer c d" for pc result p r d
    by (erule fewer.armed) (simp add: fewer.refl)
  then show ?thesis
    by (auto simp: routeResponse_def route_result_def takePending_def deliver_def Let_def fewer.refl
        split: option.splits prod.splits intro!: fewer.trans[OF _ fewer_failClient])
qed

interpretation fewer: client_register fewer
proof unfold_locales
  show "fewer c (failClient E e c)" for c E e by (rule fewer_failClient)
  show "fewer c (routeResponse E message c)" for c E message by (rule fewer_routeResponse)
qed (auto simp: fewer_def)

lemma registered_fresh:
  assumes "client_reachable E c" "registerAttachingExactStream E (length (cl_runs c)) (add_run th res c) = (r, c')"
  shows "fresh_run c' (length (cl_runs c))"
proof -
  have ok: "client_ok c" "reg_ok c" using reachable_ok[OF assms(1)] by blast+
  have "adv (add_run th res c) c'" using advance.registered[OF assms(2) adv_refl] .
  then have "length (cl_runs (add_run th res c)) \<le> length (cl_runs c')" using add_run_reg(1)[OF ok] by (rule length_adv)
  moreover have "set (cl_exactStreams c') \<subseteq> set (cl_exactStreams c)"
    using fewer.registered[OF assms(2) fewer.refl] by (simp add: fewer_def add_run_def)
  moreover have "x \<in> set (cl_exactStreams c) \<Longrightarrow> snd x < length (cl_runs c)" for x
    using ok(2) by (auto simp: reg_ok_def list_all_iff live_at_def)
  ultimately show ?thesis by (fastforce simp: fresh_run_def add_run_def)
qed

lemma continue_turn_steps:
  assumes "calls_are_steps E L" "fresh_run c i"
  shows "(client_step E)\<^sup>*\<^sup>* c (continue_turn E L i p c)"
proof -
  obtain r d where d: "ru_call_turn L i p c = (r, d)" by fastforce
  with assms have s: "(client_step E)\<^sup>*\<^sup>* c d" "fresh_run d i" unfolding calls_are_steps_def by blast+
  have "client_step E d (continue_turn E L i p c)"
    using d s(2) client_step.give_up client_step.missing_turn client_step.attach
    by (auto simp: continue_turn_def finishMissingTurnID_def split: sum.split)
  with s(1) show ?thesis by (rule rtranclp.rtrancl_into_rtrancl)
qed

lemma continue_run_steps:
  assumes "calls_are_steps E L" "client_reachable E c" "continue_run E L admit missing initial observed turnParams c = (i, c')"
  shows "(client_step E)\<^sup>*\<^sup>* c c' \<and> i < length (cl_runs c')"
proof -
  let ?i = "length (cl_runs c)" and ?c = "add_run (tr_ThreadID observed) initial c"
  have ok: "client_ok c" "reg_ok c" using reachable_ok[OF assms(2)] by blast+
  have c: "client_ok ?c" "?i < length (cl_runs ?c)" using add_run_reg(1)[OF ok] by (simp_all add: add_run_def)
  obtain r d where d: "registerAttachingExactStream E ?i ?c = (r, d)" by fastforce
  have cd: "adv ?c d" by (rule advance.registered[OF d adv_refl])
  then have dok: "client_ok d" "?i < length (cl_runs d)" using c length_adv[OF cd] by (auto simp: adv_def)
  have start: "client_step E c (begin_run E (tr_ThreadID observed) initial c)" by (rule client_step.begin_run)
  show ?thesis
  proof (cases "tr_ThreadID observed = []")
    case True
    with assms(3) c(2) show ?thesis by (auto simp: continue_run_def Let_def finish_run_ids intro!: client_step.orphan_run)
  next
    case False
    show ?thesis
    proof (cases r)
      case (Some e)
      with assms(3) False d start begin_run_eq(2)[of E c] dok(2) show ?thesis
        by (auto simp: continue_run_def Let_def finish_run_ids)
    next
      case None
      have s: "client_step E c d" using start begin_run_eq(1)[OF d[unfolded None]] by simp
      have t: "(client_step E)\<^sup>*\<^sup>* d c'" "i = ?i"
        using assms(3) False d None continue_turn_steps[OF assms(1) registered_fresh[OF assms(2) d]]
        by (auto simp: continue_run_def Let_def split: option.splits intro: client_step.give_up)
      with s length_adv[OF steps_adv[OF t(1)] dok(1)] dok(2) show ?thesis by (auto intro: converse_rtranclp_into_rtranclp)
    qed
  qed
qed

section \<open>A run that is given up has ended\<close>

lemma adv_terminal: "adv c c' \<Longrightarrow> client_ok c \<Longrightarrow> i < length (cl_runs c) \<Longrightarrow> rn_terminal (cl_runs c ! i) \<Longrightarrow>
    i < length (cl_runs c') \<and> rn_terminal (cl_runs c' ! i)"
  by (auto simp: adv_def client_le_def run_le_def)

lemma finished_terminal:
  assumes "adv c d" "client_ok c" "i < length (cl_runs c)" "adv (finish_run i e d) c'"
  shows "i < length (cl_runs c') \<and> rn_terminal (cl_runs c' ! i)"
proof -
  have d: "client_ok d" "i < length (cl_runs d)" using assms(1-3) length_adv[of c d] by (auto simp: adv_def)
  have "adv d (finish_run i e d)" by (intro adv_finish adv_refl)
  then have "client_ok (finish_run i e d)" using d(1) by (simp add: adv_def)
  with adv_terminal[OF assms(4)] d(2) show ?thesis by (simp add: finish_run_terminal finish_run_ids)
qed

lemma given_up_terminal:
  assumes "client_ok c" "i < length (cl_runs c)"
  shows "i < length (cl_runs (finishAttachingExactStream E i e c)) \<and> rn_terminal (cl_runs (finishAttachingExactStream E i e c) ! i)"
proof -
  obtain ns d where d: "abandon_section i c = (ns, d)" by fastforce
  obtain x d' where d': "fold (resolve_first E i) ns (None, d) = (x, d')" by fastforce
  have cd': "adv c d'" using advance.resolved_first[of c "(None, d)" E i ns] advance.abandoned[OF d adv_refl] d' by simp
  show ?thesis
  proof (cases x)
    case (Some err)
    have "adv (finish_run i (Some err) d') (release_all (map rpc_retained ns) (failExactNotificationDelivery E i err (finish_run i (Some err) d')))"
      by (intro advance.released advance.delivery_failed adv_refl)
    from finished_terminal[OF cd' assms this] d d' Some show ?thesis by (simp add: finishAttachingExactStream_def)
  next
    case None
    let ?f = "fold (completeEvidenceTerminal i) ns d'"
    have "adv c ?f" by (rule advance.folds[OF _ cd']) (intro advance.completed adv_refl)
    moreover have "adv (finish_run i (Some e) ?f) (release_all (map rpc_retained ns) (finish_run i (Some e) ?f))"
      by (intro advance.released adv_refl)
    ultimately show ?thesis using finished_terminal[OF _ assms] d d' None by (simp add: finishAttachingExactStream_def)
  qed
qed

lemma turn_call_frame:
  "ru_clone_response (L\<lparr>ru_call_turn := g\<rparr>) = ru_clone_response L" "ru_clone_turn (L\<lparr>ru_call_turn := g\<rparr>) = ru_clone_turn L"
  "ru_clone_thread (L\<lparr>ru_call_turn := g\<rparr>) = ru_clone_thread L" "ru_call_thread (L\<lparr>ru_call_turn := g\<rparr>) = ru_call_thread L"
  "ru_input_hash (L\<lparr>ru_call_turn := g\<rparr>) = ru_input_hash L"
  by simp_all

lemma continue_run_rejected:
  assumes "client_reachable E c" "\<And>obs p. admitContinuation L admit obs p \<noteq> None"
    "continue_run E L admit missing initial observed turnParams c = (i, c')"
  shows "i < length (cl_runs c') \<and> rn_terminal (cl_runs c' ! i) \<and>
    continue_run E (L\<lparr>ru_call_turn := g\<rparr>) admit missing initial observed turnParams c = (i, c')"
proof -
  let ?i = "length (cl_runs c)" and ?c = "add_run (tr_ThreadID observed) initial c"
  have ok: "client_ok c" "reg_ok c" using reachable_ok[OF assms(1)] by blast+
  have c: "client_ok ?c" "?i < length (cl_runs ?c)" using add_run_reg(1)[OF ok] by (simp_all add: add_run_def)
  obtain r d where d: "registerAttachingExactStream E ?i ?c = (r, d)" by fastforce
  have cd: "adv ?c d" by (rule advance.registered[OF d adv_refl])
  then have dok: "client_ok d" "?i < length (cl_runs d)" using c length_adv[OF cd] by (auto simp: adv_def)
  have "admitContinuation (L\<lparr>ru_call_turn := g\<rparr>) admit obs p = admitContinuation L admit obs p" for obs p
    by (simp add: admitContinuation_def split: option.split sum.split)
  moreover obtain err where err: "admitContinuation L admit observed (turnParams\<lparr>tp_ThreadID := tr_ThreadID observed\<rparr>) = Some err"
    using assms(2) by blast
  moreover have "i < length (cl_runs c') \<and> rn_terminal (cl_runs c' ! i)"
  proof (cases "tr_ThreadID observed = []")
    case True
    then show ?thesis
      using assms(3) finish_run_terminal[OF c(2)] c(2) by (auto simp: continue_run_def Let_def finish_run_ids)
  next
    case False
    then show ?thesis
      using assms(3) d err finish_run_terminal[OF dok(2)] given_up_terminal[OF dok] dok(2)
      by (cases r) (auto simp: continue_run_def Let_def finish_run_ids)
  qed
  ultimately show ?thesis
    using assms(3) d by (cases r) (auto simp: continue_run_def Let_def split: if_splits)
qed

section \<open>Properties\<close>



section \<open>An example run\<close>

definition example_runner :: "(unit, unit) runner_lib" where
  "example_runner = \<lparr>ru_clone_thread = Inr, ru_clone_turn = Inr, ru_clone_response = Inr, ru_input_hash = (\<lambda>_. []),
     ru_call_thread = (\<lambda>_ c. (Inr \<lparr>tr_ThreadID = ''t'', tr_payload = []\<rparr>, c)),
     ru_call_turn = (\<lambda>_ _ c. (Inr (empty_turn\<lparr>tn_ID := ''u'', tn_Status := ''inProgress''\<rparr>), c))\<rparr>"

definition example_run_request :: "(unit, unit) ThreadRunRequest" where
  "example_run_request = \<lparr>rq_Thread = (), rq_Turn = \<lparr>tp_ThreadID = [], tp_Input = Some [UserInputText ''hi''], tp_rest = ()\<rparr>,
     rq_AdmitTurn = Some (\<lambda>_ _. Some ErrHandlerFailed)\<rparr>"

definition example_new :: Client where
  "example_new = new_client 100 100000 4"

lemma example_calls: "calls_are_steps example_env example_runner"
  by (auto simp: calls_are_steps_def example_runner_def)

lemma example_new_reachable: "client_reachable example_env example_new"
  unfolding example_new_def by (rule client_reachable.new) simp


lemma example_started: "fst (StartStream example_env example_runner example_run_request example_new) = Inr 0"
  by code_simp

lemma example_rejects: "admitContinuation example_runner (rq_AdmitTurn example_run_request) obs p \<noteq> None"
  by (simp add: admitContinuation_def example_runner_def example_run_request_def)


end
