(* ===== verification/JSON_Rescan.thy ===== *)
theory JSON_Rescan
  imports JSON_Roundtrip JSON_Scan
begin

text \<open>
  \<open>Decoder.Decode\<close> on the canonical text of a dynamic value: when the value is not nested too deeply for the
  scanner, what it decodes is the value itself.
\<close>

definition scans :: "JSONValue \<Rightarrow> string \<Rightarrow> bool" where
  "scans v s \<longleftrightarrow> value_start s \<and>
     (\<forall>n depth r w t. num_stop r \<longrightarrow> scan_value n depth (s @ r) = Inr (w, t) \<longrightarrow> w = v \<and> t = r)"

lemma scans_start: "scans v s \<Longrightarrow> value_start s"
  by (simp add: scans_def)

lemma scansD: "scans v s \<Longrightarrow> num_stop r \<Longrightarrow> scan_value n depth (s @ r) = Inr (w, t) \<Longrightarrow> w = v \<and> t = r"
  unfolding scans_def by blast

lemma scans_scalar:
  assumes s: "s = c # u" and c: "\<not> json_space c" "c \<notin> set ''[]{}:,''"
    and lex: "\<And>r. num_stop r \<Longrightarrow> lex_scalar (s @ r) = Some (x, r)"
    and v: "case x of TNull \<Rightarrow> v = JNull | TBool b \<Rightarrow> v = JBool b | TString y \<Rightarrow> v = JString y | TNumber y \<Rightarrow> v = JNumber y | TDelim _ \<Rightarrow> False"
  shows "scans v s"
  unfolding scans_def
proof (intro conjI allI impI)
  show "value_start s" using s c by (simp add: value_start_def)
  fix n depth r w t assume r: "num_stop r" and scan: "scan_value n depth (s @ r) = Inr (w, t)"
  from scan obtain m where n: "n = Suc m" by (cases n) auto
  have "skip_space (s @ r) = c # (u @ r)" using s c by simp
  with scan n c lex[OF r] s v show "w = v" "t = r" by (auto split: json_token.splits)
qed

lemma scans_null: "scans JNull ''null''"
  by (rule scans_scalar[where x = TNull])
    (auto simp: json_space_def lex_scalar_def is_digit_def strip_word_def has_prefix_def)

lemma scans_bool: "scans (JBool b) (if b then ''true'' else ''false'')"
  by (cases b; simp; rule scans_scalar[where x = "TBool b"])
    (auto simp: json_space_def lex_scalar_def is_digit_def strip_word_def has_prefix_def)

lemma scans_string: "utf8_valid s \<Longrightarrow> scans (JString s) (marshal_string s)"
  by (rule scans_scalar[where x = "TString s" and c = "CHR 0x22"])
    (auto simp: marshal_string_def json_space_def lex_scalar_def lex_str_quote_body)

lemma scans_number:
  assumes "valid_number s" shows "scans (JNumber s) s"
proof -
  have n: "lex_number s = Some (s, [])" using assms by (simp add: valid_number_def)
  then obtain c t where s: "s = c # t" by (cases s) (auto simp: lex_number_def lex_int_def)
  have c: "c = CHR ''-'' \<or> is_digit c" using lex_number_first n s by blast
  show ?thesis
  proof (rule scans_scalar[OF s, where x = "TNumber s"])
    show "lex_scalar (s @ r) = Some (TNumber s, r)" if "num_stop r" for r
      using lex_number_stop[OF that n] c s by (auto simp: lex_scalar_def is_digit_def)
  qed (use c in \<open>auto simp: json_space_def is_digit_def\<close>)
qed

lemma num_stop_delims: "num_stop (CHR '','' # s)" "num_stop (CHR '']'' # s)" "num_stop (CHR ''}'' # s)"
  by (simp_all add: num_stop_def is_digit_def)

lemma scan_elems_text:
  assumes "list_all2 scans (v # vs) (s # ss)" "scan_elems n depth (join_comma (s # ss) @ CHR '']'' # r) acc = Inr (w, t)"
  shows "w = JArray (acc @ v # vs) \<and> t = r"
  using assms
proof (induction ss arbitrary: v vs s n acc)
  case Nil
  from Nil(2) obtain m x y where n: "n = Suc m" and v: "scan_value m depth (s @ CHR '']'' # r) = Inr (x, y)"
    by (cases n) (auto split: sum.splits)
  from Nil(1) v have "x = v" "y = CHR '']'' # r" using scansD[OF _ num_stop_delims(2)] by auto
  with Nil n v show ?case by (auto simp: json_space_def)
next
  case (Cons s' ss)
  from Cons.prems(2) obtain m x y where n: "n = Suc m"
    and v: "scan_value m depth (s @ CHR '','' # join_comma (s' # ss) @ CHR '']'' # r) = Inr (x, y)"
    by (cases n) (auto split: sum.splits)
  from Cons.prems(1) v have xy: "x = v" "y = CHR '','' # join_comma (s' # ss) @ CHR '']'' # r"
    using scansD[OF _ num_stop_delims(1)] by auto
  from Cons.prems(1) obtain v' vs' where vs: "vs = v' # vs'" "list_all2 scans (v' # vs') (s' # ss)"
    by (auto simp: list_all2_Cons2)
  from Cons.prems(2) n v xy have "scan_elems m depth (join_comma (s' # ss) @ CHR '']'' # r) (acc @ [v]) = Inr (w, t)"
    by (auto simp: json_space_def)
  from Cons.IH[OF vs(2) this] vs(1) show ?case by simp
qed

lemma value_start_skip: "value_start s \<Longrightarrow> \<exists>c u. s = c # u \<and> \<not> json_space c \<and> c \<notin> set '']},:''"
  by (auto simp: value_start_def split: list.splits)

lemma scans_array:
  assumes "list_all2 scans vs ss" shows "scans (JArray vs) (''['' @ join_comma ss @ '']'')"
  unfolding scans_def
proof (intro conjI allI impI)
  show "value_start (''['' @ join_comma ss @ '']'')" by (simp add: value_start_def json_space_def)
  fix n depth r w t assume scan: "scan_value n depth ((''['' @ join_comma ss @ '']'') @ r) = Inr (w, t)"
  from scan obtain m where n: "n = Suc m" by (cases n) auto
  have "w = JArray vs \<and> t = r"
  proof (cases ss)
    case Nil
    with assms scan n show ?thesis by (auto simp: json_space_def split: if_splits)
  next
    case (Cons s ss')
    with assms obtain v vs' where vs: "vs = v # vs'" "scans v s" by (auto simp: list_all2_Cons2)
    obtain c u where c: "s = c # u" "\<not> json_space c" "c \<notin> set '']},:''" using value_start_skip[OF scans_start[OF vs(2)]] by blast
    have "skip_space (join_comma ss @ CHR '']'' # r) = c # tl (join_comma ss @ CHR '']'' # r)"
      using c Cons by (simp add: join_comma_Cons)
    with scan n c have "scan_elems m (Suc depth) (join_comma ss @ CHR '']'' # r) [] = Inr (w, t)"
      by (auto simp: json_space_def split: if_splits)
    then show ?thesis using scan_elems_text[of v vs' s ss' m "Suc depth" r "[]" w t] assms vs Cons by simp
  qed
  then show "w = JArray vs" "t = r" by auto
qed

definition scans_member :: "string \<times> JSONValue \<Rightarrow> string \<Rightarrow> bool" where
  "scans_member kv s \<longleftrightarrow> utf8_valid (fst kv) \<and> (\<exists>u. s = marshal_string (fst kv) @ '':'' @ u \<and> scans (snd kv) u)"

text \<open>One member, with whatever follows it.\<close>

lemma scan_member:
  assumes "scans_member (k, v) s" "num_stop (f # y)" "\<not> json_space f"
    "scan_members n depth (s @ f # y) acc = Inr (w, t)"
  shows "\<exists>m. n = Suc m \<and> (if f = CHR '','' then scan_members m depth y (map_put k v acc) = Inr (w, t)
    else f = CHR ''}'' \<and> w = JObject (map_put k v acc) \<and> t = y)"
proof -
  from assms(1) obtain u where u: "s = CHR 0x22 # (quote_body k @ CHR 0x22 # CHR '':'' # u)" "utf8_valid k" "scans v u"
    by (auto simp: scans_member_def marshal_string_def)
  from assms(4) obtain m where n: "n = Suc m" by (cases n) auto
  have lex: "lex_str (quote_body k @ CHR 0x22 # CHR '':'' # u @ f # y) = Some (k, CHR '':'' # u @ f # y)"
    using lex_str_quote_body[OF u(2), of "CHR '':'' # u @ f # y"] by simp
  from assms(4) n u(1) lex obtain x z where v: "scan_value m depth (u @ f # y) = Inr (x, z)"
    by (auto simp: json_space_def split: sum.splits)
  with scansD[OF u(3) assms(2)] have "x = v" "z = f # y" by auto
  with v assms(3,4) n u(1) lex show ?thesis by (auto simp: json_space_def split: if_splits)
qed

lemma scan_members_text:
  assumes "list_all2 scans_member (kv # kvs) (s # ss)" "map_ok (acc @ kv # kvs)"
    "scan_members n depth (join_comma (s # ss) @ CHR ''}'' # r) acc = Inr (w, t)"
  shows "w = JObject (acc @ kv # kvs) \<and> t = r"
  using assms
proof (induction ss arbitrary: kv kvs s n acc)
  case Nil
  obtain k v where kv: "kv = (k, v)" by force
  from Nil kv have "map_put k v acc = acc @ [kv]" by (auto intro: map_put_last)
  with Nil kv scan_member[of k v s "CHR ''}''" r n depth acc w t] show ?case
    by (auto simp: num_stop_delims json_space_def)
next
  case (Cons s' ss)
  obtain k v where kv: "kv = (k, v)" by force
  from Cons.prems(1) obtain kv' kvs' where kvs: "kvs = kv' # kvs'" "list_all2 scans_member (kv' # kvs') (s' # ss)"
    by (auto simp: list_all2_Cons2)
  have "map_ok (acc @ [(k, v)])" using Cons.prems(2) kv by (auto simp: map_ok_def sorted_wrt_append)
  then have put: "map_put k v acc = acc @ [kv]" using map_put_last[of acc k v] kv by simp
  have "scan_members n depth (s @ CHR '','' # join_comma (s' # ss) @ CHR ''}'' # r) acc = Inr (w, t)"
    using Cons.prems(3) by simp
  from scan_member[OF _ _ _ this, of k v] Cons.prems(1) kv obtain m
    where "scan_members m depth (join_comma (s' # ss) @ CHR ''}'' # r) (map_put k v acc) = Inr (w, t)"
    by (auto simp: num_stop_delims json_space_def)
  with put have m: "scan_members m depth (join_comma (s' # ss) @ CHR ''}'' # r) (acc @ [kv]) = Inr (w, t)" by simp
  from Cons.IH[OF kvs(2) _ m] Cons.prems(2) kvs(1) show ?case by simp
qed

lemma scans_object:
  assumes "list_all2 scans_member ms ss" "map_ok ms" shows "scans (JObject ms) (''{'' @ join_comma ss @ ''}'')"
  unfolding scans_def
proof (intro conjI allI impI)
  show "value_start (''{'' @ join_comma ss @ ''}'')" by (simp add: value_start_def json_space_def)
  fix n depth r w t assume scan: "scan_value n depth ((''{'' @ join_comma ss @ ''}'') @ r) = Inr (w, t)"
  from scan obtain m where n: "n = Suc m" by (cases n) auto
  have "w = JObject ms \<and> t = r"
  proof (cases ss)
    case Nil
    with assms scan n show ?thesis by (auto simp: json_space_def split: if_splits)
  next
    case (Cons s ss')
    with assms obtain kv kvs where kvs: "ms = kv # kvs" "scans_member kv s" by (auto simp: list_all2_Cons2)
    then obtain u where u: "s = CHR 0x22 # u" by (auto simp: scans_member_def marshal_string_def)
    have "skip_space (join_comma ss @ CHR ''}'' # r) = CHR 0x22 # tl (join_comma ss @ CHR ''}'' # r)"
      using u Cons by (simp add: join_comma_Cons json_space_def)
    with scan n have "scan_members m (Suc depth) (join_comma ss @ CHR ''}'' # r) [] = Inr (w, t)"
      by (auto simp: json_space_def split: if_splits)
    then show ?thesis using scan_members_text[of kv kvs s ss' "[]" m "Suc depth" r w t] assms kvs Cons by simp
  qed
  then show "w = JObject ms" "t = r" by auto
qed

lemma scans_text: "jv_wf v \<Longrightarrow> jv_utf8 v \<Longrightarrow> scans v (json_text v)"
proof (induction v)
  case (JArray vs)
  then have "list_all2 scans vs (map json_text vs)" by (auto simp: list_all2_conv_all_nth list_all_length)
  then show ?case using scans_array by simp
next
  case (JObject m)
  then have "list_all2 scans_member m (map (\<lambda>(k, v). marshal_string k @ '':'' @ json_text v) m)"
    by (auto simp: list_all2_conv_all_nth scans_member_def list_all_length split_beta)
      (metis fsts.intros nth_mem prod.collapse snds.intros)+
  then show ?case using scans_object JObject.prems by simp
qed (auto simp: scans_null scans_bool[of True, simplified] scans_bool[of False, simplified] scans_string scans_number)

lemma decode_any_text:
  assumes "jv_wf v" "jv_utf8 v" "decode_any (json_text v) = Inr (w, t)" shows "w = v \<and> t = []"
  using scansD[OF scans_text[OF assms(1,2)], of "[]"] assms(3)
  by (auto simp: decode_any_def num_stop_def simp del: scan_value.simps split: if_splits sum.splits)

end
