(* ===== verification/Schema_Admission.thy ===== *)
theory Schema_Admission
  imports JSON_Rescan
begin

text \<open>
  Admission of a caller's output schema: \<open>llmcaller/codex/schema.go\<close> and the typed wrapper
  \<open>codexsdk/protocolv2/output_schema.go\<close>.

  A decoded value of type \<open>any\<close> is a \<open>JSONValue\<close>; ranging over one of its maps visits the members in the
  order of the list, and the properties below do not depend on that order. The two schema libraries are the
  parameter \<open>schema_tools\<close>: what \<open>AddResource\<close> and \<open>Compile\<close> of one (with a loader that refuses every
  other resource) and \<open>json.Unmarshal\<close> and \<open>Resolve\<close> of the other report.
\<close>

section \<open>Typed output schemas\<close>

datatype Draft = Draft7 | Draft2020

record 's schema_tools =
  st_AddResource :: "Draft \<Rightarrow> JSONValue \<Rightarrow> go_error option"
  st_Compile :: "Draft \<Rightarrow> JSONValue \<Rightarrow> go_error option"
  st_Unmarshal :: "gostring \<Rightarrow> go_error + 's"
  st_Resolve :: "'s \<Rightarrow> go_error option"

definition json_error_value :: "json_error \<Rightarrow> go_error" where
  "json_error_value e = ErrNew ''json: invalid value''"

text \<open>
  \<open>json.Marshal\<close> of a \<open>JSONValue\<close> calls its \<open>MarshalJSON\<close> and then checks and compacts what it returned; the
  canonical text is compact and its strings are escaped already, so only the nesting limit of the scanner is left.
\<close>

definition json_marshal :: "JSONValue \<Rightarrow> go_error + gostring" where
  "json_marshal v = (case MarshalJSON v of Inl e \<Rightarrow> Inl (json_error_value e)
     | Inr s \<Rightarrow> if unmarshal_any s = None then Inl (ErrNew ''json: exceeded max depth'') else Inr s)"

text \<open>\<open>json.Marshal\<close> of a decoded value: sorted keys, escaped strings, number tokens as they are.\<close>

definition marshal_any :: "JSONValue \<Rightarrow> go_error + gostring" where
  "marshal_any v = (case writeJSON v [] of Inl e \<Rightarrow> Inl (json_error_value e) | Inr s \<Rightarrow> Inr s)"

record OutputSchema =
  os_value :: JSONValue

definition validateOutputSchemaValue :: "'s schema_tools \<Rightarrow> JSONValue \<Rightarrow> go_error option" where
  "validateOutputSchemaValue T v = (case json_marshal v of Inl e \<Rightarrow> Some e
     | Inr data \<Rightarrow> (case st_Unmarshal T data of Inl e \<Rightarrow> Some (ErrWrap ''invalid output schema'' [e])
         | Inr schema \<Rightarrow> (case st_Resolve T schema of Some e \<Rightarrow> Some (ErrWrap ''invalid output schema'' [e]) | None \<Rightarrow> None)))"

definition OutputSchemaFromJSON :: "'s schema_tools \<Rightarrow> gostring \<Rightarrow> go_error + OutputSchema" where
  "OutputSchemaFromJSON T data = (case ParseJSONValue data of Inl e \<Rightarrow> Inl (json_error_value e)
     | Inr v \<Rightarrow>
         if Kind v \<noteq> JSONKindObject \<and> Kind v \<noteq> JSONKindBool
         then Inl (ErrNew ''output schema must be a top-level JSON object or boolean schema'')
         else (case (if Kind v = JSONKindObject then validateOutputSchemaValue T v else None) of
             Some e \<Rightarrow> Inl e | None \<Rightarrow> Inr \<lparr>os_value = v\<rparr>))"

definition OutputSchema_IsValid :: "OutputSchema \<Rightarrow> bool" where
  "OutputSchema_IsValid s \<longleftrightarrow> Kind (os_value s) = JSONKindObject \<or> Kind (os_value s) = JSONKindBool"

definition OutputSchema_MarshalJSON :: "OutputSchema \<Rightarrow> go_error + gostring" where
  "OutputSchema_MarshalJSON s = (if \<not> OutputSchema_IsValid s then Inl (ErrNew ''invalid OutputSchema'') else json_marshal (os_value s))"

definition OutputSchema_UnmarshalJSON :: "'s schema_tools \<Rightarrow> gostring \<Rightarrow> OutputSchema \<Rightarrow> go_error option \<times> OutputSchema" where
  "OutputSchema_UnmarshalJSON T data old = (case OutputSchemaFromJSON T data of Inl e \<Rightarrow> (Some e, old) | Inr s \<Rightarrow> (None, s))"

section \<open>References and pointers\<close>

definition ErrMissingSchemaJSON :: go_error where
  "ErrMissingSchemaJSON = ErrNew ''llmcaller/codex: output schema JSON is required''"

definition SchemaPolicyError :: "gostring \<Rightarrow> gostring \<Rightarrow> go_error \<Rightarrow> go_error" where
  "SchemaPolicyError path kind err = ErrTyped ''codexcaller.SchemaPolicyError'' [path, kind] [err]"

definition escapePointer :: "gostring \<Rightarrow> gostring" where
  "escapePointer tok = replace_all (CHR ''/'') ''~1'' (replace_all (CHR ''~'') ''~0'' tok)"

definition refPath :: "gostring \<Rightarrow> gostring" where
  "refPath ref = (if ref = ''#'' then [] else trim_prefix ref ''#'')"

fun resolve_tokens :: "gostring \<Rightarrow> JSONValue \<Rightarrow> gostring list \<Rightarrow> go_error + JSONValue" where
  "resolve_tokens ref current [] = Inr current"
| "resolve_tokens ref current (encoded # toks) =
     (let tok = replace_all2 (CHR ''~'') (CHR ''0'') ''~'' (replace_all2 (CHR ''~'') (CHR ''1'') ''/'' encoded)
      in case current of
           JObject object \<Rightarrow> (case map_of object tok of
               None \<Rightarrow> Inl (ErrNew (''reference '' @ ref @ '' does not exist''))
             | Some next \<Rightarrow> resolve_tokens ref next toks)
         | _ \<Rightarrow> Inl (ErrNew (''reference '' @ ref @ '' traverses a non-object'')))"

definition resolveLocalRef :: "JSONValue \<Rightarrow> gostring \<Rightarrow> go_error + JSONValue" where
  "resolveLocalRef root ref =
     (if ref = ''#'' then Inr root
      else if \<not> has_prefix ref ''#/'' then Inl (ErrNew (''unsupported local reference '' @ ref))
      else resolve_tokens ref root (split_on (CHR ''/'') (trim_prefix ref ''#/'')))"

definition objectMap :: "JSONValue option \<Rightarrow> (string \<times> JSONValue) list option" where
  "objectMap v = (case v of Some (JObject m) \<Rightarrow> Some m | _ \<Rightarrow> None)"

fun required_names :: "gostring \<Rightarrow> JSONValue list \<Rightarrow> go_error + gostring list" where
  "required_names path [] = Inr []"
| "required_names path (item # items) = (case item of
      JString name \<Rightarrow> (case required_names path items of Inl e \<Rightarrow> Inl e | Inr names \<Rightarrow> Inr (name # names))
    | _ \<Rightarrow> Inl (SchemaPolicyError (path @ ''/required'') ''invalid_required'' (ErrNew ''required entries must be strings'')))"

definition requiredSet :: "JSONValue option \<Rightarrow> gostring \<Rightarrow> go_error + gostring list" where
  "requiredSet v path = (case v of None \<Rightarrow> Inr [] | Some JNull \<Rightarrow> Inr []
     | Some (JArray items) \<Rightarrow> required_names path items
     | Some _ \<Rightarrow> Inl (SchemaPolicyError (path @ ''/required'') ''invalid_required'' (ErrNew ''required must be an array'')))"

definition supportedSchemaDraft :: "JSONValue \<Rightarrow> go_error + Draft" where
  "supportedSchemaDraft root = (case root of
      JObject object \<Rightarrow> (case map_of object ''$schema'' of None \<Rightarrow> Inr Draft2020
        | Some (JString identifier) \<Rightarrow>
            if identifier = ''http://json-schema.org/draft-07/schema#'' then Inr Draft7
            else if identifier = ''https://json-schema.org/draft/2020-12/schema'' then Inr Draft2020
            else Inl (SchemaPolicyError [] ''invalid_schema'' (ErrNew (''unsupported $schema '' @ identifier)))
        | Some _ \<Rightarrow> Inl (SchemaPolicyError [] ''invalid_schema'' (ErrNew ''$schema must be a string'')))
    | _ \<Rightarrow> Inr Draft2020)"

section \<open>The admission walk\<close>

fun first_error :: "('a \<Rightarrow> 'e option) \<Rightarrow> 'a list \<Rightarrow> 'e option" where
  "first_error f [] = None"
| "first_error f (x # xs) = (case f x of Some e \<Rightarrow> Some e | None \<Rightarrow> first_error f xs)"

definition then_check :: "'e option \<Rightarrow> 'e option \<Rightarrow> 'e option" where
  "then_check a b = (case a of Some e \<Rightarrow> Some e | None \<Rightarrow> b)"

lemma first_error_cong [fundef_cong]:
  "xs = ys \<Longrightarrow> (\<And>x. x \<in> set ys \<Longrightarrow> f x = g x) \<Longrightarrow> first_error f xs = first_error g ys"
  by (induction ys arbitrary: xs) (auto split: option.split)

lemma first_error_None [simp]: "first_error f xs = None \<longleftrightarrow> (\<forall>x \<in> set xs. f x = None)"
  by (induction xs) (auto split: option.split)

lemma then_check_None [simp]: "then_check a b = None \<longleftrightarrow> a = None \<and> b = None"
  by (simp add: then_check_def split: option.split)

definition single_keywords :: "gostring list" where
  "single_keywords = [''additionalProperties'', ''unevaluatedProperties'', ''propertyNames'', ''additionalItems'', ''contains'',
     ''unevaluatedItems'', ''not'', ''if'', ''then'', ''else'', ''contentSchema'']"

definition map_keywords :: "gostring list" where
  "map_keywords = [''properties'', ''patternProperties'', ''dependentSchemas'', ''$defs'', ''definitions'']"

definition list_keywords :: "gostring list" where
  "list_keywords = [''allOf'', ''anyOf'', ''oneOf'', ''prefixItems'']"

definition refuse_key :: "(string \<times> JSONValue) list \<Rightarrow> gostring \<Rightarrow> gostring \<Rightarrow> gostring \<Rightarrow> gostring \<Rightarrow> go_error option" where
  "refuse_key object path key kind msg =
     (if map_of object key \<noteq> None then Some (SchemaPolicyError (path @ ''/'' @ key) kind (ErrNew msg)) else None)"

text \<open>The strings under a key \<open>$ref\<close> anywhere in a value: each step into a reference uses up one of them.\<close>

fun ref_strings :: "JSONValue \<Rightarrow> gostring set" where
  "ref_strings (JObject m) = (case map_of m ''$ref'' of Some (JString r) \<Rightarrow> {r} | _ \<Rightarrow> {}) \<union> (\<Union>(k, v) \<in> set m. ref_strings v)"
| "ref_strings (JArray vs) = (\<Union>v \<in> set vs. ref_strings v)"
| "ref_strings _ = {}"

lemma finite_ref_strings [simp]: "finite (ref_strings v)"
  by (induction v) (auto split: option.split JSONValue.split)

lemma ref_strings_member: "map_of m k = Some v \<Longrightarrow> ref_strings v \<subseteq> ref_strings (JObject m)"
  by (force dest: map_of_SomeD)

lemma ref_strings_resolved: "resolve_tokens ref v toks = Inr w \<Longrightarrow> ref_strings w \<subseteq> ref_strings v"
proof (induction ref v toks rule: resolve_tokens.induct)
  case (2 ref current encoded toks)
  then show ?case
    using ref_strings_member by (auto simp: Let_def split: JSONValue.splits option.splits simp del: ref_strings.simps) blast
qed simp

lemma ref_strings_local: "resolveLocalRef root ref = Inr w \<Longrightarrow> ref_strings w \<subseteq> ref_strings root"
  using ref_strings_resolved by (auto simp: resolveLocalRef_def split: if_splits)

text \<open>A smaller value with no new references, or one more reference on the way.\<close>

definition walk_rank :: "JSONValue \<Rightarrow> JSONValue \<Rightarrow> gostring list \<Rightarrow> nat" where
  "walk_rank root v refs = card ((ref_strings root \<union> ref_strings v) - set refs)"

lemma walk_rank_child: "ref_strings w \<subseteq> ref_strings v \<Longrightarrow> walk_rank root w refs \<le> walk_rank root v refs"
  unfolding walk_rank_def by (rule card_mono) auto

lemma walk_rank_ref:
  assumes "map_of m ''$ref'' = Some (JString ref)" "ref \<notin> set refs" "resolveLocalRef root ref = Inr w"
  shows "walk_rank root w (ref # refs) < walk_rank root (JObject m) refs"
  unfolding walk_rank_def
  by (rule psubset_card_mono) (use assms ref_strings_local[OF assms(3)] in \<open>auto split: option.split\<close>)

lemma size_member: "map_of m k = Some v \<Longrightarrow> size v < size (JObject m)"
proof (induction m)
  case (Cons a m)
  then show ?case by (cases a) (auto split: if_splits)
qed simp

lemma size_element: "v \<in> set vs \<Longrightarrow> size v < size (JArray vs)"
  by (induction vs) auto

definition within :: "JSONValue \<Rightarrow> JSONValue \<Rightarrow> bool" where
  "within w v \<longleftrightarrow> size w < size v \<and> ref_strings w \<subseteq> ref_strings v"

lemma within_member: "map_of m k = Some v \<Longrightarrow> within v (JObject m)"
  using size_member ref_strings_member by (auto simp: within_def simp del: ref_strings.simps)

lemma within_element: "v \<in> set vs \<Longrightarrow> within v (JArray vs)"
  using size_element by (auto simp: within_def)

lemma within_pair: "(k, v) \<in> set m \<Longrightarrow> within v (JObject m)"
proof -
  assume m: "(k, v) \<in> set m"
  then have "size v < size (JObject m)" by (induction m) fastforce+
  with m show ?thesis by (force simp: within_def)
qed

lemma within_trans: "within a b \<Longrightarrow> within b c \<Longrightarrow> within a c"
  by (auto simp: within_def)

lemma within_object: "objectMap (map_of m k) = Some ms \<Longrightarrow> (n, v) \<in> set ms \<Longrightarrow> within v (JObject m)"
  using within_trans[OF within_pair within_member] by (auto simp: objectMap_def split: option.splits JSONValue.splits)

lemma within_list: "map_of m k = Some (JArray vs) \<Longrightarrow> (i, v) \<in> set (enumerate n vs) \<Longrightarrow> within v (JObject m)"
  using within_trans[OF within_element within_member[of m k "JArray vs"], of v]
  by (auto simp: enumerate_eq_zip dest: set_zip_rightD)

function walk :: "JSONValue \<Rightarrow> JSONValue \<Rightarrow> gostring \<Rightarrow> gostring list \<Rightarrow> go_error option" where
  "walk root value path refs = (case value of
     JObject object \<Rightarrow>
       then_check (case map_of object ''$ref'' of None \<Rightarrow> None
         | Some (JString ref) \<Rightarrow>
             if \<not> has_prefix ref ''#'' then Some (SchemaPolicyError (path @ ''/$ref'') ''external_ref''
               (ErrNew (''external reference '' @ ref @ '' is unsupported'')))
             else if ref \<in> set refs then Some (SchemaPolicyError (path @ ''/$ref'') ''cyclic_ref'' (ErrNew (''cyclic reference '' @ ref)))
             else (case resolveLocalRef root ref of
                 Inl err \<Rightarrow> Some (SchemaPolicyError (path @ ''/$ref'') ''unresolvable_ref'' err)
               | Inr resolved \<Rightarrow> walk root resolved (refPath ref) (ref # refs))
         | Some _ \<Rightarrow> Some (SchemaPolicyError (path @ ''/$ref'') ''invalid_ref'' (ErrNew ''$ref must be a string'')))
       (then_check (refuse_key object path ''$dynamicRef'' ''unsupported_dynamic_ref'' ''dynamic references are unsupported'')
       (then_check (refuse_key object path ''$vocabulary'' ''unsupported_vocabulary'' ''custom vocabulary declarations are unsupported'')
       (then_check (case objectMap (map_of object ''properties'') of
           Some properties \<Rightarrow> (case requiredSet (map_of object ''required'') path of Inl err \<Rightarrow> Some err
             | Inr required \<Rightarrow> first_error (\<lambda>(name, property).
                 let propertyPath = path @ ''/properties/'' @ escapePointer name in
                 if name \<notin> set required then Some (SchemaPolicyError propertyPath ''optional_property_unsupported''
                   (ErrNew ''Codex representation cannot require this property without narrowing the caller contract''))
                 else walk root property propertyPath refs) properties)
         | None \<Rightarrow> refuse_key object path ''properties'' ''invalid_properties'' ''properties must be an object'')
       (then_check (first_error (\<lambda>key. case map_of object key of None \<Rightarrow> None
           | Some child \<Rightarrow> walk root child (path @ ''/'' @ escapePointer key) refs) single_keywords)
       (then_check (case map_of object ''items'' of None \<Rightarrow> None
           | Some (JArray items) \<Rightarrow> first_error (\<lambda>(index, child). walk root child (path @ ''/items/'' @ itoa index) refs) (enumerate 0 items)
           | Some items \<Rightarrow> walk root items (path @ ''/items'') refs)
       (then_check (first_error (\<lambda>key. case objectMap (map_of object key) of None \<Rightarrow> None
           | Some children \<Rightarrow> first_error (\<lambda>(name, child). if key = ''properties'' then None
               else walk root child (path @ ''/'' @ escapePointer key @ ''/'' @ escapePointer name) refs) children) map_keywords)
       (then_check (first_error (\<lambda>key. case map_of object key of None \<Rightarrow> None
           | Some (JArray children) \<Rightarrow> first_error (\<lambda>(index, child).
               walk root child (path @ ''/'' @ key @ ''/'' @ itoa index) refs) (enumerate 0 children)
           | Some _ \<Rightarrow> Some (SchemaPolicyError (path @ ''/'' @ key) ''invalid_subschemas'' (ErrNew ''keyword must be an array'')))
           list_keywords)
         (case objectMap (map_of object ''dependencies'') of
           Some dependencies \<Rightarrow> first_error (\<lambda>(name, dependency). case dependency of JArray _ \<Rightarrow> None
             | _ \<Rightarrow> walk root dependency (path @ ''/dependencies/'' @ escapePointer name) refs) dependencies
         | None \<Rightarrow> refuse_key object path ''dependencies'' ''invalid_dependencies'' ''dependencies must be an object''))))))))
   | JBool _ \<Rightarrow> None
   | _ \<Rightarrow> Some (SchemaPolicyError path ''invalid_subschema'' (ErrNew ''subschema must be an object or boolean'')))"
  by pat_completeness auto

lemma walk_descends: "within w v \<Longrightarrow>
  ((root, w, path, refs), (root, v, path', refs)) \<in> measures [\<lambda>(root, v, path, refs). walk_rank root v refs, \<lambda>(root, v, path, refs). size v]"
  using walk_rank_child[of w v root refs] by (auto simp: within_def)

lemma walk_follows: "map_of m ''$ref'' = Some (JString ref) \<Longrightarrow> ref \<notin> set refs \<Longrightarrow> resolveLocalRef root ref = Inr w \<Longrightarrow>
  ((root, w, path, ref # refs), (root, JObject m, path', refs)) \<in> measures [\<lambda>(root, v, path, refs). walk_rank root v refs, \<lambda>(root, v, path, refs). size v]"
  using walk_rank_ref by simp

termination walk
  by (relation "measures [\<lambda>(root, v, path, refs). walk_rank root v refs, \<lambda>(root, v, path, refs). size v]")
    (auto intro!: walk_descends simp del: in_measures intro: walk_follows within_object within_member within_list)

declare walk.simps [simp del]

definition StrictOutputSchemaFromJSON :: "'s schema_tools \<Rightarrow> gostring \<Rightarrow> go_error + OutputSchema" where
  "StrictOutputSchemaFromJSON T raw =
     (if trim_space raw = [] then Inl ErrMissingSchemaJSON
      else case ParseJSONValue raw of Inl err \<Rightarrow> Inl (SchemaPolicyError [] ''invalid_json'' (json_error_value err))
      | Inr parsed \<Rightarrow> (case json_marshal parsed of Inl err \<Rightarrow> Inl (SchemaPolicyError [] ''invalid_json'' err)
      | Inr canonical \<Rightarrow> (case decode_any canonical of Inl _ \<Rightarrow> Inl (SchemaPolicyError [] ''invalid_json'' (ErrNew ''json: syntax''))
      | Inr (root, _) \<Rightarrow> (case supportedSchemaDraft root of Inl err \<Rightarrow> Inl err
      | Inr draft \<Rightarrow> (case st_AddResource T draft root of Some err \<Rightarrow> Inl (SchemaPolicyError [] ''invalid_schema'' err)
      | None \<Rightarrow> (case walk root root [] [] of Some err \<Rightarrow> Inl err
      | None \<Rightarrow> (case st_Compile T draft root of Some err \<Rightarrow> Inl (SchemaPolicyError [] ''invalid_schema'' err)
      | None \<Rightarrow> (case marshal_any root of Inl err \<Rightarrow> Inl (SchemaPolicyError [] ''marshal'' err)
      | Inr out \<Rightarrow> (case OutputSchemaFromJSON T out of Inl err \<Rightarrow> Inl (SchemaPolicyError [] ''invalid_schema'' err)
      | Inr schema \<Rightarrow> Inr schema)))))))))"

section \<open>What the walk admits\<close>

text \<open>The immediate subschemas of an object.\<close>

definition list_children :: "JSONValue option \<Rightarrow> JSONValue list" where
  "list_children v = (case v of Some (JArray vs) \<Rightarrow> vs | _ \<Rightarrow> [])"

definition item_children :: "JSONValue option \<Rightarrow> JSONValue list" where
  "item_children v = (case v of None \<Rightarrow> [] | Some (JArray vs) \<Rightarrow> vs | Some v \<Rightarrow> [v])"

definition map_children :: "JSONValue option \<Rightarrow> JSONValue list" where
  "map_children v = (case v of Some (JObject m) \<Rightarrow> map snd m | _ \<Rightarrow> [])"

definition is_array :: "JSONValue \<Rightarrow> bool" where
  "is_array v = (case v of JArray _ \<Rightarrow> True | _ \<Rightarrow> False)"

definition subschemas :: "(string \<times> JSONValue) list \<Rightarrow> JSONValue list" where
  "subschemas m = List.map_filter (map_of m) single_keywords @
     item_children (map_of m ''items'') @
     concat (map (\<lambda>key. map_children (map_of m key)) map_keywords) @
     concat (map (\<lambda>key. list_children (map_of m key)) list_keywords) @
     filter (\<lambda>v. \<not> is_array v) (map_children (map_of m ''dependencies''))"

text \<open>
  What every visited schema has to meet by itself: a boolean, or an object without dynamic references and
  vocabularies, whose properties are all required, with lists where lists are needed, and with a local reference
  that resolves and is not already being followed.
\<close>

definition properties_ok :: "(string \<times> JSONValue) list \<Rightarrow> bool" where
  "properties_ok m = (case map_of m ''properties'' of None \<Rightarrow> True
     | Some (JObject ps) \<Rightarrow> (case requiredSet (map_of m ''required'') [] of Inl _ \<Rightarrow> False | Inr required \<Rightarrow> fst ` set ps \<subseteq> set required)
     | Some _ \<Rightarrow> False)"

definition ref_ok :: "JSONValue \<Rightarrow> (string \<times> JSONValue) list \<Rightarrow> gostring list \<Rightarrow> bool" where
  "ref_ok root m refs = (case map_of m ''$ref'' of None \<Rightarrow> True
     | Some (JString ref) \<Rightarrow> has_prefix ref ''#'' \<and> ref \<notin> set refs \<and> (case resolveLocalRef root ref of Inl _ \<Rightarrow> False | Inr _ \<Rightarrow> True)
     | Some _ \<Rightarrow> False)"

definition schema_ok :: "JSONValue \<Rightarrow> JSONValue \<Rightarrow> gostring list \<Rightarrow> bool" where
  "schema_ok root v refs = (case v of
     JObject m \<Rightarrow> ref_ok root m refs \<and> map_of m ''$dynamicRef'' = None \<and> map_of m ''$vocabulary'' = None \<and> properties_ok m \<and>
       list_all (\<lambda>key. case map_of m key of None \<Rightarrow> True | Some v \<Rightarrow> is_array v) list_keywords \<and>
       (map_of m ''dependencies'' = None \<or> objectMap (map_of m ''dependencies'') \<noteq> None)
   | JBool _ \<Rightarrow> True | _ \<Rightarrow> False)"

text \<open>Visiting a subschema keeps the references that are being followed, visiting a reference adds one.\<close>

inductive visits :: "JSONValue \<Rightarrow> JSONValue \<times> gostring list \<Rightarrow> JSONValue \<times> gostring list \<Rightarrow> bool" for root where
  subschema: "w \<in> set (subschemas m) \<Longrightarrow> visits root (JObject m, refs) (w, refs)"
| follow: "map_of m ''$ref'' = Some (JString ref) \<Longrightarrow> resolveLocalRef root ref = Inr w \<Longrightarrow>
    visits root (JObject m, refs) (w, ref # refs)"

inductive_simps visits_object: "visits root (JObject m, refs) s"
inductive_cases visits_bool: "visits root (JBool b, refs) s"

definition admitted :: "JSONValue \<Rightarrow> JSONValue \<Rightarrow> gostring list \<Rightarrow> bool" where
  "admitted root v refs \<longleftrightarrow> (\<forall>w rs. (visits root)\<^sup>*\<^sup>* (v, refs) (w, rs) \<longrightarrow> schema_ok root w rs)"

lemma admitted_step: "admitted root v refs \<longleftrightarrow> schema_ok root v refs \<and> (\<forall>w rs. visits root (v, refs) (w, rs) \<longrightarrow> admitted root w rs)"
proof
  assume "admitted root v refs"
  then show "schema_ok root v refs \<and> (\<forall>w rs. visits root (v, refs) (w, rs) \<longrightarrow> admitted root w rs)"
    unfolding admitted_def by (meson converse_rtranclp_into_rtranclp rtranclp.rtrancl_refl)
next
  assume step: "schema_ok root v refs \<and> (\<forall>w rs. visits root (v, refs) (w, rs) \<longrightarrow> admitted root w rs)"
  show "admitted root v refs"
    unfolding admitted_def
  proof (intro allI impI)
    fix w rs assume "(visits root)\<^sup>*\<^sup>* (v, refs) (w, rs)"
    then show "schema_ok root w rs"
    proof (cases rule: converse_rtranclpE)
      case (step s)
      with \<open>schema_ok root v refs \<and> _\<close> show ?thesis by (cases s) (auto simp: admitted_def)
    qed (use step in auto)
  qed
qed

lemma within_children:
  "w \<in> set (map_children (map_of m k)) \<Longrightarrow> within w (JObject m)" "w \<in> set (list_children (map_of m k)) \<Longrightarrow> within w (JObject m)"
  "w \<in> set (item_children (map_of m k)) \<Longrightarrow> within w (JObject m)"
proof -
  note member = within_trans[OF within_pair within_member, of _ w _ m k] within_trans[OF within_element within_member, of w _ m k]
    within_member[of m k w]
  show "w \<in> set (map_children (map_of m k)) \<Longrightarrow> within w (JObject m)" "w \<in> set (list_children (map_of m k)) \<Longrightarrow> within w (JObject m)"
    "w \<in> set (item_children (map_of m k)) \<Longrightarrow> within w (JObject m)"
    using member by (cases "map_of m k"; cases "the (map_of m k)";
      force simp: map_children_def list_children_def item_children_def)+
qed

lemma subschemas_within: "w \<in> set (subschemas m) \<Longrightarrow> within w (JObject m)"
  using within_children within_member by (auto simp: subschemas_def List.map_filter_def)

text \<open>Induction along the walk.\<close>

lemma walk_induct:
  assumes "\<And>v refs. (\<And>w. within w v \<Longrightarrow> P w refs) \<Longrightarrow>
    (\<And>m ref w. v = JObject m \<Longrightarrow> map_of m ''$ref'' = Some (JString ref) \<Longrightarrow> ref \<notin> set refs \<Longrightarrow> resolveLocalRef root ref = Inr w \<Longrightarrow>
      P w (ref # refs)) \<Longrightarrow> P v refs"
  shows "P v refs"
proof (induction "(root, v, []::gostring, refs)" arbitrary: v refs
    rule: wf_induct[OF wf_measures[of "[\<lambda>(root, v, path, refs). walk_rank root v refs, \<lambda>(root, v, path, refs). size v]"]])
  case (1 v refs)
  show ?case
  proof (rule assms)
    show "P w refs" if "within w v" for w
      using 1[rule_format, OF walk_descends[OF that]] by blast
    show "P w (ref # refs)" if "v = JObject m" "map_of m ''$ref'' = Some (JString ref)" "ref \<notin> set refs" "resolveLocalRef root ref = Inr w"
      for m ref w using 1[rule_format] walk_follows[OF that(2-), of "[]" "[]"] that(1) by blast
  qed
qed

text \<open>Each part of the walk, over a predicate \<open>G\<close> that says what the recursive calls admit.\<close>

lemma required_names_Inr: "required_names path items = Inr r \<longleftrightarrow> items = map JString r"
proof
  show "required_names path items = Inr r \<Longrightarrow> items = map JString r"
    by (induction items arbitrary: r) (auto split: JSONValue.splits sum.splits)
  have "required_names path (map JString r) = Inr r" by (induction r) auto
  then show "items = map JString r \<Longrightarrow> required_names path items = Inr r" by simp
qed

lemma requiredSet_path: "requiredSet v path = Inr r \<longleftrightarrow> requiredSet v [] = Inr r"
  by (simp add: requiredSet_def required_names_Inr split: option.split JSONValue.split)

definition calls_admit :: "JSONValue \<Rightarrow> (string \<times> JSONValue) list \<Rightarrow> gostring list \<Rightarrow> (JSONValue \<Rightarrow> bool) \<Rightarrow> bool" where
  "calls_admit root m refs G \<longleftrightarrow> (\<forall>w p. within w (JObject m) \<longrightarrow> (walk root w p refs = None \<longleftrightarrow> G w))"

lemma calls_admitD: "calls_admit root m refs G \<Longrightarrow> within w (JObject m) \<Longrightarrow> walk root w p refs = None \<longleftrightarrow> G w"
  by (simp add: calls_admit_def)

lemma walk_properties:
  assumes "calls_admit root m refs G"
  shows "(case objectMap (map_of m ''properties'') of
      Some properties \<Rightarrow> (case requiredSet (map_of m ''required'') path of Inl err \<Rightarrow> Some err
        | Inr required \<Rightarrow> first_error (\<lambda>(name, property).
            let propertyPath = path @ ''/properties/'' @ escapePointer name in
            if name \<notin> set required then Some (SchemaPolicyError propertyPath ''optional_property_unsupported'' e)
            else walk root property propertyPath refs) properties)
    | None \<Rightarrow> refuse_key m path ''properties'' kind msg) = None \<longleftrightarrow>
   properties_ok m \<and> (\<forall>w \<in> set (map_children (map_of m ''properties'')). G w)"
proof (cases "objectMap (map_of m ''properties'')")
  case None
  then show ?thesis
    by (auto simp: objectMap_def properties_ok_def refuse_key_def map_children_def split: option.splits JSONValue.splits)
next
  case (Some ps)
  then have ps: "map_of m ''properties'' = Some (JObject ps)" by (auto simp: objectMap_def split: option.splits JSONValue.splits)
  have G: "walk root w p refs = None \<longleftrightarrow> G w" if "(n, w) \<in> set ps" for n w p
    using calls_admitD[OF assms within_object[OF Some that]] .
  show ?thesis
  proof (cases "requiredSet (map_of m ''required'') path")
    case (Inl e)
    then have "requiredSet (map_of m ''required'') [] \<noteq> Inr r" for r
      using requiredSet_path[of "map_of m ''required''" path r] by simp
    with Inl Some ps show ?thesis by (auto simp: properties_ok_def split: sum.splits)
  next
    case (Inr r)
    then have "requiredSet (map_of m ''required'') [] = Inr r" using requiredSet_path by blast
    with Inr Some ps G show ?thesis by (auto simp: properties_ok_def map_children_def Let_def split: if_splits) force+
  qed
qed

lemma first_error_enumerate:
  "(\<And>i w. w \<in> set vs \<Longrightarrow> f i w = None \<longleftrightarrow> G w) \<Longrightarrow>
   first_error (\<lambda>(i, w). f i w) (enumerate n vs) = None \<longleftrightarrow> (\<forall>w \<in> set vs. G w)"
proof (induction vs arbitrary: n)
  case (Cons v vs)
  then have "f n v = None \<longleftrightarrow> G v" "first_error (\<lambda>(i, w). f i w) (enumerate (Suc n) vs) = None \<longleftrightarrow> (\<forall>w \<in> set vs. G w)" by simp_all
  then show ?case by (cases "f n v") (simp_all del: first_error_None)
qed simp

lemma walk_items:
  assumes "calls_admit root m refs G"
  shows "(case map_of m ''items'' of None \<Rightarrow> None
     | Some (JArray items) \<Rightarrow> first_error (\<lambda>(index, child). walk root child (path @ ''/items/'' @ itoa index) refs) (enumerate 0 items)
     | Some items \<Rightarrow> walk root items (path @ ''/items'') refs) = None \<longleftrightarrow>
   (\<forall>w \<in> set (item_children (map_of m ''items'')). G w)"
proof (cases "map_of m ''items''")
  case (Some v)
  have G: "walk root w p refs = None \<longleftrightarrow> G w" if "w \<in> set (item_children (Some v))" for w p
    using calls_admitD[OF assms within_children(3)[of w m "''items''"]] that Some by simp
  with Some show ?thesis by (cases v) (auto simp: item_children_def first_error_enumerate[where G = G] simp del: first_error_None)
qed (simp add: item_children_def)

lemma walk_keywords:
  assumes "calls_admit root m refs G"
  shows "first_error (\<lambda>key. case map_of m key of None \<Rightarrow> None | Some child \<Rightarrow> walk root child (pathof key) refs) ks = None \<longleftrightarrow>
    (\<forall>w \<in> set (List.map_filter (map_of m) ks). G w)"
  using calls_admitD[OF assms within_member[of m]] by (force simp: List.map_filter_def split: option.split)

lemma walk_maps:
  assumes "calls_admit root m refs G"
  shows "first_error (\<lambda>key. case objectMap (map_of m key) of None \<Rightarrow> None
      | Some children \<Rightarrow> first_error (\<lambda>(name, child). if key = ''properties'' then None
          else walk root child (pathof key name) refs) children) ks = None \<longleftrightarrow>
    (\<forall>key \<in> set ks. key \<noteq> ''properties'' \<longrightarrow> (\<forall>w \<in> set (map_children (map_of m key)). G w))"
proof -
  have "(case objectMap (map_of m key) of None \<Rightarrow> None
      | Some children \<Rightarrow> first_error (\<lambda>(name, child). if key = ''properties'' then None
          else walk root child (pathof key name) refs) children) = None \<longleftrightarrow>
      (key \<noteq> ''properties'' \<longrightarrow> (\<forall>w \<in> set (map_children (map_of m key)). G w))" for key
  proof (cases "objectMap (map_of m key)")
    case None
    then show ?thesis by (auto simp: objectMap_def map_children_def split: option.splits JSONValue.splits)
  next
    case (Some ms)
    then have "map_of m key = Some (JObject ms)" by (auto simp: objectMap_def split: option.splits JSONValue.splits)
    with calls_admitD[OF assms within_object[OF Some]] Some show ?thesis by (auto simp: map_children_def split_beta)
  qed
  then show ?thesis by simp
qed

lemma walk_lists:
  assumes "calls_admit root m refs G"
  shows "first_error (\<lambda>key. case map_of m key of None \<Rightarrow> None
      | Some (JArray children) \<Rightarrow> first_error (\<lambda>(index, child). walk root child (pathof key index) refs) (enumerate 0 children)
      | Some _ \<Rightarrow> Some (bad key)) ks = None \<longleftrightarrow>
    list_all (\<lambda>key. case map_of m key of None \<Rightarrow> True | Some v \<Rightarrow> is_array v) ks \<and>
    (\<forall>key \<in> set ks. \<forall>w \<in> set (list_children (map_of m key)). G w)"
proof -
  have "(case map_of m key of None \<Rightarrow> None
      | Some (JArray children) \<Rightarrow> first_error (\<lambda>(index, child). walk root child (pathof key index) refs) (enumerate 0 children)
      | Some _ \<Rightarrow> Some (bad key)) = None \<longleftrightarrow>
      (case map_of m key of None \<Rightarrow> True | Some v \<Rightarrow> is_array v) \<and> (\<forall>w \<in> set (list_children (map_of m key)). G w)" for key
  proof (cases "map_of m key")
    case (Some v)
    have "walk root w p refs = None \<longleftrightarrow> G w" if "w \<in> set (list_children (Some v))" for w p
      using calls_admitD[OF assms within_children(2)[of w m key]] that Some by simp
    with Some show ?thesis
      by (cases v) (auto simp: list_children_def is_array_def first_error_enumerate[where G = G] simp del: first_error_None)
  qed (simp add: list_children_def)
  then show ?thesis by (auto simp: list_all_iff)
qed

lemma walk_dependencies:
  assumes "calls_admit root m refs G"
  shows "(case objectMap (map_of m ''dependencies'') of
      Some dependencies \<Rightarrow> first_error (\<lambda>(name, dependency). case dependency of JArray _ \<Rightarrow> None
        | _ \<Rightarrow> walk root dependency (pathof name) refs) dependencies
    | None \<Rightarrow> refuse_key m path ''dependencies'' kind msg) = None \<longleftrightarrow>
    (map_of m ''dependencies'' = None \<or> objectMap (map_of m ''dependencies'') \<noteq> None) \<and>
    (\<forall>w \<in> set (filter (\<lambda>v. \<not> is_array v) (map_children (map_of m ''dependencies''))). G w)"
proof (cases "objectMap (map_of m ''dependencies'')")
  case None
  then show ?thesis by (auto simp: objectMap_def refuse_key_def map_children_def split: option.splits JSONValue.splits)
next
  case (Some ms)
  then have ms: "map_of m ''dependencies'' = Some (JObject ms)" by (auto simp: objectMap_def split: option.splits JSONValue.splits)
  have "(case w of JArray _ \<Rightarrow> None | _ \<Rightarrow> walk root w p refs) = None \<longleftrightarrow> (is_array w \<or> G w)" if "(n, w) \<in> set ms" for n w p
    using calls_admitD[OF assms within_object[OF Some that], of p] by (cases w) (simp_all add: is_array_def)
  then have "first_error (\<lambda>(name, dependency). case dependency of JArray _ \<Rightarrow> None | _ \<Rightarrow> walk root dependency (pathof name) refs) ms = None \<longleftrightarrow>
      (\<forall>(n, w) \<in> set ms. is_array w \<or> G w)"
    unfolding first_error_None by (intro ball_cong refl) (simp only: split_paired_all prod.case)
  then show ?thesis by (simp only: Some option.case) (auto simp: ms map_children_def)
qed

lemma walk_reference:
  assumes "\<forall>ref w p. map_of m ''$ref'' = Some (JString ref) \<longrightarrow> ref \<notin> set refs \<longrightarrow> resolveLocalRef root ref = Inr w \<longrightarrow>
    (walk root w p (ref # refs) = None \<longleftrightarrow> G w (ref # refs))"
  shows "(case map_of m ''$ref'' of None \<Rightarrow> None
      | Some (JString ref) \<Rightarrow> if \<not> has_prefix ref ''#'' then Some (e1 ref) else if ref \<in> set refs then Some (e2 ref)
          else (case resolveLocalRef root ref of Inl err \<Rightarrow> Some (e3 err) | Inr resolved \<Rightarrow> walk root resolved (refPath ref) (ref # refs))
      | Some _ \<Rightarrow> Some e4) = None \<longleftrightarrow>
    ref_ok root m refs \<and> (\<forall>ref w. map_of m ''$ref'' = Some (JString ref) \<longrightarrow> resolveLocalRef root ref = Inr w \<longrightarrow> G w (ref # refs))"
  using assms by (auto simp: ref_ok_def split: option.split JSONValue.split sum.split)

lemma walk_object:
  assumes "calls_admit root m refs (\<lambda>w. G w refs)"
    and "\<forall>ref w p. map_of m ''$ref'' = Some (JString ref) \<longrightarrow> ref \<notin> set refs \<longrightarrow> resolveLocalRef root ref = Inr w \<longrightarrow>
      (walk root w p (ref # refs) = None \<longleftrightarrow> G w (ref # refs))"
  shows "walk root (JObject m) path refs = None \<longleftrightarrow>
    schema_ok root (JObject m) refs \<and> (\<forall>w rs. visits root (JObject m, refs) (w, rs) \<longrightarrow> G w rs)"
proof -
  let ?refs = "\<forall>ref w. map_of m ''$ref'' = Some (JString ref) \<longrightarrow> resolveLocalRef root ref = Inr w \<longrightarrow> G w (ref # refs)"
  have vis: "(\<forall>w rs. visits root (JObject m, refs) (w, rs) \<longrightarrow> G w rs) \<longleftrightarrow> ?refs \<and> (\<forall>w \<in> set (subschemas m). G w refs)"
    by (auto simp: visits_object)
  have subs: "(\<forall>w \<in> set (subschemas m). G w refs) \<longleftrightarrow>
      (\<forall>w \<in> set (List.map_filter (map_of m) single_keywords). G w refs) \<and> (\<forall>w \<in> set (item_children (map_of m ''items'')). G w refs) \<and>
      (\<forall>w \<in> set (map_children (map_of m ''properties'')). G w refs) \<and>
      (\<forall>key \<in> set map_keywords. key \<noteq> ''properties'' \<longrightarrow> (\<forall>w \<in> set (map_children (map_of m key)). G w refs)) \<and>
      (\<forall>key \<in> set list_keywords. \<forall>w \<in> set (list_children (map_of m key)). G w refs) \<and>
      (\<forall>w \<in> set (filter (\<lambda>v. \<not> is_array v) (map_children (map_of m ''dependencies''))). G w refs)"
    by (auto simp: subschemas_def map_keywords_def)
  have "schema_ok root (JObject m) refs \<longleftrightarrow> ref_ok root m refs \<and> map_of m ''$dynamicRef'' = None \<and> map_of m ''$vocabulary'' = None \<and>
      properties_ok m \<and> list_all (\<lambda>key. case map_of m key of None \<Rightarrow> True | Some v \<Rightarrow> is_array v) list_keywords \<and>
      (map_of m ''dependencies'' = None \<or> objectMap (map_of m ''dependencies'') \<noteq> None)"
    by (simp add: schema_ok_def)
  note ok = this
  note parts = walk_reference[OF assms(2)] walk_properties[OF assms(1)] walk_items[OF assms(1)] walk_keywords[OF assms(1)]
    walk_maps[OF assms(1)] walk_lists[OF assms(1)] walk_dependencies[OF assms(1)]
  have refuse: "refuse_key m path key kind msg = None \<longleftrightarrow> map_of m key = None" for key kind msg by (simp add: refuse_key_def)
  show ?thesis
    unfolding walk.simps[of root "JObject m" path refs] JSONValue.case then_check_None vis subs ok parts refuse by (simp only: conj_ac)
qed

lemma walk_admits: "walk root v path refs = None \<longleftrightarrow> admitted root v refs"
proof (induction v refs arbitrary: path rule: walk_induct[where root = root])
  case (1 v refs)
  show ?case
  proof (cases v)
    case (JObject m)
    with 1 have "calls_admit root m refs (\<lambda>w. admitted root w refs)" by (simp add: calls_admit_def)
    with 1 JObject walk_object[of root m refs "admitted root" path] admitted_step[of root v refs] show ?thesis by simp
  next
    case (JBool b)
    then show ?thesis
      using admitted_step[of root v refs] by (auto simp: walk.simps[of root "JBool b"] schema_ok_def elim: visits_bool)
  qed (use admitted_step[of root v refs] walk.simps[of root v path refs] in \<open>simp_all add: schema_ok_def\<close>)
qed

section \<open>What is admitted, and what is sent\<close>

lemma json_marshal_Inr: "jv_wf v \<Longrightarrow> json_marshal v = Inr s \<longleftrightarrow> s = json_text v \<and> unmarshal_any (json_text v) \<noteq> None"
  by (auto simp: json_marshal_def MarshalJSON_def write_text)

lemma unmarshal_decode: "unmarshal_any s \<noteq> None \<Longrightarrow> \<exists>w t. decode_any s = Inr (w, t)"
  by (auto simp: unmarshal_any_def decode_any_def simp del: scan_value.simps split: sum.splits)
    (auto split: list.splits)

lemma OutputSchemaFromJSON_text:
  assumes "jv_wf v" "jv_utf8 v"
  shows "OutputSchemaFromJSON T (json_text v) = Inr schema \<longleftrightarrow> schema = \<lparr>os_value = v\<rparr> \<and> OutputSchema_IsValid schema \<and>
    (Kind v = JSONKindObject \<longrightarrow> validateOutputSchemaValue T v = None)"
proof -
  have "ParseJSONValue (json_text v) = Inr v"
    using marshal_parse[OF assms] write_text[OF assms(1)] by (auto simp: MarshalJSON_def)
  then show ?thesis by (auto simp: OutputSchemaFromJSON_def OutputSchema_IsValid_def split: option.splits if_splits)
qed

lemma strict_schema_parsed:
  assumes "ParseJSONValue raw = Inr v" "trim_space raw \<noteq> []"
  shows "StrictOutputSchemaFromJSON T raw = Inr schema \<longleftrightarrow> schema = \<lparr>os_value = v\<rparr> \<and> OutputSchema_IsValid schema \<and>
    unmarshal_any (json_text v) \<noteq> None \<and> admitted v v [] \<and>
    (\<exists>draft. supportedSchemaDraft v = Inr draft \<and> st_AddResource T draft v = None \<and> st_Compile T draft v = None) \<and>
    (Kind v = JSONKindObject \<longrightarrow> validateOutputSchemaValue T v = None)"
proof -
  have wf: "jv_wf v" "jv_utf8 v" using ParseJSONValue_wf[OF assms(1)] by auto
  show ?thesis
  proof (cases "unmarshal_any (json_text v)")
    case None
    then have "json_marshal v \<noteq> Inr s" for s using json_marshal_Inr[OF wf(1)] by simp
    then obtain e where "json_marshal v = Inl e" by (cases "json_marshal v") auto
    with None assms show ?thesis by (simp add: StrictOutputSchemaFromJSON_def)
  next
    case (Some x)
    then have m: "json_marshal v = Inr (json_text v)" using json_marshal_Inr[OF wf(1)] by simp
    obtain t where d: "decode_any (json_text v) = Inr (v, t)"
      using unmarshal_decode[of "json_text v"] decode_any_text[OF wf] Some by fastforce
    have out: "marshal_any v = Inr (json_text v)" using write_text[OF wf(1)] by (simp add: marshal_any_def)
    show ?thesis
      using OutputSchemaFromJSON_text[OF wf, of T] Some assms
      by (auto simp: StrictOutputSchemaFromJSON_def m d out walk_admits[of v v "[]" "[]", symmetric] split: sum.splits option.splits)
  qed
qed

lemma admitted_required:
  assumes "admitted root v refs" "(visits root)\<^sup>*\<^sup>* (v, refs) (JObject m, rs)"
    "map_of m ''properties'' = Some (JObject ps)" "n \<in> fst ` set ps"
  shows "\<exists>items. map_of m ''required'' = Some (JArray items) \<and> JString n \<in> set items"
proof -
  have "properties_ok m" using assms(1,2) by (auto simp: admitted_def schema_ok_def dest!: spec)
  with assms(3,4) show ?thesis
    by (auto simp: properties_ok_def requiredSet_def required_names_Inr split: sum.splits option.splits JSONValue.splits)
qed

text \<open>C15: a caller's schema is admitted exactly when it is one JSON value without duplicate keys, of a supported
  draft and accepted by the schema libraries, and every schema that is reached from it, through subschemas and
  through references that are not already being followed, is a boolean or an object in the supported form. The
  schema that is sent is the caller's own value, unchanged, and every property of every reached object was
  required by the caller already, so the accepted instances stay the same.\<close>

theorem strict_schema_exact:
  assumes "trim_space raw \<noteq> []"
  shows "(StrictOutputSchemaFromJSON T raw = Inr schema \<longleftrightarrow> (\<exists>v. ParseJSONValue raw = Inr v \<and> schema = \<lparr>os_value = v\<rparr> \<and>
      OutputSchema_IsValid schema \<and> unmarshal_any (json_text v) \<noteq> None \<and>
      (\<forall>w refs. (visits v)\<^sup>*\<^sup>* (v, []) (w, refs) \<longrightarrow> schema_ok v w refs) \<and>
      (\<exists>draft. supportedSchemaDraft v = Inr draft \<and> st_AddResource T draft v = None \<and> st_Compile T draft v = None) \<and>
      (Kind v = JSONKindObject \<longrightarrow> validateOutputSchemaValue T v = None))) \<and>
    (StrictOutputSchemaFromJSON T raw = Inr schema \<longrightarrow> (visits (os_value schema))\<^sup>*\<^sup>* (os_value schema, []) (JObject m, refs) \<longrightarrow>
      map_of m ''properties'' = Some (JObject ps) \<longrightarrow> n \<in> fst ` set ps \<longrightarrow>
      (\<exists>items. map_of m ''required'' = Some (JArray items) \<and> JString n \<in> set items))"
proof (cases "ParseJSONValue raw")
  case (Inl e)
  then show ?thesis using assms by (simp add: StrictOutputSchemaFromJSON_def)
next
  case (Inr v)
  show ?thesis
    using strict_schema_parsed[OF Inr assms, of T schema] admitted_required[of v v "[]" m refs ps n] Inr
    unfolding admitted_def by auto
qed

definition example_tools :: "unit schema_tools" where
  "example_tools = \<lparr>st_AddResource = (\<lambda>_ _. None), st_Compile = (\<lambda>_ _. None), st_Unmarshal = (\<lambda>_. Inr ()), st_Resolve = (\<lambda>_. None)\<rparr>"

definition example_schema_text :: gostring where
  "example_schema_text = json_text (JObject [(''properties'', JObject [(''a'', JBool True)]), (''required'', JArray [JString ''a''])])"

lemma example_strict: "trim_space example_schema_text \<noteq> []"
  "StrictOutputSchemaFromJSON example_tools example_schema_text =
     Inr \<lparr>os_value = JObject [(''properties'', JObject [(''a'', JBool True)]), (''required'', JArray [JString ''a''])]\<rparr>"
  by code_simp+

theorem strict_schema_exact_witness:
  "\<exists>v. ParseJSONValue example_schema_text = Inr v \<and> StrictOutputSchemaFromJSON example_tools example_schema_text = Inr \<lparr>os_value = v\<rparr> \<and>
     OutputSchema_IsValid \<lparr>os_value = v\<rparr>"
  using strict_schema_exact[OF example_strict(1), THEN conjunct1, THEN iffD1, OF example_strict(2)] example_strict(2) by metis

end
