(* ===== verification/Codex_Caller.thy ===== *)
theory Codex_Caller
  imports Runner LlmAdapter Schema_Admission
begin

text \<open>
  The adapter from the neutral \<open>Caller\<close> interface to exact Codex runs: \<open>llmcaller/codex/caller.go\<close> and
  \<open>clone.go\<close>. The thread runner behind it and its streams act on a state \<open>'w\<close>. The JSON clones of generated
  values, and those values as package \<open>reflect\<close> shows them, are the parameter \<open>clone_lib\<close>; an error of a clone
  leaves nothing that a caller looks at. A Go panic is the left alternative of a \<open>panic\<close> sum.
\<close>

section \<open>Requests and runs\<close>

record 'v codex_turn =
  ct_OutputSchema :: "OutputSchema option"
  ct_other :: 'v

type_synonym ('t, 'v) StartThreadRunRequest = "('t, 'v codex_turn) ThreadRunRequest"

text \<open>The exact run as the adapter receives it: here a nil slice differs from an empty one.\<close>

record codex_run =
  cr_Turn :: Turn
  cr_Usage :: "ThreadTokenUsage option"
  cr_Notifications :: "ServerNotification slice"
  cr_FinalResponse :: gostring
  cr_FinalResponsePresent :: bool
  cr_InputStats :: InputStats
  cr_Diagnostics :: "DiagnosticRef slice"

record started_run =
  sr_Start :: ThreadResponse
  sr_Run :: codex_run

definition zero_start :: ThreadResponse where
  "zero_start = \<lparr>tr_ThreadID = [], tr_payload = []\<rparr>"

definition zero_run :: started_run where
  "zero_run = \<lparr>sr_Start = zero_start, sr_Run = \<lparr>cr_Turn = empty_turn, cr_Usage = None, cr_Notifications = None,
     cr_FinalResponse = [], cr_FinalResponsePresent = False,
     cr_InputStats = \<lparr>is_ItemsCount = 0, is_TextBytes = 0, is_AttachmentCount = 0, is_InputItemsHash = []\<rparr>, cr_Diagnostics = None\<rparr>\<rparr>"

record ('t, 'v) clone_lib =
  cg_thread :: "'t \<Rightarrow> go_error + 't"
  cg_turn_params :: "'v codex_turn TurnStartParams \<Rightarrow> go_error + 'v codex_turn TurnStartParams"
  cg_start :: "ThreadResponse \<Rightarrow> go_error + ThreadResponse"
  cg_turn :: "Turn \<Rightarrow> go_error + Turn"
  cg_usage :: "ThreadTokenUsage \<Rightarrow> go_error + ThreadTokenUsage"
  cg_notification :: "ServerNotification \<Rightarrow> go_error + ServerNotification"
  rv_start :: "ThreadResponse \<Rightarrow> reflect_value"
  rv_turn :: "Turn \<Rightarrow> reflect_value"
  rv_details :: "started_run \<Rightarrow> nat \<times> reflect_value list"

section \<open>Cloning\<close>

text \<open>The array case asks an array for a field, which \<open>reflect\<close> answers with a panic.\<close>

fun hasMutableReferences :: "reflect_value \<Rightarrow> panic + bool"
  and any_mutable :: "reflect_value list \<Rightarrow> panic + bool" where
  "hasMutableReferences RInvalid = Inr False"
| "hasMutableReferences (RInterface _ e) = (case e of None \<Rightarrow> Inr False | Some v \<Rightarrow> hasMutableReferences v)"
| "hasMutableReferences (RChan _ nil) = Inr (\<not> nil)"
| "hasMutableReferences (RFunc _ nil) = Inr (\<not> nil)"
| "hasMutableReferences (RMap _ e) = Inr (e \<noteq> None)"
| "hasMutableReferences (RPointer _ e) = Inr (e \<noteq> None)"
| "hasMutableReferences (RSlice _ e) = Inr (e \<noteq> None)"
| "hasMutableReferences (RUnsafePointer _ nil) = Inr (\<not> nil)"
| "hasMutableReferences (RArray _ vs) = (if vs = [] then Inr False else Inl (Panic ''reflect: call of reflect.Value.Field on array Value''))"
| "hasMutableReferences (RStruct _ vs) = any_mutable vs"
| "hasMutableReferences (RScalar _) = Inr False"
| "hasMutableReferences (RString _ _) = Inr False"
| "any_mutable [] = Inr False"
| "any_mutable (v # vs) = (case hasMutableReferences v of Inl p \<Rightarrow> Inl p | Inr True \<Rightarrow> Inr True | Inr False \<Rightarrow> any_mutable vs)"

definition cloneGeneratedOrSafeValue :: "('a \<Rightarrow> go_error + 'a) \<Rightarrow> ('a \<Rightarrow> reflect_value) \<Rightarrow> 'a \<Rightarrow> panic + go_error + 'a" where
  "cloneGeneratedOrSafeValue clone reflected source = (case clone source of
      Inr copy \<Rightarrow> Inr (Inr copy)
    | Inl err \<Rightarrow> (case hasMutableReferences (reflected source) of Inl p \<Rightarrow> Inl p
        | Inr True \<Rightarrow> Inr (Inl err) | Inr False \<Rightarrow> Inr (Inr source)))"

definition hasTurnEvidence :: "Turn \<Rightarrow> bool" where
  "hasTurnEvidence turn \<longleftrightarrow> tn_CompletedAt turn \<noteq> None \<or> tn_DurationMS turn \<noteq> None \<or> tn_Error turn \<noteq> None \<or> tn_ID turn \<noteq> [] \<or>
     tn_Items turn \<noteq> None \<or> tn_ItemsView turn \<noteq> None \<or> tn_StartedAt turn \<noteq> None \<or> tn_Status turn \<noteq> []"

definition cloneStartRequest :: "('t, 'v) clone_lib \<Rightarrow> ('t, 'v) StartThreadRunRequest \<Rightarrow> go_error + ('t, 'v) StartThreadRunRequest" where
  "cloneStartRequest L request = (case cg_thread L (rq_Thread request) of Inl e \<Rightarrow> Inl e
     | Inr thread \<Rightarrow>
         (let turn = rq_Turn request; nilInput = (tp_Input turn = None);
              turn = (if nilInput then turn\<lparr>tp_Input := Some []\<rparr> else turn)
          in case cg_turn_params L turn of Inl e \<Rightarrow> Inl e
           | Inr cloned \<Rightarrow> Inr \<lparr>rq_Thread = thread, rq_Turn = (if nilInput then cloned\<lparr>tp_Input := None\<rparr> else cloned),
               rq_AdmitTurn = rq_AdmitTurn request\<rparr>))"

definition clone_rest :: "('t, 'v) clone_lib \<Rightarrow> codex_run \<Rightarrow> go_error + codex_run" where
  "clone_rest L run =
     (case (case cr_Usage run of None \<Rightarrow> Inr None | Some u \<Rightarrow> (case cg_usage L u of Inl e \<Rightarrow> Inl e | Inr u \<Rightarrow> Inr (Some u))) of
        Inl e \<Rightarrow> Inl e
      | Inr usage \<Rightarrow>
          (case (case cr_Notifications run of None \<Rightarrow> Inr None
                 | Some ns \<Rightarrow> (case seq_res (map (cg_notification L) ns) of Inl e \<Rightarrow> Inl e | Inr ns \<Rightarrow> Inr (Some ns))) of
             Inl e \<Rightarrow> Inl e
           | Inr ns \<Rightarrow> Inr (run\<lparr>cr_Usage := usage, cr_Notifications := ns, cr_Diagnostics := append_nil (cr_Diagnostics run)\<rparr>)))"

definition cloneStartedRun :: "('t, 'v) clone_lib \<Rightarrow> started_run \<Rightarrow> panic + go_error + started_run" where
  "cloneStartedRun L run =
     (case (if sr_Start run \<noteq> zero_start then cloneGeneratedOrSafeValue (cg_start L) (rv_start L) (sr_Start run)
            else Inr (Inr zero_start)) of
        Inl p \<Rightarrow> Inl p | Inr (Inl e) \<Rightarrow> Inr (Inl e)
      | Inr (Inr start) \<Rightarrow>
          (case (if hasTurnEvidence (cr_Turn (sr_Run run)) then cloneGeneratedOrSafeValue (cg_turn L) (rv_turn L) (cr_Turn (sr_Run run))
                 else Inr (Inr (cr_Turn (sr_Run run)))) of
             Inl p \<Rightarrow> Inl p | Inr (Inl e) \<Rightarrow> Inr (Inl e)
           | Inr (Inr turn) \<Rightarrow> (case clone_rest L ((sr_Run run)\<lparr>cr_Turn := turn\<rparr>) of
               Inl e \<Rightarrow> Inr (Inl e) | Inr r \<Rightarrow> Inr (Inr \<lparr>sr_Start = start, sr_Run = r\<rparr>))))"

section \<open>The caller\<close>

record ('t, 'v, 's, 'w) ThreadRunner =
  tr_value :: reflect_value
  tr_Start :: "('t, 'v) StartThreadRunRequest \<Rightarrow> 'w \<Rightarrow> (started_run \<times> go_error option) \<times> 'w"
  tr_StartStream :: "('t, 'v) StartThreadRunRequest \<Rightarrow> 'w \<Rightarrow> ('s option \<times> go_error option) \<times> 'w"

record ('t, 'v, 's, 'w) codex_caller =
  ca_runner :: "('t, 'v, 's, 'w) ThreadRunner option"
  ca_defaults :: "('t, 'v) StartThreadRunRequest"

definition ErrNilThreadRunner :: go_error where "ErrNilThreadRunner = ErrNew ''llmcaller/codex: thread runner is nil''"
definition ErrMissingAdmission :: go_error where
  "ErrMissingAdmission = ErrNew ''llmcaller/codex: application-owned AdmitTurn is required''"

definition runner_nil :: "('t, 'v, 's, 'w) ThreadRunner option \<Rightarrow> bool" where
  "runner_nil runner = isNil (map_option tr_value runner)"

definition New :: "('t, 'v) clone_lib \<Rightarrow> ('t, 'v, 's, 'w) codex_caller \<Rightarrow> go_error + ('t, 'v, 's, 'w) codex_caller" where
  "New L options =
     (if runner_nil (ca_runner options) then Inl ErrNilThreadRunner
      else if tp_ThreadID (rq_Turn (ca_defaults options)) \<noteq> []
      then Inl (ErrNew ''llmcaller/codex: Defaults.Turn.ThreadID is adapter-owned'')
      else if tp_Input (rq_Turn (ca_defaults options)) \<noteq> None
      then Inl (ErrNew ''llmcaller/codex: Defaults.Turn.Input is adapter-owned'')
      else if ct_OutputSchema (tp_rest (rq_Turn (ca_defaults options))) \<noteq> None
      then Inl (ErrNew ''llmcaller/codex: Defaults.Turn.OutputSchema is adapter-owned'')
      else if rq_AdmitTurn (ca_defaults options) = None then Inl ErrMissingAdmission
      else case cloneStartRequest L (ca_defaults options) of
          Inl e \<Rightarrow> Inl (ErrWrap ''llmcaller/codex: clone defaults'' [e])
        | Inr defaults \<Rightarrow> Inr \<lparr>ca_runner = ca_runner options, ca_defaults = defaults\<rparr>)"

definition caller_request :: "('t, 'v) clone_lib \<Rightarrow> 'j schema_tools \<Rightarrow> ('t, 'v, 's, 'w) codex_caller \<Rightarrow> Request
    \<Rightarrow> go_error + ('t, 'v) StartThreadRunRequest" where
  "caller_request L T c request = (case StrictOutputSchemaFromJSON T (elems (req_OutputSchema request)) of Inl e \<Rightarrow> Inl e
     | Inr outputSchema \<Rightarrow> (case cloneStartRequest L (ca_defaults c) of Inl e \<Rightarrow> Inl e
         | Inr startRequest \<Rightarrow> Inr (startRequest\<lparr>rq_Turn := (rq_Turn startRequest)\<lparr>tp_ThreadID := [],
             tp_Input := Some [UserInputText (req_Prompt request)],
             tp_rest := (tp_rest (rq_Turn startRequest))\<lparr>ct_OutputSchema := Some outputSchema\<rparr>\<rparr>\<rparr>)))"

definition startRun :: "('t, 'v) clone_lib \<Rightarrow> 'j schema_tools \<Rightarrow> ('t, 'v, 's, 'w) codex_caller option \<Rightarrow> Request \<Rightarrow> 'w
    \<Rightarrow> (started_run \<times> go_error option) \<times> 'w" where
  "startRun L T c request w = (case c of None \<Rightarrow> ((zero_run, Some ErrNilThreadRunner), w)
     | Some c \<Rightarrow>
         if runner_nil (ca_runner c) then ((zero_run, Some ErrNilThreadRunner), w)
         else (case caller_request L T c request of Inl e \<Rightarrow> ((zero_run, Some e), w)
           | Inr startRequest \<Rightarrow> tr_Start (the (ca_runner c)) startRequest w))"

definition finalizeRun :: "('t, 'v) clone_lib \<Rightarrow> started_run \<Rightarrow> go_error option \<Rightarrow> panic + started_run \<times> go_error option" where
  "finalizeRun L run runErr = (case cloneStartedRun L run of Inl p \<Rightarrow> Inl p
     | Inr (Inl cloneErr) \<Rightarrow> Inr (run, errors_join [runErr, Some cloneErr])
     | Inr (Inr cloned) \<Rightarrow> Inr (cloned, errors_join [runErr, None]))"

definition CallDetailed :: "('t, 'v) clone_lib \<Rightarrow> 'j schema_tools \<Rightarrow> ('t, 'v, 's, 'w) codex_caller option \<Rightarrow> Request \<Rightarrow> 'w
    \<Rightarrow> (panic + started_run \<times> go_error option) \<times> 'w" where
  "CallDetailed L T c request w = (case startRun L T c request w of ((run, runErr), w) \<Rightarrow> (finalizeRun L run runErr, w))"

definition hasDecodedStart :: "started_run \<Rightarrow> go_error option \<Rightarrow> bool" where
  "hasDecodedStart run runErr \<longleftrightarrow> tr_ThreadID (sr_Start run) \<noteq> [] \<or>
     (case runErr of None \<Rightarrow> False | Some e \<Rightarrow> errors_is e ErrMissingThreadID)"

definition hasRunEvidence :: "started_run \<Rightarrow> go_error option \<Rightarrow> bool" where
  "hasRunEvidence run runErr \<longleftrightarrow> run \<noteq> zero_run \<or> hasDecodedStart run runErr"

definition zero_usage :: TokenUsage where
  "zero_usage = \<lparr>use_Input = Unknown 0, use_CachedInput = Unknown 0, use_Output = Unknown 0, use_ReasoningOutput = Unknown 0\<rparr>"

definition isolatedNeutralUsage :: "('t, 'v) clone_lib \<Rightarrow> ThreadTokenUsage option \<Rightarrow> go_error + TokenUsage option" where
  "isolatedNeutralUsage L usage = (case usage of None \<Rightarrow> Inr None
     | Some u \<Rightarrow> (case cg_usage L u of Inl e \<Rightarrow> Inl e
         | Inr cloned \<Rightarrow> Inr (ObserveCounts (tb_InputTokens (tu_Total cloned)) (tb_CachedInputTokens (tu_Total cloned))
             (tb_OutputTokens (tu_Total cloned)) (tb_ReasoningOutputTokens (tu_Total cloned)) (Some zero_usage))))"

definition BackendName :: gostring where "BackendName = ''codex''"

definition Details :: "('t, 'v) clone_lib \<Rightarrow> started_run \<Rightarrow> BackendDetails" where
  "Details L run = \<lparr>bd_value = (case rv_details L run of (n, fs) \<Rightarrow> RStruct n fs), bd_BackendName = BackendName\<rparr>"

definition projectNeutralResponse :: "('t, 'v) clone_lib \<Rightarrow> started_run \<Rightarrow> go_error + started_run \<Rightarrow> Response" where
  "projectNeutralResponse L run cloned =
     (let response = zero_response\<lparr>res_Execution := zero_evidence\<lparr>ev_BackendName := ''codex''\<rparr>\<rparr>;
          response = (if cr_FinalResponsePresent (sr_Run run)
            then response\<lparr>res_FinalResponse := Observed (cr_FinalResponse (sr_Run run))\<rparr> else response);
          response = (case isolatedNeutralUsage L (cr_Usage (sr_Run run)) of Inl _ \<Rightarrow> response
            | Inr usage \<Rightarrow> response\<lparr>res_Execution := (res_Execution response)\<lparr>ev_Usage := usage\<rparr>\<rparr>)
      in case cloned of Inl _ \<Rightarrow> response | Inr c \<Rightarrow> response\<lparr>res_BackendDetails := Some (Details L c)\<rparr>)"

definition Call :: "('t, 'v) clone_lib \<Rightarrow> 'j schema_tools \<Rightarrow> ('t, 'v, 's, 'w) codex_caller option \<Rightarrow> Request \<Rightarrow> 'w
    \<Rightarrow> (panic + Response \<times> go_error option) \<times> 'w" where
  "Call L T c request w = (case startRun L T c request w of ((run, runErr), w) \<Rightarrow>
     if \<not> hasRunEvidence run runErr then (Inr (zero_response, runErr), w)
     else (case cloneStartedRun L run of Inl p \<Rightarrow> (Inl p, w)
       | Inr cloned \<Rightarrow> (Inr (projectNeutralResponse L run cloned,
           errors_join [runErr, (case cloned of Inl e \<Rightarrow> Some e | Inr _ \<Rightarrow> None)]), w)))"

section \<open>Streams\<close>

text \<open>The exact SDK stream \<open>'s\<close> behind the wrapper, as the wrapper uses it.\<close>

record ('s, 'w) startedRunStream =
  so_Next :: "'s \<Rightarrow> 'w \<Rightarrow> bool \<times> 'w"
  so_Notification :: "'s \<Rightarrow> 'w \<Rightarrow> ServerNotification option"
  so_Wait :: "'s \<Rightarrow> 'w \<Rightarrow> (started_run \<times> go_error option) \<times> 'w"
  so_Result :: "'s \<Rightarrow> 'w \<Rightarrow> started_run option"
  so_Err :: "'s \<Rightarrow> 'w \<Rightarrow> go_error option"
  so_Close :: "'s \<Rightarrow> 'w \<Rightarrow> go_error option \<times> 'w"

record 's codex_stream =
  cs_stream :: "'s option"
  cs_finalize :: bool

definition CallStream :: "('t, 'v) clone_lib \<Rightarrow> 'j schema_tools \<Rightarrow> ('t, 'v, 's, 'w) codex_caller option \<Rightarrow> Request \<Rightarrow> 'w
    \<Rightarrow> ('s codex_stream option \<times> go_error option) \<times> 'w" where
  "CallStream L T c request w = (case c of None \<Rightarrow> ((None, Some ErrNilThreadRunner), w)
     | Some c \<Rightarrow>
         if runner_nil (ca_runner c) then ((None, Some ErrNilThreadRunner), w)
         else (case caller_request L T c request of Inl e \<Rightarrow> ((None, Some e), w)
           | Inr startRequest \<Rightarrow> (case tr_StartStream (the (ca_runner c)) startRequest w of
               ((None, streamErr), w) \<Rightarrow> ((None, streamErr), w)
             | ((Some stream, streamErr), w) \<Rightarrow> ((Some \<lparr>cs_stream = Some stream, cs_finalize = True\<rparr>, streamErr), w))))"

definition stream_of :: "'s codex_stream option \<Rightarrow> 's option" where
  "stream_of s = Option.bind s cs_stream"

definition Stream_Next :: "('s, 'w) startedRunStream \<Rightarrow> 's codex_stream option \<Rightarrow> 'w \<Rightarrow> bool \<times> 'w" where
  "Stream_Next S s w = (case stream_of s of None \<Rightarrow> (False, w) | Some x \<Rightarrow> so_Next S x w)"

definition Stream_Notification :: "('s, 'w) startedRunStream \<Rightarrow> 's codex_stream option \<Rightarrow> 'w \<Rightarrow> ServerNotification option" where
  "Stream_Notification S s w = (case stream_of s of None \<Rightarrow> None | Some x \<Rightarrow> so_Notification S x w)"

definition stream_finalizeRun :: "('t, 'v) clone_lib \<Rightarrow> 's codex_stream option \<Rightarrow> started_run \<Rightarrow> go_error option \<Rightarrow> panic + started_run \<times> go_error option" where
  "stream_finalizeRun L s run err = (if \<not> cs_finalize (the s) then Inr (run, err) else finalizeRun L run err)"

definition codex_Wait :: "('t, 'v) clone_lib \<Rightarrow> ('s, 'w) startedRunStream \<Rightarrow> 's codex_stream option \<Rightarrow> 'w
    \<Rightarrow> (panic + started_run \<times> go_error option) \<times> 'w" where
  "codex_Wait L S s w = (case stream_of s of None \<Rightarrow> (Inr (zero_run, Some ErrStreamClosed), w)
     | Some x \<Rightarrow> (case so_Wait S x w of ((run, err), w) \<Rightarrow> (stream_finalizeRun L s run err, w)))"

definition codex_Result :: "('s, 'w) startedRunStream \<Rightarrow> 's codex_stream option \<Rightarrow> 'w \<Rightarrow> started_run option" where
  "codex_Result S s w = (case stream_of s of None \<Rightarrow> None | Some x \<Rightarrow> so_Result S x w)"

definition isTerminalRun :: "started_run \<Rightarrow> bool" where
  "isTerminalRun run \<longleftrightarrow> tn_Status (cr_Turn (sr_Run run)) \<in> {''completed'', ''failed'', ''interrupted''}"

definition codex_Err :: "('t, 'v) clone_lib \<Rightarrow> ('s, 'w) startedRunStream \<Rightarrow> 's codex_stream option \<Rightarrow> 'w \<Rightarrow> panic + go_error option" where
  "codex_Err L S s w = (case stream_of s of None \<Rightarrow> Inr (Some ErrStreamClosed)
     | Some x \<Rightarrow> (case so_Result S x w of None \<Rightarrow> Inr (so_Err S x w)
         | Some run \<Rightarrow>
             if so_Err S x w = None \<and> \<not> isTerminalRun run then Inr None
             else (case stream_finalizeRun L s run (so_Err S x w) of Inl p \<Rightarrow> Inl p | Inr (_, err) \<Rightarrow> Inr err)))"

definition codex_Close :: "('s, 'w) startedRunStream \<Rightarrow> 's codex_stream option \<Rightarrow> 'w \<Rightarrow> go_error option \<times> 'w" where
  "codex_Close S s w = (case stream_of s of None \<Rightarrow> (None, w) | Some x \<Rightarrow> so_Close S x w)"

section \<open>Properties\<close>

lemma New_keeps_admission:
  "New L options = Inr c \<Longrightarrow> ca_runner c = ca_runner options \<and> \<not> runner_nil (ca_runner c) \<and>
     rq_AdmitTurn (ca_defaults c) = rq_AdmitTurn (ca_defaults options) \<and> rq_AdmitTurn (ca_defaults options) \<noteq> None"
  by (auto simp: New_def cloneStartRequest_def Let_def split: if_splits sum.splits)

lemma caller_request_Inr:
  assumes "caller_request L T c request = Inr r"
  shows "rq_AdmitTurn r = rq_AdmitTurn (ca_defaults c) \<and> tp_ThreadID (rq_Turn r) = [] \<and>
    tp_Input (rq_Turn r) = Some [UserInputText (req_Prompt request)] \<and>
    (\<exists>schema. StrictOutputSchemaFromJSON T (elems (req_OutputSchema request)) = Inr schema \<and>
       ct_OutputSchema (tp_rest (rq_Turn r)) = Some schema)"
  using assms by (auto simp: caller_request_def cloneStartRequest_def Let_def split: sum.splits if_splits)

text \<open>The trimming of \<open>codex\<close> does nothing, so the adapter's details always agree with its evidence.\<close>

lemma codex_name: "trim_space ''codex'' = ''codex''"
  by code_simp

lemma projected_fields:
  "ev_BackendName (res_Execution (projectNeutralResponse L run cloned)) = ''codex''"
  "res_BackendDetails (projectNeutralResponse L run cloned) = (case cloned of Inl _ \<Rightarrow> None | Inr c \<Rightarrow> Some (Details L c))"
  "Obs_Value (res_FinalResponse (projectNeutralResponse L run cloned)) =
     (if cr_FinalResponsePresent (sr_Run run) then (cr_FinalResponse (sr_Run run), True) else ([], False))"
proof -
  note defs = projectNeutralResponse_def Let_def zero_response_def Obs_Value_def Observed_def Unknown_def
  show "ev_BackendName (res_Execution (projectNeutralResponse L run cloned)) = ''codex''"
    by (cases "isolatedNeutralUsage L (cr_Usage (sr_Run run))"; cases cloned; simp add: defs)
  show "res_BackendDetails (projectNeutralResponse L run cloned) = (case cloned of Inl _ \<Rightarrow> None | Inr c \<Rightarrow> Some (Details L c))"
    by (cases "isolatedNeutralUsage L (cr_Usage (sr_Run run))"; cases cloned; simp add: defs)
  show "Obs_Value (res_FinalResponse (projectNeutralResponse L run cloned)) =
      (if cr_FinalResponsePresent (sr_Run run) then (cr_FinalResponse (sr_Run run), True) else ([], False))"
    by (cases "isolatedNeutralUsage L (cr_Usage (sr_Run run))"; cases cloned; simp add: defs)
qed

lemma projected_identity: "validateBackendIdentity (projectNeutralResponse L run cloned) = None"
  by (cases cloned) (auto simp: validateBackendIdentity_def projected_fields Details_def BackendName_def codex_name
      isNilValue_def split: prod.split)

lemma startRun_started:
  assumes "New L options = Inr c" "startRun L T (Some c) request w = ((run, runErr), w')"
  shows "(\<exists>r. caller_request L T c request = Inr r \<and> tr_Start (the (ca_runner options)) r w = ((run, runErr), w')) \<or>
    (\<exists>e. caller_request L T c request = Inl e \<and> run = zero_run \<and> runErr = Some e \<and> w' = w)"
  using assms(2) New_keeps_admission[OF assms(1)] by (auto simp: startRun_def split: sum.splits)

text \<open>C14: a call of an adapter that \<open>New\<close> made either fails before any effect, because the schema or the clone of
  the defaults is refused, or starts exactly one run, on a new thread, with the prompt as its only input, the
  caller's own schema, and the application's own admission function. Its response always passes the identity
  check of the neutral layer, its final response is observed exactly when the run has one and is then the run's,
  every error of the run is found in the error of the call, and a call without an error had a run without one.\<close>

theorem codex_call_faithful:
  assumes "New L options = Inr c" "Call L T (Some c) request w = (Inr (response, err), w')"
  shows "validateBackendIdentity response = None \<and> rq_AdmitTurn (ca_defaults options) \<noteq> None \<and>
    ((\<exists>e e'. caller_request L T c request = Inl e \<and> err = Some e' \<and> errors_is e' e \<and> \<not> Present (res_FinalResponse response) \<and> w' = w) \<or>
     (\<exists>r schema run runErr. tr_Start (the (ca_runner options)) r w = ((run, runErr), w') \<and>
        rq_AdmitTurn r = rq_AdmitTurn (ca_defaults options) \<and> tp_ThreadID (rq_Turn r) = [] \<and>
        tp_Input (rq_Turn r) = Some [UserInputText (req_Prompt request)] \<and>
        StrictOutputSchemaFromJSON T (elems (req_OutputSchema request)) = Inr schema \<and>
        ct_OutputSchema (tp_rest (rq_Turn r)) = Some schema \<and>
        Obs_Value (res_FinalResponse response) =
          (if cr_FinalResponsePresent (sr_Run run) then (cr_FinalResponse (sr_Run run), True) else ([], False)) \<and>
        (case runErr of None \<Rightarrow> True | Some e \<Rightarrow> (case err of None \<Rightarrow> False | Some e' \<Rightarrow> errors_is e' e))))"
proof -
  obtain run runErr v where start: "startRun L T (Some c) request w = ((run, runErr), v)" by (metis prod.exhaust)
  have admit: "rq_AdmitTurn (ca_defaults c) = rq_AdmitTurn (ca_defaults options)" "rq_AdmitTurn (ca_defaults options) \<noteq> None"
    using New_keeps_admission[OF assms(1)] by auto
  have v: "v = w'" using assms(2) start by (auto simp: Call_def split: if_splits sum.splits)
  have shape: "(\<exists>cloned. response = projectNeutralResponse L run cloned \<and>
        err = errors_join [runErr, (case cloned of Inl e \<Rightarrow> Some e | Inr _ \<Rightarrow> None)]) \<or>
      response = zero_response \<and> err = runErr \<and> run = zero_run"
    using assms(2) start by (auto simp: Call_def hasRunEvidence_def split: if_splits sum.splits)
  have zero: "validateBackendIdentity zero_response = None" "Obs_Value (res_FinalResponse zero_response) = ([], False)"
    "\<not> cr_FinalResponsePresent (sr_Run zero_run)"
    by (simp_all add: validateBackendIdentity_def zero_response_def Obs_Value_def Unknown_def zero_run_def)
  have ident: "validateBackendIdentity response = None" using shape projected_identity zero(1) by auto
  have final: "Obs_Value (res_FinalResponse response) =
      (if cr_FinalResponsePresent (sr_Run run) then (cr_FinalResponse (sr_Run run), True) else ([], False))"
    using shape
  proof
    assume "\<exists>cloned. response = projectNeutralResponse L run cloned \<and>
        err = errors_join [runErr, (case cloned of Inl e \<Rightarrow> Some e | Inr _ \<Rightarrow> None)]"
    then show ?thesis by (auto simp: projected_fields(3))
  qed (use zero in simp)
  have err: "case runErr of None \<Rightarrow> True | Some e \<Rightarrow> (case err of None \<Rightarrow> False | Some e' \<Rightarrow> errors_is e' e)"
  proof (cases runErr)
    case (Some e)
    from shape show ?thesis
    proof
      assume "\<exists>cloned. response = projectNeutralResponse L run cloned \<and>
          err = errors_join [runErr, (case cloned of Inl e \<Rightarrow> Some e | Inr _ \<Rightarrow> None)]"
      then obtain x where x: "err = errors_join [Some e, x]" using Some by blast
      moreover obtain j where "errors_join [Some e, x] = Some j" by (cases "errors_join [Some e, x]") auto
      ultimately show ?thesis using Some errors_join_is[of e "[Some e, x]" e j] by simp
    qed (use Some in simp)
  qed simp
  from startRun_started[OF assms(1) start] show ?thesis
  proof (elim disjE exE conjE)
    fix r assume "caller_request L T c request = Inr r" "tr_Start (the (ca_runner options)) r w = ((run, runErr), v)"
    then show ?thesis using caller_request_Inr[of L T c request r] admit ident final err v by auto
  next
    fix e assume "caller_request L T c request = Inl e" "run = zero_run" "runErr = Some e" "v = w"
    then show ?thesis
      using final err zero(3) ident admit v by (auto simp: Present_def Obs_Value_def split: option.splits)
  qed
qed

text \<open>A runner that counts its runs and answers each with the same run.\<close>

definition example_clones :: "(unit, unit) clone_lib" where
  "example_clones = \<lparr>cg_thread = Inr, cg_turn_params = Inr, cg_start = Inr, cg_turn = Inr, cg_usage = Inr, cg_notification = Inr,
     rv_start = (\<lambda>_. RInvalid), rv_turn = (\<lambda>_. RInvalid), rv_details = (\<lambda>_. (0, []))\<rparr>"

definition example_run :: started_run where
  "example_run = zero_run\<lparr>sr_Run := (sr_Run zero_run)\<lparr>cr_FinalResponse := ''{}'', cr_FinalResponsePresent := True\<rparr>\<rparr>"

definition example_codex :: "(unit, unit, unit, nat) codex_caller" where
  "example_codex = \<lparr>ca_runner = Some \<lparr>tr_value = RStruct 0 [], tr_Start = (\<lambda>_ w. ((example_run, None), Suc w)),
       tr_StartStream = (\<lambda>_ w. ((None, None), w))\<rparr>,
     ca_defaults = \<lparr>rq_Thread = (), rq_Turn = \<lparr>tp_ThreadID = [], tp_Input = None, tp_rest = \<lparr>ct_OutputSchema = None, ct_other = ()\<rparr>\<rparr>,
       rq_AdmitTurn = Some (\<lambda>_ _. None)\<rparr>\<rparr>"

definition example_codex_request :: Request where
  "example_codex_request = \<lparr>req_Prompt = ''hi'', req_OutputSchema = Some example_schema_text\<rparr>"

lemma example_New: "New example_clones example_codex = Inr example_codex"
  by (simp add: New_def runner_nil_def isNil_def isNilValue_def example_codex_def cloneStartRequest_def example_clones_def)

lemma example_Call: "Call example_clones example_tools (Some example_codex) example_codex_request 0 =
    (Inr (projectNeutralResponse example_clones example_run (Inr example_run), None), 1)"
  by (simp add: Call_def startRun_def runner_nil_def isNil_def isNilValue_def caller_request_def example_codex_request_def example_strict(2)
      cloneStartRequest_def example_codex_def example_clones_def hasRunEvidence_def example_run_def zero_run_def
      cloneStartedRun_def cloneGeneratedOrSafeValue_def hasTurnEvidence_def empty_turn_def clone_rest_def append_nil_def
      errors_join_def List.map_filter_def zero_start_def)

theorem codex_call_faithful_witness:
  "\<exists>response. Call example_clones example_tools (Some example_codex) example_codex_request 0 = (Inr (response, None), 1) \<and>
     validateBackendIdentity response = None"
  using codex_call_faithful[OF example_New example_Call] example_Call by blast

end
