(* ===== verification/Sync_Policy.thy ===== *)
theory Sync_Policy
  imports Prelude
begin

text \<open>
  The target policy of the protocol upgrade, \<open>codexsdk/internal/protocolsync/policy.go\<close>: whether a selected
  upstream target may replace the checked-in baseline. The two regular expressions are the predicates
  \<open>sha_match\<close> and \<open>rust_tag_groups\<close>.
\<close>

section \<open>Identities\<close>

definition KindStableTag :: gostring where "KindStableTag = ''stable_rust_tag''"
definition KindManualRef :: gostring where "KindManualRef = ''manual_ref''"
definition KindManualCommit :: gostring where "KindManualCommit = ''manual_commit''"

definition DecisionAllow :: gostring where "DecisionAllow = ''allow''"
definition DecisionSkip :: gostring where "DecisionSkip = ''skip''"
definition DecisionBlock :: gostring where "DecisionBlock = ''block''"

lemmas kinds = KindStableTag_def KindManualRef_def KindManualCommit_def DecisionAllow_def DecisionSkip_def DecisionBlock_def

definition validKinds :: "gostring \<Rightarrow> bool" where
  "validKinds k \<longleftrightarrow> k \<in> {KindStableTag, KindManualRef, KindManualCommit}"

definition ascii_digit :: "char \<Rightarrow> bool" where
  "ascii_digit c \<longleftrightarrow> 48 \<le> (of_char c :: nat) \<and> (of_char c :: nat) \<le> 57"

text \<open>\<open>^[0-9a-f]{40}$\<close>\<close>

definition sha_match :: "gostring \<Rightarrow> bool" where
  "sha_match s \<longleftrightarrow> length s = 40 \<and>
     list_all (\<lambda>c. ascii_digit c \<or> (97 \<le> (of_char c :: nat) \<and> (of_char c :: nat) \<le> 102)) s"

text \<open>\<open>^rust-v([0-9]+)\.([0-9]+)\.([0-9]+)$\<close>: the groups hold no dot, so they are what the dots separate.\<close>

definition rust_tag_groups :: "gostring \<Rightarrow> gostring list option" where
  "rust_tag_groups ref =
     (if has_prefix ref ''rust-v'' then
        let groups = split_on (CHR ''.'') (drop 6 ref)
        in if length groups = 3 \<and> list_all (\<lambda>g. g \<noteq> [] \<and> list_all ascii_digit g) groups then Some groups else None
      else None)"

text \<open>\<open>strconv.Atoi\<close> of a text of digits: an error above the largest 64-bit integer.\<close>

definition digits_value :: "gostring \<Rightarrow> int" where
  "digits_value s = foldl (\<lambda>a c. 10 * a + (int (of_char c) - 48)) 0 s"

definition atoi_digits :: "gostring \<Rightarrow> int option" where
  "atoi_digits s = (if digits_value s \<le> int64_max then Some (digits_value s) else None)"

definition parseRustTag :: "gostring \<Rightarrow> int list option" where
  "parseRustTag ref = (case rust_tag_groups ref of None \<Rightarrow> None
     | Some groups \<Rightarrow> those (map atoi_digits groups))"

fun compareVersion :: "int list \<Rightarrow> int list \<Rightarrow> int" where
  "compareVersion (a # as) (b # bs) = (if a > b then 1 else if a < b then - 1 else compareVersion as bs)"
| "compareVersion _ _ = 0"

definition inferRefKind :: "gostring \<Rightarrow> gostring" where
  "inferRefKind ref = (if rust_tag_groups ref \<noteq> None then KindStableTag
     else if sha_match ref then KindManualCommit else KindManualRef)"

record BaselineIdentity =
  bi_SourceCommit :: gostring
  bi_SourceRefName :: gostring
  bi_SourceRefKind :: gostring

record PolicyRequest =
  pq_Baseline :: BaselineIdentity
  pq_TargetRef :: gostring
  pq_TargetKind :: gostring
  pq_TargetSHA :: gostring
  pq_TargetExplicit :: bool
  pq_Mode :: gostring
  pq_AllowDowngrade :: bool

record PolicyDecision =
  pd_Decision :: gostring
  pd_Reason :: gostring
  pd_BaselineRefName :: gostring
  pd_BaselineRefKind :: gostring
  pd_BaselineCommit :: gostring
  pd_TargetRefName :: gostring
  pd_TargetRefKind :: gostring
  pd_TargetCommit :: gostring
  pd_TargetExplicit :: bool
  pd_Mode :: gostring

section \<open>The decision\<close>

definition policy_decision :: "PolicyRequest \<Rightarrow> gostring \<Rightarrow> gostring \<Rightarrow> PolicyDecision" where
  "policy_decision req kind reason = \<lparr>pd_Decision = kind, pd_Reason = reason,
     pd_BaselineRefName = bi_SourceRefName (pq_Baseline req), pd_BaselineRefKind = bi_SourceRefKind (pq_Baseline req),
     pd_BaselineCommit = bi_SourceCommit (pq_Baseline req), pd_TargetRefName = pq_TargetRef req,
     pd_TargetRefKind = pq_TargetKind req, pd_TargetCommit = pq_TargetSHA req, pd_TargetExplicit = pq_TargetExplicit req,
     pd_Mode = (if pq_Mode req = [] then ''manual'' else pq_Mode req)\<rparr>"

definition stable_policy :: "PolicyRequest \<Rightarrow> gostring \<times> gostring" where
  "stable_policy req = (let b = pq_Baseline req in case parseRustTag (pq_TargetRef req) of
      None \<Rightarrow> (DecisionBlock, ''stable target is not a rust-vX.Y.Z tag: '' @ pq_TargetRef req)
    | Some targetVersion \<Rightarrow>
        if bi_SourceRefKind b = KindStableTag then (case parseRustTag (bi_SourceRefName b) of
            None \<Rightarrow> (DecisionBlock, ''stable baseline is not a rust-vX.Y.Z tag: '' @ bi_SourceRefName b)
          | Some baselineVersion \<Rightarrow>
              if compareVersion targetVersion baselineVersion > 0 then (DecisionAllow, ''stable tag moves forward by version'')
              else if compareVersion targetVersion baselineVersion = 0
              then (DecisionBlock, ''stable tag name matches baseline but peeled commit changed'')
              else if pq_AllowDowngrade req \<and> pq_TargetExplicit req then (DecisionAllow, ''explicit stable tag downgrade requested'')
              else (DecisionBlock, ''stable tag target is older than the current baseline tag''))
        else if pq_TargetExplicit req then (DecisionAllow, ''explicit track switch from manual baseline to stable tag'')
        else (DecisionBlock, ''current baseline is manual; automatic stable-tag drift detection would switch tracks''))"

definition EvaluatePolicy :: "PolicyRequest \<Rightarrow> PolicyDecision" where
  "EvaluatePolicy req = (let b = pq_Baseline req in case
     (if \<not> sha_match (bi_SourceCommit b) \<or> bi_SourceRefName b = [] \<or> \<not> validKinds (bi_SourceRefKind b)
      then (DecisionBlock, ''baseline source identity is incomplete or unsupported'')
      else if \<not> validKinds (pq_TargetKind req) \<or> \<not> sha_match (pq_TargetSHA req)
      then (DecisionBlock, ''target source identity is incomplete or unsupported'')
      else if bi_SourceCommit b = pq_TargetSHA req
      then (DecisionSkip, ''baseline already points at the selected upstream commit'')
      else if pq_TargetKind req = KindStableTag then stable_policy req
      else if pq_TargetExplicit req then (DecisionAllow, ''explicit manual upstream target requested'')
      else (DecisionBlock, ''manual upstream targets must be explicit'')) of (kind, reason) \<Rightarrow> policy_decision req kind reason)"

section \<open>Properties\<close>

text \<open>The versions of two stable tags, newer first.\<close>

definition newer_tag :: "gostring \<Rightarrow> gostring \<Rightarrow> bool" where
  "newer_tag a b = (case (parseRustTag a, parseRustTag b) of (Some x, Some y) \<Rightarrow> x > y | _ \<Rightarrow> False)"

definition baseline_ok :: "BaselineIdentity \<Rightarrow> bool" where
  "baseline_ok b \<longleftrightarrow> sha_match (bi_SourceCommit b) \<and> bi_SourceRefName b \<noteq> [] \<and> validKinds (bi_SourceRefKind b)"

text \<open>The baseline that an accepted request leaves behind.\<close>

definition applied :: "PolicyRequest \<Rightarrow> BaselineIdentity" where
  "applied req = \<lparr>bi_SourceCommit = pq_TargetSHA req, bi_SourceRefName = pq_TargetRef req, bi_SourceRefKind = pq_TargetKind req\<rparr>"

lemma those_length: "those xs = Some ys \<Longrightarrow> length ys = length xs"
  by (induction xs arbitrary: ys) (auto split: option.splits)

lemma parseRustTag_length: "parseRustTag r = Some v \<Longrightarrow> length v = 3"
  by (auto simp: parseRustTag_def rust_tag_groups_def Let_def dest!: those_length split: option.splits if_splits)

lemma compareVersion_less: "length a = length b \<Longrightarrow> compareVersion a b > 0 \<longleftrightarrow> a > b"
  by (induction a b rule: list_induct2) auto

lemma compareVersion_eq: "length a = length b \<Longrightarrow> compareVersion a b = 0 \<longleftrightarrow> a = b"
  by (induction a b rule: list_induct2) auto

lemma automatic_allow_iff:
  "\<not> pq_TargetExplicit req \<Longrightarrow> pd_Decision (EvaluatePolicy req) = DecisionAllow \<longleftrightarrow>
     baseline_ok (pq_Baseline req) \<and> sha_match (pq_TargetSHA req) \<and> pq_TargetSHA req \<noteq> bi_SourceCommit (pq_Baseline req) \<and>
     pq_TargetKind req = KindStableTag \<and> bi_SourceRefKind (pq_Baseline req) = KindStableTag \<and>
     newer_tag (pq_TargetRef req) (bi_SourceRefName (pq_Baseline req))"
  using parseRustTag_length compareVersion_less
  by (auto simp: EvaluatePolicy_def stable_policy_def policy_decision_def baseline_ok_def newer_tag_def Let_def validKinds_def kinds
      split: option.splits if_splits)

lemma newer_tag_trans: "newer_tag a b \<Longrightarrow> newer_tag b c \<Longrightarrow> newer_tag a c"
  by (auto simp: newer_tag_def split: option.splits)

lemma newer_tag_irrefl: "\<not> newer_tag a a"
  by (auto simp: newer_tag_def split: option.splits)

inductive upgrade :: "BaselineIdentity \<Rightarrow> BaselineIdentity \<Rightarrow> bool" where
  "pd_Decision (EvaluatePolicy req) = DecisionAllow \<Longrightarrow> \<not> pq_TargetExplicit req \<Longrightarrow> upgrade (pq_Baseline req) (applied req)"

lemma upgrade_newer: "upgrade b b' \<Longrightarrow> newer_tag (bi_SourceRefName b') (bi_SourceRefName b) \<and> bi_SourceRefKind b' = KindStableTag"
  by (induction rule: upgrade.induct) (auto simp: automatic_allow_iff applied_def)

lemma upgrades_newer: "upgrade\<^sup>+\<^sup>+ b b' \<Longrightarrow> newer_tag (bi_SourceRefName b') (bi_SourceRefName b)"
  by (induction rule: tranclp_induct) (auto dest: upgrade_newer newer_tag_trans)

text \<open>C20: unattended upgrades only move forward. However many targets are accepted without having been asked for
  explicitly, each on the baseline the previous one left, the last one is a stable tag of a strictly greater
  version than the first baseline, so no such sequence ever comes back to a baseline it left; and a request
  for the commit that is checked in already is never applied.\<close>

theorem automatic_upgrades_forward:
  assumes "upgrade\<^sup>+\<^sup>+ b b'"
  shows "newer_tag (bi_SourceRefName b') (bi_SourceRefName b) \<and> bi_SourceRefKind b' = KindStableTag \<and> \<not> upgrade\<^sup>*\<^sup>* b' b \<and>
    (pq_Baseline req = b \<and> pq_TargetSHA req = bi_SourceCommit b \<longrightarrow> pd_Decision (EvaluatePolicy req) \<noteq> DecisionAllow)"
proof (intro conjI)
  show newer: "newer_tag (bi_SourceRefName b') (bi_SourceRefName b)" using upgrades_newer[OF assms] .
  from assms obtain c where "upgrade c b'" by (auto elim: tranclp.cases)
  then show "bi_SourceRefKind b' = KindStableTag" using upgrade_newer by blast
  show "\<not> upgrade\<^sup>*\<^sup>* b' b"
    using newer upgrades_newer[of b' b] newer_tag_trans newer_tag_irrefl by (metis rtranclpD)
  show "pq_Baseline req = b \<and> pq_TargetSHA req = bi_SourceCommit b \<longrightarrow> pd_Decision (EvaluatePolicy req) \<noteq> DecisionAllow"
    by (auto simp: EvaluatePolicy_def policy_decision_def Let_def kinds split: if_splits)
qed

definition example_upgrade :: PolicyRequest where
  "example_upgrade = \<lparr>pq_Baseline = \<lparr>bi_SourceCommit = replicate 40 (CHR ''a''), bi_SourceRefName = ''rust-v0.9.0'', bi_SourceRefKind = KindStableTag\<rparr>,
     pq_TargetRef = ''rust-v0.10.0'', pq_TargetKind = KindStableTag, pq_TargetSHA = replicate 40 (CHR ''b''), pq_TargetExplicit = False,
     pq_Mode = [], pq_AllowDowngrade = False\<rparr>"

lemma example_upgrade_allowed: "pd_Decision (EvaluatePolicy example_upgrade) = DecisionAllow" "\<not> pq_TargetExplicit example_upgrade"
  by code_simp+

theorem automatic_upgrades_forward_witness:
  "newer_tag ''rust-v0.10.0'' ''rust-v0.9.0'' \<and> \<not> upgrade\<^sup>*\<^sup>* (applied example_upgrade) (pq_Baseline example_upgrade)"
  using automatic_upgrades_forward[OF tranclp.r_into_trancl[of upgrade, OF upgrade.intros[OF example_upgrade_allowed]]]
  by (simp add: applied_def example_upgrade_def)

end
