(* ===== verification/Check_Acceptance.thy ===== *)
theory Check_Acceptance
  imports Sync_Policy JSON_Value
begin

text \<open>
  Acceptance of required checks, \<open>codexsdk/internal/checkacceptance/checks.go\<close> and \<open>recovery.go\<close>: which
  results of GitHub Actions count as proof for an exact head, and when a cancelled workflow may be rerun.

  The API is a parameter that acts on a state \<open>'w\<close>: a GET returns the raw response, a POST only an error. The
  decoding of a response into its struct is part of the parameter as well. The instants of workflow runs are
  integers, with the zero time as 0.
\<close>

section \<open>Required checks\<close>

text \<open>The code's \<open>State\<close> is a string with five named values; any other one, the zero value among them, is an \<open>OtherState\<close>.\<close>

datatype State = Missing | Pending | Failed | Cancelled | Succeeded | OtherState gostring

abbreviation zero_state :: State where
  "zero_state \<equiv> OtherState []"

definition RequiredNames :: "gostring list" where
  "RequiredNames = [''Root source verification'', ''Codex generated reproducibility / Generated reproducibility'',
     ''Codex protocol provenance'', ''Live Codex integration / Live scenarios'']"

record CheckRun =
  cr_ID :: int
  cr_Name :: gostring
  cr_HeadSHA :: gostring
  cr_Status :: gostring
  cr_Conclusion :: gostring
  cr_AppSlug :: gostring

definition zero_check_run :: CheckRun where
  "zero_check_run = \<lparr>cr_ID = 0, cr_Name = [], cr_HeadSHA = [], cr_Status = [], cr_Conclusion = [], cr_AppSlug = []\<rparr>"

record Check =
  ck_Name :: gostring
  ck_State :: State
  ck_RunID :: int
  ck_Conclusion :: gostring

record Observation =
  ob_Head :: gostring
  ob_State :: State
  ob_Checks :: "Check list"
  ob_WorkflowRunID :: int
  ob_WorkflowAttempt :: int
  ob_WorkflowState :: State

definition zero_observation :: Observation where
  "zero_observation = \<lparr>ob_Head = [], ob_State = zero_state, ob_Checks = [], ob_WorkflowRunID = 0, ob_WorkflowAttempt = 0, ob_WorkflowState = zero_state\<rparr>"

definition eligible_run :: "gostring \<Rightarrow> gostring \<Rightarrow> CheckRun \<Rightarrow> bool" where
  "eligible_run head name run \<longleftrightarrow> cr_Name run = name \<and> cr_HeadSHA run = head \<and> cr_AppSlug run = ''github-actions''"

definition latest_run :: "gostring \<Rightarrow> gostring \<Rightarrow> CheckRun list \<Rightarrow> CheckRun" where
  "latest_run head name runs = foldl (\<lambda>latest run. if eligible_run head name run \<and> cr_ID run > cr_ID latest then run else latest)
     zero_check_run runs"

definition check_of :: "gostring \<Rightarrow> CheckRun list \<Rightarrow> gostring \<Rightarrow> Check" where
  "check_of head runs name = (let latest = latest_run head name runs in
     \<lparr>ck_Name = name,
      ck_State = (if cr_ID latest > 0 then
          (if cr_Status latest = ''completed'' then
             (if cr_Conclusion latest = ''success'' then Succeeded else if cr_Conclusion latest = ''cancelled'' then Cancelled
              else if cr_Conclusion latest = [] then Pending else Failed)
           else Pending) else Missing),
      ck_RunID = cr_ID latest, ck_Conclusion = cr_Conclusion latest\<rparr>)"

fun first_state :: "State list \<Rightarrow> Check list \<Rightarrow> State option" where
  "first_state [] checks = None"
| "first_state (s # ss) checks = (if \<exists>c \<in> set checks. ck_State c = s then Some s else first_state ss checks)"

definition Evaluate :: "gostring \<Rightarrow> CheckRun list \<Rightarrow> Observation" where
  "Evaluate head runs = (let checks = map (check_of head runs) RequiredNames in
     \<lparr>ob_Head = head,
      ob_State = (case first_state [Failed, Cancelled, Missing, Pending] checks of Some s \<Rightarrow> s | None \<Rightarrow> Succeeded),
      ob_Checks = checks, ob_WorkflowRunID = 0, ob_WorkflowAttempt = 0, ob_WorkflowState = zero_state\<rparr>)"

section \<open>Reading listings\<close>

record WorkflowRun =
  wr_StartedAt :: int
  wr_ID :: int
  wr_HeadSHA :: gostring
  wr_Attempt :: int
  wr_Status :: gostring
  wr_Conclusion :: gostring

definition zero_workflow_run :: WorkflowRun where
  "zero_workflow_run = \<lparr>wr_StartedAt = 0, wr_ID = 0, wr_HeadSHA = [], wr_Attempt = 0, wr_Status = [], wr_Conclusion = []\<rparr>"

record recovery_job =
  rj_Name :: gostring
  rj_HeadSHA :: gostring
  rj_Status :: gostring
  rj_Conclusion :: gostring
  rj_StartedAt :: "gostring option"
  rj_StepStatuses :: "gostring list"

record recovery_pr =
  rp_State :: gostring
  rp_HeadSHA :: gostring
  rp_HeadRef :: gostring
  rp_RepoFullName :: gostring

record 'w check_api =
  ca_Get :: "gostring \<Rightarrow> 'w \<Rightarrow> (go_error + gostring) \<times> 'w"
  ca_Post :: "gostring \<Rightarrow> 'w \<Rightarrow> go_error option \<times> 'w"
  ca_check_page :: "gostring \<Rightarrow> go_error + int \<times> CheckRun list"
  ca_workflow_page :: "gostring \<Rightarrow> go_error + int \<times> WorkflowRun list"
  ca_job_page :: "gostring \<Rightarrow> go_error + int \<times> recovery_job list"
  ca_workflow_run :: "gostring \<Rightarrow> go_error + WorkflowRun"
  ca_pr :: "gostring \<Rightarrow> go_error + recovery_pr"
  ca_ref_sha :: "gostring \<Rightarrow> go_error + gostring"
  ca_PathEscape :: "gostring \<Rightarrow> gostring"

text \<open>A failed read is repeated once; a response that does not decode is not.\<close>

definition read_api :: "'w check_api \<Rightarrow> (gostring \<Rightarrow> go_error + 'a) \<Rightarrow> gostring \<Rightarrow> 'w \<Rightarrow> (go_error + 'a) \<times> 'w" where
  "read_api A decode path w = (case ca_Get A path w of
      (Inr raw, w) \<Rightarrow> (decode raw, w)
    | (Inl _, w) \<Rightarrow> (case ca_Get A path w of (Inr raw, w) \<Rightarrow> (decode raw, w) | (Inl e, w) \<Rightarrow> (Inl e, w)))"

text \<open>
  The loop that the three listings share: pages are read until one is not full, at most \<open>n\<close> of them, the total
  must not change between pages and must be the number of entries in the end, and each entry passes \<open>item\<close>.
\<close>

fun page_loop :: "(nat \<Rightarrow> 'w \<Rightarrow> (go_error + int \<times> 'a list) \<times> 'w) \<Rightarrow> ('a \<Rightarrow> 'b \<Rightarrow> go_error + 'b) \<Rightarrow> (nat \<Rightarrow> bool)
    \<Rightarrow> gostring \<times> gostring \<times> gostring \<Rightarrow> nat \<Rightarrow> nat \<Rightarrow> int \<Rightarrow> int \<Rightarrow> 'b \<Rightarrow> 'w \<Rightarrow> (go_error + 'b) \<times> 'w" where
  "page_loop rd item full msgs 0 page tot count acc w = (Inl (ErrNew (snd (snd msgs))), w)"
| "page_loop rd item full msgs (Suc n) page tot count acc w = (case rd page w of (Inl e, w) \<Rightarrow> (Inl e, w)
     | (Inr (batchTotal, entries), w) \<Rightarrow>
         if 0 \<le> tot \<and> tot \<noteq> batchTotal then (Inl (ErrNew (fst msgs)), w)
         else (case fold_res item entries acc of Inl e \<Rightarrow> (Inl e, w)
           | Inr acc \<Rightarrow>
               let count = count + int (length entries) in
               if full (length entries) then page_loop rd item full msgs n (Suc page) batchTotal count acc w
               else if count \<noteq> batchTotal then (Inl (ErrNew (fst (snd msgs))), w)
               else (Inr acc, w)))"

definition check_item :: "CheckRun \<Rightarrow> CheckRun list \<Rightarrow> go_error + CheckRun list" where
  "check_item run runs = (if cr_ID run \<le> 0 \<or> cr_ID run \<in> cr_ID ` set runs
     then Inl (ErrNew ''invalid or repeated check-run ID while observing H'') else Inr (runs @ [run]))"

definition workflowState :: "WorkflowRun \<Rightarrow> State" where
  "workflowState run = (if wr_ID run = 0 then Missing
     else if wr_Status run \<noteq> ''completed'' \<or> wr_Conclusion run = [] then Pending
     else if wr_Conclusion run = ''success'' then Succeeded
     else if wr_Conclusion run = ''cancelled'' then Cancelled else Failed)"

text \<open>The state of the workflow loop: the run ids seen, the latest run, and whether a run is active.\<close>

definition workflow_item :: "gostring \<Rightarrow> WorkflowRun \<Rightarrow> int list \<times> WorkflowRun \<times> bool \<Rightarrow> go_error + int list \<times> WorkflowRun \<times> bool" where
  "workflow_item head run acc = (case acc of (seen, latest, active) \<Rightarrow>
     if wr_ID run \<le> 0 \<or> wr_ID run \<in> set seen \<or> wr_HeadSHA run \<noteq> head \<or> wr_Attempt run < 1
     then Inl (ErrNew ''invalid workflow observation for H'')
     else Inr (wr_ID run # seen,
       (if wr_StartedAt run > wr_StartedAt latest \<or> (wr_StartedAt run = wr_StartedAt latest \<and> wr_ID run > wr_ID latest)
        then run else latest),
       active \<or> workflowState run = Pending))"

definition page_suffix :: "nat \<Rightarrow> gostring" where
  "page_suffix page = ''per_page=100&page='' @ itoa page"

definition workflow_pages :: "'w check_api \<Rightarrow> gostring \<Rightarrow> gostring \<Rightarrow> nat \<Rightarrow> 'w \<Rightarrow> (go_error + int \<times> WorkflowRun list) \<times> 'w" where
  "workflow_pages A repository head page = read_api A (ca_workflow_page A)
     (''repos/'' @ repository @ ''/actions/workflows/pr-verification.yml/runs?head_sha='' @ head @ ''&'' @ page_suffix page)"

definition observeWorkflow :: "'w check_api \<Rightarrow> gostring \<Rightarrow> gostring \<Rightarrow> Observation \<Rightarrow> 'w \<Rightarrow> (go_error + Observation) \<times> 'w" where
  "observeWorkflow A repository head result w =
     (case page_loop (workflow_pages A repository head) (workflow_item head) (\<lambda>n. n = 100)
         (''workflow listing changed while observing H'', ''incomplete workflow listing for H'', ''workflow listing exceeds bounded observation for H'')
         100 1 (- 1) 0 ([], zero_workflow_run, False) w of
        (Inl e, w) \<Rightarrow> (Inl e, w)
      | (Inr (_, latest, active), w) \<Rightarrow>
          let state = (if active then Pending else workflowState latest);
              result = result\<lparr>ob_WorkflowRunID := wr_ID latest, ob_WorkflowAttempt := wr_Attempt latest, ob_WorkflowState := state\<rparr>
          in (Inr (if state \<noteq> Succeeded then result\<lparr>ob_State := state\<rparr> else result), w))"

text \<open>\<open>^[A-Za-z0-9_.-]+/[A-Za-z0-9_.-]+$\<close>\<close>

definition repo_char :: "char \<Rightarrow> bool" where
  "repo_char c \<longleftrightarrow> ascii_digit c \<or> (65 \<le> (of_char c :: nat) \<and> (of_char c :: nat) \<le> 90) \<or> (97 \<le> (of_char c :: nat) \<and> (of_char c :: nat) \<le> 122) \<or>
     c \<in> {CHR ''_'', CHR ''.'', CHR ''-''}"

definition repository_match :: "gostring \<Rightarrow> bool" where
  "repository_match s = (case split_on (CHR ''/'') s of [a, b] \<Rightarrow> a \<noteq> [] \<and> b \<noteq> [] \<and> list_all repo_char a \<and> list_all repo_char b | _ \<Rightarrow> False)"

definition check_pages :: "'w check_api \<Rightarrow> gostring \<Rightarrow> gostring \<Rightarrow> nat \<Rightarrow> 'w \<Rightarrow> (go_error + int \<times> CheckRun list) \<times> 'w" where
  "check_pages A repository head page = read_api A (ca_check_page A)
     (''repos/'' @ repository @ ''/commits/'' @ head @ ''/check-runs?filter=all&'' @ page_suffix page)"

definition Observe :: "'w check_api \<Rightarrow> gostring \<Rightarrow> gostring \<Rightarrow> 'w \<Rightarrow> (go_error + Observation) \<times> 'w" where
  "Observe A repository head w =
     (if \<not> sha_match head \<or> \<not> repository_match repository
      then (Inl (ErrNew ''repository and exact 40-character head SHA are required''), w)
      else case page_loop (check_pages A repository head) check_item (\<lambda>n. \<not> n < 100)
          (''check listing changed while observing H'', ''incomplete check listing for H'', ''check listing exceeds bounded observation for H'')
          100 1 (- 1) 0 [] w of
        (Inl e, w) \<Rightarrow> (Inl e, w)
      | (Inr runs, w) \<Rightarrow> observeWorkflow A repository head (Evaluate head runs) w)"

section \<open>Recovery of a cancelled workflow\<close>

definition str_contains :: "gostring \<Rightarrow> gostring \<Rightarrow> bool" where
  "str_contains s p \<longleftrightarrow> list_ex (\<lambda>i. has_prefix (drop i s) p) [0..<Suc (length s)]"

definition maintainer :: "gostring \<Rightarrow> go_error" where
  "maintainer msg = ErrNew (''needs-maintainer: '' @ msg)"

definition recovery_item :: "gostring \<Rightarrow> recovery_job \<Rightarrow> unit \<Rightarrow> go_error + unit" where
  "recovery_item head job u =
     (if rj_HeadSHA job \<noteq> head \<or> rj_Status job \<noteq> ''completed'' then Inl (maintainer ''job identity or state changed'')
      else if rj_Conclusion job \<notin> {''success'', ''cancelled'', ''skipped''} then Inl (maintainer ''job failure requires investigation'')
      else if str_contains (rj_Name job) ''Live scenarios'' \<and> rj_Conclusion job \<noteq> ''success'' then
        (if rj_StartedAt job \<noteq> None then Inl (maintainer ''cancelled live job already started'')
         else if \<not> list_all (\<lambda>s. s = ''queued'') (rj_StepStatuses job)
         then Inl (maintainer ''cancelled live execution must not be replayed'') else Inr u)
      else Inr u)"

definition job_pages :: "'w check_api \<Rightarrow> gostring \<Rightarrow> int \<Rightarrow> int \<Rightarrow> nat \<Rightarrow> 'w \<Rightarrow> (go_error + int \<times> recovery_job list) \<times> 'w" where
  "job_pages A repository runID attempt page = read_api A (ca_job_page A)
     (''repos/'' @ repository @ ''/actions/runs/'' @ itoa (nat runID) @ ''/attempts/'' @ itoa (nat attempt) @ ''/jobs?'' @ page_suffix page)"

definition verifyRecoveryJobs :: "'w check_api \<Rightarrow> gostring \<Rightarrow> gostring \<Rightarrow> int \<Rightarrow> int \<Rightarrow> 'w \<Rightarrow> (go_error + unit) \<times> 'w" where
  "verifyRecoveryJobs A repository head runID attempt w =
     page_loop (job_pages A repository runID attempt) (recovery_item head) (\<lambda>n. \<not> n < 100)
       (''needs-maintainer: jobs changed during recovery observation'', ''needs-maintainer: incomplete jobs listing'',
        ''needs-maintainer: jobs listing exceeds bounded observation'') 100 1 (- 1) 0 () w"

text \<open>The reads behind the verified jobs: the pull request, its ref, the run, and the workflow once more.\<close>

definition recovery_reads :: "'w check_api \<Rightarrow> gostring \<Rightarrow> gostring \<Rightarrow> int \<Rightarrow> int \<Rightarrow> int \<Rightarrow> 'w \<Rightarrow> (go_error + gostring) \<times> 'w" where
  "recovery_reads A repository head pr runID attempt w =
     (case read_api A (ca_pr A) (''repos/'' @ repository @ ''/pulls/'' @ itoa (nat pr)) w of (Inl e, w) \<Rightarrow> (Inl e, w)
      | (Inr current, w) \<Rightarrow>
     if rp_State current \<noteq> ''open'' \<or> rp_HeadSHA current \<noteq> head \<or> rp_RepoFullName current \<noteq> repository
     then (Inl (maintainer ''PR head changed before recovery''), w)
     else if rp_HeadRef current = [] then (Inl (maintainer ''PR has no head ref''), w)
     else (case read_api A (ca_ref_sha A) (''repos/'' @ repository @ ''/git/ref/heads/'' @ ca_PathEscape A (rp_HeadRef current)) w of
        (Inl e, w) \<Rightarrow> (Inl e, w)
      | (Inr sha, w) \<Rightarrow>
     if sha \<noteq> head then (Inl (maintainer ''remote head changed before recovery''), w)
     else let path = ''repos/'' @ repository @ ''/actions/runs/'' @ itoa (nat runID) in
       (case read_api A (ca_workflow_run A) path w of (Inl e, w) \<Rightarrow> (Inl e, w)
      | (Inr currentRun, w) \<Rightarrow>
     if wr_ID currentRun \<noteq> runID \<or> wr_HeadSHA currentRun \<noteq> head \<or> wr_Attempt currentRun \<noteq> attempt \<or> workflowState currentRun \<noteq> Cancelled
     then (Inl (maintainer ''run changed before recovery''), w)
     else (case observeWorkflow A repository head
         (zero_observation\<lparr>ob_Head := head\<rparr>) w of
        (Inl e, w) \<Rightarrow> (Inl e, w)
      | (Inr latest, w) \<Rightarrow>
     if ob_WorkflowRunID latest \<noteq> runID \<or> ob_WorkflowAttempt latest \<noteq> attempt \<or> ob_WorkflowState latest \<noteq> Cancelled
     then (Inl (maintainer ''latest workflow changed before recovery''), w)
     else (Inr path, w)))))"

definition RecoverCancelled :: "'w check_api \<Rightarrow> gostring \<Rightarrow> gostring \<Rightarrow> int \<Rightarrow> int \<Rightarrow> int \<Rightarrow> 'w \<Rightarrow> go_error option \<times> 'w" where
  "RecoverCancelled A repository head pr runID attempt w =
     (if pr \<le> 0 \<or> runID \<le> 0 \<or> attempt \<noteq> 1 then (Some (maintainer ''recovery is limited to one retry of attempt 1''), w)
      else case Observe A repository head w of (Inl e, w) \<Rightarrow> (Some e, w)
      | (Inr observation, w) \<Rightarrow>
     if ob_WorkflowState observation \<noteq> Cancelled \<or> ob_WorkflowRunID observation \<noteq> runID \<or> ob_WorkflowAttempt observation \<noteq> attempt
     then (Some (maintainer ''cancellation observation changed''), w)
     else if list_ex (\<lambda>check. ck_State check = Failed) (ob_Checks observation)
     then (Some (maintainer ''failed required check is not automatically retried''), w)
     else (case verifyRecoveryJobs A repository head runID attempt w of (Inl e, w) \<Rightarrow> (Some e, w)
      | (Inr _, w) \<Rightarrow> (case recovery_reads A repository head pr runID attempt w of (Inl e, w) \<Rightarrow> (Some e, w)
        | (Inr path, w) \<Rightarrow> ca_Post A (path @ ''/rerun-failed-jobs'') w)))"

section \<open>Complete listings\<close>

fun pages_read :: "(nat \<Rightarrow> 'w \<Rightarrow> (go_error + int \<times> 'a list) \<times> 'w) \<Rightarrow> nat \<Rightarrow> (int \<times> 'a list) list \<Rightarrow> 'w \<Rightarrow> 'w \<Rightarrow> bool" where
  "pages_read rd page [] w w' \<longleftrightarrow> w = w'"
| "pages_read rd page (b # bs) w w' \<longleftrightarrow> (\<exists>v. rd page w = (Inr b, v) \<and> pages_read rd (Suc page) bs v w')"

text \<open>All pages from the first on, with as many entries as the last one announces.\<close>

definition complete_listing :: "(nat \<Rightarrow> 'w \<Rightarrow> (go_error + int \<times> 'a list) \<times> 'w) \<Rightarrow> 'w \<Rightarrow> 'a list \<Rightarrow> 'w \<Rightarrow> bool" where
  "complete_listing rd w entries w' \<longleftrightarrow> (\<exists>pages. pages \<noteq> [] \<and> pages_read rd 1 pages w w' \<and> entries = concat (map snd pages) \<and>
     fst (last pages) = int (length entries))"

lemma page_loop_reads:
  "page_loop rd item full msgs n page tot count acc w = (Inr b, w') \<Longrightarrow>
   \<exists>pages. pages \<noteq> [] \<and> pages_read rd page pages w w' \<and> fold_res item (concat (map snd pages)) acc = Inr b \<and>
     fst (last pages) = count + int (length (concat (map snd pages)))"
proof (induction rd item full msgs n page tot count acc w rule: page_loop.induct)
  case (2 rd item full msgs n page tot count acc w)
  from "2.prems" obtain t es v acc' where rd: "rd page w = (Inr (t, es), v)" and ok: "\<not> (0 \<le> tot \<and> tot \<noteq> t)"
    and item: "fold_res item es acc = Inr acc'"
    by (auto split: prod.splits sum.splits if_splits)
  show ?case
  proof (cases "full (length es)")
    case True
    with "2.prems" rd ok item have "page_loop rd item full msgs n (Suc page) t (count + int (length es)) acc' v = (Inr b, w')"
      by (auto split: if_splits)
    from "2.IH"[OF rd[symmetric] refl refl ok item refl True this] obtain pages where
      "pages \<noteq> []" "pages_read rd (Suc page) pages v w'" "fold_res item (concat (map snd pages)) acc' = Inr b"
      "fst (last pages) = count + int (length es) + int (length (concat (map snd pages)))" by blast
    with rd item show ?thesis by (intro exI[of _ "(t, es) # pages"]) (auto simp: fold_res_append)
  next
    case False
    with "2.prems" rd ok item show ?thesis by (intro exI[of _ "[(t, es)]"]) (auto split: if_splits)
  qed
qed simp

lemma page_loop_listing:
  assumes "page_loop rd item full msgs n 1 (- 1) 0 acc w = (Inr b, w')"
  shows "\<exists>entries. complete_listing rd w entries w' \<and> fold_res item entries acc = Inr b"
  using page_loop_reads[OF assms] by (fastforce simp: complete_listing_def)

lemma check_items: "fold_res check_item rs runs = Inr runs' \<Longrightarrow> distinct (map cr_ID runs) \<Longrightarrow>
    runs' = runs @ rs \<and> distinct (map cr_ID runs') \<and> (\<forall>r \<in> set rs. 0 < cr_ID r)"
  by (induction rs arbitrary: runs) (force simp: check_item_def split: if_splits sum.splits)+

text \<open>The latest run is the one with the greatest id among the eligible ones.\<close>

lemma latest_run_snoc: "latest_run head name (rs @ [r]) =
    (if eligible_run head name r \<and> cr_ID r > cr_ID (latest_run head name rs) then r else latest_run head name rs)"
  by (simp add: latest_run_def)

lemma latest_run_max:
  "(latest_run head name rs = zero_check_run \<or> latest_run head name rs \<in> set rs \<and> eligible_run head name (latest_run head name rs)) \<and>
   (\<forall>r \<in> set rs. eligible_run head name r \<longrightarrow> cr_ID r \<le> cr_ID (latest_run head name rs)) \<and> 0 \<le> cr_ID (latest_run head name rs)"
proof (induction rs rule: rev_induct)
  case (snoc r rs)
  then show ?case by (auto simp: latest_run_snoc)
qed (simp add: latest_run_def zero_check_run_def)

definition proves :: "gostring \<Rightarrow> CheckRun list \<Rightarrow> gostring \<Rightarrow> bool" where
  "proves head runs name \<longleftrightarrow> (\<exists>r \<in> set runs. eligible_run head name r \<and> cr_Status r = ''completed'' \<and> cr_Conclusion r = ''success'' \<and>
     (\<forall>r' \<in> set runs. eligible_run head name r' \<longrightarrow> cr_ID r' \<le> cr_ID r))"

lemma check_of_Succeeded: "ck_State (check_of head runs name) = Succeeded \<Longrightarrow> proves head runs name"
  using latest_run_max[of head name runs]
  by (auto simp: check_of_def proves_def Let_def zero_check_run_def split: if_splits)

lemma first_state_None: "first_state ss cs = None \<longleftrightarrow> (\<forall>c \<in> set cs. ck_State c \<notin> set ss)"
  by (induction ss) auto

lemma first_state_Some: "first_state ss cs = Some s \<Longrightarrow> s \<in> set ss"
  by (induction ss) (auto split: if_splits)

lemma Evaluate_Succeeded: "ob_State (Evaluate head runs) = Succeeded \<Longrightarrow> name \<in> set RequiredNames \<Longrightarrow> proves head runs name"
proof -
  assume s: "ob_State (Evaluate head runs) = Succeeded" and name: "name \<in> set RequiredNames"
  then have "first_state [Failed, Cancelled, Missing, Pending] (map (check_of head runs) RequiredNames) = None"
    using first_state_Some[of "[Failed, Cancelled, Missing, Pending]" "map (check_of head runs) RequiredNames"]
    by (cases "first_state [Failed, Cancelled, Missing, Pending] (map (check_of head runs) RequiredNames)") (auto simp: Evaluate_def Let_def)
  with name have "ck_State (check_of head runs name) \<notin> {Failed, Cancelled, Missing, Pending}"
    unfolding first_state_None by auto
  then have "ck_State (check_of head runs name) = Succeeded" by (auto simp: check_of_def Let_def split: if_splits)
  then show ?thesis by (rule check_of_Succeeded)
qed

definition later_run :: "WorkflowRun \<Rightarrow> WorkflowRun \<Rightarrow> bool" where
  "later_run a b \<longleftrightarrow> wr_StartedAt a > wr_StartedAt b \<or> (wr_StartedAt a = wr_StartedAt b \<and> wr_ID a > wr_ID b)"

lemma not_later_trans: "\<not> later_run a b \<Longrightarrow> \<not> later_run b c \<Longrightarrow> \<not> later_run a c"
  by (auto simp: later_run_def)

lemma workflow_items:
  "fold_res (workflow_item head) rs (seen, latest, active) = Inr (seen', latest', active') \<Longrightarrow>
   (latest' = latest \<or> latest' \<in> set rs) \<and> (\<forall>r \<in> set rs. wr_HeadSHA r = head \<and> 0 < wr_ID r \<and> \<not> later_run r latest') \<and> \<not> later_run latest latest' \<and>
   (active' \<longleftrightarrow> active \<or> (\<exists>r \<in> set rs. workflowState r = Pending))"
proof (induction rs arbitrary: seen latest active)
  case (Cons r rs)
  let ?l = "if later_run r latest then r else latest"
  from Cons.prems have ok: "0 < wr_ID r" "wr_HeadSHA r = head"
    and rest: "fold_res (workflow_item head) rs (wr_ID r # seen, ?l, active \<or> workflowState r = Pending) = Inr (seen', latest', active')"
    by (auto simp: workflow_item_def[of head r] later_run_def split: if_splits sum.splits)
  have l: "\<not> later_run r ?l" "\<not> later_run latest ?l" "?l = latest \<or> ?l = r" by (auto simp: later_run_def)
  note ih = Cons.IH[OF rest]
  from ih l have "\<not> later_run r latest'" "\<not> later_run latest latest'" by (meson not_later_trans)+
  moreover have "latest' = latest \<or> latest' \<in> set (r # rs)" using ih l(3) by auto
  ultimately show ?case using ih ok by simp
qed (simp add: later_run_def)

section \<open>Properties\<close>

text \<open>What accepts the workflow: its latest run succeeded, and no run of the head is still active.\<close>

definition workflow_proof :: "gostring \<Rightarrow> WorkflowRun list \<Rightarrow> Observation \<Rightarrow> bool" where
  "workflow_proof head wruns obs \<longleftrightarrow> (\<exists>latest \<in> set wruns. workflowState latest = Succeeded \<and> ob_WorkflowRunID obs = wr_ID latest \<and>
     ob_WorkflowAttempt obs = wr_Attempt latest \<and> (\<forall>r \<in> set wruns. \<not> later_run r latest)) \<and>
     (\<forall>r \<in> set wruns. wr_HeadSHA r = head \<and> workflowState r \<noteq> Pending)"

lemma observeWorkflow_Inr:
  assumes "observeWorkflow A repository head result w = (Inr obs, w')"
  shows "\<exists>wruns. complete_listing (workflow_pages A repository head) w wruns w' \<and> ob_Head obs = ob_Head result \<and> ob_Checks obs = ob_Checks result \<and>
    (ob_State obs = Succeeded \<longrightarrow> ob_State result = Succeeded \<and> workflow_proof head wruns obs)"
proof -
  let ?loop = "page_loop (workflow_pages A repository head) (workflow_item head) (\<lambda>n. n = 100)
         (''workflow listing changed while observing H'', ''incomplete workflow listing for H'', ''workflow listing exceeds bounded observation for H'')
         100 1 (- 1) 0 ([], zero_workflow_run, False) w"
  obtain seen latest active where loop: "?loop = (Inr (seen, latest, active), w')"
    using assms by (cases ?loop; cases "fst ?loop") (auto simp: observeWorkflow_def Let_def)
  obtain wruns where ls: "complete_listing (workflow_pages A repository head) w wruns w'"
    and fold: "fold_res (workflow_item head) wruns ([], zero_workflow_run, False) = Inr (seen, latest, active)"
    using page_loop_listing[OF loop] by blast
  have obs: "obs = (let state = (if active then Pending else workflowState latest);
        r = result\<lparr>ob_WorkflowRunID := wr_ID latest, ob_WorkflowAttempt := wr_Attempt latest, ob_WorkflowState := state\<rparr>
      in if state \<noteq> Succeeded then r\<lparr>ob_State := state\<rparr> else r)"
    using assms loop by (auto simp: observeWorkflow_def Let_def)
  show ?thesis
  proof (intro exI[of _ wruns] conjI impI)
    assume s: "ob_State obs = Succeeded"
    then have ok: "\<not> active" "workflowState latest = Succeeded" using obs by (auto simp: Let_def split: if_splits)
    then have "latest \<noteq> zero_workflow_run" by (auto simp: workflowState_def zero_workflow_run_def)
    with ok workflow_items[OF fold] obs show "workflow_proof head wruns obs" by (auto simp: workflow_proof_def Let_def)
    show "ob_State result = Succeeded" using s ok obs by (auto simp: Let_def)
  qed (use obs ls in \<open>auto simp: Let_def\<close>)
qed

text \<open>C18: a head is reported as accepted only on complete proof: every page of both listings was read and their
  entries are as many as announced; each required check has a run of GitHub Actions on exactly this head that
  completed with success and is the latest of that name; the latest run of the verification workflow on this
  head succeeded, and no run of it is still active, so that an old success never stands in for a newer attempt.\<close>

theorem Observe_success_proved:
  assumes "Observe A repository head w = (Inr obs, w')" "ob_State obs = Succeeded"
  shows "sha_match head \<and> ob_Head obs = head \<and>
    (\<exists>runs wruns v. complete_listing (check_pages A repository head) w runs v \<and> distinct (map cr_ID runs) \<and>
       (\<forall>name \<in> set RequiredNames. proves head runs name) \<and>
       complete_listing (workflow_pages A repository head) v wruns w' \<and> workflow_proof head wruns obs)"
proof -
  let ?loop = "page_loop (check_pages A repository head) check_item (\<lambda>n. \<not> n < 100)
          (''check listing changed while observing H'', ''incomplete check listing for H'', ''check listing exceeds bounded observation for H'')
          100 1 (- 1) 0 [] w"
  have sha: "sha_match head" using assms(1) by (auto simp: Observe_def split: if_splits)
  obtain runs v where loop: "?loop = (Inr runs, v)" and wf: "observeWorkflow A repository head (Evaluate head runs) v = (Inr obs, w')"
    using assms(1) by (cases ?loop; cases "fst ?loop") (auto simp: Observe_def split: if_splits)
  from page_loop_listing[OF loop] obtain rs where "complete_listing (check_pages A repository head) w rs v" "fold_res check_item rs [] = Inr runs" by blast
  with check_items[of rs "[]" runs] have runs: "complete_listing (check_pages A repository head) w runs v" "distinct (map cr_ID runs)" by auto
  from observeWorkflow_Inr[OF wf] assms(2) obtain wruns where
    w: "complete_listing (workflow_pages A repository head) v wruns w'" "ob_Head obs = ob_Head (Evaluate head runs)"
      "ob_State (Evaluate head runs) = Succeeded" "workflow_proof head wruns obs" by blast
  have "\<forall>name \<in> set RequiredNames. proves head runs name" using Evaluate_Succeeded[OF w(3)] by blast
  moreover have "ob_Head obs = head" using w(2) by (simp add: Evaluate_def Let_def)
  ultimately show ?thesis using sha runs w by blast
qed

lemma recovery_items:
  "fold_res (recovery_item head) jobs () = Inr u \<Longrightarrow> job \<in> set jobs \<Longrightarrow>
   rj_HeadSHA job = head \<and> rj_Status job = ''completed'' \<and> rj_Conclusion job \<in> {''success'', ''cancelled'', ''skipped''} \<and>
   (str_contains (rj_Name job) ''Live scenarios'' \<longrightarrow> rj_Conclusion job = ''success'' \<or>
      rj_StartedAt job = None \<and> list_all (\<lambda>s. s = ''queued'') (rj_StepStatuses job))"
proof (induction jobs)
  case (Cons j jobs)
  then have "recovery_item head j () = Inr ()" "fold_res (recovery_item head) jobs () = Inr u" by (auto split: sum.splits)
  with Cons show ?case by (auto simp: recovery_item_def split: if_splits)
qed simp

lemma post_fields:
  "ca_Get (A\<lparr>ca_Post := g\<rparr>) = ca_Get A" "ca_check_page (A\<lparr>ca_Post := g\<rparr>) = ca_check_page A"
  "ca_workflow_page (A\<lparr>ca_Post := g\<rparr>) = ca_workflow_page A" "ca_job_page (A\<lparr>ca_Post := g\<rparr>) = ca_job_page A"
  "ca_workflow_run (A\<lparr>ca_Post := g\<rparr>) = ca_workflow_run A" "ca_pr (A\<lparr>ca_Post := g\<rparr>) = ca_pr A"
  "ca_ref_sha (A\<lparr>ca_Post := g\<rparr>) = ca_ref_sha A" "ca_PathEscape (A\<lparr>ca_Post := g\<rparr>) = ca_PathEscape A"
  by simp_all

lemma read_api_post: "read_api (A\<lparr>ca_Post := g\<rparr>) decode path w = read_api A decode path w"
  unfolding read_api_def post_fields by (rule refl)

lemma pages_post: "workflow_pages (A\<lparr>ca_Post := g\<rparr>) = workflow_pages A" "check_pages (A\<lparr>ca_Post := g\<rparr>) = check_pages A"
  "job_pages (A\<lparr>ca_Post := g\<rparr>) = job_pages A"
  by (intro ext; simp add: workflow_pages_def check_pages_def job_pages_def read_api_post post_fields)+

lemma observe_post: "observeWorkflow (A\<lparr>ca_Post := g\<rparr>) repository head result w = observeWorkflow A repository head result w"
  "Observe (A\<lparr>ca_Post := g\<rparr>) repository head w = Observe A repository head w"
  unfolding Observe_def observeWorkflow_def pages_post by (rule refl)+

lemma recovery_post: "verifyRecoveryJobs (A\<lparr>ca_Post := g\<rparr>) repository head runID attempt w = verifyRecoveryJobs A repository head runID attempt w"
  "recovery_reads (A\<lparr>ca_Post := g\<rparr>) repository head pr runID attempt w = recovery_reads A repository head pr runID attempt w"
  unfolding verifyRecoveryJobs_def recovery_reads_def pages_post observe_post read_api_post post_fields by (rule refl)+


text \<open>A repository whose four checks and workflow ended with one conclusion; the state counts the reruns.\<close>

definition example_head :: gostring where "example_head = replicate 40 (CHR ''a'')"

definition example_api :: "gostring \<Rightarrow> nat check_api" where
  "example_api conclusion = \<lparr>ca_Get = (\<lambda>path w. (Inr path, w)), ca_Post = (\<lambda>path w. (None, Suc w)),
     ca_check_page = (\<lambda>_. Inr (4, map (\<lambda>(i, name). \<lparr>cr_ID = i, cr_Name = name, cr_HeadSHA = example_head, cr_Status = ''completed'',
       cr_Conclusion = conclusion, cr_AppSlug = ''github-actions''\<rparr>) (zip [1, 2, 3, 4] RequiredNames))),
     ca_workflow_page = (\<lambda>_. Inr (1, [\<lparr>wr_StartedAt = 5, wr_ID = 9, wr_HeadSHA = example_head, wr_Attempt = 1, wr_Status = ''completed'', wr_Conclusion = conclusion\<rparr>])),
     ca_job_page = (\<lambda>_. Inr (1, [\<lparr>rj_Name = ''Live scenarios'', rj_HeadSHA = example_head, rj_Status = ''completed'', rj_Conclusion = ''cancelled'',
       rj_StartedAt = None, rj_StepStatuses = []\<rparr>])),
     ca_workflow_run = (\<lambda>_. Inr \<lparr>wr_StartedAt = 5, wr_ID = 9, wr_HeadSHA = example_head, wr_Attempt = 1, wr_Status = ''completed'', wr_Conclusion = conclusion\<rparr>),
     ca_pr = (\<lambda>_. Inr \<lparr>rp_State = ''open'', rp_HeadSHA = example_head, rp_HeadRef = ''b'', rp_RepoFullName = ''o/r''\<rparr>),
     ca_ref_sha = (\<lambda>_. Inr example_head), ca_PathEscape = (\<lambda>s. s)\<rparr>"

definition example_observation :: Observation where
  "example_observation = (case fst (Observe (example_api ''success'') ''o/r'' example_head 0) of Inr obs \<Rightarrow> obs)"

lemma example_observed: "Observe (example_api ''success'') ''o/r'' example_head 0 = (Inr example_observation, 0)"
  "ob_State example_observation = Succeeded"
  by code_simp+

theorem Observe_success_proved_witness:
  "\<exists>runs v. complete_listing (check_pages (example_api ''success'') ''o/r'' example_head) 0 runs v \<and>
     proves example_head runs ''Codex protocol provenance''"
  using Observe_success_proved[OF example_observed] by (auto simp: RequiredNames_def)

lemma example_recovered: "RecoverCancelled (example_api ''cancelled'') ''o/r'' example_head 7 9 1 0 = (None, 1)"
  by code_simp


end
