(* ===== verification/Auto_Forward.thy ===== *)
theory Auto_Forward
  imports Check_Acceptance
begin

text \<open>
  Automatic integration of a candidate, \<open>codexsdk/internal/protocolsync/auto_forward.go\<close>.

  The operations of \<open>ForwardOperations\<close> act on a state \<open>'w\<close>, the repository with everything else that
  changes it; \<open>fo_errorText\<close> is the \<open>Error\<close> method of an error. The model keeps, beside that state, the trace of the calls and what they returned. Looking at
  the context and waiting for the poll timer are operations as well. The loop carries fuel, one unit a round.
\<close>

section \<open>Operations and trace\<close>

record ForwardState =
  fs_Head :: gostring
  fs_Main :: gostring
  fs_Branch :: gostring
  fs_Ready :: bool
  fs_Merged :: bool

record ForwardResult =
  fr_Status :: gostring
  fr_Head :: gostring
  fr_Main :: gostring
  fr_Reason :: gostring
  fr_Checks :: Observation

record 'w ForwardOperations =
  fo_errorText :: "go_error \<Rightarrow> gostring"
  fo_ctxErr :: "'w \<Rightarrow> go_error option \<times> 'w"
  fo_wait :: "'w \<Rightarrow> go_error option \<times> 'w"
  fo_Read :: "gostring \<Rightarrow> 'w \<Rightarrow> (go_error + ForwardState) \<times> 'w"
  fo_Ancestor :: "gostring \<Rightarrow> gostring \<Rightarrow> 'w \<Rightarrow> (go_error + bool) \<times> 'w"
  fo_Policy :: "gostring \<Rightarrow> gostring \<Rightarrow> 'w \<Rightarrow> (go_error + gostring) \<times> 'w"
  fo_Rebase :: "gostring \<Rightarrow> gostring \<Rightarrow> 'w \<Rightarrow> (go_error + gostring) \<times> 'w"
  fo_Publish :: "gostring \<Rightarrow> gostring \<Rightarrow> gostring \<Rightarrow> 'w \<Rightarrow> go_error option \<times> 'w"
  fo_Checks :: "gostring \<Rightarrow> 'w \<Rightarrow> (Observation \<times> go_error option) \<times> 'w"
  fo_Review :: "'w \<Rightarrow> go_error option \<times> 'w"
  fo_Verify :: "gostring \<Rightarrow> gostring \<Rightarrow> 'w \<Rightarrow> go_error option \<times> 'w"
  fo_Forward :: "gostring \<Rightarrow> gostring \<Rightarrow> 'w \<Rightarrow> go_error option \<times> 'w"
  fo_Cleanup :: "gostring \<Rightarrow> 'w \<Rightarrow> go_error option \<times> 'w"

datatype event =
    EvCtx "go_error option"
  | EvWait "go_error option"
  | EvRead gostring "go_error + ForwardState"
  | EvAncestor gostring gostring "go_error + bool"
  | EvPolicy gostring gostring "go_error + gostring"
  | EvRebase gostring gostring "go_error + gostring"
  | EvPublish gostring gostring gostring "go_error option"
  | EvChecks gostring Observation "go_error option"
  | EvReview "go_error option"
  | EvVerify gostring gostring "go_error option"
  | EvForward gostring gostring "go_error option"
  | EvCleanup gostring "go_error option"

type_synonym 'w traced = "event list \<times> 'w"

definition perform :: "('r \<Rightarrow> event) \<Rightarrow> ('w \<Rightarrow> 'r \<times> 'w) \<Rightarrow> 'w traced \<Rightarrow> 'r \<times> 'w traced" where
  "perform ev f s = (case f (snd s) of (r, w) \<Rightarrow> (r, (fst s @ [ev r], w)))"

definition do_read :: "'w ForwardOperations \<Rightarrow> gostring \<Rightarrow> 'w traced \<Rightarrow> (go_error + ForwardState) \<times> 'w traced" where
  "do_read ops h = perform (EvRead h) (fo_Read ops h)"
definition do_ancestor :: "'w ForwardOperations \<Rightarrow> gostring \<Rightarrow> gostring \<Rightarrow> 'w traced \<Rightarrow> (go_error + bool) \<times> 'w traced" where
  "do_ancestor ops a b = perform (EvAncestor a b) (fo_Ancestor ops a b)"
definition do_verify :: "'w ForwardOperations \<Rightarrow> gostring \<Rightarrow> gostring \<Rightarrow> 'w traced \<Rightarrow> go_error option \<times> 'w traced" where
  "do_verify ops m h = perform (EvVerify m h) (fo_Verify ops m h)"
definition do_checks :: "'w ForwardOperations \<Rightarrow> gostring \<Rightarrow> 'w traced \<Rightarrow> (Observation \<times> go_error option) \<times> 'w traced" where
  "do_checks ops h = perform (\<lambda>(obs, e). EvChecks h obs e) (fo_Checks ops h)"

lemmas do_defs = do_read_def do_ancestor_def do_verify_def do_checks_def

section \<open>One round\<close>

definition ErrForwardConflict :: go_error where
  "ErrForwardConflict = ErrNew ''mechanical rebase conflicts; bounded fresh repair required''"
definition ErrForwardSemanticProof :: go_error where
  "ErrForwardSemanticProof = ErrNew ''local candidate verification failed''"

fun state_text :: "State \<Rightarrow> gostring" where
  "state_text Missing = ''missing''" | "state_text Pending = ''pending''" | "state_text Failed = ''failed''"
| "state_text Cancelled = ''cancelled''" | "state_text Succeeded = ''succeeded''" | "state_text (OtherState s) = s"

datatype round_end = Stop ForwardResult "go_error option" | Again ForwardResult

definition fail_with :: "'w ForwardOperations \<Rightarrow> ForwardResult \<Rightarrow> go_error \<Rightarrow> round_end" where
  "fail_with ops result e = Stop (result\<lparr>fr_Reason := fo_errorText ops e\<rparr>) (Some e)"

text \<open>After a failed step: only a main that moved under an unchanged, ready candidate is tried again.\<close>

definition main_moved :: "ForwardResult \<Rightarrow> ForwardState \<Rightarrow> go_error + ForwardState \<Rightarrow> bool" where
  "main_moved result state fresh = (case fresh of Inl _ \<Rightarrow> False
     | Inr f \<Rightarrow> fs_Head f = fr_Head result \<and> fs_Ready f \<and> fs_Main f \<noteq> fs_Main state)"

definition publish_candidate :: "'w ForwardOperations \<Rightarrow> ForwardState \<Rightarrow> gostring \<Rightarrow> ForwardResult \<Rightarrow> 'w traced \<Rightarrow> round_end \<times> 'w traced" where
  "publish_candidate ops state next result s =
     (let old = fr_Head result in
      case perform (EvPublish old next (fs_Main state)) (fo_Publish ops old next (fs_Main state)) s of (pushErr, s) \<Rightarrow>
      (case do_read ops next s of
         (Inl _, s) \<Rightarrow> (fail_with ops result (ErrNew ''branch publication outcome unknown; inspect native refs before retry''), s)
       | (Inr observed, s) \<Rightarrow>
           if fs_Head observed \<noteq> next then
             (if fs_Head observed = old \<and> fs_Main observed \<noteq> fs_Main state \<and> fs_Ready observed then (Again result, s)
              else if fs_Head observed \<noteq> old then (fail_with ops result (ErrNew ''branch lease lost to an external edit; preserved remote head''), s)
              else (case pushErr of Some e \<Rightarrow> (fail_with ops result e, s)
                | None \<Rightarrow> (fail_with ops result (ErrNew ''branch write was not confirmed''), s)))
           else (Again (result\<lparr>fr_Head := next, fr_Checks := zero_observation\<rparr>), s)))"

definition rebase_candidate :: "'w ForwardOperations \<Rightarrow> ForwardState \<Rightarrow> ForwardResult \<Rightarrow> 'w traced \<Rightarrow> round_end \<times> 'w traced" where
  "rebase_candidate ops state result s =
     (case perform (EvRebase (fs_Main state) (fr_Head result)) (fo_Rebase ops (fs_Main state) (fr_Head result)) s of
        (Inl e, s) \<Rightarrow> (case do_read ops (fr_Head result) s of (fresh, s) \<Rightarrow>
          if main_moved result state fresh then (Again result, s)
          else (fail_with ops (if errors_is e ErrForwardConflict then result\<lparr>fr_Status := ''repair_required''\<rparr> else result) e, s))
      | (Inr next, s) \<Rightarrow>
          if \<not> sha_match next \<or> next = fr_Head result
          then (fail_with ops result (ErrNew ''reconciliation did not produce a new exact candidate''), s)
          else (case do_ancestor ops (fs_Main state) next s of
              (Inr True, s) \<Rightarrow> (case do_verify ops (fs_Main state) next s of
                  (Some e, s) \<Rightarrow> (case do_read ops (fr_Head result) s of (fresh, s) \<Rightarrow>
                    if main_moved result state fresh then (Again result, s) else (fail_with ops result e, s))
                | (None, s) \<Rightarrow> publish_candidate ops state next result s)
            | (_, s) \<Rightarrow> (fail_with ops result (ErrNew ''reconstructed candidate does not descend from current main''), s)))"

definition push_main :: "'w ForwardOperations \<Rightarrow> ForwardState \<Rightarrow> ForwardResult \<Rightarrow> 'w traced \<Rightarrow> round_end \<times> 'w traced" where
  "push_main ops state result s =
     (let head = fr_Head result in
      case perform (EvForward head (fs_Main state)) (fo_Forward ops head (fs_Main state)) s of (pushErr, s) \<Rightarrow>
      (case do_read ops head s of
         (Inl _, s) \<Rightarrow> (fail_with ops result (ErrNew ''main update outcome unknown; inspect native refs before retry''), s)
       | (Inr after, s) \<Rightarrow> (case do_ancestor ops head (fs_Main after) s of
           (Inl _, s) \<Rightarrow> (fail_with ops result (ErrNew ''main update outcome unknown; inspect native refs before retry''), s)
         | (Inr True, s) \<Rightarrow> (Again result, s)
         | (Inr False, s) \<Rightarrow>
             if fs_Head after \<noteq> head then (fail_with ops result (ErrNew ''candidate changed during integration''), s)
             else if fs_Main after \<noteq> fs_Main state then (Again result, s)
             else (case pushErr of Some e \<Rightarrow> (fail_with ops result e, s)
               | None \<Rightarrow> (fail_with ops result (ErrNew ''main readback does not contain verified candidate''), s)))))"

definition integrate_candidate :: "'w ForwardOperations \<Rightarrow> ForwardState \<Rightarrow> ForwardResult \<Rightarrow> 'w traced \<Rightarrow> round_end \<times> 'w traced" where
  "integrate_candidate ops state result s =
     (case perform EvReview (fo_Review ops) s of (Some e, s) \<Rightarrow> (fail_with ops result e, s)
      | (None, s) \<Rightarrow> (case do_read ops (fr_Head result) s of (Inl e, s) \<Rightarrow> (fail_with ops result e, s)
      | (Inr fresh, s) \<Rightarrow>
          if \<not> fs_Ready fresh \<or> fs_Head fresh \<noteq> fr_Head result then (fail_with ops result (ErrNew ''candidate changed before integration''), s)
          else if fs_Main fresh \<noteq> fs_Main state then (Again result, s)
          else (case do_checks ops (fr_Head result) s of ((checks, e), s) \<Rightarrow>
            let result = result\<lparr>fr_Checks := checks\<rparr> in
            (case e of Some e \<Rightarrow> (fail_with ops result e, s)
             | None \<Rightarrow>
                 if ob_Head checks \<noteq> fr_Head result \<or> ob_State checks \<noteq> Succeeded
                 then (fail_with ops result (ErrNew ''final exact-head checks are not successful''), s)
                 else push_main ops state result s))))"

definition check_candidate :: "'w ForwardOperations \<Rightarrow> ForwardState \<Rightarrow> ForwardResult \<Rightarrow> 'w traced \<Rightarrow> round_end \<times> 'w traced" where
  "check_candidate ops state result s =
     (case do_checks ops (fr_Head result) s of ((checks, e), s) \<Rightarrow>
        let result = result\<lparr>fr_Checks := checks\<rparr> in
        (case e of Some e \<Rightarrow> (fail_with ops result e, s)
         | None \<Rightarrow>
             if ob_Head checks \<noteq> fr_Head result then (fail_with ops result (ErrNew ''CI observation belongs to another head''), s)
             else if ob_State checks \<in> {Failed, Cancelled} then (fail_with ops result (ErrNew (''current candidate CI is '' @ state_text (ob_State checks) @ ''; no automatic retry'')), s)
             else if ob_State checks \<in> {Missing, Pending} then
               (case perform EvWait (fo_wait ops) s of (Some e, s) \<Rightarrow> (fail_with ops result e, s) | (None, s) \<Rightarrow> (Again result, s))
             else if ob_State checks = Succeeded then integrate_candidate ops state result s
             else (fail_with ops result (ErrNew ''unknown CI outcome''), s)))"

definition candidate_round :: "'w ForwardOperations \<Rightarrow> ForwardState \<Rightarrow> ForwardResult \<Rightarrow> 'w traced \<Rightarrow> round_end \<times> 'w traced" where
  "candidate_round ops state result s =
     (if \<not> fs_Ready state \<or> fs_Merged state \<or> fs_Head state \<noteq> fr_Head result
      then (fail_with ops result (ErrNew ''PR identity, readiness or expected head changed''), s)
      else case perform (EvPolicy (fs_Main state) (fr_Head result)) (fo_Policy ops (fs_Main state) (fr_Head result)) s of
        (Inl e, s) \<Rightarrow> (fail_with ops result e, s)
      | (Inr decision, s) \<Rightarrow>
          if decision \<noteq> ''run''
          then (Stop (result\<lparr>fr_Status := decision, fr_Reason := ''fixed target no longer eligible for integration''\<rparr>) None, s)
          else (case do_ancestor ops (fs_Main state) (fr_Head result) s of (Inl e, s) \<Rightarrow> (fail_with ops result e, s)
            | (Inr False, s) \<Rightarrow> rebase_candidate ops state result s
            | (Inr True, s) \<Rightarrow> (case do_verify ops (fs_Main state) (fr_Head result) s of
                (None, s) \<Rightarrow> check_candidate ops state result s
              | (Some e, s) \<Rightarrow> (case do_read ops (fr_Head result) s of (fresh, s) \<Rightarrow>
                  if main_moved result state fresh then (Again result, s)
                  else if \<not> errors_is e ErrForwardSemanticProof then (fail_with ops result e, s)
                  else rebase_candidate ops state result s))))"

definition forward_round :: "'w ForwardOperations \<Rightarrow> ForwardResult \<Rightarrow> 'w traced \<Rightarrow> round_end \<times> 'w traced" where
  "forward_round ops result s =
     (case perform EvCtx (fo_ctxErr ops) s of (Some e, s) \<Rightarrow> (fail_with ops result e, s)
      | (None, s) \<Rightarrow> (case do_read ops (fr_Head result) s of (Inl e, s) \<Rightarrow> (fail_with ops result e, s)
      | (Inr state, s) \<Rightarrow>
          let result = result\<lparr>fr_Main := fs_Main state\<rparr> in
          (case do_ancestor ops (fr_Head result) (fs_Main state) s of (Inl e, s) \<Rightarrow> (fail_with ops result e, s)
           | (Inr True, s) \<Rightarrow> (case perform (EvCleanup (fr_Head result)) (fo_Cleanup ops (fr_Head result)) s of
               (Some e, s) \<Rightarrow> (fail_with ops result e, s)
             | (None, s) \<Rightarrow> (Stop (result\<lparr>fr_Status := ''integrated'',
                 fr_Reason := ''exact candidate is contained in main; PR/ref cleanup confirmed''\<rparr>) None, s))
           | (Inr False, s) \<Rightarrow> candidate_round ops state result s)))"

section \<open>The loop\<close>

fun forward_loop :: "'w ForwardOperations \<Rightarrow> nat \<Rightarrow> ForwardResult \<Rightarrow> 'w traced \<Rightarrow> (ForwardResult \<times> go_error option) option \<times> 'w traced" where
  "forward_loop ops 0 result s = (None, s)"
| "forward_loop ops (Suc n) result s = (case forward_round ops result s of
      (Stop result e, s) \<Rightarrow> (Some (result, e), s)
    | (Again result, s) \<Rightarrow> forward_loop ops n result s)"

definition AutoForward :: "nat \<Rightarrow> bool \<Rightarrow> gostring \<Rightarrow> 'w ForwardOperations option \<Rightarrow> 'w \<Rightarrow> (ForwardResult \<times> go_error option) option \<times> 'w traced" where
  "AutoForward n bounded expected ops w =
     (let result = \<lparr>fr_Status = ''blocked'', fr_Head = expected, fr_Main = [], fr_Reason = [], fr_Checks = zero_observation\<rparr> in
      if \<not> bounded \<or> \<not> sha_match expected \<or> ops = None
      then (Some (result, Some (ErrNew ''exact head and original finite deadline required'')), ([], w))
      else forward_loop (the ops) n result ([], w))"


section \<open>What every effect rests on\<close>

text \<open>
  The events right before each of the three writes. They all belong to one round, from its look at the context
  on, so nothing that was observed of another candidate or another main counts.
\<close>

definition accepted_checks :: "gostring \<Rightarrow> Observation \<Rightarrow> bool" where
  "accepted_checks h obs \<longleftrightarrow> ob_Head obs = h \<and> ob_State obs = Succeeded"

definition current_candidate :: "gostring \<Rightarrow> gostring \<Rightarrow> ForwardState \<Rightarrow> bool" where
  "current_candidate h m st \<longleftrightarrow> fs_Head st = h \<and> fs_Main st = m \<and> fs_Ready st"

definition observed_candidate :: "gostring \<Rightarrow> ForwardState \<Rightarrow> event list \<Rightarrow> bool" where
  "observed_candidate h st past \<longleftrightarrow> (\<exists>before. past = before @ [EvCtx None, EvRead h (Inr st), EvAncestor h (fs_Main st) (Inr False)])"

definition admitted_candidate :: "gostring \<Rightarrow> gostring \<Rightarrow> event list \<Rightarrow> bool" where
  "admitted_candidate h m past \<longleftrightarrow> (\<exists>before st. past = before @ [EvPolicy m h (Inr ''run'')] \<and> observed_candidate h st before \<and>
     current_candidate h m st \<and> \<not> fs_Merged st)"

definition verified_candidate :: "gostring \<Rightarrow> gostring \<Rightarrow> event list \<Rightarrow> bool" where
  "verified_candidate h m past \<longleftrightarrow> (\<exists>before. past = before @ [EvAncestor m h (Inr True), EvVerify m h None] \<and> admitted_candidate h m before)"

definition checked_candidate :: "gostring \<Rightarrow> gostring \<Rightarrow> event list \<Rightarrow> bool" where
  "checked_candidate h m past \<longleftrightarrow> (\<exists>before obs. past = before @ [EvChecks h obs None] \<and> verified_candidate h m before \<and> accepted_checks h obs)"

definition forward_proof :: "gostring \<Rightarrow> gostring \<Rightarrow> event list \<Rightarrow> bool" where
  "forward_proof h m past \<longleftrightarrow> (\<exists>before fresh obs. past = before @ [EvReview None, EvRead h (Inr fresh), EvChecks h obs None] \<and>
     checked_candidate h m before \<and> current_candidate h m fresh \<and> accepted_checks h obs)"

definition publish_proof :: "gostring \<Rightarrow> gostring \<Rightarrow> gostring \<Rightarrow> event list \<Rightarrow> bool" where
  "publish_proof old next m past \<longleftrightarrow> (\<exists>before. past = before @ [EvRebase m old (Inr next), EvAncestor m next (Inr True), EvVerify m next None]) \<and>
     sha_match next \<and> next \<noteq> old"

definition cleanup_proof :: "gostring \<Rightarrow> event list \<Rightarrow> bool" where
  "cleanup_proof h past \<longleftrightarrow> (\<exists>before st. past = before @ [EvCtx None, EvRead h (Inr st), EvAncestor h (fs_Main st) (Inr True)])"

fun justified :: "event list \<Rightarrow> event \<Rightarrow> bool" where
  "justified past (EvForward h m _) = forward_proof h m past"
| "justified past (EvPublish old next m _) = publish_proof old next m past"
| "justified past (EvCleanup h _) = cleanup_proof h past"
| "justified past _ = True"

definition safe :: "event list \<Rightarrow> bool" where
  "safe tr \<longleftrightarrow> (\<forall>past ev later. tr = past @ ev # later \<longrightarrow> justified past ev)"

text \<open>The same, event by event after a given past.\<close>

fun safe_after :: "event list \<Rightarrow> event list \<Rightarrow> bool" where
  "safe_after past [] \<longleftrightarrow> True"
| "safe_after past (ev # later) \<longleftrightarrow> justified past ev \<and> safe_after (past @ [ev]) later"

lemma safe_after_iff: "safe_after past evs \<longleftrightarrow> (\<forall>mid ev later. evs = mid @ ev # later \<longrightarrow> justified (past @ mid) ev)"
proof (induction evs arbitrary: past)
  case (Cons e es)
  show ?case
    unfolding safe_after.simps Cons.IH
    by (auto simp: Cons_eq_append_conv)
qed simp

lemma safe_append [simp]: "safe (tr @ evs) \<longleftrightarrow> safe tr \<and> safe_after tr evs"
proof -
  have safe: "safe tr \<longleftrightarrow> safe_after [] tr" for tr by (simp add: safe_def safe_after_iff)
  have "safe_after past (tr @ evs) \<longleftrightarrow> safe_after past tr \<and> safe_after (past @ tr) evs" for past
    by (induction tr arbitrary: past) auto
  from this[of "[]"] show ?thesis by (simp add: safe)
qed

lemma safe_Nil [simp]: "safe []"
  by (simp add: safe_def)

lemma perform_eq: "perform ev f s = (r, s') \<longleftrightarrow> (\<exists>w. f (snd s) = (r, w) \<and> s' = (fst s @ [ev r], w))"
  by (auto simp: perform_def split: prod.splits)


lemmas perform_split = perform_def do_defs

lemma push_main_safe:
  "safe (fst s) \<Longrightarrow> forward_proof (fr_Head result) (fs_Main state) (fst s) \<Longrightarrow> safe (fst (snd (push_main ops state result s)))"
  by (auto simp: push_main_def perform_split Let_def split: prod.splits sum.splits option.splits bool.splits)

lemma publish_candidate_safe:
  "safe (fst s) \<Longrightarrow> publish_proof (fr_Head result) next (fs_Main state) (fst s) \<Longrightarrow>
   safe (fst (snd (publish_candidate ops state next result s)))"
  by (auto simp: publish_candidate_def perform_split Let_def split: prod.splits sum.splits option.splits)

lemma publish_proofI:
  "sha_match next \<Longrightarrow> next \<noteq> old \<Longrightarrow>
   publish_proof old next m (tr @ [EvRebase m old (Inr next), EvAncestor m next (Inr True), EvVerify m next None])"
  by (auto simp: publish_proof_def)

lemma rebase_candidate_safe:
  "safe (fst s) \<Longrightarrow> safe (fst (snd (rebase_candidate ops state result s)))"
  by (auto simp: rebase_candidate_def perform_split Let_def publish_proofI
      intro!: publish_candidate_safe split: prod.splits sum.splits option.splits bool.splits)

lemma forward_proofI:
  "checked_candidate h m tr \<Longrightarrow> current_candidate h m fresh \<Longrightarrow> accepted_checks h obs \<Longrightarrow>
   forward_proof h m (tr @ [EvReview None, EvRead h (Inr fresh), EvChecks h obs None])"
  by (auto simp: forward_proof_def)

lemma integrate_candidate_safe:
  "safe (fst s) \<Longrightarrow> checked_candidate (fr_Head result) (fs_Main state) (fst s) \<Longrightarrow>
   safe (fst (snd (integrate_candidate ops state result s)))"
  by (auto simp: integrate_candidate_def perform_split Let_def current_candidate_def accepted_checks_def
      intro!: push_main_safe forward_proofI split: prod.splits sum.splits option.splits)


lemma check_candidate_safe:
  "safe (fst s) \<Longrightarrow> verified_candidate (fr_Head result) (fs_Main state) (fst s) \<Longrightarrow>
   safe (fst (snd (check_candidate ops state result s)))"
  by (auto simp: check_candidate_def perform_split Let_def accepted_checks_def checked_candidate_def
      intro!: integrate_candidate_safe split: prod.splits sum.splits option.splits)

lemma verified_candidateI:
  "admitted_candidate h m tr \<Longrightarrow> verified_candidate h m (tr @ [EvAncestor m h (Inr True), EvVerify m h None])"
  by (auto simp: verified_candidate_def)

lemma candidate_round_safe:
  assumes "safe (fst s)" "observed_candidate (fr_Head result) state (fst s)"
  shows "safe (fst (snd (candidate_round ops state result s)))"
proof -
  have "admitted_candidate (fr_Head result) (fs_Main state) (fst s @ [EvPolicy (fs_Main state) (fr_Head result) (Inr ''run'')])"
    if "fs_Ready state" "\<not> fs_Merged state" "fs_Head state = fr_Head result"
    using that assms(2) by (auto simp: admitted_candidate_def current_candidate_def)
  from verified_candidateI[OF this] assms(1) show ?thesis
    by (auto simp: candidate_round_def perform_split Let_def
        intro!: rebase_candidate_safe check_candidate_safe split: prod.splits sum.splits option.splits bool.splits)
qed

lemma forward_round_safe: "safe (fst s) \<Longrightarrow> safe (fst (snd (forward_round ops result s)))"
  by (auto simp: forward_round_def perform_split Let_def observed_candidate_def cleanup_proof_def
      intro!: candidate_round_safe split: prod.splits sum.splits option.splits bool.splits)

lemma forward_loop_safe: "safe (fst s) \<Longrightarrow> safe (fst (snd (forward_loop ops n result s)))"
proof (induction n arbitrary: result s)
  case (Suc n)
  then show ?case
    using forward_round_safe[of s ops result] by (auto split: prod.splits round_end.splits)
qed simp

text \<open>A round that ends without an error ended in one of two places.\<close>

lemma candidate_round_success:
  "candidate_round ops state result s = (Stop r None, s') \<Longrightarrow> \<exists>before d m h. fst s' = before @ [EvPolicy m h (Inr d)] \<and> fr_Status r = d"
  by (auto simp: candidate_round_def rebase_candidate_def publish_candidate_def check_candidate_def integrate_candidate_def push_main_def
      perform_split Let_def fail_with_def split: prod.splits sum.splits option.splits bool.splits if_splits)


lemma forward_round_success:
  assumes "forward_round ops result s = (Stop r None, s')"
  shows "(\<exists>before m h. fst s' = before @ [EvPolicy m h (Inr (fr_Status r))]) \<or>
     (\<exists>before h. fst s' = before @ [EvAncestor h (fr_Main r) (Inr True), EvCleanup h None] \<and> h = fr_Head r \<and> fr_Status r = ''integrated'')"
  using assms
  by (auto simp: forward_round_def perform_split Let_def fail_with_def
      split: prod.splits sum.splits option.splits bool.splits dest!: candidate_round_success)

lemma forward_loop_success:
  assumes "forward_loop ops n result s = (Some (r, None), s')"
  shows "(\<exists>before m h. fst s' = before @ [EvPolicy m h (Inr (fr_Status r))]) \<or>
     (\<exists>before h. fst s' = before @ [EvAncestor h (fr_Main r) (Inr True), EvCleanup h None] \<and> h = fr_Head r \<and> fr_Status r = ''integrated'')"
  using assms
proof (induction n arbitrary: result s)
  case (Suc n)
  then show ?case by (auto split: prod.splits round_end.splits dest!: forward_round_success)
qed simp

lemma AutoForward_safe: "safe (fst (snd (AutoForward n bounded expected ops w)))"
  by (auto simp: AutoForward_def Let_def intro!: forward_loop_safe)

lemma AutoForward_success:
  "AutoForward n bounded expected ops w = (Some (r, None), s') \<Longrightarrow>
   (\<exists>before m h. fst s' = before @ [EvPolicy m h (Inr (fr_Status r))]) \<or>
   (\<exists>before h. fst s' = before @ [EvAncestor h (fr_Main r) (Inr True), EvCleanup h None] \<and> h = fr_Head r \<and> fr_Status r = ''integrated'')"
  by (auto simp: AutoForward_def Let_def split: if_splits dest!: forward_loop_success)

lemmas forward_proof_defs = forward_proof_def checked_candidate_def verified_candidate_def admitted_candidate_def observed_candidate_def
  current_candidate_def accepted_checks_def

section \<open>The loop ends\<close>

text \<open>
  Time is a measure \<open>left\<close> of the state, what remains to the deadline. The operations never add to it, a read takes
  some of it, and the context reports an error once nothing is left.
\<close>

definition runs_down :: "('w \<Rightarrow> nat) \<Rightarrow> ('w \<Rightarrow> 'r \<times> 'w) \<Rightarrow> bool" where
  "runs_down left f \<longleftrightarrow> (\<forall>w. left (snd (f w)) \<le> left w)"

definition deadline_ops :: "('w \<Rightarrow> nat) \<Rightarrow> 'w ForwardOperations \<Rightarrow> bool" where
  "deadline_ops left ops \<longleftrightarrow>
     runs_down left (fo_ctxErr ops) \<and> runs_down left (fo_wait ops) \<and> (\<forall>a. runs_down left (fo_Read ops a)) \<and>
     (\<forall>a b. runs_down left (fo_Ancestor ops a b)) \<and> (\<forall>a b. runs_down left (fo_Policy ops a b)) \<and>
     (\<forall>a b. runs_down left (fo_Rebase ops a b)) \<and> (\<forall>a b c. runs_down left (fo_Publish ops a b c)) \<and>
     (\<forall>a. runs_down left (fo_Checks ops a)) \<and> runs_down left (fo_Review ops) \<and> (\<forall>a b. runs_down left (fo_Verify ops a b)) \<and>
     (\<forall>a b. runs_down left (fo_Forward ops a b)) \<and> (\<forall>a. runs_down left (fo_Cleanup ops a)) \<and>
     (\<forall>a w. left w > 0 \<longrightarrow> left (snd (fo_Read ops a w)) < left w) \<and>
     (\<forall>w. left w = 0 \<longrightarrow> fst (fo_ctxErr ops w) \<noteq> None)"


lemma deadline_le:
  assumes "deadline_ops left ops"
  shows "fo_ctxErr ops w = (e, w') \<Longrightarrow> left w' \<le> left w" "fo_wait ops w = (e, w') \<Longrightarrow> left w' \<le> left w"
    "fo_Read ops a w = (st, w') \<Longrightarrow> left w' \<le> left w" "fo_Ancestor ops a b w = (anc, w') \<Longrightarrow> left w' \<le> left w"
    "fo_Policy ops a b w = (d, w') \<Longrightarrow> left w' \<le> left w" "fo_Rebase ops a b w = (d, w') \<Longrightarrow> left w' \<le> left w"
    "fo_Publish ops a b c w = (e, w') \<Longrightarrow> left w' \<le> left w" "fo_Checks ops a w = (obs, w') \<Longrightarrow> left w' \<le> left w"
    "fo_Review ops w = (e, w') \<Longrightarrow> left w' \<le> left w" "fo_Verify ops a b w = (e, w') \<Longrightarrow> left w' \<le> left w"
    "fo_Forward ops a b w = (e, w') \<Longrightarrow> left w' \<le> left w" "fo_Cleanup ops a w = (e, w') \<Longrightarrow> left w' \<le> left w"
  using assms unfolding deadline_ops_def runs_down_def by (metis snd_conv)+

lemma deadline_strict:
  assumes "deadline_ops left ops"
  shows "fo_Read ops a w = (st, w') \<Longrightarrow> left w' < left w \<or> left w = 0" "fo_ctxErr ops w = (None, w') \<Longrightarrow> 0 < left w"
  using assms unfolding deadline_ops_def by (metis snd_conv fst_conv gr_zeroI)+

lemma push_main_le:
  assumes "deadline_ops left ops"
  shows "left (snd (snd (push_main ops state result s))) \<le> left (snd s)"
  by (auto simp: push_main_def perform_split Let_def split: prod.splits sum.splits option.splits bool.splits dest!: deadline_le[OF assms])

lemma integrate_candidate_le:
  assumes "deadline_ops left ops"
  shows "left (snd (snd (integrate_candidate ops state result s))) \<le> left (snd s)"
  by (auto simp: integrate_candidate_def perform_split Let_def split: prod.splits sum.splits option.splits dest!: deadline_le[OF assms]
      intro!: order_trans[OF push_main_le[OF assms]])

lemma check_candidate_le:
  assumes "deadline_ops left ops"
  shows "left (snd (snd (check_candidate ops state result s))) \<le> left (snd s)"
  by (auto simp: check_candidate_def perform_split Let_def split: prod.splits sum.splits option.splits dest!: deadline_le[OF assms]
      intro!: order_trans[OF integrate_candidate_le[OF assms]])

lemma publish_candidate_le:
  assumes "deadline_ops left ops"
  shows "left (snd (snd (publish_candidate ops state next result s))) \<le> left (snd s)"
  by (auto simp: publish_candidate_def perform_split Let_def split: prod.splits sum.splits option.splits dest!: deadline_le[OF assms])

lemma rebase_candidate_le:
  assumes "deadline_ops left ops"
  shows "left (snd (snd (rebase_candidate ops state result s))) \<le> left (snd s)"
  by (auto simp: rebase_candidate_def perform_split Let_def split: prod.splits sum.splits option.splits bool.splits dest!: deadline_le[OF assms]
      intro!: order_trans[OF publish_candidate_le[OF assms]])

lemma candidate_round_le:
  assumes "deadline_ops left ops"
  shows "left (snd (snd (candidate_round ops state result s))) \<le> left (snd s)"
  by (auto simp: candidate_round_def perform_split Let_def split: prod.splits sum.splits option.splits bool.splits dest!: deadline_le[OF assms]
      intro!: order_trans[OF rebase_candidate_le[OF assms]] order_trans[OF check_candidate_le[OF assms]])


lemma candidate_round_after:
  "deadline_ops left ops \<Longrightarrow> candidate_round ops state result s = (r, s') \<Longrightarrow> left (snd s') \<le> left (snd s)"
  using candidate_round_le[of left ops state result s] by simp

lemma forward_round_less:
  assumes ops: "deadline_ops left ops" and again: "forward_round ops result s = (Again r, s')"
  shows "left (snd s') < left (snd s)"
proof -
  obtain w1 where ctx: "fo_ctxErr ops (snd s) = (None, w1)"
    using again by (cases "fo_ctxErr ops (snd s)") (auto simp: forward_round_def perform_split fail_with_def split: option.splits)
  obtain st w2 where rd: "fo_Read ops (fr_Head result) w1 = (st, w2)" by (cases "fo_Read ops (fr_Head result) w1") auto
  have "left (snd s') \<le> left w2"
    using again ctx rd
    by (auto simp: forward_round_def perform_split Let_def fail_with_def split: prod.splits sum.splits option.splits bool.splits
        dest!: deadline_le[OF ops] candidate_round_after[OF ops])
  with deadline_strict(1)[OF ops rd] deadline_strict(2)[OF ops ctx] deadline_le(1)[OF ops ctx] deadline_le(3)[OF ops rd]
  show ?thesis by linarith
qed

lemma forward_loop_returns:
  assumes "deadline_ops left ops" "left (snd s) < n"
  shows "\<exists>out. fst (forward_loop ops n result s) = Some out"
  using assms(2)
proof (induction n arbitrary: result s)
  case (Suc n)
  obtain r s' where round: "forward_round ops result s = (r, s')" by (metis surj_pair)
  show ?case
  proof (cases r)
    case (Again result')
    from Suc.IH forward_round_less[OF assms(1) round[unfolded Again]] Suc.prems
    have "\<exists>out. fst (forward_loop ops n result' s') = Some out" by simp
    with round Again show ?thesis by simp
  qed (use round in simp)
qed simp

section \<open>Properties\<close>

text \<open>A repository with one main and one candidate on top of it, and a clock of so many ticks.\<close>

definition sample_main :: gostring where "sample_main = replicate 40 CHR ''0''"
definition sample_head :: gostring where "sample_head = replicate 40 CHR ''a''"

definition sample_checks :: Observation where
  "sample_checks = zero_observation\<lparr>ob_Head := sample_head, ob_State := Succeeded\<rparr>"

definition sample_ops :: "(bool \<times> nat) ForwardOperations" where
  "sample_ops = \<lparr>fo_errorText = \<lambda>_. [],
     fo_ctxErr = \<lambda>(done, t). (if t = 0 then Some (ErrNew ''context deadline exceeded'') else None, (done, t)),
     fo_wait = \<lambda>w. (None, w),
     fo_Read = \<lambda>_ (done, t). (Inr \<lparr>fs_Head = sample_head, fs_Main = (if done then sample_head else sample_main), fs_Branch = ''sync'',
       fs_Ready = True, fs_Merged = False\<rparr>, (done, t - 1)),
     fo_Ancestor = \<lambda>a b w. (Inr (a = b \<or> a = sample_main), w),
     fo_Policy = \<lambda>_ _ w. (Inr ''run'', w),
     fo_Rebase = \<lambda>_ _ w. (Inl ErrForwardConflict, w),
     fo_Publish = \<lambda>_ _ _ w. (None, w),
     fo_Checks = \<lambda>_ w. ((sample_checks, None), w),
     fo_Review = \<lambda>w. (None, w),
     fo_Verify = \<lambda>_ _ w. (None, w),
     fo_Forward = \<lambda>_ _ (done, t). (None, (True, t)),
     fo_Cleanup = \<lambda>_ w. (None, w)\<rparr>"

text \<open>C16: The candidate is pushed to main only when, in the same round and with nothing in between, the same
  candidate and main were read as current and unmerged, the policy still said run, the candidate descends
  from main, it was verified against main, its required checks succeeded for exactly that head, the review
  passed, a fresh read confirmed candidate and main, and the checks succeeded once more. A branch is rewritten only to a
  new exact candidate that was just rebuilt on, descends from and was verified against the current main. A run
  that reports an integrated candidate saw it contained in main and its cleanup confirmed, unless the policy
  itself answered so.\<close>

theorem AutoForward_effects_proved:
  assumes "AutoForward n bounded expected ops w = (out, tr, w')"
  shows "(\<forall>past h m e later. tr = past @ EvForward h m e # later \<longrightarrow>
      (\<exists>before st obs fresh obs'. past = before @ [EvCtx None, EvRead h (Inr st), EvAncestor h m (Inr False), EvPolicy m h (Inr ''run''),
          EvAncestor m h (Inr True), EvVerify m h None, EvChecks h obs None, EvReview None, EvRead h (Inr fresh), EvChecks h obs' None] \<and>
        fs_Head st = h \<and> fs_Main st = m \<and> fs_Ready st \<and> \<not> fs_Merged st \<and> fs_Head fresh = h \<and> fs_Main fresh = m \<and> fs_Ready fresh \<and>
        ob_Head obs = h \<and> ob_State obs = Succeeded \<and> ob_Head obs' = h \<and> ob_State obs' = Succeeded)) \<and>
    (\<forall>past old next m e later. tr = past @ EvPublish old next m e # later \<longrightarrow>
      (\<exists>before. past = before @ [EvRebase m old (Inr next), EvAncestor m next (Inr True), EvVerify m next None]) \<and> sha_match next \<and> next \<noteq> old) \<and>
    (\<forall>r. out = Some (r, None) \<longrightarrow> fr_Status r = ''integrated'' \<longrightarrow>
      (\<exists>before. tr = before @ [EvAncestor (fr_Head r) (fr_Main r) (Inr True), EvCleanup (fr_Head r) None]) \<or>
      (\<exists>before m h. tr = before @ [EvPolicy m h (Inr ''integrated'')]))"
proof (intro conjI allI impI, goal_cases)
  case (1 past h m e later)
  with AutoForward_safe[of n bounded expected ops w] assms show ?case by (auto simp: forward_proof_defs)
next
  case (2 past old nxt m e later)
  with AutoForward_safe[of n bounded expected ops w] assms show ?case by (auto simp: publish_proof_def)
next
  case (3 past old nxt m e later)
  with AutoForward_safe[of n bounded expected ops w] assms show ?case by (auto simp: publish_proof_def)
next
  case (4 past old nxt m e later)
  with AutoForward_safe[of n bounded expected ops w] assms show ?case by (auto simp: publish_proof_def)
next
  case (5 r)
  with AutoForward_success[of n bounded expected ops w r "(tr, w')"] assms show ?case by auto
qed

text \<open>C17: Within a deadline the loop returns: when no operation turns the clock back, every read takes time and the
  context reports an expired deadline, as many rounds as ticks are left and one more are enough.\<close>

theorem AutoForward_returns:
  assumes "deadline_ops left ops"
  shows "\<exists>result e. fst (AutoForward (Suc (left w)) bounded expected (Some ops) w) = Some (result, e)"
  using forward_loop_returns[OF assms, of "([], w)" "Suc (left w)"] by (auto simp: AutoForward_def Let_def)


theorem AutoForward_returns_witness:
  "deadline_ops snd sample_ops \<and> (\<exists>result e. fst (AutoForward (Suc 7) True sample_head (Some sample_ops) (False, 7)) = Some (result, e))"
proof -
  have ops: "deadline_ops snd sample_ops"
    by (auto simp: deadline_ops_def runs_down_def sample_ops_def)
  with AutoForward_returns[OF ops, of "(False, 7)" True sample_head] show ?thesis by simp
qed

definition sample_run :: "(ForwardResult \<times> go_error option) option \<times> (bool \<times> nat) traced" where
  "sample_run = AutoForward 8 True sample_head (Some sample_ops) (False, 7)"

lemma sample_run_eval:
  "map_option (\<lambda>(r, e). (fr_Status r, fr_Main r, e)) (fst sample_run) = Some (''integrated'', sample_head, None)"
  "fst (snd sample_run) ! 10 = EvForward sample_head sample_main None" "length (fst (snd sample_run)) = 17"
  by code_simp+

theorem AutoForward_effects_proved_witness:
  "\<exists>before obs. take 10 (fst (snd sample_run)) = before @ [EvChecks sample_head obs None] \<and> ob_State obs = Succeeded"
proof -
  obtain out tr w' where run: "AutoForward 8 True sample_head (Some sample_ops) (False, 7) = (out, tr, w')" by (metis prod_cases3)
  then have tr: "fst (snd sample_run) = tr" by (simp add: sample_run_def)
  have "tr = take 10 tr @ EvForward sample_head sample_main None # drop 11 tr"
    using sample_run_eval(2,3) unfolding tr using id_take_nth_drop[of 10 tr] by simp
  with conjunct1[OF AutoForward_effects_proved[OF run]] obtain before st obs fresh obs'
    where "take 10 tr = before @ [EvCtx None, EvRead sample_head (Inr st), EvAncestor sample_head sample_main (Inr False),
        EvPolicy sample_main sample_head (Inr ''run''), EvAncestor sample_main sample_head (Inr True), EvVerify sample_main sample_head None,
        EvChecks sample_head obs None, EvReview None, EvRead sample_head (Inr fresh), EvChecks sample_head obs' None]"
      and "ob_State obs' = Succeeded"
    by blast
  then show ?thesis unfolding tr by auto
qed

end
