(* ===== verification/Facades.thy ===== *)
theory Facades
  imports Client_Steps
begin

text \<open>
  Typed calls of the SDK, \<open>codexsdk/facades.go\<close>: methods and parameters that are experimental are
  refused unless the client declared the experimental API; then a call begins. The generated method
  registry and tables of experimental members, and the JSON codecs of generated types, are parameters.
\<close>

record method_facts =
  mf_Experimental :: bool
  mf_ParamsOrPayloadSchema :: gostring

record 'p facade_lib =
  fl_LookupMethod :: "gostring \<Rightarrow> method_facts option"
  fl_ExperimentalUnionValues :: "gostring \<Rightarrow> gostring list"
  fl_ExperimentalJSONFields :: "gostring \<Rightarrow> gostring list"
  fl_ExperimentalChildTypes :: "gostring \<Rightarrow> (gostring \<times> gostring) list"
  fl_Marshal :: "'p \<Rightarrow> go_error + gostring"
  fl_Unmarshal :: "gostring \<Rightarrow> gostring \<Rightarrow> go_error option"

section \<open>Experimental members\<close>

definition experimentalDiscriminatorValue :: "(string \<times> JSONValue) list \<Rightarrow> gostring" where
  "experimentalDiscriminatorValue members =
     (case filter (\<lambda>raw. raw \<noteq> []) (map (\<lambda>key. jsonString (map_of members key)) [''type'', ''method'', ''kind'', ''mode'', ''handlerType'']) of
        [] \<Rightarrow> [] | raw # _ \<Rightarrow> raw)"

definition experimentalFieldError :: "gostring \<Rightarrow> gostring \<Rightarrow> go_error" where
  "experimentalFieldError mname field =
     ErrNew (''codexsdk: experimental field '' @ mname @ ''.'' @ field @ '' requires ClientCapabilities.ExperimentalAPI'')"

definition experimentalVariantError :: "gostring \<Rightarrow> gostring \<Rightarrow> go_error" where
  "experimentalVariantError mname disc =
     ErrNew (''codexsdk: experimental variant '' @ mname @ ''.'' @ disc @ '' requires ClientCapabilities.ExperimentalAPI'')"

definition child_type :: "'p facade_lib \<Rightarrow> gostring \<Rightarrow> gostring \<Rightarrow> gostring" where
  "child_type F typeName key = (case map_of (fl_ExperimentalChildTypes F typeName) key of None \<Rightarrow> [] | Some t \<Rightarrow> t)"

text \<open>
  \<open>rejectExperimentalJSON\<close>, with its loop over the members of an object and over the elements of an
  array. Go iterates over a map in any order, here in the order of the list.
\<close>

fun rejectExperimentalJSON :: "'p facade_lib \<Rightarrow> gostring \<Rightarrow> gostring \<Rightarrow> JSONValue \<Rightarrow> go_error option"
  and reject_members :: "'p facade_lib \<Rightarrow> gostring \<Rightarrow> gostring \<Rightarrow> (string \<times> JSONValue) list \<Rightarrow> go_error option"
  and reject_elements :: "'p facade_lib \<Rightarrow> gostring \<Rightarrow> gostring \<Rightarrow> JSONValue list \<Rightarrow> go_error option" where
  "rejectExperimentalJSON F mname typeName (JObject typed) =
     (let disc = experimentalDiscriminatorValue typed in
      if disc \<noteq> [] \<and> disc \<in> set (fl_ExperimentalUnionValues F typeName) then Some (experimentalVariantError mname disc)
      else reject_members F mname typeName typed)"
| "rejectExperimentalJSON F mname typeName (JArray typed) = reject_elements F mname typeName typed"
| "rejectExperimentalJSON F mname typeName v = None"
| "reject_members F mname typeName [] = None"
| "reject_members F mname typeName ((key, child) # typed) =
     (if key \<in> set (fl_ExperimentalJSONFields F typeName) then Some (experimentalFieldError mname key)
      else case (if child_type F typeName key \<noteq> [] then rejectExperimentalJSON F mname (child_type F typeName key) child else None) of
          Some e \<Rightarrow> Some e
        | None \<Rightarrow> reject_members F mname typeName typed)"
| "reject_elements F mname typeName [] = None"
| "reject_elements F mname typeName (child # typed) = (case rejectExperimentalJSON F mname typeName child of
      Some e \<Rightarrow> Some e | None \<Rightarrow> reject_elements F mname typeName typed)"

section \<open>Calls\<close>

definition encodeProtocolParams :: "'p facade_lib \<Rightarrow> gostring \<Rightarrow> 'p \<Rightarrow> go_error + (string \<times> JSONValue) list" where
  "encodeProtocolParams F mname params = (case fl_Marshal F params of
      Inl e \<Rightarrow> Inl (ErrWrap (''codexsdk: encode '' @ mname @ '' params'') [e])
    | Inr raw \<Rightarrow> (case unmarshalJSONPreserveNumbers raw of
        Inr (JObject m) \<Rightarrow> Inr m
      | Inr JNull \<Rightarrow> Inl (ErrNew (''codexsdk: encode '' @ mname @ '' params: protocol params must encode to object''))
      | _ \<Rightarrow> Inl (ErrWrap (''codexsdk: encode '' @ mname @ '' params object'') [])))"

definition decodeProtocolResponse :: "'p facade_lib \<Rightarrow> gostring \<Rightarrow> (string \<times> JSONValue) list \<Rightarrow> go_error option" where
  "decodeProtocolResponse F mname result = (case MarshalJSON (JObject result) of
      Inl _ \<Rightarrow> Some (ErrWrap (''codexsdk: decode '' @ mname @ '' response'') [])
    | Inr raw \<Rightarrow> (case fl_Unmarshal F mname raw of None \<Rightarrow> None
        | Some e \<Rightarrow> Some (ErrWrap (''codexsdk: decode '' @ mname @ '' response'') [e])))"

definition checkProtocolMethodAllowed :: "'p facade_lib \<Rightarrow> bool \<Rightarrow> gostring \<Rightarrow> go_error option" where
  "checkProtocolMethodAllowed F enabled mname = (case fl_LookupMethod F mname of
      None \<Rightarrow> Some (ErrNew (''codexsdk: unknown app-server method '' @ mname))
    | Some info \<Rightarrow>
        if mf_Experimental info \<and> \<not> enabled
        then Some (ErrNew (''codexsdk: experimental app-server method '' @ mname @ '' requires ClientCapabilities.ExperimentalAPI''))
        else None)"

definition checkProtocolParamsAllowed :: "'p facade_lib \<Rightarrow> bool \<Rightarrow> gostring \<Rightarrow> 'p option \<Rightarrow> go_error option" where
  "checkProtocolParamsAllowed F enabled mname params =
     (case params of None \<Rightarrow> None
      | Some p \<Rightarrow>
          if enabled then None
          else (case fl_LookupMethod F mname of None \<Rightarrow> None
            | Some info \<Rightarrow>
                if mf_ParamsOrPayloadSchema info = [] then None
                else (case encodeProtocolParams F mname p of Inl e \<Rightarrow> Some e
                  | Inr encoded \<Rightarrow> rejectExperimentalJSON F mname (mf_ParamsOrPayloadSchema info) (JObject encoded))))"

text \<open>
  \<open>callProtocolWithExactIntent\<close> and \<open>callProtocolNoParams\<close> up to the point where the call waits: the
  request that is written, or the error. \<open>Some p\<close> are parameters; encoding nil parameters is \<open>null\<close>.
\<close>

definition exact_call :: "'p facade_lib \<Rightarrow> gostring \<Rightarrow> bool \<times> nat option \<Rightarrow> pendingCall" where
  "exact_call F mname exact = \<lparr>pc_thread = fst exact, pc_turn = snd exact, pc_method = mname,
     pc_validate = Some (decodeProtocolResponse F mname)\<rparr>"

definition write_call :: "client_env \<Rightarrow> gostring \<Rightarrow> gostring \<Rightarrow> (string \<times> JSONValue) list option \<Rightarrow> pendingCall \<Rightarrow> Client
    \<Rightarrow> (go_error + gostring) \<times> Client" where
  "write_call E mname call params pc c =
     (case client_write E ([(''id'', JString call), (''method'', JString mname)] @
          (case params of None \<Rightarrow> [] | Some m \<Rightarrow> [(''params'', JObject m)])) c of
        (None, c) \<Rightarrow> (Inr call, c)
      | (Some e, c) \<Rightarrow> (case abandonCall call e c of
          (Some (RpcError e), c) \<Rightarrow> (Inl e, c) | (_, c) \<Rightarrow> (Inr call, c)))"

definition begin_protocol_call :: "client_env \<Rightarrow> 'p facade_lib \<Rightarrow> gostring \<Rightarrow> (string \<times> JSONValue) list option \<Rightarrow> bool \<times> nat option \<Rightarrow> Client
    \<Rightarrow> (go_error + gostring) \<times> Client" where
  "begin_protocol_call E F mname params exact c = (case beginCall (exact_call F mname exact) c of
      (Inl e, c) \<Rightarrow> (Inl e, c)
    | (Inr call, c) \<Rightarrow> write_call E mname call params (exact_call F mname exact) c)"

definition callProtocolWithExactIntent :: "client_env \<Rightarrow> 'p facade_lib \<Rightarrow> bool \<Rightarrow> gostring \<Rightarrow> 'p \<Rightarrow> bool \<times> nat option \<Rightarrow> Client
    \<Rightarrow> (go_error + gostring) \<times> Client" where
  "callProtocolWithExactIntent E F enabled mname params exact c =
     (case checkOpen c of Some e \<Rightarrow> (Inl e, c)
      | None \<Rightarrow> (case checkProtocolMethodAllowed F enabled mname of Some e \<Rightarrow> (Inl e, c)
          | None \<Rightarrow> (case checkProtocolParamsAllowed F enabled mname (Some params) of Some e \<Rightarrow> (Inl e, c)
              | None \<Rightarrow> (case encodeProtocolParams F mname params of Inl e \<Rightarrow> (Inl e, c)
                  | Inr m \<Rightarrow> begin_protocol_call E F mname (Some m) exact c))))"

definition callProtocolNoParams :: "client_env \<Rightarrow> 'p facade_lib \<Rightarrow> bool \<Rightarrow> gostring \<Rightarrow> Client \<Rightarrow> (go_error + gostring) \<times> Client" where
  "callProtocolNoParams E F enabled mname c =
     (case checkOpen c of Some e \<Rightarrow> (Inl e, c)
      | None \<Rightarrow> (case checkProtocolMethodAllowed F enabled mname of Some e \<Rightarrow> (Inl e, c)
          | None \<Rightarrow> begin_protocol_call E F mname None (False, None) c))"

section \<open>What is experimental\<close>

text \<open>A value of a named type has an experimental member, at some depth.\<close>

inductive experimental :: "'p facade_lib \<Rightarrow> gostring \<Rightarrow> JSONValue \<Rightarrow> bool" for F where
  variant: "experimentalDiscriminatorValue members = disc \<Longrightarrow> disc \<noteq> [] \<Longrightarrow> disc \<in> set (fl_ExperimentalUnionValues F t) \<Longrightarrow>
    experimental F t (JObject members)"
| member: "(key, v) \<in> set members \<Longrightarrow> key \<in> set (fl_ExperimentalJSONFields F t) \<Longrightarrow> experimental F t (JObject members)"
| child: "(key, v) \<in> set members \<Longrightarrow> child_type F t key \<noteq> [] \<Longrightarrow> experimental F (child_type F t key) v \<Longrightarrow>
    experimental F t (JObject members)"
| element: "v \<in> set vs \<Longrightarrow> experimental F t v \<Longrightarrow> experimental F t (JArray vs)"

inductive_simps experimental_simps [simp]: "experimental F t (JObject members)" "experimental F t (JArray vs)"
  "experimental F t JNull" "experimental F t (JBool b)" "experimental F t (JString s)" "experimental F t (JNumber n)"
  "experimental F t JInvalid"

lemma reject_iff:
  "rejectExperimentalJSON F mname t v \<noteq> None \<longleftrightarrow> experimental F t v"
  "reject_members F mname t ms \<noteq> None \<longleftrightarrow>
     (\<exists>(key, v) \<in> set ms. key \<in> set (fl_ExperimentalJSONFields F t) \<or> child_type F t key \<noteq> [] \<and> experimental F (child_type F t key) v)"
  "reject_elements F mname t vs \<noteq> None \<longleftrightarrow> (\<exists>v \<in> set vs. experimental F t v)"
proof (induction F mname t v and F mname t ms and F mname t vs
    rule: rejectExperimentalJSON_reject_members_reject_elements.induct)
qed (auto simp: Let_def split: option.split)

text \<open>The conditions for a call without the experimental API.\<close>

definition admissible_call :: "'p facade_lib \<Rightarrow> gostring \<Rightarrow> 'p \<Rightarrow> (string \<times> JSONValue) list \<Rightarrow> bool" where
  "admissible_call F mname params m \<longleftrightarrow> encodeProtocolParams F mname params = Inr m \<and>
     (\<exists>info. fl_LookupMethod F mname = Some info \<and> \<not> mf_Experimental info \<and>
        (mf_ParamsOrPayloadSchema info = [] \<or> \<not> experimental F (mf_ParamsOrPayloadSchema info) (JObject m)))"

declare rejectExperimentalJSON.simps [simp del] experimental_simps [simp del]

lemma reject_None: "rejectExperimentalJSON F mname t v = None \<longleftrightarrow> \<not> experimental F t v"
  using reject_iff(1) by blast

lemma callProtocol_admissible:
  "admissible_call F mname params m \<Longrightarrow> \<not> cl_closed c \<Longrightarrow>
   callProtocolWithExactIntent E F False mname params exact c = begin_protocol_call E F mname (Some m) exact c"
  by (auto simp: callProtocolWithExactIntent_def checkOpen_def checkProtocolMethodAllowed_def checkProtocolParamsAllowed_def
      admissible_call_def reject_None[THEN iffD2])

lemma AList_update_fresh: "k \<notin> set (map fst m) \<Longrightarrow> AList.update k v m = m @ [(k, v)]"
  by (induction m) auto

lemma callProtocol_refused:
  assumes "\<And>m. \<not> admissible_call F mname params m"
  shows "\<exists>e. callProtocolWithExactIntent E F False mname params exact c = (Inl e, c)"
proof (cases "encodeProtocolParams F mname params")
  case (Inr m)
  have "checkProtocolMethodAllowed F False mname \<noteq> None \<or> checkProtocolParamsAllowed F False mname (Some params) \<noteq> None"
    using assms[of m] reject_iff(1)[of F mname] Inr
    by (auto simp: admissible_call_def checkProtocolMethodAllowed_def checkProtocolParamsAllowed_def simp del: not_None_eq split: option.splits)
  then show ?thesis by (auto simp: callProtocolWithExactIntent_def split: option.split)
qed (auto simp: callProtocolWithExactIntent_def split: option.split)

text \<open>C35: without the experimental API a call is begun only for a known, stable method whose encoded parameters
  contain no experimental variant or member at any depth; every other call is refused with an error and
  leaves the client exactly as it was. A call that may begin does begin, on an open client: its request is
  written with a fresh id, and the id is pending until it is answered.\<close>

theorem experimental_calls_refused:
  shows "((\<forall>m. \<not> admissible_call F mname params m) \<longrightarrow>
      (\<exists>e. callProtocolWithExactIntent E F False mname params exact c = (Inl e, c))) \<and>
    (admissible_call F mname params m \<longrightarrow> client_reachable E c \<longrightarrow> \<not> cl_closed c \<longrightarrow> Suc (cl_nextID c) < 2 ^ 64 \<longrightarrow>
      ce_write E [(''id'', JString (call_id (Suc (cl_nextID c)))), (''method'', JString mname), (''params'', JObject m)] = None \<longrightarrow>
      (\<exists>c'. callProtocolWithExactIntent E F False mname params exact c = (Inr (call_id (Suc (cl_nextID c))), c') \<and>
        cl_pending c' = cl_pending c @ [(call_id (Suc (cl_nextID c)), exact_call F mname exact)] \<and>
        cl_writes c' = cl_writes c @ [[(''id'', JString (call_id (Suc (cl_nextID c)))), (''method'', JString mname), (''params'', JObject m)]]))"
proof -
  let ?k = "call_id (Suc (cl_nextID c))"
  have "\<exists>c'. callProtocolWithExactIntent E F False mname params exact c = (Inr ?k, c') \<and>
        cl_pending c' = cl_pending c @ [(?k, exact_call F mname exact)] \<and>
        cl_writes c' = cl_writes c @ [[(''id'', JString ?k), (''method'', JString mname), (''params'', JObject m)]]"
    if a: "admissible_call F mname params m" and r: "client_reachable E c" and o: "\<not> cl_closed c"
      and n: "Suc (cl_nextID c) < 2 ^ 64"
      and w: "ce_write E [(''id'', JString ?k), (''method'', JString mname), (''params'', JObject m)] = None"
  proof -
    have fresh: "?k \<notin> set (map fst (cl_pending c))"
      using reachable_ids[OF r] used_fresh unfolding ids_used_def by blast
    have upd: "AList.update ?k v (cl_pending c) = cl_pending c @ [(?k, v)]" for v
      using fresh by (rule AList_update_fresh)
    have "callProtocolWithExactIntent E F False mname params exact c = begin_protocol_call E F mname (Some m) exact c"
      using callProtocol_admissible[OF a o] .
    also have "\<dots> = (Inr ?k, c\<lparr>cl_nextID := Suc (cl_nextID c), cl_pending := cl_pending c @ [(?k, exact_call F mname exact)],
        cl_writes := cl_writes c @ [[(''id'', JString ?k), (''method'', JString mname), (''params'', JObject m)]]\<rparr>)"
      using o n w upd by (simp add: begin_protocol_call_def beginCall_def admitPending_def write_call_def client_write_def Let_def call_id_def)
    finally show ?thesis by simp
  qed
  with callProtocol_refused[of F mname params E exact c] show ?thesis by blast
qed

definition example_lib :: "gostring facade_lib" where
  "example_lib = \<lparr>fl_LookupMethod = (\<lambda>_. Some \<lparr>mf_Experimental = False, mf_ParamsOrPayloadSchema = ''P''\<rparr>),
     fl_ExperimentalUnionValues = (\<lambda>_. []), fl_ExperimentalJSONFields = (\<lambda>_. [''x'']), fl_ExperimentalChildTypes = (\<lambda>_. []),
     fl_Marshal = Inr, fl_Unmarshal = (\<lambda>_ _. None)\<rparr>"

definition example_params :: gostring where
  "example_params = ''{'' @ marshal_string ''x'' @ '':1}''"

lemma example_params_encode: "encodeProtocolParams example_lib ''m'' example_params = Inr [(''x'', JNumber ''1'')]"
  "encodeProtocolParams example_lib ''m'' ''{}'' = Inr []"
  by (code_simp, code_simp)

lemma example_params_admissible: "admissible_call example_lib ''m'' example_params m = False"
  "admissible_call example_lib ''m'' ''{}'' []"
  by (auto simp: admissible_call_def example_params_encode experimental_simps)
    (auto simp: example_lib_def experimentalDiscriminatorValue_def jsonString_def)

lemma example_env_write: "ce_write example_env p = None"
  by (simp add: example_env_def)

theorem experimental_calls_refused_witness:
  "(\<exists>e. callProtocolWithExactIntent example_env example_lib False ''m'' example_params (False, None) example_client = (Inl e, example_client)) \<and>
   (\<exists>c'. callProtocolWithExactIntent example_env example_lib False ''m'' ''{}'' (False, None) example_client = (Inr (call_id 2), c') \<and>
      length (cl_pending c') = 2)"
proof
  show "\<exists>e. callProtocolWithExactIntent example_env example_lib False ''m'' example_params (False, None) example_client = (Inl e, example_client)"
    using experimental_calls_refused[of example_lib "''m''" example_params example_env "(False, None)" example_client]
    by (simp add: example_params_admissible)
  have n: "Suc (cl_nextID example_client) = 2" by (simp add: example_client_eq)
  show "\<exists>c'. callProtocolWithExactIntent example_env example_lib False ''m'' ''{}'' (False, None) example_client = (Inr (call_id 2), c') \<and>
      length (cl_pending c') = 2"
    using experimental_calls_refused[of example_lib "''m''" "''{}''" example_env "(False, None)" example_client "[]"]
      example_client_reachable example_params_admissible(2)
    by (auto simp: example_client_fields n example_env_write)
qed

end
