(* ===== verification/Startup.thy ===== *)
theory Startup
  imports Lifecycle Facades Client_Options
begin

text \<open>
  Starting a client: \<open>NewContext\<close>, \<open>newClientContext\<close> and \<open>initialize\<close> of \<open>codexsdk/client.go\<close>, the decoder
  registry of \<open>codexsdk/internal/wirejson/wirejson.go\<close>, and the provenance of \<open>codexsdk/provenance.go\<close>.

  Starting runs beside other goroutines: the reader, the dispatcher, and the one that watches the context.
  \<open>ss_others i\<close> is what they did to the client at the \<open>i\<close>-th point where construction released its locks or
  waited. Launching the process, the context, and the decoder of the response are parameters.
\<close>

section \<open>Decoder registry\<close>

datatype Role = ActionBearingMessage | ServerObservation

type_synonym 'a ProtocolDecoder = "gostring \<Rightarrow> Role \<Rightarrow> go_error + 'a"

definition RegisterProtocolDecoder :: "'a ProtocolDecoder option \<Rightarrow> 'a ProtocolDecoder option \<Rightarrow> panic + 'a ProtocolDecoder option" where
  "RegisterProtocolDecoder val decoder = (case decoder of
      Some _ \<Rightarrow> Inl (Panic ''wirejson: protocol decoder already registered'') | None \<Rightarrow> Inr val)"

definition Unmarshal :: "'a ProtocolDecoder option \<Rightarrow> 'a ProtocolDecoder" where
  "Unmarshal decoder data role = (case decoder of
      None \<Rightarrow> Inl (ErrNew ''wirejson: protocol decoder is not registered'') | Some decode \<Rightarrow> decode data role)"

section \<open>Provenance\<close>

record GeneratedBaselineProvenance =
  gb_SourceRepo :: gostring
  gb_SourceRefKind :: gostring
  gb_SourceRefName :: gostring
  gb_SourceCommit :: gostring

text \<open>\<open>BaselineMetadata\<close> has the same fields; decoding the embedded file is a parameter.\<close>

definition LoadBaselineMetadata :: "go_error + GeneratedBaselineProvenance \<Rightarrow> go_error + GeneratedBaselineProvenance" where
  "LoadBaselineMetadata decoded = (case decoded of Inl e \<Rightarrow> Inl (ErrWrap ''decode baseline_metadata.json'' [e])
     | Inr m \<Rightarrow> if gb_SourceCommit m = [] \<or> gb_SourceRefKind m = [] \<or> gb_SourceRefName m = [] \<or> gb_SourceRepo m = []
         then Inl (ErrNew ''baseline_metadata.json missing public upstream provenance'') else Inr m)"

record InitializeResponse =
  ir_UserAgent :: gostring
  ir_CodexHome :: gostring
  ir_PlatformFamily :: gostring
  ir_PlatformOs :: gostring

record RuntimeAppServerObservation =
  ra_Observed :: bool
  ra_UserAgent :: gostring
  ra_CodexHome :: gostring
  ra_PlatformFamily :: gostring
  ra_PlatformOs :: gostring

definition RuntimeCompatibilityUnknown :: gostring where "RuntimeCompatibilityUnknown = ''unknown''"

record RuntimeCompatibility =
  rc_Kind :: gostring

record ConnectionProvenance =
  cp_GeneratedBaseline :: GeneratedBaselineProvenance
  cp_RuntimeAppServer :: RuntimeAppServerObservation
  cp_Compatibility :: RuntimeCompatibility

definition Unknown :: "RuntimeCompatibility \<Rightarrow> bool" where
  "Unknown c \<longleftrightarrow> rc_Kind c = [] \<or> rc_Kind c = RuntimeCompatibilityUnknown"

definition GeneratedBaseline :: "go_error + GeneratedBaselineProvenance \<Rightarrow> panic + GeneratedBaselineProvenance" where
  "GeneratedBaseline decoded = (case LoadBaselineMetadata decoded of
      Inl _ \<Rightarrow> Inl (Panic ''codexsdk: checked-in baseline metadata is unreadable'') | Inr m \<Rightarrow> Inr m)"

definition ObserveRuntimeAppServer :: "InitializeResponse \<Rightarrow> RuntimeAppServerObservation" where
  "ObserveRuntimeAppServer response = \<lparr>ra_Observed = True, ra_UserAgent = ir_UserAgent response, ra_CodexHome = ir_CodexHome response,
     ra_PlatformFamily = ir_PlatformFamily response, ra_PlatformOs = ir_PlatformOs response\<rparr>"

definition RuntimeCompatibilityOf :: "InitializeResponse \<Rightarrow> RuntimeCompatibility" where
  "RuntimeCompatibilityOf response = \<lparr>rc_Kind = RuntimeCompatibilityUnknown\<rparr>"

text \<open>The two fields of the client that \<open>initialize\<close> sets and nothing else changes; \<open>None\<close> is the nil client.\<close>

record connection =
  cn_runtimeAppServer :: RuntimeAppServerObservation
  cn_runtimeCompatibility :: RuntimeCompatibility

definition zero_runtime :: RuntimeAppServerObservation where
  "zero_runtime = \<lparr>ra_Observed = False, ra_UserAgent = [], ra_CodexHome = [], ra_PlatformFamily = [], ra_PlatformOs = []\<rparr>"

definition zero_connection :: connection where
  "zero_connection = \<lparr>cn_runtimeAppServer = zero_runtime, cn_runtimeCompatibility = \<lparr>rc_Kind = []\<rparr>\<rparr>"

definition Provenance :: "go_error + GeneratedBaselineProvenance \<Rightarrow> connection option \<Rightarrow> panic + ConnectionProvenance" where
  "Provenance decoded c =
     (let unknown = \<lparr>rc_Kind = RuntimeCompatibilityUnknown\<rparr>;
          runtime = (case c of None \<Rightarrow> zero_runtime | Some c \<Rightarrow> cn_runtimeAppServer c);
          compatibility = (case c of None \<Rightarrow> unknown
            | Some c \<Rightarrow> if rc_Kind (cn_runtimeCompatibility c) \<noteq> [] then cn_runtimeCompatibility c else unknown)
      in case GeneratedBaseline decoded of Inl p \<Rightarrow> Inl p
         | Inr baseline \<Rightarrow> Inr \<lparr>cp_GeneratedBaseline = baseline, cp_RuntimeAppServer = runtime, cp_Compatibility = compatibility\<rparr>)"

section \<open>Construction\<close>

text \<open>The goroutine that watches the startup context, once the context is done.\<close>

definition startup_watch :: "client_env \<Rightarrow> go_error \<Rightarrow> Client \<Rightarrow> Client" where
  "startup_watch E e c = (case claimStartupFailure (Some e) c of
      (False, c) \<Rightarrow> c | (True, c) \<Rightarrow> publishCloseCause (failAll E e (beginShutdown c)))"

record startup =
  ss_ctxErr :: "go_error option"
  ss_start :: "go_error option"
  ss_expired :: "go_error option"
  ss_others :: "nat \<Rightarrow> Client \<Rightarrow> Client"

definition decodeInitializeResponse :: "InitializeResponse ProtocolDecoder option \<Rightarrow> (string \<times> JSONValue) list \<Rightarrow> go_error + InitializeResponse" where
  "decodeInitializeResponse D result = (case MarshalJSON (JObject result) of
      Inl _ \<Rightarrow> Inl (ErrWrap ''codexsdk: initialize response invalid'' [])
    | Inr raw \<Rightarrow> (case Unmarshal D raw ServerObservation of
        Inl e \<Rightarrow> Inl (ErrWrap ''codexsdk: initialize response invalid'' [e]) | Inr response \<Rightarrow> Inr response))"

text \<open>The end of \<open>callValidated\<close>: no response can be read while nobody has delivered one.\<close>

definition await_response :: "startup \<Rightarrow> gostring \<Rightarrow> Client \<Rightarrow> rpcResponse option \<times> Client" where
  "await_response S call c = (case ss_expired S of
      None \<Rightarrow> (map_of (cl_responses c) call, c)
    | Some e \<Rightarrow> (case abandonCall call e c of (Some r, c) \<Rightarrow> (Some r, c)
        | (None, c) \<Rightarrow> let c = ss_others S 3 c in (map_of (cl_responses c) call, c)))"

definition client_call :: "client_env \<Rightarrow> startup \<Rightarrow> gostring \<Rightarrow> (string \<times> JSONValue) list \<Rightarrow> Client \<Rightarrow> rpcResponse option \<times> Client" where
  "client_call E S mname params c =
     (case beginCall \<lparr>pc_thread = False, pc_turn = None, pc_method = mname, pc_validate = None\<rparr> c of
        (Inl e, c) \<Rightarrow> (Some (RpcError e), c)
      | (Inr call, c) \<Rightarrow> (case client_write E [(''id'', JString call), (''method'', JString mname), (''params'', JObject params)] (ss_others S 1 c) of
          (Some e, c) \<Rightarrow> (case abandonCall call e c of (Some r, c) \<Rightarrow> (Some r, c)
            | (None, c) \<Rightarrow> let c = ss_others S 2 c in (map_of (cl_responses c) call, c))
        | (None, c) \<Rightarrow> await_response S call (ss_others S 2 c)))"

definition MethodInitialize :: gostring where "MethodInitialize = ''initialize''"

definition initialized :: "(string \<times> JSONValue) list" where
  "initialized = [(''method'', JString ''initialized'')]"

definition client_notify :: "client_env \<Rightarrow> (string \<times> JSONValue) list \<Rightarrow> Client \<Rightarrow> go_error option \<times> Client" where
  "client_notify E payload c = (case checkOpen c of Some e \<Rightarrow> (Some e, c) | None \<Rightarrow> client_write E payload c)"

text \<open>\<open>initialize\<close>; the outer \<open>None\<close> is a call whose response never comes.\<close>

definition initialize :: "client_env \<Rightarrow> InitializeParams facade_lib \<Rightarrow> InitializeResponse ProtocolDecoder option \<Rightarrow> startup \<Rightarrow> ClientOptions \<Rightarrow>
    Client \<Rightarrow> (go_error option \<times> connection) option \<times> Client" where
  "initialize E F D S normalized c =
     (case ss_start S of Some e \<Rightarrow> (Some (Some e, zero_connection), c)
      | None \<Rightarrow> (case encodeProtocolParams F MethodInitialize (co_Initialize normalized) of
          Inl e \<Rightarrow> (Some (Some e, zero_connection), c)
        | Inr params \<Rightarrow> (case client_call E S MethodInitialize params (ss_others S 0 c) of
            (None, c) \<Rightarrow> (None, c)
          | (Some (RpcError e), c) \<Rightarrow> (Some (Some e, zero_connection), c)
          | (Some (RpcResult result), c) \<Rightarrow> (case decodeInitializeResponse D result of
              Inl e \<Rightarrow> (Some (Some e, zero_connection), c)
            | Inr response \<Rightarrow> (case client_notify E initialized (ss_others S 4 c) of
                (err, c) \<Rightarrow> (Some (err, \<lparr>cn_runtimeAppServer = ObserveRuntimeAppServer response,
                    cn_runtimeCompatibility = RuntimeCompatibilityOf response\<rparr>), c))))))"

definition client_of :: "ClientOptions \<Rightarrow> Client" where
  "client_of o1 = new_client (MaxCount (co_NotificationRetention o1)) (MaxBytes (co_NotificationRetention o1)) (co_NotificationQueueCapacity o1)"

text \<open>The client is part of the outcome even when its constructor returns an error: it is still being torn down.\<close>

definition newClientContext :: "client_env \<Rightarrow> start_env \<Rightarrow> InitializeParams facade_lib \<Rightarrow> InitializeResponse ProtocolDecoder option \<Rightarrow> startup \<Rightarrow>
    ClientOptions \<Rightarrow> (go_error + connection) option \<times> Client option" where
  "newClientContext E V F D S options =
     (case validateOptions V options of Inl e \<Rightarrow> (Some (Inl e), None)
      | Inr normalized \<Rightarrow> (case ss_ctxErr S of Some e \<Rightarrow> (Some (Inl e), None)
        | None \<Rightarrow> (case initialize E F D S normalized (client_of normalized) of
            (None, c) \<Rightarrow> (None, Some c)
          | (Some (err, conn), c) \<Rightarrow>
              let c = (case err of None \<Rightarrow> c | Some e \<Rightarrow> failClient E e c);
                  c = (ss_others S 5 c)\<lparr>cl_constructing := False\<rparr>;
                  err = (case cl_closeReason c of Some r \<Rightarrow> Some r | None \<Rightarrow> err)
              in (case err of Some e \<Rightarrow> (Some (Inl e), Some c) | None \<Rightarrow> (Some (Inr conn), Some c)))))"

text \<open>
  \<open>NewContext\<close>. The construction runs in a goroutine of its own; \<open>ready\<close> is whether its outcome was in the
  channel when the waiting ended, and otherwise the context's error.
\<close>

datatype startup_wait = Ready | Expired go_error

definition NewContext :: "client_env \<Rightarrow> start_env \<Rightarrow> InitializeParams facade_lib \<Rightarrow> InitializeResponse ProtocolDecoder option \<Rightarrow> startup \<Rightarrow>
    go_error option option \<Rightarrow> startup_wait \<Rightarrow> ClientOptions \<Rightarrow> (go_error + connection) option \<times> Client option" where
  "NewContext E V F D S ctx wait options =
     (case ctx of None \<Rightarrow> (Some (Inl (ErrNew ''codexsdk: startup context is required'')), None)
      | Some (Some e) \<Rightarrow> (Some (Inl e), None)
      | Some None \<Rightarrow> (case copyStartupOptions V options of Inl e \<Rightarrow> (Some (Inl e), None)
        | Inr owned \<Rightarrow> (case newClientContext E V F D S owned of (outcome, c) \<Rightarrow>
            (case wait of Ready \<Rightarrow> (outcome, c) | Expired e \<Rightarrow> (Some (Inl e), c)))))"

section \<open>The watcher fails the client\<close>

text \<open>
  The watcher starts the teardown before it publishes the cause, \<open>failClient\<close> after. Both end in the same state,
  since publishing does not look at what the teardown sets.
\<close>

definition torn :: "Client \<Rightarrow> Client" where
  "torn c = c\<lparr>cl_shutdownStarted := True, cl_normalClosing := False\<rparr>"

lemma torn_simps [simp]:
  "cl_pending (torn c) = cl_pending c" "cl_exactStreams (torn c) = cl_exactStreams c" "cl_exactAttaching (torn c) = cl_exactAttaching c"
  "cl_pendingEvents (torn c) = cl_pendingEvents c" "cl_replayingEvents (torn c) = cl_replayingEvents c"
  "firstCloseReason e (torn c) = firstCloseReason e c" "pending_diagnostics (torn c) = pending_diagnostics c"
  "(torn c)\<lparr>cl_pending := p\<rparr> = torn (c\<lparr>cl_pending := p\<rparr>)" "on_store f (torn c) = torn (on_store f c)"
  "fail_snapshot (torn c) = torn (fail_snapshot c)" "deliver call r (torn c) = torn (deliver call r c)"
  "finish_run i err (torn c) = torn (finish_run i err c)" "turnIDSnapshot i (torn c) = turnIDSnapshot i c"
  "diagnostic_run i ref l (torn c) = map_prod id torn (diagnostic_run i ref l c)"
  "accept_run E i n l (torn c) = map_prod id torn (accept_run E i n l c)"
  by (auto simp: torn_def firstCloseReason_def pending_diagnostics_def on_store_def fail_snapshot_def release_all_def Let_def deliver_def
      finish_run_def unregisterExactRun_def turnIDSnapshot_def diagnostic_run_def accept_run_def split: prod.splits sum.splits bool.splits option.splits)

lemma torn_resolve [simp]: "resolveEvidence E i n (torn c) = map_prod id torn (resolveEvidence E i n c)"
  by (auto simp: resolveEvidence_def torn_def accept_run_def split: prod.splits sum.splits bool.splits option.splits)

lemma torn_fold: "(\<And>x c. f x (torn c) = torn (f x c)) \<Longrightarrow> fold f xs (torn c) = torn (fold f xs c)"
  by (induction xs arbitrary: c) auto

lemma torn_evidence: "evidence_state n (torn c) = evidence_state n c"
  by (simp add: evidence_state_def torn_def)

lemma torn_commit: "commit_evidence E n (torn c) = torn (commit_evidence E n c)"
  by (auto simp: commit_evidence_def resolvePendingEvidence_def torn_evidence split: option.splits)

lemma torn_diagnostic: "fail_diagnostic streams d (torn c) = torn (fail_diagnostic streams d c)"
  by (cases d) (auto simp: fail_diagnostic_def intro!: arg_cong[of _ _ "on_store _"] torn_fold simp flip: torn_simps(9))

lemma torn_failAll: "failAll E e (torn c) = torn (failAll E e c)"
  unfolding failAll_def Let_def
  by (simp add: torn_fold torn_commit torn_diagnostic case_prod_unfold del: fold_append)

definition same_close :: "Client \<Rightarrow> Client \<Rightarrow> bool" where
  "same_close c c' \<longleftrightarrow> cl_closed c' = cl_closed c \<and> cl_failure c' = cl_failure c \<and> cl_closeReason c' = cl_closeReason c \<and>
     cl_shutdownStarted c' = cl_shutdownStarted c"

interpretation close_fields: client_core same_close
  by unfold_locales (auto simp: same_close_def accept_run_def diagnostic_run_def finish_run_def unregisterExactRun_def
      split: prod.splits sum.splits bool.splits)

lemma failAll_close: "same_close c (failAll E e c)"
proof -
  have "same_close (c\<lparr>cl_pending := []\<rparr>) (fold (\<lambda>i. finish_run i x) is (fold (fail_diagnostic is') ds
     (fold (commit_evidence E) ns (on_store f (fail_snapshot (c\<lparr>cl_pending := []\<rparr>))))))" for x "is" is' ds ns f
    by (rule close_fields.failed_runs) (rule close_fields.refl)
  then show ?thesis by (simp add: failAll_def Let_def fold_deliver same_close_def del: fold_append)
qed

lemma startup_watch_fails: "startup_watch E e c = (if cl_constructing c then failClient E e c else c)"
proof (cases "cl_constructing c \<and> \<not> cl_closed c")
  case True
  let ?c = "c\<lparr>cl_failure := Some e, cl_closeReason := Some e, cl_closed := True\<rparr>"
  have begun: "beginShutdown d = (if cl_shutdownStarted d then d else torn d)" if "cl_failure d \<noteq> None" "cl_closeReason d \<noteq> None" "cl_closed d" for d
    using that by (simp add: beginShutdown_def torn_def)
  have pub: "torn (publishCloseCause d) = publishCloseCause (torn d)" for d by (simp add: torn_def publishCloseCause_def)
  from True have "startup_watch E e c = publishCloseCause (failAll E e (beginShutdown ?c))"
    "failClient E e c = beginShutdown (publishCloseCause (failAll E e ?c))"
    by (simp_all add: startup_watch_def claimStartupFailure_def claimFailureLocked_def failClient_def)
  then show ?thesis
    using True failAll_close[of ?c E e] begun[of ?c] begun[of "publishCloseCause (failAll E e ?c)"]
    by (simp add: same_close_def pub torn_failAll) (simp add: publishCloseCause_def torn_def)
qed (auto simp: startup_watch_def claimStartupFailure_def claimFailureLocked_def failClient_def)

corollary startup_watch_steps: "(client_step E)\<^sup>*\<^sup>* c (startup_watch E e c)"
  by (simp add: startup_watch_fails r_into_rtranclp client_step.fail)


section \<open>All or nothing\<close>

definition others_step :: "client_env \<Rightarrow> startup \<Rightarrow> bool" where
  "others_step E S \<longleftrightarrow> (\<forall>i c. (client_step E)\<^sup>*\<^sup>* c (ss_others S i c))"

lemma adv_others: "others_step E S \<Longrightarrow> adv c c' \<Longrightarrow> adv c (ss_others S i c')"
  using steps_adv unfolding others_step_def by (blast intro: adv_trans)

lemma adv_write: "client_write E payload c = (r, c') \<Longrightarrow> adv c c'"
  by (auto simp: client_write_def split: option.splits)

lemma adv_call:
  assumes S: "others_step E S" and "client_call E S mname params c = (r, c')"
  shows "adv c c'"
proof -
  have written: "client_write E payload d = (r, d') \<Longrightarrow> adv c d \<Longrightarrow> adv c d'" for payload d r d'
    using adv_write adv_trans by blast
  have abandon: "abandonCall call e d = (r, d') \<Longrightarrow> adv c d \<Longrightarrow> adv c d'" for call e d r d'
    using adv_abandon adv_trans by blast
  have wait: "await_response S call d = (r, d') \<Longrightarrow> adv c d \<Longrightarrow> adv c d'" for call d r d'
    by (auto simp: await_response_def Let_def split: option.splits prod.splits intro: abandon adv_others[OF S])
  from assms(2) show ?thesis
    by (auto simp: client_call_def Let_def split: sum.splits option.splits prod.splits intro: adv_beginCall)
      (meson written abandon wait adv_others[OF S] adv_beginCall)+
qed

lemma adv_initialize:
  assumes S: "others_step E S" and "initialize E F D S normalized c = (r, c')"
  shows "adv c c'"
proof -
  have note_adv: "client_notify E p d = (r, d') \<Longrightarrow> adv c d \<Longrightarrow> adv c d'" for p d r d'
    by (auto simp: client_notify_def split: option.splits intro: adv_trans[OF _ adv_write])
  have call_adv: "client_call E S mname params d = (r, d') \<Longrightarrow> adv c d \<Longrightarrow> adv c d'" for mname params d r d'
    using adv_call[OF S] adv_trans by blast
  from assms(2) show ?thesis
    by (auto simp: initialize_def split: option.splits sum.splits prod.splits rpcResponse.splits
        intro: adv_others[OF S] call_adv adv_refl) (meson adv_others[OF S] note_adv call_adv adv_refl)
qed

lemma initialize_success:
  assumes "initialize E F D S normalized c = (Some (None, conn), c')"
  shows "ss_start S = None \<and> ce_write E initialized = None \<and>
    (\<exists>result response. decodeInitializeResponse D result = Inr response \<and>
       conn = \<lparr>cn_runtimeAppServer = ObserveRuntimeAppServer response, cn_runtimeCompatibility = RuntimeCompatibilityOf response\<rparr>)"
  using assms
  by (auto simp: initialize_def client_notify_def client_write_def split: option.splits sum.splits prod.splits rpcResponse.splits)



text \<open>C37: the window at the deadline. When the context expires after a construction has succeeded, but before its
  outcome is in the channel, \<open>NewContext\<close> returns the context's error. The client is open then although its caller
  never receives it, and the watcher does nothing to it any more.\<close>

theorem expired_startup_leaks_client:
  assumes "copyStartupOptions V options = Inr owned" "others_step E S" "newClientContext E V F D S owned = (Some (Inr conn), Some c)"
  shows "NewContext E V F D S (Some None) (Expired e) options = (Some (Inl e), Some c) \<and> \<not> cl_closed c \<and> startup_watch E e c = c"
proof -
  have "cl_constructing c = False" "cl_closeReason c = None"
    using assms(3) by (auto simp: newClientContext_def Let_def split: sum.splits option.splits prod.splits)
  moreover have "client_ok c"
  proof -
    obtain normalized d where init: "initialize E F D S normalized (client_of normalized) = (Some (None, conn), d)"
      and c: "c = (ss_others S 5 d)\<lparr>cl_constructing := False\<rparr>"
      using assms(3) by (auto simp: newClientContext_def Let_def split: sum.splits option.splits prod.splits)
    have "adv (client_of normalized) c"
      unfolding c using adv_others[OF assms(2) adv_initialize[OF assms(2) init]] by simp
    then show ?thesis using new_client_ok(1) by (simp add: adv_def client_of_def)
  qed
  ultimately show ?thesis
    using assms by (simp add: NewContext_def startup_watch_fails client_ok_def)
qed

definition startup_lib :: "InitializeParams facade_lib" where
  "startup_lib = \<lparr>fl_LookupMethod = (\<lambda>_. None), fl_ExperimentalUnionValues = (\<lambda>_. []), fl_ExperimentalJSONFields = (\<lambda>_. []),
     fl_ExperimentalChildTypes = (\<lambda>_. []), fl_Marshal = (\<lambda>_. Inr ''{}''), fl_Unmarshal = (\<lambda>_ _. None)\<rparr>"

definition example_runtime :: InitializeResponse where
  "example_runtime = \<lparr>ir_UserAgent = ''codex'', ir_CodexHome = ''/home'', ir_PlatformFamily = ''unix'', ir_PlatformOs = ''linux''\<rparr>"

text \<open>The app-server answers the first call while the construction waits for it.\<close>

definition example_answer :: gostring where
  "example_answer = ''{'' @ marshal_string ''id'' @ '':'' @ marshal_string ''go-sdk-1'' @ '','' @ marshal_string ''result'' @ '':{}}''"

definition example_startup :: startup where
  "example_startup = \<lparr>ss_ctxErr = None, ss_start = None, ss_expired = None,
     ss_others = (\<lambda>i c. if i = 2 then snd (ingestJSONRPCLine example_env (\<lambda>_. True) (\<lambda>_. Inl ErrClientClosed) None example_answer c) else c)\<rparr>"

lemma example_others: "others_step example_env example_startup"
  unfolding others_step_def example_startup_def
  by (auto intro!: r_into_rtranclp client_step.line[where E = example_env] surjective_pairing)

lemma example_answer_decodes:
  "decodeJSONRPCEnvelope (\<lambda>_. True) example_answer =
   Inr \<lparr>env_kind = jsonRPCResponse, env_message = [(''id'', JString ''go-sdk-1''), (''result'', JObject [])]\<rparr>"
  by code_simp

lemma example_first_call: "beginCall pc (client_of o1) =
    (Inr ''go-sdk-1'', (client_of o1)\<lparr>cl_nextID := 1, cl_pending := [(''go-sdk-1'', pc)]\<rparr>)"
proof -
  have "itoa (Suc 0) = ''1''" by code_simp
  then show ?thesis by (simp add: beginCall_def admitPending_def client_of_def new_client_def Let_def)
qed

definition example_decoder :: "InitializeResponse ProtocolDecoder option" where
  "example_decoder = Some (\<lambda>_ _. Inr example_runtime)"

lemma example_initialize:
  "\<exists>c. initialize example_env startup_lib example_decoder example_startup o1 (client_of o1) =
     (Some (None, \<lparr>cn_runtimeAppServer = ObserveRuntimeAppServer example_runtime, cn_runtimeCompatibility = RuntimeCompatibilityOf example_runtime\<rparr>), c) \<and>
     cl_closeReason c = None"
proof -
  have enc: "encodeProtocolParams startup_lib MethodInitialize p = Inr []" for p
  proof -
    have "unmarshalJSONPreserveNumbers ''{}'' = Inr (JObject [])" by code_simp
    then show ?thesis by (simp add: encodeProtocolParams_def startup_lib_def)
  qed
  have dec: "decodeInitializeResponse example_decoder [] = Inr example_runtime"
  proof -
    have "MarshalJSON (JObject []) = Inr ''{}''" by code_simp
    then show ?thesis by (simp add: decodeInitializeResponse_def Unmarshal_def example_decoder_def)
  qed
  have others: "ss_others example_startup 0 c = c" "ss_others example_startup (Suc 0) c = c" "ss_others example_startup 4 c = c"
    "ss_others example_startup 2 c = routeResponse example_env [(''id'', JString ''go-sdk-1''), (''result'', JObject [])] c" for c
    by (simp_all add: example_startup_def ingestJSONRPCLine_def example_answer_decodes)
  have starts: "ss_start example_startup = None" "ss_expired example_startup = None" by (simp_all add: example_startup_def)
  have open_client: "cl_closed (client_of o1) = False" "cl_closeReason (client_of o1) = None" "cl_responses (client_of o1) = []"
    by (simp_all add: client_of_def new_client_def)
  show ?thesis
    by (simp add: initialize_def enc client_call_def example_first_call await_response_def client_write_def others starts
        example_env_write routeResponse_def route_result_def takePending_def sprint_id_def open_client
        as_object_def arm_response_def deliver_def dec client_notify_def checkOpen_def Let_def)
qed

lemma example_construction:
  "\<exists>c. newClientContext example_env example_start startup_lib example_decoder example_startup (normal_options example_start example_options) =
     (Some (Inr \<lparr>cn_runtimeAppServer = ObserveRuntimeAppServer example_runtime, cn_runtimeCompatibility = RuntimeCompatibilityOf example_runtime\<rparr>), Some c)"
proof -
  have "isl (validateOptions example_start (normal_options example_start example_options)) = False" by code_simp
  then obtain o1 where "validateOptions example_start (normal_options example_start example_options) = Inr o1"
    by (cases "validateOptions example_start (normal_options example_start example_options)") auto
  with example_initialize[of o1] show ?thesis
    by (auto simp: newClientContext_def Let_def example_startup_def)
qed



theorem expired_startup_leaks_client_witness:
  "\<exists>c. NewContext example_env example_start startup_lib example_decoder example_startup (Some None) (Expired (ErrNew ''context deadline exceeded''))
     (normal_options example_start example_options) = (Some (Inl (ErrNew ''context deadline exceeded'')), Some c) \<and> \<not> cl_closed c"
proof -
  have "copyStartupOptions example_start (normal_options example_start example_options) = Inr (normal_options example_start example_options)"
    by code_simp
  then show ?thesis using example_construction expired_startup_leaks_client[OF _ example_others] by blast
qed

end
