(* ===== verification/Server_Response.thy ===== *)
theory Server_Response
  imports Startup
begin

text \<open>
  Typed answers to server requests, \<open>codexsdk/server_response.go\<close>, the decoding of typed requests and notifications at
  the transport, \<open>server_request.go\<close> and \<open>client.go\<close>, and the callbacks with their recovered panics. The value of an
  answer is what marshalling it gives.
\<close>

section \<open>Answers\<close>

definition serverResponse :: "gostring \<Rightarrow> go_error + gostring \<Rightarrow> ServerRequestResponse" where
  "serverResponse kind value = \<lparr>sp_kind = kind, sp_value = Some value\<rparr>"

definition CommandExecutionApprovalResponse :: "go_error + gostring \<Rightarrow> ServerRequestResponse" where
  "CommandExecutionApprovalResponse = serverResponse ''item/commandExecution/requestApproval''"
definition FileChangeApprovalResponse :: "go_error + gostring \<Rightarrow> ServerRequestResponse" where
  "FileChangeApprovalResponse = serverResponse ''item/fileChange/requestApproval''"
definition ToolUserInputResponse :: "go_error + gostring \<Rightarrow> ServerRequestResponse" where
  "ToolUserInputResponse = serverResponse ''item/tool/requestUserInput''"
definition MCPElicitationResponse :: "go_error + gostring \<Rightarrow> ServerRequestResponse" where
  "MCPElicitationResponse = serverResponse ''mcpServer/elicitation/request''"
definition PermissionsApprovalResponse :: "go_error + gostring \<Rightarrow> ServerRequestResponse" where
  "PermissionsApprovalResponse = serverResponse ''item/permissions/requestApproval''"
definition DynamicToolResponse :: "go_error + gostring \<Rightarrow> ServerRequestResponse" where
  "DynamicToolResponse = serverResponse ''item/tool/call''"
definition ChatGPTAuthRefreshResponse :: "go_error + gostring \<Rightarrow> ServerRequestResponse" where
  "ChatGPTAuthRefreshResponse = serverResponse ''account/chatgptAuthTokens/refresh''"
definition AttestationResponse :: "go_error + gostring \<Rightarrow> ServerRequestResponse" where
  "AttestationResponse = serverResponse ''attestation/generate''"
definition CurrentTimeResponse :: "go_error + gostring \<Rightarrow> ServerRequestResponse" where
  "CurrentTimeResponse = serverResponse ''currentTime/read''"
definition ApplyPatchApprovalResponse :: "go_error + gostring \<Rightarrow> ServerRequestResponse" where
  "ApplyPatchApprovalResponse = serverResponse ''applyPatchApproval''"
definition ExecCommandApprovalResponse :: "go_error + gostring \<Rightarrow> ServerRequestResponse" where
  "ExecCommandApprovalResponse = serverResponse ''execCommandApproval''"

lemmas response_defs = serverResponse_def CommandExecutionApprovalResponse_def FileChangeApprovalResponse_def ToolUserInputResponse_def
  MCPElicitationResponse_def PermissionsApprovalResponse_def DynamicToolResponse_def ChatGPTAuthRefreshResponse_def AttestationResponse_def
  CurrentTimeResponse_def ApplyPatchApprovalResponse_def ExecCommandApprovalResponse_def

definition response_constructors :: "(go_error + gostring \<Rightarrow> ServerRequestResponse) list" where
  "response_constructors = [CommandExecutionApprovalResponse, FileChangeApprovalResponse, ToolUserInputResponse, MCPElicitationResponse,
     PermissionsApprovalResponse, DynamicToolResponse, ChatGPTAuthRefreshResponse, AttestationResponse, CurrentTimeResponse,
     ApplyPatchApprovalResponse, ExecCommandApprovalResponse]"

text \<open>Eleven kinds, no two alike, so an answer built for one request is never sent for another kind.\<close>

lemma response_kinds_distinct: "distinct (map (\<lambda>f. sp_kind (f value)) response_constructors)"
  by (simp add: response_constructors_def response_defs)

lemma mismatched_response_fails_closed:
  assumes "f \<in> set response_constructors" "sp_kind (f value) \<noteq> sq_Kind request"
  shows "respondToExactServerRequest E (Some (Inr (f value))) reqid request c =
    failExactServerRequest E reqid request (-32602)
      (ExactServerRequestError (sq_Kind request) ''received mismatched or empty response'') c"
  using assms by (auto simp: respondToExactServerRequest_def response_constructors_def response_defs)

section \<open>Decoding at the transport\<close>

text \<open>
  Requests that ask the application to act are decoded in the action role, notifications in the observation role;
  both from the message as it is marshalled again.
\<close>

definition decodeProtocolServerRequest :: "ServerRequest ProtocolDecoder option \<Rightarrow> (string \<times> JSONValue) list \<Rightarrow> go_error + ServerRequest" where
  "decodeProtocolServerRequest D message = (case MarshalJSON (JObject message) of
      Inl _ \<Rightarrow> Inl (ErrWrap ''codexsdk: encode server request for validation'' [])
    | Inr raw \<Rightarrow> Unmarshal D raw ActionBearingMessage)"

definition exactNotification :: "ServerNotification ProtocolDecoder option \<Rightarrow> gostring \<Rightarrow> (string \<times> JSONValue) list option \<Rightarrow> go_error + ServerNotification" where
  "exactNotification D name params =
     (let wrap = (\<lambda>es. Inl (ErrWrap (''codexsdk: decode '' @ name @ '' notification'') es)) in
      case MarshalJSON (JObject [(''method'', JString name), (''params'', case params of None \<Rightarrow> JNull | Some m \<Rightarrow> JObject m)]) of
        Inl _ \<Rightarrow> wrap []
      | Inr raw \<Rightarrow> (case Unmarshal D raw ServerObservation of Inl e \<Rightarrow> wrap [e] | Inr typed \<Rightarrow> Inr typed))"

text \<open>With the decoder registered once, these are the two decoders the client takes as parameters.\<close>

definition with_decoder :: "ServerNotification ProtocolDecoder option \<Rightarrow> client_env \<Rightarrow> client_env" where
  "with_decoder D E = E\<lparr>ce_decode := exactNotification D\<rparr>"

lemma unregistered_decoder_fails:
  "\<exists>e. decodeProtocolServerRequest None message = Inl e" "\<exists>e. exactNotification None name params = Inl e"
  by (simp_all add: decodeProtocolServerRequest_def exactNotification_def Unmarshal_def Let_def split: sum.split)

lemma registration_is_final:
  assumes "RegisterProtocolDecoder (Some d) None = Inr r"
  shows "r = Some d" "\<exists>p. RegisterProtocolDecoder d' r = Inl p"
  using assms by (auto simp: RegisterProtocolDecoder_def)

section \<open>Callbacks\<close>

text \<open>A handler returns, fails, or panics; a panic is recovered into an error.\<close>

datatype 'a handled = Returned 'a | Panicked gostring

definition invokeNotificationHandler :: "go_error option handled \<Rightarrow> go_error option" where
  "invokeNotificationHandler outcome = (case outcome of
      Panicked _ \<Rightarrow> Some (ErrWrap ''notification handler panic'' [ErrHandlerFailed])
    | Returned (Some e) \<Rightarrow> Some (ErrWrap ''handler'' [ErrHandlerFailed, e])
    | Returned None \<Rightarrow> None)"

definition invokeExactServerRequestHandler :: "(go_error + ServerRequestResponse) handled \<Rightarrow> go_error + ServerRequestResponse" where
  "invokeExactServerRequestHandler outcome = (case outcome of
      Panicked _ \<Rightarrow> Inl (ErrWrap ''server request handler panic'' [ErrHandlerFailed])
    | Returned (Inl e) \<Rightarrow> Inl (ErrWrap ''handler'' [ErrHandlerFailed, e])
    | Returned (Inr response) \<Rightarrow> Inr response)"

definition rawHandlerError :: "go_error option \<Rightarrow> go_error" where
  "rawHandlerError cause = ErrTyped ''codexsdk.rawHandlerError'' []
     ([ErrNew ''codexsdk: required raw notification delivery failed'', ErrHandlerFailed] @ (case cause of None \<Rightarrow> [] | Some e \<Rightarrow> [e]))"

definition invokeRawNotificationHandler :: "go_error option handled \<Rightarrow> go_error option" where
  "invokeRawNotificationHandler outcome = (case outcome of
      Panicked _ \<Rightarrow> Some (rawHandlerError None)
    | Returned (Some cause) \<Rightarrow> Some (rawHandlerError (Some cause))
    | Returned None \<Rightarrow> None)"

text \<open>Every callback failure is found to be \<open>ErrHandlerFailed\<close>, and the application's own error is kept.\<close>

lemma handler_failures:
  "invokeNotificationHandler o1 = Some e \<Longrightarrow> errors_is e ErrHandlerFailed"
  "invokeExactServerRequestHandler o2 = Inl e \<Longrightarrow> errors_is e ErrHandlerFailed"
  "invokeRawNotificationHandler o1 = Some e \<Longrightarrow> errors_is e ErrHandlerFailed"
  "\<exists>e. invokeNotificationHandler (Returned (Some cause)) = Some e \<and> errors_is e cause"
  "\<exists>e. invokeRawNotificationHandler (Returned (Some cause)) = Some e \<and> errors_is e cause"
  by (auto simp: invokeNotificationHandler_def invokeExactServerRequestHandler_def invokeRawNotificationHandler_def rawHandlerError_def
      split: handled.splits option.splits sum.splits)

end
