(* ===== verification/Nullable.thy ===== *)
theory Nullable
  imports JSON_Roundtrip
begin

text \<open>
  Present nullable fields, \<open>codexsdk/protocolv2/nullable.go\<close>. The codec of the type inside is an interface: a
  marshaller and an unmarshaller that reads back what was written. Its instance here is the codec of
  dynamic JSON values.
\<close>

record 'a Nullable =
  nu_Value :: "'a option"

definition Null :: "'a Nullable" where
  "Null = \<lparr>nu_Value = None\<rparr>"

definition Value :: "'a \<Rightarrow> 'a Nullable" where
  "Value v = \<lparr>nu_Value = Some v\<rparr>"

definition Nullable_MarshalJSON :: "('a \<Rightarrow> 'e + gostring) \<Rightarrow> 'a Nullable \<Rightarrow> 'e + gostring" where
  "Nullable_MarshalJSON marshal v = (case nu_Value v of None \<Rightarrow> Inr ''null'' | Some x \<Rightarrow> marshal x)"

definition NullableFromJSON :: "(gostring \<Rightarrow> 'e + 'a) \<Rightarrow> gostring \<Rightarrow> 'e + 'a Nullable" where
  "NullableFromJSON unmarshal data = (if trim_space data = ''null'' then Inr Null
     else case unmarshal data of Inl e \<Rightarrow> Inl e | Inr v \<Rightarrow> Inr (Value v))"

text \<open>\<open>UnmarshalJSON\<close> leaves the receiver alone when decoding fails.\<close>

definition Nullable_UnmarshalJSON :: "(gostring \<Rightarrow> 'e + 'a) \<Rightarrow> gostring \<Rightarrow> 'a Nullable \<Rightarrow> 'e option \<times> 'a Nullable" where
  "Nullable_UnmarshalJSON unmarshal data old = (case NullableFromJSON unmarshal data of Inl e \<Rightarrow> (Some e, old) | Inr v \<Rightarrow> (None, v))"

section \<open>Round trips over a codec\<close>

text \<open>A text between two printing ASCII characters has no white space around it.\<close>

definition plain :: "char \<Rightarrow> bool" where
  "plain c \<longleftrightarrow> 33 \<le> (of_char c :: nat) \<and> (of_char c :: nat) < 128"

lemma space_runes_not_plain: "p \<in> set space_runes \<Longrightarrow> \<not> plain (hd p) \<and> \<not> plain (hd (rev p))"
  by (auto simp: space_runes_def plain_def)

lemma trim_space_plain:
  assumes "s \<noteq> []" "plain (hd s)" "plain (last s)"
  shows "trim_space s = s"
proof -
  obtain c t where s: "s = c # t" using assms(1) by (cases s) auto
  obtain d u where r: "rev s = d # u" "d = last s"
    using assms(1) by (metis hd_rev list.collapse rev_is_Nil_conv)
  have "p \<in> set space_runes \<Longrightarrow> hd p \<noteq> c" "p \<in> set (map rev space_runes) \<Longrightarrow> hd p \<noteq> d" for p
    using assms(2,3) s r(2) by (auto dest!: space_runes_not_plain)
  then have "strip_one space_runes s = None" "strip_one (map rev space_runes) (rev s) = None"
    unfolding r(1) unfolding s by (blast intro: strip_one_first)+
  then show ?thesis by (simp add: trim_space_def trim_runes_no_strip)
qed

lemma trim_space_null: "trim_space ''null'' = ''null''"
  by (rule trim_space_plain) (simp_all add: plain_def)

locale json_codec =
  fixes marshal :: "'a \<Rightarrow> 'e + gostring" and unmarshal :: "gostring \<Rightarrow> 'e + 'a" and good :: "'a \<Rightarrow> bool"
  assumes codec: "good v \<Longrightarrow> \<exists>s. marshal v = Inr s \<and> unmarshal s = Inr v \<and> trim_space s \<noteq> ''null''"
begin

lemma nullable_roundtrip:
  assumes "case nu_Value v of None \<Rightarrow> True | Some x \<Rightarrow> good x"
  shows "\<exists>s. Nullable_MarshalJSON marshal v = Inr s \<and> NullableFromJSON unmarshal s = Inr v \<and>
    Nullable_UnmarshalJSON unmarshal s old = (None, v)"
proof (cases "nu_Value v")
  case None
  then have v: "v = Null" by (simp add: Null_def)
  show ?thesis
    unfolding v by (simp add: Nullable_MarshalJSON_def NullableFromJSON_def Nullable_UnmarshalJSON_def trim_space_null Null_def)
next
  case (Some x)
  then have v: "v = Value x" by (simp add: Value_def)
  from assms Some codec[of x] obtain s where s: "marshal x = Inr s" "unmarshal s = Inr x" "trim_space s \<noteq> ''null''" by auto
  then have "Nullable_MarshalJSON marshal v = Inr s" "NullableFromJSON unmarshal s = Inr v"
    unfolding v by (simp_all add: Nullable_MarshalJSON_def NullableFromJSON_def Value_def)
  then show ?thesis by (simp add: Nullable_UnmarshalJSON_def)
qed

text \<open>A text that is read as null is not read as a value, and what is read as a value comes from the codec.\<close>

lemma nullable_null_iff: "NullableFromJSON unmarshal s = Inr Null \<longleftrightarrow> trim_space s = ''null''"
  by (auto simp: NullableFromJSON_def Null_def Value_def split: sum.splits)

end

section \<open>Dynamic values\<close>

lemma valid_number_ends:
  assumes "valid_number x"
  shows "x \<noteq> [] \<and> (hd x = CHR ''-'' \<or> is_digit (hd x)) \<and> is_digit (last x)"
  using assms lex_number_last[of x x "[]"] lex_number_first[of "hd x" "tl x"]
  by (cases x) (auto simp: valid_number_def)

lemma json_text_plain: "jv_wf v \<Longrightarrow> json_text v \<noteq> [] \<and> plain (hd (json_text v)) \<and> plain (last (json_text v))"
proof (cases v)
  case (JNumber x)
  moreover assume "jv_wf v"
  ultimately show ?thesis using valid_number_ends[of x] by (auto simp: plain_def is_digit_def)
qed (auto simp: plain_def marshal_string_def)

lemma json_text_not_null: "jv_wf v \<Longrightarrow> v \<noteq> JNull \<Longrightarrow> json_text v \<noteq> ''null''"
proof (cases v)
  case (JNumber x)
  moreover assume "jv_wf v"
  ultimately show ?thesis using valid_number_ends[of x] by (auto simp: is_digit_def)
qed (auto simp: marshal_string_def)

interpretation dynamic: json_codec MarshalJSON ParseJSONValue "\<lambda>v. jv_wf v \<and> jv_utf8 v \<and> v \<noteq> JNull"
proof
  show "\<exists>s. MarshalJSON v = Inr s \<and> ParseJSONValue s = Inr v \<and> trim_space s \<noteq> ''null''"
    if "jv_wf v \<and> jv_utf8 v \<and> v \<noteq> JNull" for v
    using that marshal_parse[of v] json_text_plain[of v] json_text_not_null[of v] by (auto simp: trim_space_plain)
qed


text \<open>A present field holding null, or any well-formed value but null itself, is read back as it was written.\<close>

theorem nullable_dynamic_roundtrip:
  assumes "case nu_Value v of None \<Rightarrow> True | Some x \<Rightarrow> jv_wf x \<and> jv_utf8 x \<and> x \<noteq> JNull"
  shows "\<exists>s. Nullable_MarshalJSON MarshalJSON v = Inr s \<and> NullableFromJSON ParseJSONValue s = Inr v \<and>
    Nullable_UnmarshalJSON ParseJSONValue s old = (None, v)"
  using assms by (rule dynamic.nullable_roundtrip)

end
