(* ===== verification/Surface_Compat.thy ===== *)
theory Surface_Compat
  imports Codex_Caller Check_Acceptance
begin

text \<open>
  Source compatibility of two generated surfaces, \<open>codexsdk/internal/protocolupgrade/surface.go\<close>: the index of
  exported identities of a manifest, the facade methods derived from its entries, and the report that says
  whether replacing one manifest by another breaks Go code written against the first.

  An entry of a surface is a JSON object as the manifest stores it. Go iterates over a map of accessors in any order
  and then sorts; the model goes through the accessors in the order of their first entry and sorts stably.
\<close>

section \<open>Manifests\<close>

record manifestEntry =
  me_Direction :: gostring
  me_FacadeTarget :: gostring
  me_FacadeStatus :: gostring
  me_Kind :: gostring
  me_Method :: gostring
  me_ParamsOrPayloadSchema :: gostring
  me_ResponseType :: gostring
  me_Stability :: gostring

type_synonym surface_item = "(string \<times> JSONValue) list"

record manifestFile =
  mf_Entries :: "manifestEntry list"
  mf_Surface :: "surface_item list"

text \<open>\<open>^([A-Za-z][A-Za-z0-9]*)\(\)\.([A-Za-z][A-Za-z0-9]*)$\<close> with its two groups\<close>

definition ascii_letter :: "char \<Rightarrow> bool" where
  "ascii_letter c \<longleftrightarrow> (65 \<le> (of_char c :: nat) \<and> (of_char c :: nat) \<le> 90) \<or> (97 \<le> (of_char c :: nat) \<and> (of_char c :: nat) \<le> 122)"

definition go_name :: "gostring \<Rightarrow> bool" where
  "go_name s \<longleftrightarrow> s \<noteq> [] \<and> ascii_letter (hd s) \<and> list_all (\<lambda>c. ascii_letter c \<or> ascii_digit c) s"

definition facade_capture :: "gostring \<Rightarrow> (gostring \<times> gostring) option" where
  "facade_capture s =
     (let accessor = takeWhile (\<lambda>c. c \<noteq> CHR ''('') s; rest = drop (length accessor) s; operation = drop 3 rest in
      if go_name accessor \<and> take 3 rest = ''().'' \<and> go_name operation then Some (accessor, operation) else None)"

definition facade_item :: "gostring \<Rightarrow> gostring \<Rightarrow> gostring \<Rightarrow> gostring \<Rightarrow> gostring \<Rightarrow> surface_item" where
  "facade_item kind name owner signature stability = [(''kind'', JString kind), (''name'', JString name), (''owner'', JString owner),
     (''signature'', JString signature), (''stability'', JString stability)]"

text \<open>The method of an entry, under its accessor; entries without a generated facade have none.\<close>

definition facade_method :: "manifestEntry \<Rightarrow> (gostring \<times> surface_item) option" where
  "facade_method entry =
     (if me_Direction entry \<noteq> ''client_to_server'' \<or> me_Kind entry \<noteq> ''request'' then None
      else case facade_capture (me_FacadeTarget entry) of None \<Rightarrow> None
      | Some (accessor, operation) \<Rightarrow>
          if me_FacadeStatus entry \<noteq> ''generated'' then None
          else Some (accessor, facade_item ''method'' (''codexsdk.'' @ accessor @ ''.'' @ operation) (''codexsdk.'' @ accessor)
            (''func(context.Context'' @
              (if me_ParamsOrPayloadSchema entry \<noteq> [] then '', protocolv2.'' @ me_ParamsOrPayloadSchema entry else []) @
              '') (protocolv2.'' @ me_ResponseType entry @ '', error)'') (me_Stability entry)))"

definition item_field :: "gostring \<Rightarrow> surface_item \<Rightarrow> gostring" where
  "item_field name item = jsonString (map_of item name)"

definition accessor_items :: "gostring \<Rightarrow> surface_item list \<Rightarrow> surface_item list" where
  "accessor_items accessor methods =
     (let stabilities = remdups (map (item_field ''stability'') methods);
          typeStability = (case stabilities of [stability] \<Rightarrow> stability | _ \<Rightarrow> ''mixed'')
      in facade_item ''type'' (''codexsdk.'' @ accessor) [] ''struct{/* opaque */}'' typeStability # methods)"

definition facadeCompatibilitySurface :: "manifestFile \<Rightarrow> surface_item list" where
  "facadeCompatibilitySurface manifest =
     (let methods = List.map_filter facade_method (mf_Entries manifest);
          accessors = remdups (map fst methods);
          surface = concat (map (\<lambda>a. accessor_items a (map snd (filter (\<lambda>m. fst m = a) methods))) accessors)
      in sort_key (\<lambda>item. (item_field ''kind'' item, item_field ''name'' item)) surface)"

section \<open>The index of a surface\<close>

type_synonym surfaceKey = "gostring \<times> gostring"

record surfaceFact =
  sf_classification :: gostring
  sf_signature :: gostring

definition surface_fact :: "surface_item \<Rightarrow> (surfaceKey \<times> surfaceFact) option" where
  "surface_fact raw =
     (let kind = item_field ''kind'' raw; name = item_field ''name'' raw; stability = item_field ''stability'' raw;
          signature = item_field ''signature'' raw
      in if kind = [] \<or> name = [] \<or> stability = [] \<or> signature = [] then None
         else Some ((kind, name), \<lparr>sf_classification = stability, sf_signature = signature\<rparr>))"

text \<open>A later entry of the same identity replaces an earlier one.\<close>

definition surfaceIndex :: "manifestFile \<Rightarrow> (surfaceKey \<times> surfaceFact) list" where
  "surfaceIndex manifest = fold (\<lambda>raw m. case surface_fact raw of None \<Rightarrow> m | Some (k, f) \<Rightarrow> AList.update k f m)
     (mf_Surface manifest @ facadeCompatibilitySurface manifest) []"

definition sortedSurfaceKeys :: "(surfaceKey \<times> surfaceFact) list \<Rightarrow> surfaceKey list" where
  "sortedSurfaceKeys index = sort (map fst index)"

section \<open>The report\<close>

record surface_change =
  sc_key :: surfaceKey
  sc_from :: gostring
  sc_to :: gostring

record compatibility =
  cr_compatibility_impact :: gostring
  cr_release_impact :: gostring
  cr_added :: "(surfaceKey \<times> surfaceFact) list"
  cr_removed :: "(surfaceKey \<times> surfaceFact) list"
  cr_reclassified :: "surface_change list"
  cr_changed :: "surface_change list"
  cr_obligations :: "(surfaceKey \<times> surfaceFact) list"
  cr_weakened :: "surface_change list"
  cr_strengthened :: "surface_change list"

definition supportRank :: "gostring \<Rightarrow> int" where
  "supportRank s = (if s = ''mixed'' then 1 else if s = ''stable'' then 2 else 0)"

definition only_in :: "(surfaceKey \<times> surfaceFact) list \<Rightarrow> (surfaceKey \<times> surfaceFact) list \<Rightarrow> (surfaceKey \<times> surfaceFact) list" where
  "only_in here there = List.map_filter (\<lambda>key. case (map_of here key, map_of there key) of
      (Some item, None) \<Rightarrow> Some (key, item) | _ \<Rightarrow> None) (sortedSurfaceKeys here)"

definition differing :: "(surfaceFact \<Rightarrow> gostring) \<Rightarrow> (surfaceKey \<times> surfaceFact) list \<Rightarrow> (surfaceKey \<times> surfaceFact) list \<Rightarrow> surface_change list" where
  "differing datum before after = List.map_filter (\<lambda>key. case (map_of before key, map_of after key) of
      (Some b, Some a) \<Rightarrow> if datum b \<noteq> datum a then Some \<lparr>sc_key = key, sc_from = datum b, sc_to = datum a\<rparr> else None
    | _ \<Rightarrow> None) (sortedSurfaceKeys before)"

definition compatibilityReport :: "manifestFile \<Rightarrow> manifestFile \<Rightarrow> compatibility" where
  "compatibilityReport base target =
     (let before = surfaceIndex base; after = surfaceIndex target;
          added = only_in after before;
          removed = only_in before after;
          reclassified = differing sf_classification before after;
          changed = differing sf_signature before after;
          obligations = filter (\<lambda>(key, _). fst key = ''interface_method'') added;
          weakened = filter (\<lambda>c. supportRank (sc_to c) < supportRank (sc_from c)) reclassified;
          strengthened = filter (\<lambda>c. supportRank (sc_to c) > supportRank (sc_from c)) reclassified;
          incompatible = removed \<noteq> [] \<or> changed \<noteq> [] \<or> obligations \<noteq> [] \<or> weakened \<noteq> []
      in \<lparr>cr_compatibility_impact = (if incompatible then ''incompatible'' else ''additive_or_metadata_only''),
          cr_release_impact = (if incompatible then ''breaking'' else if added \<noteq> [] \<or> strengthened \<noteq> [] then ''additive'' else ''metadata-only''),
          cr_added = added, cr_removed = removed, cr_reclassified = reclassified, cr_changed = changed,
          cr_obligations = obligations, cr_weakened = weakened, cr_strengthened = strengthened\<rparr>)"

section \<open>What breaking means\<close>

text \<open>
  The surfaces as maps. A surface extends another when every identity is still there with its signature and at
  least its support, and nothing new must be implemented by code outside.
\<close>

definition surface_of :: "manifestFile \<Rightarrow> surfaceKey \<rightharpoonup> surfaceFact" where
  "surface_of manifest = map_of (surfaceIndex manifest)"

definition extends :: "(surfaceKey \<rightharpoonup> surfaceFact) \<Rightarrow> (surfaceKey \<rightharpoonup> surfaceFact) \<Rightarrow> bool" where
  "extends old new \<longleftrightarrow>
     (\<forall>key b. old key = Some b \<longrightarrow> new key \<noteq> None) \<and>
     (\<forall>key b a. old key = Some b \<longrightarrow> new key = Some a \<longrightarrow> sf_signature b = sf_signature a) \<and>
     (\<forall>key a. new key = Some a \<longrightarrow> fst key = ''interface_method'' \<longrightarrow> old key \<noteq> None) \<and>
     (\<forall>key b a. old key = Some b \<longrightarrow> new key = Some a \<longrightarrow> supportRank (sf_classification b) \<le> supportRank (sf_classification a))"

declare split_paired_All [simp del] split_paired_Ex [simp del]

lemma extends_refl: "extends s s"
  by (auto simp: extends_def)

lemma extends_step:
  "extends old new \<Longrightarrow> old key = Some b \<Longrightarrow>
   \<exists>a. new key = Some a \<and> sf_signature b = sf_signature a \<and> supportRank (sf_classification b) \<le> supportRank (sf_classification a)"
  unfolding extends_def by (cases "new key") auto

lemma extends_trans:
  assumes "extends s t" "extends t u"
  shows "extends s u"
proof -
  have "\<exists>c. u key = Some c \<and> sf_signature a = sf_signature c \<and> supportRank (sf_classification a) \<le> supportRank (sf_classification c)"
    if "s key = Some a" for key a
    using extends_step[OF assms(1) that] extends_step[OF assms(2)] by fastforce
  moreover have "s key \<noteq> None" if "u key = Some c" "fst key = ''interface_method''" for key c
    using assms that unfolding extends_def by blast
  ultimately show ?thesis unfolding extends_def by fastforce
qed

lemma set_map_filter: "y \<in> set (List.map_filter f xs) \<longleftrightarrow> (\<exists>x \<in> set xs. f x = Some y)"
  by (induction xs) (auto simp: List.map_filter_simps split: option.split)

lemma sortedSurfaceKeys_set: "key \<in> set (sortedSurfaceKeys index) \<longleftrightarrow> map_of index key \<noteq> None"
  by (auto simp: sortedSurfaceKeys_def map_of_eq_None_iff)

lemma only_in_iff: "(key, item) \<in> set (only_in here there) \<longleftrightarrow> map_of here key = Some item \<and> map_of there key = None"
  by (fastforce simp: only_in_def set_map_filter sortedSurfaceKeys_set split: option.splits)

lemma differing_iff:
  "\<lparr>sc_key = key, sc_from = x, sc_to = y\<rparr> \<in> set (differing datum before after) \<longleftrightarrow>
   (\<exists>b a. map_of before key = Some b \<and> map_of after key = Some a \<and> datum b \<noteq> datum a \<and> x = datum b \<and> y = datum a)"
  (is "?change \<in> _ \<longleftrightarrow> ?rhs")
proof
  assume "?change \<in> set (differing datum before after)"
  then obtain k where "(case (map_of before k, map_of after k) of
      (Some b, Some a) \<Rightarrow> if datum b \<noteq> datum a then Some \<lparr>sc_key = k, sc_from = datum b, sc_to = datum a\<rparr> else None
    | _ \<Rightarrow> None) = Some ?change"
    unfolding differing_def set_map_filter by blast
  then show ?rhs by (cases "map_of before k"; cases "map_of after k") (auto split: if_splits)
next
  assume ?rhs
  then show "?change \<in> set (differing datum before after)"
    unfolding differing_def set_map_filter by (intro bexI[of _ key]) (auto simp: sortedSurfaceKeys_set)
qed

lemma all_changes: "(\<forall>c \<in> set cs. P c) \<longleftrightarrow> (\<forall>k x y. \<lparr>sc_key = k, sc_from = x, sc_to = y\<rparr> \<in> set cs \<longrightarrow> P \<lparr>sc_key = k, sc_from = x, sc_to = y\<rparr>)"
  by (metis surface_change.cases)

lemma no_changes: "filter P (differing datum before after) = [] \<longleftrightarrow>
   (\<forall>key b a. map_of before key = Some b \<longrightarrow> map_of after key = Some a \<longrightarrow> datum b \<noteq> datum a \<longrightarrow>
      \<not> P \<lparr>sc_key = key, sc_from = datum b, sc_to = datum a\<rparr>)"
  unfolding filter_empty_conv all_changes differing_iff by blast

lemma no_only_in: "filter P (only_in here there) = [] \<longleftrightarrow>
   (\<forall>key item. map_of here key = Some item \<longrightarrow> map_of there key = None \<longrightarrow> \<not> P (key, item))"
  unfolding filter_empty_conv using only_in_iff[of _ _ here there] by (metis prod.collapse)

section \<open>Properties\<close>

lemma report_compatible_iff:
  "cr_release_impact (compatibilityReport base target) \<noteq> ''breaking'' \<longleftrightarrow> extends (surface_of base) (surface_of target)"
proof -
  let ?b = "surfaceIndex base" and ?a = "surfaceIndex target"
  have removed: "only_in ?b ?a = [] \<longleftrightarrow> (\<forall>key b. map_of ?b key = Some b \<longrightarrow> map_of ?a key \<noteq> None)"
    using no_only_in[of "\<lambda>_. True" ?b ?a] by simp
  have changed: "differing sf_signature ?b ?a = [] \<longleftrightarrow>
      (\<forall>key b a. map_of ?b key = Some b \<longrightarrow> map_of ?a key = Some a \<longrightarrow> sf_signature b = sf_signature a)"
    using no_changes[of "\<lambda>_. True" sf_signature ?b ?a] by simp
  have obliged: "filter (\<lambda>(key, _). fst key = ''interface_method'') (only_in ?a ?b) = [] \<longleftrightarrow>
      (\<forall>key a. map_of ?a key = Some a \<longrightarrow> fst key = ''interface_method'' \<longrightarrow> map_of ?b key \<noteq> None)"
    unfolding no_only_in prod.case by blast
  have weakened: "filter (\<lambda>c. supportRank (sc_to c) < supportRank (sc_from c)) (differing sf_classification ?b ?a) = [] \<longleftrightarrow>
      (\<forall>key b a. map_of ?b key = Some b \<longrightarrow> map_of ?a key = Some a \<longrightarrow>
        supportRank (sf_classification b) \<le> supportRank (sf_classification a))"
    unfolding no_changes surface_change.simps not_less by (metis order_refl)
  have "cr_release_impact (compatibilityReport base target) \<noteq> ''breaking'' \<longleftrightarrow>
      only_in ?b ?a = [] \<and> differing sf_signature ?b ?a = [] \<and> filter (\<lambda>(key, _). fst key = ''interface_method'') (only_in ?a ?b) = [] \<and>
      filter (\<lambda>c. supportRank (sc_to c) < supportRank (sc_from c)) (differing sf_classification ?b ?a) = []"
    by (simp add: compatibilityReport_def Let_def)
  then show ?thesis unfolding extends_def surface_of_def removed changed obliged weakened .
qed


definition nonbreaking :: "manifestFile \<Rightarrow> manifestFile \<Rightarrow> bool" where
  "nonbreaking base target \<longleftrightarrow> cr_release_impact (compatibilityReport base target) \<noteq> ''breaking''"

text \<open>C30: upgrades the report does not call breaking compose. However many of them follow each other, every identity
  of the first surface is in the last one under the same kind and name, with the same signature and at least the same
  support; no interface method was added for others to implement; and the report of the first against the last
  is not breaking either. An upgrade without any of these defects is never called breaking.\<close>

theorem nonbreaking_upgrades_compose:
  assumes "successively nonbreaking (base # targets)" "target \<in> set targets"
  shows "nonbreaking base target \<and>
    (\<forall>key b. surface_of base key = Some b \<longrightarrow> (\<exists>a. surface_of target key = Some a \<and> sf_signature b = sf_signature a \<and>
       supportRank (sf_classification b) \<le> supportRank (sf_classification a))) \<and>
    (\<forall>key a. surface_of target key = Some a \<longrightarrow> fst key = ''interface_method'' \<longrightarrow> surface_of base key \<noteq> None) \<and>
    (\<forall>other. extends (surface_of base) (surface_of other) \<longrightarrow> nonbreaking base other)"
proof -
  have "extends (surface_of base) (surface_of target)"
    using assms
  proof (induction targets arbitrary: base)
    case (Cons succ targets)
    then have step: "extends (surface_of base) (surface_of succ)" by (simp add: nonbreaking_def report_compatible_iff)
    show ?case
    proof (cases "target = succ")
      case False
      with Cons.prems Cons.IH[of succ] show ?thesis by (auto intro: extends_trans[OF step])
    qed (use step in simp)
  qed simp
  then show ?thesis
    using extends_step unfolding nonbreaking_def report_compatible_iff by (fastforce simp: extends_def)
qed

definition example_item :: "gostring \<Rightarrow> gostring \<Rightarrow> surface_item" where
  "example_item name stability = facade_item ''type'' name [] ''struct{}'' stability"

definition example_manifest :: "surface_item list \<Rightarrow> manifestFile" where
  "example_manifest items = \<lparr>mf_Entries = [\<lparr>me_Direction = ''client_to_server'', me_FacadeTarget = ''Threads().List'', me_FacadeStatus = ''generated'',
     me_Kind = ''request'', me_Method = ''thread/list'', me_ParamsOrPayloadSchema = ''ThreadListParams'', me_ResponseType = ''ThreadListResponse'',
     me_Stability = ''stable''\<rparr>], mf_Surface = items\<rparr>"

theorem nonbreaking_upgrades_compose_witness:
  "nonbreaking (example_manifest [example_item ''A'' ''experimental''])
     (example_manifest [example_item ''A'' ''stable'', example_item ''B'' ''stable'', example_item ''C'' ''mixed''])"
proof -
  let ?base = "example_manifest [example_item ''A'' ''experimental'']"
    and ?next = "example_manifest [example_item ''A'' ''mixed'', example_item ''B'' ''stable'']"
    and ?last = "example_manifest [example_item ''A'' ''stable'', example_item ''B'' ''stable'', example_item ''C'' ''mixed'']"
  have "nonbreaking ?base ?next" "nonbreaking ?next ?last" by code_simp+
  then show ?thesis using nonbreaking_upgrades_compose[of ?base "[?next, ?last]" ?last] by simp
qed

end
