(* ===== verification/Upgrade_Compare.thy ===== *)
theory Upgrade_Compare
  imports Schema_Admission
begin

text \<open>
  Comparison of two schema directories, \<open>codexsdk/internal/protocolupgrade/schema.go\<close> and \<open>compare.go\<close>: canonical
  hashes of the schema files, the difference of two directories, of the methods of the aggregate schemas, and the
  report with its check that neither directory changed meanwhile.

  The file system acts on a state \<open>'w\<close> that others may change between two reads. \<open>fs_walk\<close> gives the relative
  paths of the files below a directory, each once; decoding an aggregate schema into its struct and the
  hash are parameters. A Go map of hashes is an association list.
\<close>

section \<open>Files\<close>

record 'w files =
  fs_walk :: "gostring \<Rightarrow> 'w \<Rightarrow> (go_error + gostring list) \<times> 'w"
  fs_read :: "gostring \<Rightarrow> gostring \<Rightarrow> 'w \<Rightarrow> (go_error + gostring) \<times> 'w"
  fs_IsNotExist :: "go_error \<Rightarrow> bool"
  fs_sha256 :: "gostring \<Rightarrow> gostring"
  fs_method_enums :: "gostring \<Rightarrow> go_error + gostring list list"

definition StatusClean :: gostring where "StatusClean = ''clean''"
definition StatusReviewRequired :: gostring where "StatusReviewRequired = ''review-required''"

definition metadataFiles :: "gostring list" where
  "metadataFiles = [''baseline_metadata.json'', ''coverage_matrix.json'', ''drift_report.json'', ''manifest.json'',
     ''manifest_generation.json'', ''matrix_update_skeleton.json'']"

definition aggregateSchemas :: "gostring list" where
  "aggregateSchemas = [''ClientRequest.json'', ''ServerRequest.json'', ''ServerNotification.json'', ''ClientNotification.json'']"

definition base_name :: "gostring \<Rightarrow> gostring" where
  "base_name path = last (split_on (CHR ''/'') path)"

definition schema_path :: "gostring \<Rightarrow> bool" where
  "schema_path path \<longleftrightarrow> has_prefix (rev (base_name path)) (rev ''.json'') \<and> base_name path \<notin> set metadataFiles"

definition schemaFiles :: "'w files \<Rightarrow> gostring \<Rightarrow> 'w \<Rightarrow> (go_error + gostring list) \<times> 'w" where
  "schemaFiles fs root w = (case fs_walk fs root w of (Inl e, w) \<Rightarrow> (Inl e, w)
     | (Inr paths, w) \<Rightarrow> (Inr (sort (filter schema_path paths)), w))"

text \<open>A loop over files that stops at the first error.\<close>

fun each_file :: "('a \<Rightarrow> 'w \<Rightarrow> (go_error + 'b) \<times> 'w) \<Rightarrow> 'a list \<Rightarrow> 'w \<Rightarrow> (go_error + 'b list) \<times> 'w" where
  "each_file f [] w = (Inr [], w)"
| "each_file f (x # xs) w = (case f x w of (Inl e, w) \<Rightarrow> (Inl e, w)
     | (Inr y, w) \<Rightarrow> (case each_file f xs w of (Inl e, w) \<Rightarrow> (Inl e, w) | (Inr ys, w) \<Rightarrow> (Inr (y # ys), w)))"

text \<open>\<open>canonicalJSON\<close> decodes the first value of the text and looks at nothing behind it.\<close>

definition canonicalJSON :: "gostring \<Rightarrow> go_error + gostring" where
  "canonicalJSON raw = (case decode_any raw of Inl _ \<Rightarrow> Inl (ErrNew ''invalid JSON'') | Inr (v, _) \<Rightarrow> json_marshal v)"

definition schema_hash :: "'w files \<Rightarrow> gostring \<Rightarrow> gostring \<Rightarrow> 'w \<Rightarrow> (go_error + gostring \<times> gostring) \<times> 'w" where
  "schema_hash fs root rel w = (case fs_read fs root rel w of (Inl e, w) \<Rightarrow> (Inl e, w)
     | (Inr raw, w) \<Rightarrow> (case canonicalJSON raw of Inl e \<Rightarrow> (Inl (ErrWrap rel [e]), w)
         | Inr canonical \<Rightarrow> (Inr (rel, fs_sha256 fs canonical), w)))"

definition schemaHashes :: "'w files \<Rightarrow> gostring \<Rightarrow> 'w \<Rightarrow> (go_error + (gostring \<times> gostring) list) \<times> 'w" where
  "schemaHashes fs root w = (case schemaFiles fs root w of (Inl e, w) \<Rightarrow> (Inl e, w)
     | (Inr paths, w) \<Rightarrow> each_file (schema_hash fs root) paths w)"

definition schemaBundleSHA256 :: "'w files \<Rightarrow> gostring \<Rightarrow> 'w \<Rightarrow> (go_error + gostring) \<times> 'w" where
  "schemaBundleSHA256 fs root w = (case schemaHashes fs root w of (Inl e, w) \<Rightarrow> (Inl e, w)
     | (Inr hashes, w) \<Rightarrow> (case json_marshal (JObject (map (\<lambda>(k, h). (k, JString h)) hashes)) of
         Inl e \<Rightarrow> (Inl e, w) | Inr canonical \<Rightarrow> (Inr (fs_sha256 fs canonical), w)))"

definition raw_hash :: "'w files \<Rightarrow> gostring \<Rightarrow> gostring \<Rightarrow> 'w \<Rightarrow> (go_error + gostring \<times> gostring) \<times> 'w" where
  "raw_hash fs root rel w = (case fs_read fs root rel w of (Inl e, w) \<Rightarrow> (Inl e, w) | (Inr raw, w) \<Rightarrow> (Inr (rel, fs_sha256 fs raw), w))"

definition snapshotHashes :: "'w files \<Rightarrow> gostring \<Rightarrow> 'w \<Rightarrow> (go_error + (gostring \<times> gostring) list) \<times> 'w" where
  "snapshotHashes fs root w = (case fs_walk fs root w of (Inl e, w) \<Rightarrow> (Inl e, w)
     | (Inr paths, w) \<Rightarrow> each_file (raw_hash fs root) paths w)"

section \<open>Differences\<close>

record FileDiff =
  fd_Added :: "gostring list"
  fd_Changed :: "gostring list"
  fd_Removed :: "gostring list"

definition FileDiff_empty :: "FileDiff \<Rightarrow> bool" where
  "FileDiff_empty d \<longleftrightarrow> fd_Added d = [] \<and> fd_Changed d = [] \<and> fd_Removed d = []"

definition fileDiff :: "(gostring \<times> gostring) list \<Rightarrow> (gostring \<times> gostring) list \<Rightarrow> FileDiff" where
  "fileDiff baseline candidate =
     \<lparr>fd_Added = sort (filter (\<lambda>path. map_of baseline path = None) (map fst candidate)),
      fd_Changed = sort (map fst (filter (\<lambda>(path, hash). case map_of candidate path of None \<Rightarrow> False | Some h \<Rightarrow> hash \<noteq> h) baseline)),
      fd_Removed = sort (map fst (filter (\<lambda>(path, _). map_of candidate path = None) baseline))\<rparr>"

record MethodDelta =
  md_Added :: "gostring list"
  md_Removed :: "gostring list"

definition MethodDelta_empty :: "MethodDelta \<Rightarrow> bool" where
  "MethodDelta_empty d \<longleftrightarrow> md_Added d = [] \<and> md_Removed d = []"

definition sortedSetDiff :: "gostring list \<Rightarrow> gostring list \<Rightarrow> gostring list" where
  "sortedSetDiff left right = sort (filter (\<lambda>value. value \<notin> set right) left)"

definition aggregateMethodNames :: "'w files \<Rightarrow> gostring \<Rightarrow> gostring \<Rightarrow> 'w \<Rightarrow> (go_error + gostring list) \<times> 'w" where
  "aggregateMethodNames fs root rel w = (case fs_read fs root rel w of
      (Inl e, w) \<Rightarrow> (if fs_IsNotExist fs e then Inr [] else Inl e, w)
    | (Inr raw, w) \<Rightarrow> (case fs_method_enums fs raw of Inl e \<Rightarrow> (Inl (ErrWrap (''decode '' @ rel) [e]), w)
        | Inr enums \<Rightarrow> (Inr (sort (map hd (filter (\<lambda>enum. enum \<noteq> []) enums))), w)))"

definition method_delta :: "'w files \<Rightarrow> gostring \<Rightarrow> gostring \<Rightarrow> gostring \<Rightarrow> 'w \<Rightarrow> (go_error + gostring \<times> MethodDelta) \<times> 'w" where
  "method_delta fs baseline candidate rel w = (case aggregateMethodNames fs baseline rel w of (Inl e, w) \<Rightarrow> (Inl e, w)
     | (Inr before, w) \<Rightarrow> (case aggregateMethodNames fs candidate rel w of (Inl e, w) \<Rightarrow> (Inl e, w)
         | (Inr after, w) \<Rightarrow> (Inr (rel, \<lparr>md_Added = sortedSetDiff after before, md_Removed = sortedSetDiff before after\<rparr>), w)))"

definition aggregateMethodDiff :: "'w files \<Rightarrow> gostring \<Rightarrow> gostring \<Rightarrow> 'w \<Rightarrow> (go_error + (gostring \<times> MethodDelta) list) \<times> 'w" where
  "aggregateMethodDiff fs baseline candidate = each_file (method_delta fs baseline candidate) aggregateSchemas"

section \<open>The report\<close>

record Target =
  tg_SourceRepo :: gostring
  tg_SourceRefName :: gostring
  tg_SourceRefKind :: gostring
  tg_SourceCommit :: gostring
  tg_CodexVersion :: gostring
  tg_Generator :: gostring
  tg_GeneratorDetail :: gostring
  tg_SchemaBundleSHA256 :: gostring
  tg_CanonicalJSONNote :: gostring

record Report =
  re_Status :: gostring
  re_ComparisonMode :: gostring
  re_Target :: Target
  re_FileDiff :: FileDiff
  re_MethodDiff :: "(gostring \<times> MethodDelta) list"
  re_MatrixUpdateSkeleton :: gostring

record CompareRequest =
  cq_Baseline :: gostring
  cq_Candidate :: gostring
  cq_SourceCommit :: gostring
  cq_SourceRef :: gostring
  cq_SourceRefKind :: gostring
  cq_CodexVersion :: gostring
  cq_Generator :: gostring
  cq_GeneratorDetail :: gostring

text \<open>A missing key of a Go map of strings reads as the empty string.\<close>

definition hash_at :: "(gostring \<times> gostring) list \<Rightarrow> gostring \<Rightarrow> gostring" where
  "hash_at m path = (case map_of m path of None \<Rightarrow> [] | Some h \<Rightarrow> h)"

definition sameSnapshot :: "(gostring \<times> gostring) list \<Rightarrow> (gostring \<times> gostring) list \<Rightarrow> gostring \<Rightarrow> go_error option" where
  "sameSnapshot before after label =
     (if length before \<noteq> length after then Some (ErrNew (label @ '' mutated during compare''))
      else case find (\<lambda>(path, hash). hash_at after path \<noteq> hash) before of
        Some (path, _) \<Rightarrow> Some (ErrNew (label @ '' mutated during compare: '' @ path)) | None \<Rightarrow> None)"

definition report_status :: "FileDiff \<Rightarrow> (gostring \<times> MethodDelta) list \<Rightarrow> gostring" where
  "report_status diff deltas = (if \<not> FileDiff_empty diff \<or> list_ex (\<lambda>(_, delta). \<not> MethodDelta_empty delta) deltas
     then StatusReviewRequired else StatusClean)"

text \<open>\<open>Compare\<close>, an error monad over the state of the file system.\<close>

definition and_then :: "('w \<Rightarrow> (go_error + 'a) \<times> 'w) \<Rightarrow> (go_error \<Rightarrow> go_error) \<Rightarrow> ('a \<Rightarrow> 'w \<Rightarrow> (go_error + 'b) \<times> 'w) \<Rightarrow> 'w \<Rightarrow> (go_error + 'b) \<times> 'w" where
  "and_then f wrap g w = (case f w of (Inl e, w) \<Rightarrow> (Inl (wrap e), w) | (Inr x, w) \<Rightarrow> g x w)"

definition fail_if :: "go_error option \<Rightarrow> 'w \<Rightarrow> (go_error + unit) \<times> 'w" where
  "fail_if err w = (case err of None \<Rightarrow> (Inr (), w) | Some e \<Rightarrow> (Inl e, w))"

definition compare_report :: "CompareRequest \<Rightarrow> FileDiff \<Rightarrow> (gostring \<times> MethodDelta) list \<Rightarrow> gostring \<Rightarrow> Report" where
  "compare_report req diff deltas bundle = \<lparr>re_Status = report_status diff deltas, re_ComparisonMode = ''canonical-json'',
     re_Target = \<lparr>tg_SourceRepo = ''https://github.com/openai/codex'', tg_SourceRefName = cq_SourceRef req, tg_SourceRefKind = cq_SourceRefKind req, tg_SourceCommit = cq_SourceCommit req,
       tg_CodexVersion = cq_CodexVersion req, tg_Generator = cq_Generator req, tg_GeneratorDetail = cq_GeneratorDetail req,
       tg_SchemaBundleSHA256 = bundle,
       tg_CanonicalJSONNote = ''Schema comparisons use canonical JSON; object member ordering is irrelevant.''\<rparr>,
     re_FileDiff = diff, re_MethodDiff = deltas, re_MatrixUpdateSkeleton = ''matrix_update_skeleton.json''\<rparr>"

definition Compare :: "'w files \<Rightarrow> CompareRequest \<Rightarrow> 'w \<Rightarrow> (go_error + Report) \<times> 'w" where
  "Compare fs req w =
     (if cq_Baseline req = [] then (Inl (ErrNew ''baseline directory is required''), w)
      else if cq_Candidate req = [] then (Inl (ErrNew ''candidate directory is required''), w)
      else and_then (snapshotHashes fs (cq_Baseline req)) (\<lambda>e. ErrWrap ''snapshot baseline'' [e]) (\<lambda>beforeBaseline.
        and_then (snapshotHashes fs (cq_Candidate req)) (\<lambda>e. ErrWrap ''snapshot candidate'' [e]) (\<lambda>beforeCandidate.
        and_then (schemaHashes fs (cq_Baseline req)) (\<lambda>e. ErrWrap ''hash baseline'' [e]) (\<lambda>baseHashes.
        and_then (schemaHashes fs (cq_Candidate req)) (\<lambda>e. ErrWrap ''hash candidate'' [e]) (\<lambda>candidateHashes.
        and_then (aggregateMethodDiff fs (cq_Baseline req) (cq_Candidate req)) id (\<lambda>deltas.
        and_then (schemaBundleSHA256 fs (cq_Candidate req)) id (\<lambda>bundle.
        and_then (snapshotHashes fs (cq_Baseline req)) id (\<lambda>afterBaseline.
        and_then (snapshotHashes fs (cq_Candidate req)) id (\<lambda>afterCandidate.
        and_then (fail_if (sameSnapshot beforeBaseline afterBaseline ''baseline'')) id (\<lambda>_.
        and_then (fail_if (sameSnapshot beforeCandidate afterCandidate ''candidate'')) id (\<lambda>_ w.
          (Inr (compare_report req (fileDiff baseHashes candidateHashes) deltas bundle), w))))))))))) w)"


section \<open>Snapshots\<close>

lemma sameSnapshot_iff:
  assumes "distinct (map fst before)" "distinct (map fst after)" "list_all (\<lambda>(_, h). h \<noteq> []) before"
  shows "sameSnapshot before after label = None \<longleftrightarrow> map_of before = map_of after"
proof
  assume "sameSnapshot before after label = None"
  then have len: "length before = length after" and same: "\<forall>(path, hash) \<in> set before. hash_at after path = hash"
    by (auto simp: sameSnapshot_def find_None_iff split: if_splits option.splits)
  have sub: "set before \<subseteq> set after"
  proof
    fix x assume x: "x \<in> set before"
    obtain path hash where p: "x = (path, hash)" by (cases x)
    with x same assms(3) have "hash_at after path = hash" "hash \<noteq> []" by (auto simp: list_all_iff)
    then have "map_of after path = Some hash" by (auto simp: hash_at_def split: option.splits)
    then show "x \<in> set after" using p by (simp add: map_of_SomeD)
  qed
  moreover have "card (set before) = card (set after)"
    using len assms(1,2) by (metis distinct_card distinct_map)
  ultimately have "set before = set after" by (simp add: card_subset_eq)
  then show "map_of before = map_of after" using assms(1,2) map_of_inject_set by blast
next
  assume eq: "map_of before = map_of after"
  then have "set before = set after" using assms(1,2) map_of_inject_set by blast
  then have len: "length before = length after" using assms(1,2) by (metis distinct_card distinct_map)
  have "hash_at after path = hash" if "(path, hash) \<in> set before" for path hash
    using that assms(1) eq by (simp add: hash_at_def flip: eq)
  then have "find (\<lambda>(path, hash). hash_at after path \<noteq> hash) before = None" unfolding find_None_iff by auto
  with len show "sameSnapshot before after label = None" by (simp add: sameSnapshot_def)
qed

section \<open>Directories that do not change\<close>

definition quiet :: "'w files \<Rightarrow> 'w \<Rightarrow> bool" where
  "quiet fs w \<longleftrightarrow> (\<forall>root. snd (fs_walk fs root w) = w) \<and> (\<forall>root rel. snd (fs_read fs root rel w) = w) \<and>
     (\<forall>root paths. fst (fs_walk fs root w) = Inr paths \<longrightarrow> distinct paths)"

text \<open>The canonical text of a schema file, where there is one.\<close>

definition canonical_file :: "'w files \<Rightarrow> 'w \<Rightarrow> gostring \<Rightarrow> gostring \<Rightarrow> gostring option" where
  "canonical_file fs w root path = (case fst (fs_walk fs root w) of Inl _ \<Rightarrow> None
     | Inr paths \<Rightarrow> if path \<in> set paths \<and> schema_path path
         then (case fst (fs_read fs root path w) of Inl _ \<Rightarrow> None
           | Inr raw \<Rightarrow> (case canonicalJSON raw of Inl _ \<Rightarrow> None | Inr canonical \<Rightarrow> Some canonical)) else None)"

lemma quiet_pairs: "quiet fs w \<Longrightarrow> fs_read fs root rel w = (fst (fs_read fs root rel w), w)"
  "quiet fs w \<Longrightarrow> fs_walk fs root w = (fst (fs_walk fs root w), w)"
  by (metis quiet_def surjective_pairing)+

lemma each_file_quiet:
  assumes "\<And>x. snd (f x w) = w" "each_file f xs w = (Inr ys, w')"
  shows "w' = w \<and> map Inr ys = map (\<lambda>x. fst (f x w)) xs"
  using assms(2)
proof (induction xs arbitrary: ys)
  case (Cons x xs)
  from assms(1)[of x] obtain r where f: "f x w = (r, w)" by (metis prod.collapse)
  with Cons.prems obtain y zs where "r = Inr y" "each_file f xs w = (Inr zs, w')" "ys = y # zs"
    by (auto split: sum.splits prod.splits)
  with Cons.IH f show ?case by simp
qed simp


lemma schema_hash_quiet:
  assumes "quiet fs w"
  shows "snd (schema_hash fs root rel w) = w"
    and "fst (schema_hash fs root rel w) = Inr (k, h) \<Longrightarrow> fst (fs_walk fs root w) = Inr paths \<Longrightarrow> rel \<in> set paths \<Longrightarrow> schema_path rel \<Longrightarrow>
      k = rel \<and> (\<exists>text. canonical_file fs w root rel = Some text \<and> h = fs_sha256 fs text)"
  using quiet_pairs(1)[OF assms, of root rel]
  by (auto simp: schema_hash_def canonical_file_def split: prod.splits sum.splits)

lemma schemaHashes_quiet:
  assumes "quiet fs w" "schemaHashes fs root w = (Inr hs, w')"
  shows "w' = w" "distinct (map fst hs)" "map_of hs path = map_option (fs_sha256 fs) (canonical_file fs w root path)"
proof -
  obtain paths where walk: "fst (fs_walk fs root w) = Inr paths"
    and each: "each_file (schema_hash fs root) (sort (filter schema_path paths)) w = (Inr hs, w')"
    using assms(2) quiet_pairs(2)[OF assms(1), of root]
    by (auto simp: schemaHashes_def schemaFiles_def split: prod.splits sum.splits)
  let ?ps = "sort (filter schema_path paths)" and ?h = "\<lambda>rel. fs_sha256 fs (the (canonical_file fs w root rel))"
  have run: "w' = w" "map Inr hs = map (\<lambda>x. fst (schema_hash fs root x w)) ?ps"
    using each_file_quiet[OF schema_hash_quiet(1)[OF assms(1)] each] by auto
  have entry: "hs ! i = (?ps ! i, ?h (?ps ! i)) \<and> canonical_file fs w root (?ps ! i) \<noteq> None" if "i < length ?ps" for i
  proof -
    have "fst (schema_hash fs root (?ps ! i) w) = Inr (hs ! i)"
      using arg_cong[OF run(2), of "\<lambda>xs. xs ! i"] arg_cong[OF run(2), of length] that by simp
    moreover have "?ps ! i \<in> set paths" "schema_path (?ps ! i)" using nth_mem[OF that] by auto
    ultimately show ?thesis
      using schema_hash_quiet(2)[OF assms(1) _ walk, of "?ps ! i" "fst (hs ! i)" "snd (hs ! i)"] by (metis option.distinct(1) option.sel prod.collapse)
  qed
  have hs: "hs = map (\<lambda>rel. (rel, ?h rel)) ?ps"
    using entry arg_cong[OF run(2), of length] by (auto intro!: nth_equalityI)
  show "w' = w" by (fact run)
  have "distinct paths" using assms(1) walk by (auto simp: quiet_def)
  then show "distinct (map fst hs)" by (simp add: hs comp_def)
  have known: "canonical_file fs w root path \<noteq> None" if "path \<in> set ?ps"
    using that entry by (metis in_set_conv_nth)
  have unknown: "canonical_file fs w root path = None" if "path \<notin> set ?ps"
    using that walk by (auto simp: canonical_file_def)
  show "map_of hs path = map_option (fs_sha256 fs) (canonical_file fs w root path)"
    unfolding hs map_of_map_restrict using known unknown by (cases "path \<in> set ?ps") (auto simp: restrict_map_def simp del: set_sort set_filter)
qed


text \<open>The methods of an aggregate schema.\<close>

definition methods_of :: "'w files \<Rightarrow> 'w \<Rightarrow> gostring \<Rightarrow> gostring \<Rightarrow> gostring set" where
  "methods_of fs w root rel = (case fst (aggregateMethodNames fs root rel w) of Inl _ \<Rightarrow> {} | Inr names \<Rightarrow> set names)"

lemma sort_Nil_iff: "sort xs = [] \<longleftrightarrow> xs = []"
  by (metis length_0_conv length_sort)

lemma aggregateMethodNames_quiet: "quiet fs w \<Longrightarrow> snd (aggregateMethodNames fs root rel w) = w"
  using quiet_pairs(1)[of fs w root rel] by (auto simp: aggregateMethodNames_def split: prod.splits sum.splits)

lemma method_delta_quiet:
  assumes "quiet fs w"
  shows "snd (method_delta fs b c rel w) = w"
    and "fst (method_delta fs b c rel w) = Inr (k, delta) \<Longrightarrow> k = rel \<and> (MethodDelta_empty delta \<longleftrightarrow> methods_of fs w b rel = methods_of fs w c rel)"
proof -
  obtain x y where "aggregateMethodNames fs b rel w = (x, w)" "aggregateMethodNames fs c rel w = (y, w)"
    using aggregateMethodNames_quiet[OF assms] by (metis prod.collapse)
  then show "snd (method_delta fs b c rel w) = w"
    "fst (method_delta fs b c rel w) = Inr (k, delta) \<Longrightarrow> k = rel \<and> (MethodDelta_empty delta \<longleftrightarrow> methods_of fs w b rel = methods_of fs w c rel)"
    by (auto simp: method_delta_def MethodDelta_empty_def sortedSetDiff_def sort_Nil_iff filter_empty_conv methods_of_def split: sum.splits)
qed

lemma aggregateMethodDiff_quiet:
  assumes "quiet fs w" "aggregateMethodDiff fs b c w = (Inr deltas, w')"
  shows "w' = w" "list_ex (\<lambda>(_, delta). \<not> MethodDelta_empty delta) deltas \<longleftrightarrow> (\<exists>rel \<in> set aggregateSchemas. methods_of fs w b rel \<noteq> methods_of fs w c rel)"
proof -
  have run: "w' = w" "map Inr deltas = map (\<lambda>x. fst (method_delta fs b c x w)) aggregateSchemas"
    using each_file_quiet[OF method_delta_quiet(1)[OF assms(1)] assms(2)[unfolded aggregateMethodDiff_def]] by auto
  show "w' = w" by (fact run)
  have "\<forall>i < length aggregateSchemas. fst (method_delta fs b c (aggregateSchemas ! i) w) = Inr (deltas ! i)"
    using run(2) by (metis length_map nth_map)
  then have "\<forall>i < length aggregateSchemas. MethodDelta_empty (snd (deltas ! i)) \<longleftrightarrow>
      methods_of fs w b (aggregateSchemas ! i) = methods_of fs w c (aggregateSchemas ! i)"
    using method_delta_quiet(2)[OF assms(1)] by (metis prod.collapse)
  moreover have "length deltas = length aggregateSchemas" using arg_cong[OF run(2), of length] by simp
  ultimately show "list_ex (\<lambda>(_, delta). \<not> MethodDelta_empty delta) deltas \<longleftrightarrow>
      (\<exists>rel \<in> set aggregateSchemas. methods_of fs w b rel \<noteq> methods_of fs w c rel)"
    by (auto simp: list_ex_length in_set_conv_nth case_prod_unfold Bex_def)
qed


section \<open>What a report says\<close>

lemma fileDiff_sets:
  assumes "distinct (map fst b)" "distinct (map fst c)"
  shows "set (fd_Added (fileDiff b c)) = {path. map_of b path = None \<and> map_of c path \<noteq> None}"
    "set (fd_Changed (fileDiff b c)) = {path. \<exists>h h'. map_of b path = Some h \<and> map_of c path = Some h' \<and> h \<noteq> h'}"
    "set (fd_Removed (fileDiff b c)) = {path. map_of b path \<noteq> None \<and> map_of c path = None}"
    "distinct (fd_Added (fileDiff b c))" "distinct (fd_Changed (fileDiff b c))" "distinct (fd_Removed (fileDiff b c))"
proof -
  have b: "(path, h) \<in> set b \<longleftrightarrow> map_of b path = Some h" for path h using assms(1) by simp
  show "set (fd_Added (fileDiff b c)) = {path. map_of b path = None \<and> map_of c path \<noteq> None}"
    by (auto simp: fileDiff_def map_of_eq_None_iff)
  show "set (fd_Changed (fileDiff b c)) = {path. \<exists>h h'. map_of b path = Some h \<and> map_of c path = Some h' \<and> h \<noteq> h'}"
    by (fastforce simp: fileDiff_def b image_iff split: option.splits)
  show "set (fd_Removed (fileDiff b c)) = {path. map_of b path \<noteq> None \<and> map_of c path = None}"
    by (force simp: fileDiff_def b image_iff)
  show "distinct (fd_Added (fileDiff b c))" using assms by (simp add: fileDiff_def)
  show "distinct (fd_Changed (fileDiff b c))" "distinct (fd_Removed (fileDiff b c))"
    using assms(1) by (auto simp: fileDiff_def distinct_map inj_on_def)
qed

lemma fileDiff_empty_iff:
  assumes "distinct (map fst b)" "distinct (map fst c)"
  shows "FileDiff_empty (fileDiff b c) \<longleftrightarrow> map_of b = map_of c"
proof -
  have "FileDiff_empty (fileDiff b c) \<longleftrightarrow> set (fd_Added (fileDiff b c)) = {} \<and> set (fd_Changed (fileDiff b c)) = {} \<and> set (fd_Removed (fileDiff b c)) = {}"
    by (simp add: FileDiff_empty_def)
  also have "\<dots> \<longleftrightarrow> (\<forall>path. map_of b path = map_of c path)"
  proof -
    have one: "(map_of b path = map_of c path) \<longleftrightarrow> \<not> (map_of b path = None \<and> map_of c path \<noteq> None) \<and>
        \<not> (\<exists>h h'. map_of b path = Some h \<and> map_of c path = Some h' \<and> h \<noteq> h') \<and> \<not> (map_of b path \<noteq> None \<and> map_of c path = None)" for path
      by (cases "map_of b path"; cases "map_of c path") auto
    show ?thesis unfolding fileDiff_sets[OF assms] one by blast
  qed
  finally show ?thesis by (simp add: fun_eq_iff)
qed


lemma and_then_Inr:
  "and_then f wrap g w = (Inr y, w') \<longleftrightarrow> (\<exists>x v. f w = (Inr x, v) \<and> g x v = (Inr y, w'))"
  by (auto simp: and_then_def split: prod.splits sum.splits)

lemma fail_if_Inr: "fail_if err w = (Inr u, w') \<longleftrightarrow> err = None \<and> w' = w"
  by (auto simp: fail_if_def split: option.splits)

lemma raw_hash_quiet: "quiet fs w \<Longrightarrow> snd (raw_hash fs root rel w) = w"
  using quiet_pairs(1)[of fs w root rel] by (auto simp: raw_hash_def split: prod.splits sum.splits)

lemma snapshotHashes_quiet: "quiet fs w \<Longrightarrow> snapshotHashes fs root w = (Inr hs, w') \<Longrightarrow> w' = w"
  using quiet_pairs(2)[of fs w root] each_file_quiet[of "raw_hash fs root" w] raw_hash_quiet[of fs w root]
  by (fastforce simp: snapshotHashes_def split: prod.splits sum.splits)

lemma Compare_Inr:
  assumes "Compare fs req w = (Inr report, w')" "quiet fs w"
  obtains baseHashes candidateHashes deltas digest where "schemaHashes fs (cq_Baseline req) w = (Inr baseHashes, w)"
    "schemaHashes fs (cq_Candidate req) w = (Inr candidateHashes, w)"
    "aggregateMethodDiff fs (cq_Baseline req) (cq_Candidate req) w = (Inr deltas, w)"
    "report = compare_report req (fileDiff baseHashes candidateHashes) deltas digest"
proof -
  from assms(1) obtain bb w1 bc w2 hb w3 hc w4 deltas w5 digest w6 where
    steps: "snapshotHashes fs (cq_Baseline req) w = (Inr bb, w1)" "snapshotHashes fs (cq_Candidate req) w1 = (Inr bc, w2)"
      "schemaHashes fs (cq_Baseline req) w2 = (Inr hb, w3)" "schemaHashes fs (cq_Candidate req) w3 = (Inr hc, w4)"
      "aggregateMethodDiff fs (cq_Baseline req) (cq_Candidate req) w4 = (Inr deltas, w5)"
    and report: "report = compare_report req (fileDiff hb hc) deltas digest"
    unfolding Compare_def by (auto simp: and_then_Inr fail_if_Inr split: if_split_asm)
  have "w1 = w" using snapshotHashes_quiet[OF assms(2)] steps(1) by blast
  with steps(2) assms(2) snapshotHashes_quiet have w2: "w2 = w" by metis
  with steps(3) assms(2) schemaHashes_quiet(1) have w3: "w3 = w" by metis
  with steps(4) assms(2) schemaHashes_quiet(1) have w4: "w4 = w" by metis
  with steps(5) assms(2) aggregateMethodDiff_quiet(1) have w5: "w5 = w" by metis
  show thesis using that steps(3-5) report unfolding w2 w3 w4 w5 by blast
qed

text \<open>No two different canonical texts of the two directories have the same hash.\<close>

definition collision_free :: "'w files \<Rightarrow> 'w \<Rightarrow> gostring \<Rightarrow> gostring \<Rightarrow> bool" where
  "collision_free fs w baseline candidate \<longleftrightarrow> (\<forall>path s t. canonical_file fs w baseline path = Some s \<longrightarrow> canonical_file fs w candidate path = Some t \<longrightarrow>
     fs_sha256 fs s = fs_sha256 fs t \<longrightarrow> s = t)"

text \<open>C29: while the directories do not change, a comparison is clean exactly when both have the same schema files with
  the same canonical JSON, and the same methods in every aggregate schema. Its lists are exact: each added,
  removed or changed path occurs once and no other path does.\<close>

theorem compare_clean_iff_same_schemas:
  assumes "quiet fs w" "collision_free fs w (cq_Baseline req) (cq_Candidate req)" "Compare fs req w = (Inr report, w')"
  shows "let base = canonical_file fs w (cq_Baseline req); cand = canonical_file fs w (cq_Candidate req); diff = re_FileDiff report in
    (re_Status report = StatusClean \<longleftrightarrow> base = cand \<and>
       (\<forall>rel \<in> set aggregateSchemas. methods_of fs w (cq_Baseline req) rel = methods_of fs w (cq_Candidate req) rel)) \<and>
    set (fd_Added diff) = dom cand - dom base \<and> set (fd_Removed diff) = dom base - dom cand \<and>
    set (fd_Changed diff) = {path \<in> dom base \<inter> dom cand. base path \<noteq> cand path} \<and>
    distinct (fd_Added diff @ fd_Removed diff @ fd_Changed diff)"
proof -
  let ?b = "canonical_file fs w (cq_Baseline req)" and ?c = "canonical_file fs w (cq_Candidate req)"
  obtain hb hc deltas digest where runs: "schemaHashes fs (cq_Baseline req) w = (Inr hb, w)" "schemaHashes fs (cq_Candidate req) w = (Inr hc, w)"
    "aggregateMethodDiff fs (cq_Baseline req) (cq_Candidate req) w = (Inr deltas, w)"
    and report: "report = compare_report req (fileDiff hb hc) deltas digest"
    using Compare_Inr[OF assms(3,1)] .
  note b = schemaHashes_quiet[OF assms(1) runs(1)] and c = schemaHashes_quiet[OF assms(1) runs(2)]
  note sets = fileDiff_sets[OF b(2) c(2)]
  have hash: "map_of hb path = map_of hc path \<longleftrightarrow> ?b path = ?c path" for path
    using assms(2) by (cases "?b path"; cases "?c path") (auto simp: b(3) c(3) collision_free_def)
  have "map_of hb = map_of hc \<longleftrightarrow> ?b = ?c" using hash by (simp add: fun_eq_iff)
  then have status: "re_Status report = StatusClean \<longleftrightarrow> ?b = ?c \<and>
      (\<forall>rel \<in> set aggregateSchemas. methods_of fs w (cq_Baseline req) rel = methods_of fs w (cq_Candidate req) rel)"
    using fileDiff_empty_iff[OF b(2) c(2)] aggregateMethodDiff_quiet(2)[OF assms(1) runs(3)]
    by (simp add: report compare_report_def report_status_def StatusClean_def StatusReviewRequired_def)
  have diff: "re_FileDiff report = fileDiff hb hc" by (simp add: report compare_report_def)
  have changed: "set (fd_Changed (fileDiff hb hc)) = {path \<in> dom ?b \<inter> dom ?c. ?b path \<noteq> ?c path}"
    unfolding sets(2) using hash by (fastforce simp: b(3) c(3))
  have "set (fd_Added (fileDiff hb hc)) = dom ?c - dom ?b" "set (fd_Removed (fileDiff hb hc)) = dom ?b - dom ?c"
    unfolding sets by (auto simp: b(3) c(3))
  with status changed sets(4-6) show ?thesis unfolding Let_def diff by auto
qed


definition example_files :: "unit files" where
  "example_files = \<lparr>fs_walk = (\<lambda>root _. (Inr (if root = ''old'' then [''manifest.json'', ''A.json''] else [''A.json'', ''v2/B.json'']), ())),
     fs_read = (\<lambda>root rel _. (if has_prefix (rev rel) (rev ''A.json'') then Inr (if root = ''old'' then ''[1]'' else '' [ 1 ] '')
        else if has_prefix (rev rel) (rev ''B.json'') then Inr ''{}'' else if rel = ''manifest.json'' then Inr ''x'' else Inl (ErrNew ''not found''), ())),
     fs_IsNotExist = (\<lambda>_. True), fs_sha256 = (\<lambda>s. ''sha:'' @ s), fs_method_enums = (\<lambda>_. Inr [])\<rparr>"

definition example_request :: CompareRequest where
  "example_request = \<lparr>cq_Baseline = ''old'', cq_Candidate = ''new'', cq_SourceCommit = [], cq_SourceRef = [], cq_SourceRefKind = [],
     cq_CodexVersion = [], cq_Generator = [], cq_GeneratorDetail = []\<rparr>"

lemma example_compare:
  "map_sum (\<lambda>_. ()) (\<lambda>r. (re_Status r, fd_Added (re_FileDiff r), fd_Changed (re_FileDiff r), fd_Removed (re_FileDiff r)))
     (fst (Compare example_files example_request ())) = Inr (''review-required'', [''v2/B.json''], [], [])"
  by code_simp

lemma example_sha: "fs_sha256 example_files s = ''sha:'' @ s"
  by (simp add: example_files_def)

theorem compare_clean_iff_same_schemas_witness:
  "\<exists>report. fst (Compare example_files example_request ()) = Inr report \<and> re_Status report \<noteq> StatusClean \<and>
     canonical_file example_files () ''new'' ''v2/B.json'' \<noteq> None \<and> canonical_file example_files () ''old'' ''v2/B.json'' = None"
proof -
  obtain report where run: "Compare example_files example_request () = (Inr report, ())"
    and added: "fd_Added (re_FileDiff report) = [''v2/B.json'']" and status: "re_Status report = ''review-required''"
    using example_compare by (cases "Compare example_files example_request ()"; cases "fst (Compare example_files example_request ())") auto
  have "quiet example_files ()" by (simp add: quiet_def example_files_def)
  moreover have "collision_free example_files () (cq_Baseline example_request) (cq_Candidate example_request)"
    unfolding collision_free_def using example_sha by simp
  ultimately have eq: "set (fd_Added (re_FileDiff report)) = dom (canonical_file example_files () ''new'') - dom (canonical_file example_files () ''old'')"
    using compare_clean_iff_same_schemas[OF _ _ run] by (simp add: Let_def example_request_def)
  have "''v2/B.json'' \<in> set (fd_Added (re_FileDiff report))" by (simp add: added)
  then have "canonical_file example_files () ''new'' ''v2/B.json'' \<noteq> None" "canonical_file example_files () ''old'' ''v2/B.json'' = None"
    unfolding eq by blast+
  moreover have "re_Status report \<noteq> StatusClean" unfolding status StatusClean_def by simp
  ultimately show ?thesis using run by (metis fst_conv)
qed

text \<open>What follows the first JSON value of a file is not looked at.\<close>

lemma canonicalJSON_trailing: "canonicalJSON ''[1]'' = canonicalJSON ''[1] x''"
  by code_simp

end
