(* ===== verification/Go_Paths.thy ===== *)
theory Go_Paths
  imports Sync_Policy
begin

text \<open>
  The parts of the Go packages \<open>strings\<close> and \<open>path\<close> that the protocol synchronisation uses, and operations on a state that may fail.
  A path Git reports has no empty component and none that is \<open>.\<close> or \<open>..\<close>; \<open>git_path\<close> says so.
\<close>

section \<open>Package strings\<close>

definition has_suffix :: "gostring \<Rightarrow> gostring \<Rightarrow> bool" where
  "has_suffix s t \<longleftrightarrow> has_prefix (rev s) (rev t)"

lemma has_prefix_iff: "has_prefix s p \<longleftrightarrow> (\<exists>t. s = p @ t)"
  unfolding has_prefix_def by (metis append_eq_conv_conj append_take_drop_id)

lemma has_suffix_iff: "has_suffix s t \<longleftrightarrow> (\<exists>r. s = r @ t)"
  unfolding has_suffix_def has_prefix_iff by (metis rev_append rev_rev_ident)

text \<open>\<open>strings.Index\<close>, with \<open>None\<close> for -1.\<close>

fun str_index :: "gostring \<Rightarrow> gostring \<Rightarrow> nat option" where
  "str_index p [] = (if p = [] then Some 0 else None)"
| "str_index p (x # xs) = (if has_prefix (x # xs) p then Some 0 else map_option Suc (str_index p xs))"

definition contains :: "gostring \<Rightarrow> gostring \<Rightarrow> bool" where
  "contains s p \<longleftrightarrow> str_index p s \<noteq> None"

lemma str_index_Some:
  "str_index p s = Some i \<longleftrightarrow> (\<exists>t. i \<le> length s \<and> drop i s = p @ t) \<and> (\<forall>j < i. \<not> has_prefix (drop j s) p)"
proof (induction s arbitrary: i)
  case Nil
  then show ?case by (auto simp: has_prefix_def)
next
  case (Cons x xs)
  show ?case
  proof (cases i)
    case 0
    then show ?thesis by (auto simp: has_prefix_iff)
  next
    case (Suc k)
    then show ?thesis
      by (auto simp: Cons.IH has_prefix_iff less_Suc_eq_0_disj)
  qed
qed

lemma str_index_None: "str_index p s = None \<longleftrightarrow> (\<forall>u v. s \<noteq> u @ p @ v)"
proof (induction s)
  case (Cons x xs)
  show ?case by (auto simp: Cons.IH has_prefix_iff Cons_eq_append_conv)
qed simp

fun join_str :: "gostring \<Rightarrow> gostring list \<Rightarrow> gostring" where
  "join_str sep [] = []"
| "join_str sep [x] = x"
| "join_str sep (x # y # ys) = x @ sep @ join_str sep (y # ys)"

lemma split_on_no: "c \<notin> set s \<Longrightarrow> split_on c s = [s]"
  by (induction s) auto

lemma split_on_append: "split_on c (d @ c # b) = split_on c d @ split_on c b"
proof (induction d)
  case (Cons x xs)
  then show ?case by (cases "split_on c xs") auto
qed simp

lemma join_split [simp]: "join_str [c] (split_on c s) = s"
proof (induction s)
  case (Cons x xs)
  then show ?case
    by (cases "split_on c xs"; cases "tl (split_on c xs)") auto
qed simp

text \<open>\<open>strings.Fields\<close> on text whose white space is ASCII, as in what Git prints.\<close>

definition ascii_space :: "char \<Rightarrow> bool" where
  "ascii_space c \<longleftrightarrow> of_char c \<in> {9, 10, 11, 12, 13, 32 :: nat}"

fun str_fields :: "gostring \<Rightarrow> gostring list" where
  "str_fields [] = []"
| "str_fields (x # xs) =
     (if ascii_space x then str_fields xs
      else case xs of [] \<Rightarrow> [[x]]
        | y # _ \<Rightarrow> if ascii_space y then [x] # str_fields xs
            else case str_fields xs of [] \<Rightarrow> [[x]] | f # fs \<Rightarrow> (x # f) # fs)"

section \<open>Package path\<close>

definition slash :: char where "slash = CHR ''/''"

text \<open>\<open>path.Clean\<close> works through the components with a stack, its top first.\<close>

definition clean_elem :: "bool \<Rightarrow> gostring \<Rightarrow> gostring list \<Rightarrow> gostring list" where
  "clean_elem rooted c st =
     (if c = [] \<or> c = ''.'' then st
      else if c = ''..'' then (case st of [] \<Rightarrow> if rooted then [] else [''..''] | t # ts \<Rightarrow> if t = ''..'' then ''..'' # st else ts)
      else c # st)"

definition path_clean :: "gostring \<Rightarrow> gostring" where
  "path_clean p =
     (if p = [] then ''.''
      else let rooted = (hd p = slash);
               body = join_str [slash] (rev (fold (clean_elem rooted) (split_on slash p) []));
               out = (if rooted then slash # body else body)
           in if out = [] then ''.'' else out)"

definition path_dir :: "gostring \<Rightarrow> gostring" where
  "path_dir p = path_clean (rev (dropWhile (\<lambda>c. c \<noteq> slash) (rev p)))"

definition path_base :: "gostring \<Rightarrow> gostring" where
  "path_base p =
     (if p = [] then ''.''
      else let b = rev (takeWhile (\<lambda>c. c \<noteq> slash) (dropWhile (\<lambda>c. c = slash) (rev p)))
           in if b = [] then ''/'' else b)"

definition git_path :: "gostring \<Rightarrow> bool" where
  "git_path p \<longleftrightarrow> list_all (\<lambda>c. c \<notin> {[], ''.'', ''..''}) (split_on slash p)"

lemma fold_clean_plain: "list_all (\<lambda>c. c \<notin> {[], ''.'', ''..''}) cs \<Longrightarrow> fold (clean_elem rooted) cs st = rev cs @ st"
  by (induction cs arbitrary: st) (auto simp: clean_elem_def)

lemma path_dir_git:
  assumes "git_path (d @ slash # b)" "slash \<notin> set b"
  shows "path_dir (d @ slash # b) = d"
proof -
  have plain: "list_all (\<lambda>c. c \<notin> {[], ''.'', ''..''}) (split_on slash d)"
    using assms by (simp add: git_path_def split_on_append)
  then have d: "d \<noteq> []" "hd d \<noteq> slash" by (cases d; auto)+
  have "rev (dropWhile (\<lambda>c. c \<noteq> slash) (rev (d @ slash # b))) = d @ [slash]"
    using assms(2) by (subst rev_append) (auto simp: dropWhile_append3 dropWhile_append2)
  moreover have "fold (clean_elem False) (split_on slash (d @ [slash])) [] = rev (split_on slash d)"
    using split_on_append[of slash d "[]"] fold_clean_plain[OF plain] by (simp add: clean_elem_def)
  ultimately show ?thesis using d by (simp add: path_dir_def path_clean_def)
qed

lemma git_path_in_dir:
  assumes "git_path p" "path_dir p = d" "d \<noteq> ''.''"
  obtains b where "p = d @ slash # b" "slash \<notin> set b"
proof (cases "slash \<in> set p")
  case True
  then obtain d' b where "p = d' @ slash # b" "slash \<notin> set b" by (meson split_list_last)
  with assms path_dir_git that show thesis by metis
next
  case False
  then have "rev (dropWhile (\<lambda>c. c \<noteq> slash) (rev p)) = []" by (auto simp: dropWhile_eq_Nil_conv)
  with assms(2,3) show thesis by (simp add: path_dir_def path_clean_def)
qed

lemma last_path_base:
  assumes "p \<noteq> []" "last p \<noteq> slash"
  shows "last (path_base p) = last p"
proof -
  obtain c q where "rev p = c # q" "c \<noteq> slash" using assms by (metis last_rev list.exhaust list.sel(1) rev_is_Nil_conv hd_rev)
  with assms show ?thesis by (auto simp: path_base_def Let_def last_rev hd_rev[symmetric])
qed

text \<open>A directory prefix of a file lies within the file's directory.\<close>

lemma has_prefix_dir:
  assumes "has_prefix (x @ b) (q @ [slash])" "slash \<notin> set b"
  shows "has_prefix x (q @ [slash])"
proof -
  obtain t where "x @ b = q @ slash # t" using assms(1) by (auto simp: has_prefix_iff)
  then consider us where "x = q @ us" "us @ b = slash # t" | us where "b = us @ slash # t"
    by (auto simp: append_eq_append_conv2)
  then show ?thesis
  proof cases
    case 1
    with assms(2) show ?thesis by (cases us) (auto simp: has_prefix_iff)
  qed (use assms(2) in simp)
qed

section \<open>Operations that may fail\<close>

definition bind_op :: "('w \<Rightarrow> (go_error + 'a) \<times> 'w) \<Rightarrow> ('a \<Rightarrow> 'w \<Rightarrow> (go_error + 'b) \<times> 'w) \<Rightarrow> 'w \<Rightarrow> (go_error + 'b) \<times> 'w" where
  "bind_op m k w = (case m w of (Inl e, w) \<Rightarrow> (Inl e, w) | (Inr a, w) \<Rightarrow> k a w)"

definition return_op :: "'a \<Rightarrow> 'w \<Rightarrow> (go_error + 'a) \<times> 'w" where
  "return_op a w = (Inr a, w)"

definition fail_op :: "go_error \<Rightarrow> 'w \<Rightarrow> (go_error + 'a) \<times> 'w" where
  "fail_op e w = (Inl e, w)"

definition check_op :: "go_error option \<Rightarrow> 'w \<Rightarrow> (go_error + unit) \<times> 'w" where
  "check_op e w = (case e of None \<Rightarrow> (Inr (), w) | Some e \<Rightarrow> (Inl e, w))"

definition wrap_op :: "(go_error \<Rightarrow> go_error) \<Rightarrow> ('w \<Rightarrow> (go_error + 'a) \<times> 'w) \<Rightarrow> 'w \<Rightarrow> (go_error + 'a) \<times> 'w" where
  "wrap_op f m w = (case m w of (Inl e, w) \<Rightarrow> (Inl (f e), w) | (Inr a, w) \<Rightarrow> (Inr a, w))"

lemma bind_op_Inr: "bind_op m k w = (Inr b, w') \<longleftrightarrow> (\<exists>a w1. m w = (Inr a, w1) \<and> k a w1 = (Inr b, w'))"
  by (auto simp: bind_op_def split: prod.splits sum.splits)

lemma return_op_Inr: "return_op a w = (Inr b, w') \<longleftrightarrow> b = a \<and> w' = w"
  by (auto simp: return_op_def)

lemma fail_op_Inr: "fail_op e w \<noteq> (Inr b, w')"
  by (simp add: fail_op_def)

lemma check_op_Inr: "check_op e w = (Inr u, w') \<longleftrightarrow> e = None \<and> w' = w"
  by (auto simp: check_op_def split: option.splits)

lemma wrap_op_Inr: "wrap_op f m w = (Inr a, w') \<longleftrightarrow> m w = (Inr a, w')"
  by (auto simp: wrap_op_def split: prod.splits sum.splits)

lemmas op_Inr = bind_op_Inr return_op_Inr fail_op_Inr check_op_Inr wrap_op_Inr

end
