(* ===== verification/Sync_Scope.thy ===== *)
theory Sync_Scope
  imports Go_Paths
begin

text \<open>
  Which paths a synchronisation may change: \<open>codexsdk/internal/protocolsync/changes.go\<close>, the path rules of automatic
  integration in \<open>auto_forward_control.go\<close> and \<open>auto_forward_generic.go\<close>, and the attribution of failures in
  \<open>failure.go\<close>.

  Git is an operation on a state \<open>'w\<close> that takes its arguments and its standard input and returns its output. Operands
  printed with \<open>%q\<close> are left out of error texts.
\<close>

section \<open>Failures\<close>

definition FailureUnsupported :: gostring where "FailureUnsupported = ''unsupported_representation''"
definition FailureSource :: gostring where "FailureSource = ''source_integrity''"
definition FailureExecution :: gostring where "FailureExecution = ''execution_environment''"
definition FailureValidation :: gostring where "FailureValidation = ''repository_validation''"
definition FailurePublication :: gostring where "FailurePublication = ''publication_conflict''"
definition FailurePolicy :: gostring where "FailurePolicy = ''policy_configuration''"
definition FailureUnknown :: gostring where "FailureUnknown = ''unknown''"

lemmas failure_names = FailureUnsupported_def FailureSource_def FailureExecution_def FailureValidation_def
  FailurePublication_def FailurePolicy_def FailureUnknown_def

definition Failure :: "gostring \<Rightarrow> go_error \<Rightarrow> go_error" where
  "Failure category err = ErrTyped ''Failure'' [category] [err]"

definition ErrNotExist :: go_error where "ErrNotExist = ErrNew ''file does not exist''"
definition ErrPermission :: go_error where "ErrPermission = ErrNew ''permission denied''"

definition failureCategory :: "go_error \<Rightarrow> gostring" where
  "failureCategory err =
     (case errors_as ''Failure'' err of
        Some (ErrTyped _ (category # _) _) \<Rightarrow> category
      | _ \<Rightarrow>
        if errors_as ''IncompatibilityError'' err \<noteq> None then FailureUnsupported
        else if errors_as ''SourceIntegrityError'' err \<noteq> None then FailureSource
        else if errors_as ''VerificationError'' err \<noteq> None then FailureValidation
        else if errors_as ''PathError'' err \<noteq> None \<or> errors_as ''exec.Error'' err \<noteq> None \<or> errors_is err ErrNotExist \<or> errors_is err ErrPermission
        then FailureExecution else FailureUnknown)"

lemma failureCategory_Failure [simp]: "failureCategory (Failure category err) = category"
  by (simp add: failureCategory_def Failure_def)

lemma failureCategory_wrapped [simp]: "failureCategory (ErrWrap s [Failure category err]) = category"
  by (simp add: failureCategory_def Failure_def)

section \<open>Changed paths\<close>

record 'w repo =
  rp_git :: "gostring list \<Rightarrow> gostring \<Rightarrow> 'w \<Rightarrow> (go_error + gostring) \<times> 'w"
  rp_lstat :: "gostring \<Rightarrow> gostring \<Rightarrow> 'w \<Rightarrow> (go_error + bool) \<times> 'w"
  rp_IsNotExist :: "go_error \<Rightarrow> bool"

definition NUL :: char where "NUL = CHR 0x00"

definition gitNUL :: "'w repo \<Rightarrow> gostring \<Rightarrow> gostring list \<Rightarrow> 'w \<Rightarrow> (go_error + gostring list) \<times> 'w" where
  "gitNUL R root args = bind_op (wrap_op (\<lambda>e. ErrWrap (''git '' @ join_str '' '' args) [e]) (rp_git R (''-C'' # root # args) []))
     (\<lambda>out. return_op (filter (\<lambda>raw. raw \<noteq> []) (split_on NUL out)))"

definition ChangedPaths :: "'w repo \<Rightarrow> gostring \<Rightarrow> 'w \<Rightarrow> (go_error + gostring list) \<times> 'w" where
  "ChangedPaths R root =
     bind_op (gitNUL R root [''diff'', ''--name-only'', ''--no-renames'', ''-z'', ''HEAD'', ''--'']) (\<lambda>tracked.
     bind_op (gitNUL R root [''ls-files'', ''--others'', ''--exclude-standard'', ''-z'']) (\<lambda>untracked.
     return_op (sort (remdups (filter (\<lambda>p. p \<noteq> []) (tracked @ untracked))))))"

definition AssertClean :: "'w repo \<Rightarrow> gostring \<Rightarrow> 'w \<Rightarrow> (go_error + unit) \<times> 'w" where
  "AssertClean R root = bind_op (ChangedPaths R root) (\<lambda>paths.
     if paths = [] then return_op ()
     else fail_op (ErrNew (''sync worktree must be clean before apply:\<newline>- '' @ join_str ''\<newline>- '' paths)))"

section \<open>Scopes\<close>

definition mechanicalPrefix :: gostring where
  "mechanicalPrefix = ''codexsdk/internal/protocolschema/appserver/v2''"

definition isAgentProposalPath :: "gostring \<Rightarrow> bool" where
  "isAgentProposalPath p =
     (if \<not> has_suffix p ''.go'' \<or> has_suffix p ''.gen.go'' then False
      else if path_dir p \<in> {''codexsdk'', ''codexsdk/protocolv2'', ''codexsdk/internal/protocolgen'', ''codexsdk/internal/wirejson''} then True
      else if path_dir p \<noteq> ''codexsdk/internal/protocolupgrade'' then False
      else if has_suffix p ''_test.go'' then True
      else path_base p \<in> {''manifest.go'', ''surface.go'', ''commonrs.go'', ''current_facts.go''})"

definition isMechanicalPath :: "gostring \<Rightarrow> bool" where
  "isMechanicalPath p \<longleftrightarrow> has_prefix p (mechanicalPrefix @ ''/'') \<and> has_suffix p ''.json'' \<or>
     p \<in> {''codexsdk/sdk_surface.gen.go'', ''codexsdk/protocolv2/method_registry.gen.go'',
          ''codexsdk/protocolv2/protocol_types.gen.go'', ''codexsdk/protocolv2/experimental_members.gen.go''}"

definition scope_allows :: "gostring \<Rightarrow> gostring \<Rightarrow> bool" where
  "scope_allows phase p \<longleftrightarrow> (phase = ''mechanical'' \<or> phase = ''final'') \<and> isMechanicalPath p
     \<or> (phase = ''agent'' \<or> phase = ''final'') \<and> isAgentProposalPath p"

definition validatePaths :: "gostring list \<Rightarrow> gostring \<Rightarrow> go_error option" where
  "validatePaths paths phase =
     (if phase \<notin> {''mechanical'', ''agent'', ''final''} then Some (Failure FailurePolicy (ErrNew ''needs-maintainer: unknown sync scope''))
      else let invalid = filter (\<lambda>p. \<not> scope_allows phase p) paths
           in if invalid = [] then None
              else Some (Failure FailurePolicy (ErrNew (''needs-maintainer: sync changes escape the '' @ phase @ '' scope:\<newline>- '' @ join_str ''\<newline>- '' invalid))))"

fun check_regular :: "'w repo \<Rightarrow> gostring \<Rightarrow> gostring list \<Rightarrow> 'w \<Rightarrow> (go_error + unit) \<times> 'w" where
  "check_regular R root [] w = (Inr (), w)"
| "check_regular R root (name # names) w = (case rp_lstat R root name w of
      (Inl e, w) \<Rightarrow> if rp_IsNotExist R e then check_regular R root names w else (Inl e, w)
    | (Inr regular, w) \<Rightarrow> if regular then check_regular R root names w
        else (Inl (Failure FailurePolicy (ErrNew (''proposal path '' @ name @ '' is not a regular file''))), w))"

definition CheckScope :: "'w repo \<Rightarrow> gostring \<Rightarrow> gostring \<Rightarrow> 'w \<Rightarrow> (go_error + unit) \<times> 'w" where
  "CheckScope R root phase = bind_op (ChangedPaths R root) (\<lambda>paths.
     bind_op (check_regular R root paths) (\<lambda>_. check_op (validatePaths paths phase)))"

definition StagePaths :: "'w repo \<Rightarrow> gostring \<Rightarrow> gostring \<Rightarrow> 'w \<Rightarrow> (go_error + gostring list) \<times> 'w" where
  "StagePaths R root phase = bind_op (ChangedPaths R root) (\<lambda>paths.
     bind_op (check_op (validatePaths paths phase)) (\<lambda>_.
       if paths = [] then fail_op (ErrNew ''sync change set is empty'')
       else bind_op (wrap_op (\<lambda>e. ErrWrap ''git add'' [e])
           (rp_git R [''-C'', root, ''add'', ''-A'', ''--pathspec-from-file=-'', ''--pathspec-file-nul''] (concat (map (\<lambda>p. p @ [NUL]) paths))))
         (\<lambda>_. return_op paths)))"

section \<open>Automatic integration\<close>

definition control_prefixes :: "gostring list" where
  "control_prefixes = [''.github/'', ''internal/tools/'', ''codexsdk/internal/cmd/'', ''codexsdk/internal/checkacceptance/'',
     ''codexsdk/internal/codexexec/'', ''codexsdk/internal/protocolsync/'', ''codexsdk/internal/protocolupgrade/'', ''codexsdk/internal/generatedcheck/'']"

definition protectedForwardControl :: "gostring \<Rightarrow> bool" where
  "protectedForwardControl p \<longleftrightarrow> path_base p \<in> {''go.mod'', ''go.sum'', ''go.work'', ''go.work.sum''}
     \<or> list_ex (has_prefix p) control_prefixes
     \<or> has_prefix p ''codexsdk/internal/protocolschema/'' \<and> has_suffix p ''.go''"

definition forwardLocalGitCommand :: "gostring \<Rightarrow> gostring list \<Rightarrow> gostring list" where
  "forwardLocalGitCommand root args = [''-c'', ''core.hooksPath=/dev/null'', ''-c'', ''core.fsmonitor=false'', ''-c'', ''core.attributesFile=/dev/null'',
     ''-c'', ''credential.helper='', ''-c'', ''commit.gpgsign=false'', ''-c'', ''tag.gpgsign=false'', ''-c'', ''submodule.recurse=false'', ''-C'', root] @ args"

definition diff_names :: "'w repo \<Rightarrow> gostring \<Rightarrow> gostring \<Rightarrow> gostring \<Rightarrow> 'w \<Rightarrow> (go_error + gostring list) \<times> 'w" where
  "diff_names R root main head = bind_op (rp_git R (forwardLocalGitCommand root [''diff'', ''--name-only'', ''--no-renames'', ''-z'', main, head, ''--'']) [])
     (\<lambda>out. return_op (split_on NUL out))"

definition validateForwardControls :: "'w repo \<Rightarrow> gostring \<Rightarrow> gostring \<Rightarrow> gostring \<Rightarrow> 'w \<Rightarrow> (go_error + unit) \<times> 'w" where
  "validateForwardControls R root main head = bind_op (diff_names R root main head) (\<lambda>names.
     if list_ex protectedForwardControl names
     then fail_op (ErrNew ''native candidate changes accepted gate/control authority; explicit reviewed manual integration required'')
     else return_op ())"

definition ForwardRuntimeImplementationPath :: "gostring \<Rightarrow> bool" where
  "ForwardRuntimeImplementationPath p \<longleftrightarrow> (has_prefix p ''llmkit/'' \<or> has_prefix p ''llmcaller/'') \<and> \<not> contains p ''/testdata/''
     \<and> has_suffix p ''.go'' \<and> \<not> has_suffix p ''_test.go''"

definition generic_forward_path :: "gostring \<Rightarrow> bool" where
  "generic_forward_path name \<longleftrightarrow> name = []
     \<or> ForwardRuntimeImplementationPath name
     \<or> has_suffix name ''_test.go'' \<and> \<not> contains name ''/testdata/'' \<and> (has_prefix name ''llmkit/'' \<or> has_prefix name ''llmcaller/'')
     \<or> has_suffix name ''.go'' \<and> path_dir name \<in> {''codexsdk'', ''codexsdk/protocolv2'', ''codexsdk/internal/wirejson''}
     \<or> name = ''README.md'' \<or> has_prefix name ''docs/'' \<and> has_suffix name ''.md''"

definition validateGenericForwardScope :: "'w repo \<Rightarrow> gostring \<Rightarrow> gostring \<Rightarrow> gostring \<Rightarrow> 'w \<Rightarrow> (go_error + unit) \<times> 'w" where
  "validateGenericForwardScope R root main head = bind_op (diff_names R root main head) (\<lambda>names.
     if list_all generic_forward_path names then return_op ()
     else fail_op (ErrNew ''generic reconciliation changes paths outside native runtime scope; reviewed manual reconciliation required''))"

section \<open>The scopes and the protected control\<close>

lemma control_file_name:
  assumes "protectedForwardControl p" "has_suffix p ''.go'' \<or> has_suffix p ''.json''"
  shows "list_ex (has_prefix p) control_prefixes \<or> has_prefix p ''codexsdk/internal/protocolschema/'' \<and> has_suffix p ''.go''"
proof -
  have "last p = CHR ''o'' \<or> last p = CHR ''n''" "p \<noteq> []" using assms(2) by (auto simp: has_suffix_iff)
  then have "last (path_base p) = CHR ''o'' \<or> last (path_base p) = CHR ''n''"
    using last_path_base[of p] by (auto simp: slash_def)
  then have "path_base p \<notin> {''go.mod'', ''go.sum'', ''go.work'', ''go.work.sum''}" by auto
  with assms(1) show ?thesis by (auto simp: protectedForwardControl_def)
qed

lemma control_prefixes_dir:
  assumes "pre \<in> set (''codexsdk/internal/protocolschema/'' # control_prefixes)" "has_prefix (d @ slash # b) pre" "slash \<notin> set b"
  shows "has_prefix (d @ [slash]) pre"
proof -
  obtain q where "pre = q @ [slash]"
    using assms(1) by (auto simp: control_prefixes_def slash_def intro: that[of "butlast pre"])
  with has_prefix_dir[of "d @ [slash]" b q] assms(2,3) show ?thesis by simp
qed

lemma protected_in_dir:
  assumes "protectedForwardControl p" "has_suffix p ''.go''" "git_path p" "path_dir p = d" "d \<noteq> ''.''"
  shows "\<exists>pre \<in> set (''codexsdk/internal/protocolschema/'' # control_prefixes). has_prefix (d @ [slash]) pre"
proof -
  from git_path_in_dir[OF assms(3-5)] obtain b where p: "p = d @ slash # b" "slash \<notin> set b" .
  from control_file_name[OF assms(1)] assms(2)
  obtain pre where "pre \<in> set (''codexsdk/internal/protocolschema/'' # control_prefixes)" "has_prefix p pre"
    by (auto simp: list_ex_iff)
  with control_prefixes_dir p show ?thesis by blast
qed

lemma mechanical_unprotected: "isMechanicalPath p \<Longrightarrow> \<not> protectedForwardControl p"
proof
  assume p: "isMechanicalPath p" and c: "protectedForwardControl p"
  show False
  proof (cases "has_prefix p (mechanicalPrefix @ ''/'') \<and> has_suffix p ''.json''")
    case True
    then have "\<not> has_suffix p ''.go''" by (auto simp: has_suffix_iff dest: arg_cong[of _ _ last])
    with control_file_name[OF c] True have "list_ex (has_prefix p) control_prefixes" by auto
    with True show False by (auto simp: control_prefixes_def mechanicalPrefix_def has_prefix_iff)
  next
    case False
    with p have "p \<in> {''codexsdk/sdk_surface.gen.go'', ''codexsdk/protocolv2/method_registry.gen.go'',
        ''codexsdk/protocolv2/protocol_types.gen.go'', ''codexsdk/protocolv2/experimental_members.gen.go''}"
      by (auto simp: isMechanicalPath_def)
    moreover have "list_all (\<lambda>q. \<not> protectedForwardControl q) [''codexsdk/sdk_surface.gen.go'', ''codexsdk/protocolv2/method_registry.gen.go'',
        ''codexsdk/protocolv2/protocol_types.gen.go'', ''codexsdk/protocolv2/experimental_members.gen.go'']" by code_simp
    ultimately show False using c by auto
  qed
qed

lemma agent_protected_dir:
  assumes "isAgentProposalPath p" "git_path p" "protectedForwardControl p"
  shows "path_dir p = ''codexsdk/internal/protocolupgrade''"
proof (rule ccontr)
  assume "path_dir p \<noteq> ''codexsdk/internal/protocolupgrade''"
  with assms(1) have go: "has_suffix p ''.go''"
    and d: "path_dir p \<in> {''codexsdk'', ''codexsdk/protocolv2'', ''codexsdk/internal/protocolgen'', ''codexsdk/internal/wirejson''}"
    by (auto simp: isAgentProposalPath_def split: if_splits)
  moreover have "list_all (\<lambda>d. list_all (\<lambda>pre. \<not> has_prefix (d @ [slash]) pre) (''codexsdk/internal/protocolschema/'' # control_prefixes))
      [''codexsdk'', ''codexsdk/protocolv2'', ''codexsdk/internal/protocolgen'', ''codexsdk/internal/wirejson'']" by code_simp
  ultimately show False using protected_in_dir[OF assms(3) go assms(2) refl] by (auto simp: list_all_iff)
qed

lemma agent_not_mechanical: "isAgentProposalPath p \<Longrightarrow> \<not> isMechanicalPath p"
proof
  assume a: "isAgentProposalPath p" and m: "isMechanicalPath p"
  from a have go: "has_suffix p ''.go''" "\<not> has_suffix p ''.gen.go''" by (auto simp: isAgentProposalPath_def split: if_splits)
  then have "\<not> has_suffix p ''.json''" by (auto simp: has_suffix_iff dest: arg_cong[of _ _ last])
  with m go(2) show False by (auto simp: isMechanicalPath_def has_suffix_def has_prefix_def)
qed

lemma agent_upgrade_path:
  assumes "isAgentProposalPath p" "path_dir p = ''codexsdk/internal/protocolupgrade''"
  shows "has_suffix p ''.go'' \<and> \<not> has_suffix p ''.gen.go'' \<and>
      (has_suffix p ''_test.go'' \<or> path_base p \<in> {''manifest.go'', ''surface.go'', ''commonrs.go'', ''current_facts.go''})"
  using assms unfolding isAgentProposalPath_def by (simp split: if_split_asm)

lemma validatePaths_None:
  "validatePaths paths phase = None \<longleftrightarrow> phase \<in> {''mechanical'', ''agent'', ''final''} \<and> (\<forall>p \<in> set paths. scope_allows phase p)"
  by (auto simp: validatePaths_def Let_def filter_empty_conv)

text \<open>C23: an accepted change set leaves the control of the synchronisation alone. Of the paths that automatic integration
  protects it can only hold handwritten Go files directly in \<open>protocolupgrade\<close>, four named ones and tests, and none at all
  in the mechanical phase, whose changes are never refused as control changes. No path is in both scopes. The
  paths are as Git reports them.\<close>

theorem accepted_scope_spares_control:
  assumes "list_all git_path paths" "validatePaths paths phase = None"
  shows "list_all (\<lambda>p. protectedForwardControl p \<longrightarrow> phase \<noteq> ''mechanical'' \<and> path_dir p = ''codexsdk/internal/protocolupgrade'' \<and>
      has_suffix p ''.go'' \<and> \<not> has_suffix p ''.gen.go'' \<and>
      (has_suffix p ''_test.go'' \<or> path_base p \<in> {''manifest.go'', ''surface.go'', ''commonrs.go'', ''current_facts.go''})) paths \<and>
    list_all (\<lambda>p. isMechanicalPath p \<noteq> isAgentProposalPath p) paths"
proof -
  have allowed: "scope_allows phase p" if "p \<in> set paths" for p
    using assms(2) that by (simp add: validatePaths_None)
  have spared: "phase \<noteq> ''mechanical'' \<and> isAgentProposalPath p \<and> path_dir p = ''codexsdk/internal/protocolupgrade''"
    if "p \<in> set paths" "protectedForwardControl p" for p
  proof -
    have "(phase = ''agent'' \<or> phase = ''final'') \<and> isAgentProposalPath p"
      using allowed[OF that(1)] mechanical_unprotected[of p] that(2) unfolding scope_allows_def by blast
    moreover from this have "phase \<noteq> ''mechanical''" by force
    moreover have "git_path p" using assms(1) that(1) by (simp add: list_all_iff)
    ultimately show ?thesis using agent_protected_dir[OF _ _ that(2)] by blast
  qed
  have "isMechanicalPath p \<noteq> isAgentProposalPath p" if "p \<in> set paths" for p
    using allowed[OF that] agent_not_mechanical[of p] unfolding scope_allows_def by blast
  with spared agent_upgrade_path show ?thesis unfolding list_all_iff by metis
qed

theorem accepted_scope_spares_control_witness:
  "list_all (\<lambda>p. isMechanicalPath p \<noteq> isAgentProposalPath p)
     [''codexsdk/sdk_surface.gen.go'', ''codexsdk/internal/protocolupgrade/surface.go'', ''codexsdk/internal/protocolschema/appserver/v2/manifest.json'']"
proof -
  let ?paths = "[''codexsdk/sdk_surface.gen.go'', ''codexsdk/internal/protocolupgrade/surface.go'', ''codexsdk/internal/protocolschema/appserver/v2/manifest.json'']"
  have "list_all git_path ?paths" by code_simp
  moreover have "validatePaths ?paths ''final'' = None" by code_simp
  ultimately show ?thesis using accepted_scope_spares_control[of ?paths "''final''"] by blast
qed

end
