(* ===== verification/Sync_Metadata.thy ===== *)
theory Sync_Metadata
  imports Sync_Scope "HOL-Library.AList"
begin

text \<open>
  Names and texts of a publication, \<open>codexsdk/internal/protocolsync/publish.go\<close>: the branch of a candidate, the title and
  body of its pull request, and the hidden block of metadata that the body carries. A slice expression beyond its
  string panics; the model returns \<open>None\<close> then. A Go map is an association list.
\<close>

section \<open>Branches\<close>

definition newline :: char where "newline = CHR 0x0A"

definition normalizeBranchRef :: "gostring \<Rightarrow> gostring \<Rightarrow> gostring" where
  "normalizeBranchRef ref remote =
     trim_prefix (trim_prefix (trim_prefix ref ''refs/heads/'') (''refs/remotes/'' @ remote @ ''/'')) (remote @ ''/'')"

definition name_char :: "char \<Rightarrow> bool" where
  "name_char c \<longleftrightarrow> (let n = (of_char c :: nat) in 65 \<le> n \<and> n \<le> 90 \<or> 97 \<le> n \<and> n \<le> 122 \<or> 48 \<le> n \<and> n \<le> 57) \<or> c \<in> set ''._-''"

text \<open>\<open>[^A-Za-z0-9._-]+\<close> replaced by a dash.\<close>

function dash_runs :: "gostring \<Rightarrow> gostring" where
  "dash_runs [] = []"
| "dash_runs (c # cs) = (if name_char c then c # dash_runs cs else CHR ''-'' # dash_runs (dropWhile (\<lambda>c. \<not> name_char c) cs))"
  by pat_completeness auto
termination
  by (relation "measure length") (auto simp: le_imp_less_Suc length_dropWhile_le)

definition trim_chars :: "gostring \<Rightarrow> gostring \<Rightarrow> gostring" where
  "trim_chars s cutset = rev (dropWhile (\<lambda>c. c \<in> set cutset) (rev (dropWhile (\<lambda>c. c \<in> set cutset) s)))"

definition first12 :: "gostring \<Rightarrow> gostring option" where
  "first12 s = (if length s < 12 then None else Some (take 12 s))"

definition strip_ref :: "gostring \<Rightarrow> gostring" where
  "strip_ref ref = (if has_prefix ref ''refs/heads/'' then drop 11 ref else if has_prefix ref ''refs/tags/'' then drop 10 ref else ref)"

definition syncBranchName :: "gostring \<Rightarrow> gostring \<Rightarrow> gostring \<Rightarrow> gostring option" where
  "syncBranchName targetRef targetSHA baseSHA =
     (case (first12 targetSHA, first12 baseSHA) of
        (Some target, Some base) \<Rightarrow>
          let name = strip_ref targetRef;
              name = (if name = [] then target else name);
              name = trim_chars (dash_runs name) ''-.'';
              name = (if name = [] then target else name);
              name = take 64 name
          in Some (''codex/sync-upstream-'' @ name @ ''-'' @ target @ ''-base-'' @ base)
      | _ \<Rightarrow> None)"

section \<open>The metadata block\<close>

definition sync_marker :: gostring where "sync_marker = ''<!-- codexsdk-upstream-sync''"
definition arrow :: gostring where "arrow = ''-->''"

definition str_cut :: "char \<Rightarrow> gostring \<Rightarrow> (gostring \<times> gostring) option" where
  "str_cut c s = (if c \<in> set s then Some (takeWhile (\<lambda>x. x \<noteq> c) s, tl (dropWhile (\<lambda>x. x \<noteq> c) s)) else None)"

definition sync_keys :: "gostring list" where
  "sync_keys = [''upstream_ref'', ''upstream_ref_kind'', ''upstream_commit'', ''sync_commit'', ''base_branch'']"

definition sync_line :: "gostring \<Rightarrow> (gostring \<times> gostring) list \<Rightarrow> (gostring \<times> gostring) list" where
  "sync_line line parsed = (case str_cut (CHR '':'') line of None \<Rightarrow> parsed
     | Some (key, value) \<Rightarrow> let key = trim_space key in
         if key \<in> set sync_keys then AList.update key (trim_space value) parsed else parsed)"

definition parseSyncMetadata :: "gostring \<Rightarrow> (gostring \<times> gostring) list" where
  "parseSyncMetadata body = (case str_index sync_marker body of None \<Rightarrow> []
     | Some start \<Rightarrow> (case str_index arrow (drop start body) of None \<Rightarrow> []
         | Some end \<Rightarrow> fold sync_line (split_on newline (take end (drop start body))) []))"

record publicationDescription =
  pd_target :: BaselineIdentity
  pd_head :: gostring
  pd_base :: gostring

definition meta_at :: "(gostring \<times> gostring) list \<Rightarrow> gostring \<Rightarrow> gostring" where
  "meta_at meta key = (case map_of meta key of None \<Rightarrow> [] | Some v \<Rightarrow> v)"

definition publicationProjection :: "gostring \<Rightarrow> publicationDescription" where
  "publicationProjection body = (let meta = parseSyncMetadata body in
     \<lparr>pd_target = \<lparr>bi_SourceCommit = meta_at meta ''upstream_commit'', bi_SourceRefName = meta_at meta ''upstream_ref'',
        bi_SourceRefKind = meta_at meta ''upstream_ref_kind''\<rparr>,
      pd_head = meta_at meta ''sync_commit'', pd_base = meta_at meta ''base_branch''\<rparr>)"

definition publicationProjectionMatches :: "gostring \<Rightarrow> gostring \<Rightarrow> gostring \<Rightarrow> gostring \<Rightarrow> gostring \<Rightarrow> gostring \<Rightarrow> bool" where
  "publicationProjectionMatches body base targetRef targetKind targetSHA head \<longleftrightarrow> (let got = publicationProjection body in
     pd_base got = base \<and> pd_head got = head \<and> bi_SourceRefName (pd_target got) = targetRef \<and>
     bi_SourceRefKind (pd_target got) = targetKind \<and> bi_SourceCommit (pd_target got) = targetSHA)"

definition publicationTitle :: "gostring \<Rightarrow> gostring" where
  "publicationTitle ref = ''Sync Codex protocol baseline to '' @ ref"

definition meta_line :: "gostring \<Rightarrow> gostring \<Rightarrow> gostring" where
  "meta_line key value = key @ CHR '':'' # CHR '' '' # value"

definition syncMetadataBlock :: "gostring \<Rightarrow> gostring \<Rightarrow> gostring \<Rightarrow> gostring \<Rightarrow> gostring \<Rightarrow> gostring" where
  "syncMetadataBlock landRef targetRef targetKind targetSHA syncCommit =
     sync_marker @ newline # meta_line ''upstream_ref'' targetRef @ newline # meta_line ''upstream_ref_kind'' targetKind @
     newline # meta_line ''upstream_commit'' targetSHA @ newline # meta_line ''sync_commit'' syncCommit @
     newline # meta_line ''base_branch'' landRef @ newline # arrow"

definition updateSyncMetadata :: "gostring \<Rightarrow> gostring \<Rightarrow> gostring \<Rightarrow> gostring \<Rightarrow> gostring \<Rightarrow> gostring \<Rightarrow> gostring" where
  "updateSyncMetadata body landRef targetRef targetKind targetSHA syncCommit =
     (let block = syncMetadataBlock landRef targetRef targetKind targetSHA syncCommit in
      case str_index sync_marker body of
        None \<Rightarrow> if trim_space body = [] then block @ [newline]
                else block @ [newline, newline] @ dropWhile (\<lambda>c. c = newline) body
      | Some start \<Rightarrow> (case str_index arrow (drop start body) of
          None \<Rightarrow> block @ [newline, newline] @ body
        | Some relEnd \<Rightarrow> take start body @ block @ drop (start + relEnd + length arrow) body))"

definition description_text :: gostring where
  "description_text = newline # newline # ''Automated upstream protocol sync.'' @ newline # newline # ''## Description'' @ newline # newline #
     ''This PR advances the checked-in protocol baseline for the selected upstream target, regenerates deterministic SDK artifacts, includes any one-run handwritten updates required by real drift, and publishes only after native checks passed.'' @ newline # newline #
     ''It does not merge itself, tag, or bypass branch protection.'' @ newline # newline #
     ''The exact publication identity is owned by the current Git head and its checked-in baseline metadata. The hidden block above is a recoverable projection. This visible body is operator-owned scratchboard text and may be edited without changing protocol correctness.'' @ newline # newline #
     ''Integration must use the trusted Auto-forward PR path only after the exact current head has all required checks and review policy satisfied; main is then advanced to that same head by non-force fast-forward.'' @ [newline]"

definition publicationBody :: "gostring \<Rightarrow> gostring \<Rightarrow> gostring \<Rightarrow> gostring \<Rightarrow> gostring \<Rightarrow> gostring" where
  "publicationBody landRef targetRef targetKind targetSHA syncCommit =
     syncMetadataBlock landRef targetRef targetKind targetSHA syncCommit @ description_text"

definition githubOutputValue :: "gostring \<Rightarrow> gostring" where
  "githubOutputValue value = replace_all newline '' '' (replace_all (CHR 0x0D) '' '' value)"

lemma githubOutputValue_one_line: "newline \<notin> set (githubOutputValue value)" "CHR 0x0D \<notin> set (githubOutputValue value)"
  by (auto simp: githubOutputValue_def replace_all_def newline_def split: if_splits)

section \<open>Positions of a text\<close>

lemma has_prefix_sep: "c \<notin> set p \<Longrightarrow> has_prefix (a @ c # b) p \<longleftrightarrow> has_prefix a p"
proof (induction p arbitrary: a)
  case (Cons x p)
  then show ?case by (cases a) (auto simp: has_prefix_def)
qed (simp add: has_prefix_def)

lemma str_index_sep:
  assumes "c \<notin> set p" "p \<noteq> []"
  shows "str_index p (a @ c # b) = (case str_index p a of Some i \<Rightarrow> Some i | None \<Rightarrow> map_option (\<lambda>i. Suc (length a + i)) (str_index p b))"
proof (induction a)
  case Nil
  have "\<not> has_prefix (c # b) p" using has_prefix_sep[OF assms(1), of "[]" b] assms(2) by (simp add: has_prefix_def)
  with assms(2) show ?case by simp
next
  case (Cons x a)
  show ?case
    using has_prefix_sep[OF assms(1), of "x # a" b] Cons
    by (auto simp: option.map_comp comp_def split: option.splits)
qed

lemma str_index_self: "p \<noteq> [] \<Longrightarrow> str_index p (p @ t) = Some 0"
  by (cases p) (simp_all add: has_prefix_def)

text \<open>Replacing what follows an occurrence does not move it.\<close>

lemma str_index_replace:
  assumes "str_index p s = Some i"
  shows "str_index p (take i s @ p @ t) = Some i"
proof -
  from assms obtain r where i: "i \<le> length s" "drop i s = p @ r" and first: "\<And>j. j < i \<Longrightarrow> \<not> has_prefix (drop j s) p"
    by (auto simp: str_index_Some)
  have split: "s = take i s @ p @ r" using i(2) append_take_drop_id[of i s] by simp
  have "\<not> has_prefix (drop j (take i s @ p @ t)) p" if j: "j < i" for j
  proof -
    have "has_prefix (drop j (take i s @ p @ t)) p \<longleftrightarrow> has_prefix (drop j (take i s @ p @ r)) p"
      using j i(1) by (simp add: has_prefix_def)
    with first[OF j] split show ?thesis by simp
  qed
  with i(1) show ?thesis by (simp add: str_index_Some)
qed

section \<open>Round trip of the block\<close>

text \<open>What the block can carry: one trimmed line without the end of a comment.\<close>

definition meta_ok :: "gostring \<Rightarrow> bool" where
  "meta_ok v \<longleftrightarrow> newline \<notin> set v \<and> \<not> contains v arrow \<and> trim_space v = v"

definition block_inner :: "gostring \<Rightarrow> gostring \<Rightarrow> gostring \<Rightarrow> gostring \<Rightarrow> gostring \<Rightarrow> gostring" where
  "block_inner landRef targetRef targetKind targetSHA syncCommit =
     sync_marker @ newline # meta_line ''upstream_ref'' targetRef @ newline # meta_line ''upstream_ref_kind'' targetKind @
     newline # meta_line ''upstream_commit'' targetSHA @ newline # meta_line ''sync_commit'' syncCommit @
     newline # meta_line ''base_branch'' landRef @ [newline]"

lemma block_split: "syncMetadataBlock landRef targetRef targetKind targetSHA syncCommit = block_inner landRef targetRef targetKind targetSHA syncCommit @ arrow"
  by (simp add: syncMetadataBlock_def block_inner_def)

lemma meta_line_no_arrow:
  "str_index arrow key = None \<Longrightarrow> meta_ok v \<Longrightarrow> str_index arrow (meta_line key v) = None"
  using str_index_sep[of "CHR '':''" arrow key "CHR '' '' # v"] str_index_sep[of "CHR '' ''" arrow "[]" v]
  by (simp add: meta_line_def meta_ok_def contains_def arrow_def)

lemma block_end:
  assumes "list_all meta_ok [landRef, targetRef, targetKind, targetSHA, syncCommit]"
  shows "str_index arrow (block_inner landRef targetRef targetKind targetSHA syncCommit @ arrow @ t) =
    Some (length (block_inner landRef targetRef targetKind targetSHA syncCommit))"
proof -
  have sep: "newline \<notin> set arrow" "arrow \<noteq> []" by (simp_all add: newline_def arrow_def)
  have keys: "list_all (\<lambda>k. str_index arrow k = None) (sync_marker # sync_keys)" by code_simp
  then have "str_index arrow sync_marker = None" "str_index arrow (meta_line ''upstream_ref'' targetRef) = None"
    "str_index arrow (meta_line ''upstream_ref_kind'' targetKind) = None" "str_index arrow (meta_line ''upstream_commit'' targetSHA) = None"
    "str_index arrow (meta_line ''sync_commit'' syncCommit) = None" "str_index arrow (meta_line ''base_branch'' landRef) = None"
    using assms by (simp_all add: meta_line_no_arrow sync_keys_def)
  then show ?thesis
    unfolding block_inner_def append_assoc append_Cons append_Nil str_index_sep[OF sep]
    by (simp add: str_index_self[OF sep(2)])
qed

lemma trim_space_blank: "trim_space (CHR '' '' # s) = trim_space s"
proof -
  have "strip_one space_runes (CHR '' '' # s) = Some s" by (simp add: space_runes_def has_prefix_def)
  then show ?thesis by (simp add: trim_space_def trim_runes.simps[of _ "CHR '' '' # s"])
qed

lemma str_cut_first: "c \<notin> set k \<Longrightarrow> str_cut c (k @ c # v) = Some (k, v)"
  by (induction k) (auto simp: str_cut_def)

lemma sync_line_meta:
  assumes "key \<in> set sync_keys" "meta_ok v"
  shows "sync_line (meta_line key v) parsed = AList.update key v parsed"
proof -
  have "list_all (\<lambda>k. CHR '':'' \<notin> set k \<and> trim_space k = k) sync_keys" by code_simp
  then have "CHR '':'' \<notin> set key" "trim_space key = key" using assms(1) by (auto simp: list_all_iff)
  then have "str_cut (CHR '':'') (meta_line key v) = Some (key, CHR '' '' # v)"
    by (simp add: meta_line_def str_cut_first)
  with assms \<open>trim_space key = key\<close> show ?thesis by (simp add: sync_line_def trim_space_blank meta_ok_def)
qed

lemma sync_line_marker: "sync_line sync_marker parsed = parsed" "sync_line [] parsed = parsed"
  by (simp_all add: sync_line_def str_cut_def sync_marker_def)

lemma block_lines:
  assumes "list_all meta_ok [landRef, targetRef, targetKind, targetSHA, syncCommit]"
  shows "split_on newline (block_inner landRef targetRef targetKind targetSHA syncCommit) =
    [sync_marker, meta_line ''upstream_ref'' targetRef, meta_line ''upstream_ref_kind'' targetKind, meta_line ''upstream_commit'' targetSHA,
     meta_line ''sync_commit'' syncCommit, meta_line ''base_branch'' landRef, []]"
proof -
  have "list_all (\<lambda>k. newline \<notin> set k) (sync_marker # sync_keys)" by code_simp
  then have "newline \<notin> set sync_marker" "newline \<notin> set (meta_line ''upstream_ref'' targetRef)" "newline \<notin> set (meta_line ''upstream_ref_kind'' targetKind)"
    "newline \<notin> set (meta_line ''upstream_commit'' targetSHA)" "newline \<notin> set (meta_line ''sync_commit'' syncCommit)"
    "newline \<notin> set (meta_line ''base_branch'' landRef)"
    using assms by (auto simp: meta_line_def meta_ok_def newline_def sync_keys_def)
  then show ?thesis by (simp add: block_inner_def split_on_append split_on_no)
qed

lemma parse_block:
  assumes ok: "list_all meta_ok [landRef, targetRef, targetKind, targetSHA, syncCommit]"
    and at: "str_index sync_marker body = Some i"
    "drop i body = syncMetadataBlock landRef targetRef targetKind targetSHA syncCommit @ t"
  shows "publicationProjectionMatches body landRef targetRef targetKind targetSHA syncCommit"
proof -
  have "parseSyncMetadata body = fold sync_line (split_on newline (block_inner landRef targetRef targetKind targetSHA syncCommit)) []"
    using block_end[OF ok, of t] at by (simp add: parseSyncMetadata_def block_split)
  also have "\<dots> = [(''upstream_ref'', targetRef), (''upstream_ref_kind'', targetKind), (''upstream_commit'', targetSHA),
      (''sync_commit'', syncCommit), (''base_branch'', landRef)]"
    using ok by (simp add: block_lines sync_line_marker sync_line_meta sync_keys_def)
  finally show ?thesis by (simp add: publicationProjectionMatches_def publicationProjection_def meta_at_def Let_def)
qed

lemma block_marker: "\<exists>r. syncMetadataBlock l ref k sha c = sync_marker @ r"
  by (simp add: syncMetadataBlock_def)

lemma update_block_at:
  obtains u t where "\<And>l ref k sha c. updateSyncMetadata body l ref k sha c = u @ syncMetadataBlock l ref k sha c @ t"
    "\<And>l ref k sha c. str_index sync_marker (u @ syncMetadataBlock l ref k sha c @ t) = Some (length u)"
proof (cases "\<exists>start relEnd. str_index sync_marker body = Some start \<and> str_index arrow (drop start body) = Some relEnd")
  case True
  then obtain start relEnd where i: "str_index sync_marker body = Some start" "str_index arrow (drop start body) = Some relEnd" by blast
  then have "start \<le> length body" by (auto simp: str_index_Some)
  moreover have "str_index sync_marker (take start body @ syncMetadataBlock l ref k sha c @ t) = Some start" for l ref k sha c t
    using block_marker[of l ref k sha c] str_index_replace[OF i(1)] by auto
  ultimately show thesis
    using i by (intro that[of "take start body" "drop (start + relEnd + length arrow) body"]) (simp_all add: updateSyncMetadata_def)
next
  case False
  have front: "str_index sync_marker ([] @ syncMetadataBlock l ref k sha c @ t) = Some (length [])" for l ref k sha c t
    using block_marker[of l ref k sha c] str_index_self[of sync_marker] by (auto simp: sync_marker_def)
  obtain t where "\<And>l ref k sha c. updateSyncMetadata body l ref k sha c = [] @ syncMetadataBlock l ref k sha c @ t"
  proof (cases "str_index sync_marker body")
    case None
    show thesis
      by (rule that[of "if trim_space body = [] then [newline] else [newline, newline] @ dropWhile (\<lambda>c. c = newline) body"])
        (simp add: updateSyncMetadata_def None)
  next
    case (Some start)
    with False have "str_index arrow (drop start body) = None" by auto
    with Some show thesis by (intro that[of "[newline, newline] @ body"]) (simp add: updateSyncMetadata_def)
  qed
  with front that show thesis by blast
qed

text \<open>C24: the metadata block reads back. Whatever the body of the pull request was, after an update the projection of the
  new body is exactly the given identity; a later update replaces the block where it stands, so the text around it is the same
  as if the first update had not been made; and the body of a new pull request reads back too.\<close>

theorem sync_metadata_roundtrip:
  assumes "list_all meta_ok [landRef, targetRef, targetKind, targetSHA, syncCommit]"
  shows "publicationProjectionMatches (updateSyncMetadata body landRef targetRef targetKind targetSHA syncCommit) landRef targetRef targetKind targetSHA syncCommit \<and>
    publicationProjectionMatches (publicationBody landRef targetRef targetKind targetSHA syncCommit) landRef targetRef targetKind targetSHA syncCommit \<and>
    updateSyncMetadata (updateSyncMetadata body landRef targetRef targetKind targetSHA syncCommit) landRef' targetRef' targetKind' targetSHA' syncCommit' =
      updateSyncMetadata body landRef' targetRef' targetKind' targetSHA' syncCommit'"
proof -
  let ?block = "syncMetadataBlock landRef targetRef targetKind targetSHA syncCommit"
  obtain u t where upd: "\<And>l ref k sha c. updateSyncMetadata body l ref k sha c = u @ syncMetadataBlock l ref k sha c @ t"
    and at: "\<And>l ref k sha c. str_index sync_marker (u @ syncMetadataBlock l ref k sha c @ t) = Some (length u)"
    using update_block_at[of body] by blast
  have "updateSyncMetadata (u @ ?block @ t) landRef' targetRef' targetKind' targetSHA' syncCommit' =
      u @ syncMetadataBlock landRef' targetRef' targetKind' targetSHA' syncCommit' @ t"
    using at[of landRef targetRef targetKind targetSHA syncCommit] block_end[OF assms, of t]
    by (simp add: updateSyncMetadata_def block_split)
  moreover have "publicationProjectionMatches (u @ ?block @ t) landRef targetRef targetKind targetSHA syncCommit"
    using parse_block[OF assms at] by simp
  moreover have "str_index sync_marker (publicationBody landRef targetRef targetKind targetSHA syncCommit) = Some 0"
    using block_marker[of landRef targetRef targetKind targetSHA syncCommit] str_index_self[of sync_marker]
    by (auto simp: publicationBody_def sync_marker_def)
  then have "publicationProjectionMatches (publicationBody landRef targetRef targetKind targetSHA syncCommit) landRef targetRef targetKind targetSHA syncCommit"
    using parse_block[OF assms, of _ 0 description_text] by (simp add: publicationBody_def)
  ultimately show ?thesis by (simp add: upd)
qed

theorem sync_metadata_roundtrip_witness:
  "publicationProjectionMatches (updateSyncMetadata ''operator text'' ''main'' ''rust-v1.2.3'' ''stable_rust_tag'' ''abc'' ''def'') ''main'' ''rust-v1.2.3'' ''stable_rust_tag'' ''abc'' ''def''"
proof -
  have "list_all meta_ok [''main'', ''rust-v1.2.3'', ''stable_rust_tag'', ''abc'', ''def'']" by code_simp
  from sync_metadata_roundtrip[OF this, of "''operator text''"] show ?thesis by blast
qed

section \<open>Branch names\<close>

lemma dash_runs_chars: "c \<in> set (dash_runs s) \<Longrightarrow> name_char c"
  by (induction s rule: dash_runs.induct) (auto simp: name_char_def split: if_splits)

lemma set_trim_chars: "set (trim_chars s cutset) \<subseteq> set s"
  unfolding trim_chars_def by (metis set_dropWhileD set_rev subsetI)

text \<open>A branch name is made of letters, digits, dots, dashes and slashes only, and tells target and base apart.\<close>

lemma syncBranchName_shape:
  assumes "sha_match target" "sha_match base" "syncBranchName ref target base = Some branch"
  shows "has_prefix branch ''codex/sync-upstream-''" "has_suffix branch (''-'' @ take 12 target @ ''-base-'' @ take 12 base)"
    "length branch \<le> 115" "list_all (\<lambda>c. name_char c \<or> c = slash) branch"
proof -
  have len: "length target = 40" "length base = 40" using assms(1,2) by (auto simp: sha_match_def)
  have hex: "name_char c" if "sha_match s" "c \<in> set s" for s c
    using that by (auto simp: sha_match_def list_all_iff ascii_digit_def name_char_def Let_def)
  define name where "name = (let name = trim_chars (dash_runs (if strip_ref ref = [] then take 12 target else strip_ref ref)) ''-.'' in
      if name = [] then take 12 target else name)"
  have branch: "branch = ''codex/sync-upstream-'' @ take 64 name @ ''-'' @ take 12 target @ ''-base-'' @ take 12 base"
    using assms(3) len by (simp add: syncBranchName_def first12_def Let_def name_def)
  have name: "name = take 12 target \<or> (\<exists>s. name = trim_chars (dash_runs s) ''-.'')"
    unfolding name_def Let_def by auto
  show "has_prefix branch ''codex/sync-upstream-''" by (auto simp: branch has_prefix_iff)
  show "has_suffix branch (''-'' @ take 12 target @ ''-base-'' @ take 12 base)" by (auto simp: branch has_suffix_iff)
  show "length branch \<le> 115" by (simp add: branch len)
  have "list_all name_char name"
    using name
  proof (elim disjE exE)
    assume "name = take 12 target"
    then show ?thesis using hex[OF assms(1)] by (auto simp: list_all_iff dest: in_set_takeD)
  next
    fix s assume "name = trim_chars (dash_runs s) ''-.''"
    then show ?thesis using set_trim_chars[of "dash_runs s"] dash_runs_chars[of _ s] by (auto simp: list_all_iff)
  qed
  then have parts: "list_all (\<lambda>c. name_char c \<or> c = slash) (take 64 name)" "list_all (\<lambda>c. name_char c \<or> c = slash) (take 12 target)"
    "list_all (\<lambda>c. name_char c \<or> c = slash) (take 12 base)"
    using hex[OF assms(1)] hex[OF assms(2)] by (auto simp: list_all_iff dest: in_set_takeD)
  have "list_all (\<lambda>c. name_char c \<or> c = slash) ''codex/sync-upstream-''" "list_all (\<lambda>c. name_char c \<or> c = slash) ''-''"
    "list_all (\<lambda>c. name_char c \<or> c = slash) ''-base-''" by code_simp+
  with parts show "list_all (\<lambda>c. name_char c \<or> c = slash) branch"
    unfolding branch list_all_append by blast
qed

end
