(* ===== verification/Upstream_Resolve.thy ===== *)
theory Upstream_Resolve
  imports Sync_Metadata
begin

text \<open>
  Selection of an upstream target, \<open>codexsdk/internal/protocolsync/resolve.go\<close>: the newest stable tag, or a tag, ref or
  commit asked for. \<open>git ls-remote\<close> is an operation on a state \<open>'w\<close>; what it prints is parsed here.
\<close>

record Target =
  tg_RefName :: gostring
  tg_RefKind :: gostring
  tg_TagSHA :: gostring
  tg_PeeledCommitSHA :: gostring
  tg_TargetExplicit :: bool

record ResolveRequest =
  rr_Remote :: gostring
  rr_UpstreamRef :: gostring
  rr_LatestStable :: bool

type_synonym 'w RemoteLookuper = "gostring \<Rightarrow> gostring list \<Rightarrow> 'w \<Rightarrow> (go_error + gostring) \<times> 'w"

definition defaultRemote :: gostring where
  "defaultRemote = ''https://github.com/openai/codex.git''"

section \<open>Parsing what Git prints\<close>

definition tag_line :: "gostring \<Rightarrow> (gostring \<times> int list) option" where
  "tag_line line = (case str_fields line of
      [_, ref] \<Rightarrow> if has_prefix ref ''refs/tags/'' then
          (let tag = trim_prefix ref ''refs/tags/'' in map_option (\<lambda>version. (tag, version)) (parseRustTag tag)) else None
    | _ \<Rightarrow> None)"

definition latest_step :: "gostring \<Rightarrow> (gostring \<times> int list) option \<Rightarrow> (gostring \<times> int list) option" where
  "latest_step line best = (case tag_line line of None \<Rightarrow> best
     | Some (tag, version) \<Rightarrow> (case best of None \<Rightarrow> Some (tag, version)
         | Some (_, bestVersion) \<Rightarrow> if compareVersion version bestVersion > 0 then Some (tag, version) else best))"

definition latestStableRustTag :: "gostring \<Rightarrow> go_error + gostring" where
  "latestStableRustTag output = (case fold latest_step (split_on newline output) None of
      None \<Rightarrow> Inl (ErrNew ''unable to resolve an upstream rust-vX.Y.Z tag'') | Some (best, _) \<Rightarrow> Inr best)"

definition ref_step :: "gostring \<Rightarrow> (gostring \<times> gostring) list \<Rightarrow> (gostring \<times> gostring) list" where
  "ref_step line shas = (case str_fields line of
      [sha, ref] \<Rightarrow> if map_of shas ref = None then shas @ [(ref, sha)] else shas | _ \<Rightarrow> shas)"

definition remoteRefSHAs :: "gostring \<Rightarrow> (gostring \<times> gostring) list" where
  "remoteRefSHAs output = fold ref_step (split_on newline output) []"

fun first_sha :: "gostring list \<Rightarrow> gostring" where
  "first_sha [] = []"
| "first_sha (line # lines) = (case str_fields line of [sha, _] \<Rightarrow> if sha \<noteq> [] then sha else first_sha lines | _ \<Rightarrow> first_sha lines)"

definition firstRemoteSHA :: "gostring \<Rightarrow> gostring" where
  "firstRemoteSHA output = first_sha (split_on newline output)"

section \<open>Resolution\<close>

fun resolve_candidates :: "'w RemoteLookuper \<Rightarrow> gostring \<Rightarrow> gostring \<Rightarrow> gostring list \<Rightarrow> 'w \<Rightarrow> (go_error + gostring \<times> gostring) \<times> 'w" where
  "resolve_candidates ls remote ref [] w = (Inl (ErrNew (''unable to resolve upstream ref in openai/codex: '' @ ref)), w)"
| "resolve_candidates ls remote ref (candidate # rest) w = (case ls remote [candidate] w of (Inl e, w) \<Rightarrow> (Inl e, w)
     | (Inr output, w) \<Rightarrow> let sha = firstRemoteSHA output in
         if sha \<noteq> [] then (Inr ([], sha), w) else resolve_candidates ls remote ref rest w)"

definition resolveRemoteRef :: "'w RemoteLookuper \<Rightarrow> gostring \<Rightarrow> gostring \<Rightarrow> 'w \<Rightarrow> (go_error + gostring \<times> gostring) \<times> 'w" where
  "resolveRemoteRef ls remote ref =
     (if sha_match ref then return_op ([], ref)
      else let tagRef = ''refs/tags/'' @ ref in
        bind_op (ls remote [tagRef, tagRef @ ''^{}'']) (\<lambda>output.
          let entries = remoteRefSHAs output; tagSHA = meta_at entries tagRef; peeled = meta_at entries (tagRef @ ''^{}'');
              peeled = (if peeled = [] then tagSHA else peeled)
          in if peeled \<noteq> [] then return_op (if tagSHA = [] then peeled else tagSHA, peeled)
             else resolve_candidates ls remote ref [ref @ ''^{}'', ''refs/heads/'' @ ref, ref]))"

definition ResolveUpstream :: "'w RemoteLookuper \<Rightarrow> ResolveRequest \<Rightarrow> 'w \<Rightarrow> (go_error + Target) \<times> 'w" where
  "ResolveUpstream ls req =
     (let remote = (if rr_Remote req = [] then defaultRemote else rr_Remote req);
          requested = trim_space (rr_UpstreamRef req);
          explicit = (requested \<noteq> [])
      in if rr_LatestStable req \<and> requested \<noteq> [] then fail_op (ErrNew ''--latest-stable cannot be combined with --upstream-ref'')
         else bind_op (if explicit then return_op requested
             else bind_op (ls remote [''refs/tags/rust-v*'']) (\<lambda>output w. (latestStableRustTag output, w))) (\<lambda>requested.
           bind_op (resolveRemoteRef ls remote requested) (\<lambda>(tagSHA, peeled).
             return_op \<lparr>tg_RefName = requested, tg_RefKind = inferRefKind requested, tg_TagSHA = tagSHA,
               tg_PeeledCommitSHA = peeled, tg_TargetExplicit = explicit\<rparr>)))"

section \<open>The newest stable tag\<close>

definition listed_tags :: "gostring \<Rightarrow> gostring set" where
  "listed_tags output = {tag. \<exists>line \<in> set (split_on newline output). \<exists>version. tag_line line = Some (tag, version)}"

lemma tag_line_version: "tag_line line = Some (tag, version) \<Longrightarrow> parseRustTag tag = Some version"
  by (auto simp: tag_line_def Let_def split: list.splits if_splits)

definition best_of :: "gostring set \<Rightarrow> (gostring \<times> int list) option \<Rightarrow> bool" where
  "best_of tags best = (case best of None \<Rightarrow> tags = {}
     | Some (tag, version) \<Rightarrow> tag \<in> tags \<and> parseRustTag tag = Some version \<and> (\<forall>t \<in> tags. \<not> newer_tag t tag))"

lemma latest_step_best:
  assumes "best_of tags best"
  shows "best_of (tags \<union> {tag. \<exists>version. tag_line line = Some (tag, version)}) (latest_step line best)"
proof (cases "tag_line line")
  case (Some p)
  obtain tag version where p: "p = (tag, version)" by force
  have v: "parseRustTag tag = Some version" using tag_line_version Some p by blast
  show ?thesis
  proof (cases best)
    case None
    with assms Some p v show ?thesis by (auto simp: latest_step_def best_of_def newer_tag_irrefl)
  next
    case (Some b)
    then obtain bt bv where b: "best = Some (bt, bv)" by (cases b) auto
    with assms have bt: "bt \<in> tags" "parseRustTag bt = Some bv" "\<And>t. t \<in> tags \<Longrightarrow> \<not> newer_tag t bt" by (auto simp: best_of_def)
    have newer: "compareVersion version bv > 0 \<longleftrightarrow> newer_tag tag bt"
      using v bt(2) parseRustTag_length compareVersion_less[of version bv] by (simp add: newer_tag_def)
    have "\<not> newer_tag t tag" if "newer_tag tag bt" "t \<in> tags" for t
      using bt(3)[OF that(2)] newer_tag_trans[OF _ that(1)] by blast
    with b bt v newer \<open>tag_line line = Some p\<close> p show ?thesis
      by (auto simp: latest_step_def best_of_def newer_tag_irrefl)
  qed
qed (use assms in \<open>simp add: latest_step_def\<close>)

lemma latest_fold_best:
  "best_of tags best \<Longrightarrow> best_of (tags \<union> {tag. \<exists>line \<in> set ls. \<exists>version. tag_line line = Some (tag, version)}) (fold latest_step ls best)"
proof (induction ls arbitrary: tags best)
  case (Cons line ls)
  have "tags \<union> {tag. \<exists>l \<in> set (line # ls). \<exists>version. tag_line l = Some (tag, version)} =
      (tags \<union> {tag. \<exists>version. tag_line line = Some (tag, version)}) \<union> {tag. \<exists>l \<in> set ls. \<exists>version. tag_line l = Some (tag, version)}"
    by auto
  with Cons.IH[OF latest_step_best[OF Cons.prems]] show ?case by simp
qed simp

lemma latestStableRustTag_newest:
  "latestStableRustTag output = Inr tag \<Longrightarrow> tag \<in> listed_tags output \<and> (\<forall>t \<in> listed_tags output. \<not> newer_tag t tag)"
  "latestStableRustTag output = Inl e \<Longrightarrow> listed_tags output = {}"
  using latest_fold_best[of "{}" None "split_on newline output"]
  by (auto simp: latestStableRustTag_def best_of_def listed_tags_def split: option.splits prod.splits)

lemma listed_tag_kind: "tag \<in> listed_tags output \<Longrightarrow> inferRefKind tag = KindStableTag"
  by (auto simp: listed_tags_def inferRefKind_def parseRustTag_def dest!: tag_line_version split: option.splits)

lemma first_sha_fields: "first_sha lines \<noteq> [] \<Longrightarrow> \<exists>line \<in> set lines. \<exists>ref. str_fields line = [first_sha lines, ref]"
  by (induction lines) (auto split: list.splits if_splits)

lemma resolve_candidates_nonempty: "resolve_candidates ls remote ref cs w = (Inr (t, p), w') \<Longrightarrow> p \<noteq> []"
  by (induction cs arbitrary: w) (auto simp: Let_def split: prod.splits sum.splits if_splits)

lemma resolveRemoteRef_nonempty: "resolveRemoteRef ls remote ref w = (Inr (t, p), w') \<Longrightarrow> p \<noteq> []"
  by (auto simp: resolveRemoteRef_def Let_def op_Inr sha_match_def simp del: resolve_candidates.simps dest: resolve_candidates_nonempty split: if_splits)

text \<open>C25: without a requested ref the target is the newest stable tag of the upstream repository: it is listed there, no
  listed stable tag is newer, it counts as automatic, and it has a commit. A policy that then allows it as an automatic
  upgrade moves a stable baseline to a newer version.\<close>

theorem latest_stable_resolved:
  assumes "ResolveUpstream ls req w = (Inr target, w')" "trim_space (rr_UpstreamRef req) = []"
  shows "\<exists>output w1. ls (if rr_Remote req = [] then defaultRemote else rr_Remote req) [''refs/tags/rust-v*''] w = (Inr output, w1) \<and>
    tg_RefName target \<in> listed_tags output \<and> (\<forall>tag. tag \<in> listed_tags output \<longrightarrow> \<not> newer_tag tag (tg_RefName target)) \<and>
    tg_RefKind target = KindStableTag \<and> \<not> tg_TargetExplicit target \<and> tg_PeeledCommitSHA target \<noteq> [] \<and>
    (\<forall>b mode down. pd_Decision (EvaluatePolicy \<lparr>pq_Baseline = b, pq_TargetRef = tg_RefName target, pq_TargetKind = tg_RefKind target,
       pq_TargetSHA = tg_PeeledCommitSHA target, pq_TargetExplicit = tg_TargetExplicit target, pq_Mode = mode, pq_AllowDowngrade = down\<rparr>) = DecisionAllow \<longrightarrow>
       newer_tag (tg_RefName target) (bi_SourceRefName b))"
proof -
  let ?remote = "if rr_Remote req = [] then defaultRemote else rr_Remote req"
  from assms obtain listing w1 tag t p w2 where
    out: "ls ?remote [''refs/tags/rust-v*''] w = (Inr listing, w1)" "latestStableRustTag listing = Inr tag"
    and res: "resolveRemoteRef ls ?remote tag w1 = (Inr (t, p), w2)"
    and target: "target = \<lparr>tg_RefName = tag, tg_RefKind = inferRefKind tag, tg_TagSHA = t, tg_PeeledCommitSHA = p, tg_TargetExplicit = False\<rparr>"
    unfolding ResolveUpstream_def Let_def by (auto simp: op_Inr split: if_splits prod.splits)
  note newest = latestStableRustTag_newest(1)[OF out(2)]
  then have kind: "inferRefKind tag = KindStableTag" using listed_tag_kind by blast
  have forward: "newer_tag tag (bi_SourceRefName b)"
    if "pd_Decision (EvaluatePolicy \<lparr>pq_Baseline = b, pq_TargetRef = tag, pq_TargetKind = KindStableTag, pq_TargetSHA = p,
      pq_TargetExplicit = False, pq_Mode = mode, pq_AllowDowngrade = down\<rparr>) = DecisionAllow" for b mode down
    using that by (subst (asm) automatic_allow_iff) simp_all
  show ?thesis
    using out(1) newest kind forward resolveRemoteRef_nonempty[OF res] unfolding target
    by (intro exI[of _ listing] exI[of _ w1] conjI) simp_all
qed

definition example_ls :: "unit RemoteLookuper" where
  "example_ls remote patterns w =
     (Inr (if patterns = [''refs/tags/rust-v*''] then ''aa refs/tags/rust-v1.9.0'' @ newline # ''bb refs/tags/rust-v1.10.0'' @ newline # ''cc refs/tags/rust-v2.0.0-alpha'' @ [newline]
           else ''bb refs/tags/rust-v1.10.0'' @ [newline]), w)"

theorem latest_stable_resolved_witness:
  "tg_RefKind (projr (fst (ResolveUpstream example_ls \<lparr>rr_Remote = [], rr_UpstreamRef = [], rr_LatestStable = True\<rparr> ()))) = KindStableTag \<and>
   tg_RefName (projr (fst (ResolveUpstream example_ls \<lparr>rr_Remote = [], rr_UpstreamRef = [], rr_LatestStable = True\<rparr> ()))) = ''rust-v1.10.0''"
proof -
  let ?req = "\<lparr>rr_Remote = [], rr_UpstreamRef = [], rr_LatestStable = True\<rparr>"
  have run: "ResolveUpstream example_ls ?req () = (Inr \<lparr>tg_RefName = ''rust-v1.10.0'', tg_RefKind = ''stable_rust_tag'', tg_TagSHA = ''bb'',
      tg_PeeledCommitSHA = ''bb'', tg_TargetExplicit = False\<rparr>, ())" by code_simp
  moreover have "trim_space (rr_UpstreamRef ?req) = []" by simp
  ultimately show ?thesis using latest_stable_resolved[OF run] by (auto simp: run)
qed

end
