(* ===== verification/Pending_Publication.thy ===== *)
theory Pending_Publication
  imports Upstream_Resolve Check_Acceptance
begin

text \<open>
  The state of a publication before anything is generated or pushed, \<open>codexsdk/internal/protocolsync/pending.go\<close> and
  \<open>publication_api.go\<close>.

  Git and the GitHub API are operations on a state \<open>'w\<close>; decoding of a JSON response or of the baseline metadata into its struct
  is part of the operation or a parameter. Listing pull requests reads pages until one is not full; the model gives
  the loop \<open>pe_pages\<close> units of fuel and \<open>listPublicationPRs_all\<close> says how many are enough. A run-time panic is the error
  \<open>go_panic\<close>.
\<close>

section \<open>Data\<close>

record publicationUser =
  us_ID :: int
  us_Login :: gostring
  us_Type :: gostring

record publicationRef =
  rf_Ref :: gostring
  rf_SHA :: gostring
  rf_FullName :: gostring

record publicationPR =
  pu_Number :: int
  pu_URL :: gostring
  pu_State :: gostring
  pu_Body :: gostring
  pu_Title :: gostring
  pu_MergedAt :: "gostring option"
  pu_User :: publicationUser
  pu_Head :: publicationRef
  pu_Base :: publicationRef

record activity =
  ac_Ref :: gostring
  ac_After :: gostring
  ac_Actor :: publicationUser

record 'w publication_env =
  pe_repo :: "'w repo"
  pe_prs :: "gostring \<Rightarrow> 'w \<Rightarrow> (go_error + publicationPR list) \<times> 'w"
  pe_pr :: "gostring \<Rightarrow> 'w \<Rightarrow> (go_error + publicationPR) \<times> 'w"
  pe_activity :: "gostring \<Rightarrow> 'w \<Rightarrow> (go_error + activity list) \<times> 'w"
  pe_patch :: "gostring \<Rightarrow> gostring \<Rightarrow> gostring \<Rightarrow> 'w \<Rightarrow> go_error option \<times> 'w"
  pe_post :: "gostring \<Rightarrow> gostring \<Rightarrow> gostring \<Rightarrow> gostring \<Rightarrow> gostring \<Rightarrow> 'w \<Rightarrow> go_error option \<times> 'w"
  pe_checks :: "'w check_api"
  pe_lookup :: "'w RemoteLookuper"
  pe_output :: "gostring \<Rightarrow> (gostring \<times> gostring) list \<Rightarrow> 'w \<Rightarrow> go_error option \<times> 'w"
  pe_identity :: "gostring \<Rightarrow> go_error + BaselineIdentity"
  pe_QueryEscape :: "gostring \<Rightarrow> gostring"
  pe_pages :: nat

record PendingRequest =
  pq_ReadChecks :: bool
  pq_RepairPending :: bool
  pq_RepoRoot :: gostring
  pq_Repository :: gostring
  pq_BaseBranch :: gostring
  pq_BaseSHA :: gostring
  pq_Remote :: gostring
  pq_AppBotID :: int
  pq_Target :: Target

record PendingPublication =
  pp_Number :: int
  pp_URL :: gostring
  pp_Branch :: gostring
  pp_Head :: gostring
  pp_BaseSHA :: gostring
  pp_Checks :: gostring
  pp_Description :: gostring
  pp_Title :: gostring
  pp_Target :: BaselineIdentity
  pp_Reusable :: bool
  pp_Repair :: bool
  pp_CheckObservation :: "Observation option"

definition zero_identity :: BaselineIdentity where
  "zero_identity = \<lparr>bi_SourceCommit = [], bi_SourceRefName = [], bi_SourceRefKind = []\<rparr>"

definition zero_pending :: PendingPublication where
  "zero_pending = \<lparr>pp_Number = 0, pp_URL = [], pp_Branch = [], pp_Head = [], pp_BaseSHA = [], pp_Checks = [], pp_Description = [], pp_Title = [],
     pp_Target = zero_identity, pp_Reusable = False, pp_Repair = False, pp_CheckObservation = None\<rparr>"

section \<open>Git\<close>

definition go_panic :: go_error where "go_panic = ErrTyped ''panic'' [] []"
definition out_of_fuel :: go_error where "out_of_fuel = ErrTyped ''fuel'' [] []"

definition fmt_int :: "int \<Rightarrow> gostring" where
  "fmt_int n = (if n < 0 then CHR ''-'' # itoa (nat (- n)) else itoa (nat n))"

definition gitOutput :: "'w publication_env \<Rightarrow> gostring \<Rightarrow> gostring list \<Rightarrow> 'w \<Rightarrow> (go_error + gostring) \<times> 'w" where
  "gitOutput E dir args = wrap_op (\<lambda>e. ErrWrap (''git '' @ join_str '' '' args) [e]) (rp_git (pe_repo E) (''-C'' # dir # args) [])"

definition runGit :: "'w publication_env \<Rightarrow> gostring \<Rightarrow> gostring list \<Rightarrow> 'w \<Rightarrow> (go_error + unit) \<times> 'w" where
  "runGit E dir args = bind_op (wrap_op (\<lambda>e. ErrWrap (''git '' @ join_str '' '' args) [e])
     (rp_git (pe_repo E) (if dir \<noteq> [] then ''-C'' # dir # args else args) [])) (\<lambda>_. return_op ())"

definition metadata_path :: gostring where
  "metadata_path = ''codexsdk/internal/protocolschema/appserver/v2/baseline_metadata.json''"

definition gitBaselineIdentity :: "'w publication_env \<Rightarrow> gostring \<Rightarrow> gostring \<Rightarrow> 'w \<Rightarrow> (go_error + BaselineIdentity) \<times> 'w" where
  "gitBaselineIdentity E root head = bind_op (gitOutput E root [''show'', head @ '':'' @ metadata_path]) (\<lambda>raw w. (pe_identity E raw, w))"

definition remotePublicationHead :: "'w publication_env \<Rightarrow> gostring \<Rightarrow> gostring \<Rightarrow> gostring \<Rightarrow> 'w \<Rightarrow> (go_error + gostring) \<times> 'w" where
  "remotePublicationHead E root remote branch = bind_op (gitOutput E root [''ls-remote'', remote, ''refs/heads/'' @ branch]) (\<lambda>out.
     let fs = str_fields out in
     if fs = [] then return_op []
     else if length fs \<noteq> 2 \<or> \<not> sha_match (hd fs) then fail_op (ErrNew ''invalid remote branch observation'')
     else return_op (hd fs))"

section \<open>Inspection\<close>

definition publicationPolicy :: "gostring \<Rightarrow> go_error" where
  "publicationPolicy msg = Failure FailurePolicy (ErrNew (''needs-maintainer: '' @ msg))"

definition verifyAppActor :: "publicationUser \<Rightarrow> int \<Rightarrow> go_error option" where
  "verifyAppActor user botID = (if us_Type user \<noteq> ''Bot'' \<or> us_ID user \<noteq> botID
     then Some (publicationPolicy ''publication belongs to a different GitHub App bot'') else None)"

definition publicationRemote :: "PendingRequest \<Rightarrow> gostring" where
  "publicationRemote req = (if pq_Remote req \<noteq> [] then pq_Remote req else ''origin'')"

fun list_pages :: "'w publication_env \<Rightarrow> gostring \<Rightarrow> nat \<Rightarrow> nat \<Rightarrow> publicationPR list \<Rightarrow> 'w \<Rightarrow> (go_error + publicationPR list) \<times> 'w" where
  "list_pages E repository 0 page acc w = (Inl out_of_fuel, w)"
| "list_pages E repository (Suc n) page acc w =
     (case pe_prs E (''repos/'' @ repository @ ''/pulls?state=all&per_page=100&page='' @ itoa page) w of (Inl e, w) \<Rightarrow> (Inl e, w)
      | (Inr batch, w) \<Rightarrow> if length batch < 100 then (Inr (acc @ batch), w) else list_pages E repository n (Suc page) (acc @ batch) w)"

definition listPublicationPRs :: "'w publication_env \<Rightarrow> gostring \<Rightarrow> 'w \<Rightarrow> (go_error + publicationPR list) \<times> 'w" where
  "listPublicationPRs E repository = list_pages E repository (pe_pages E) 1 []"

definition fetchPublicationCommit :: "'w publication_env \<Rightarrow> PendingRequest \<Rightarrow> gostring \<Rightarrow> 'w \<Rightarrow> (go_error + unit) \<times> 'w" where
  "fetchPublicationCommit E req head w =
     (if \<not> sha_match head then (Inl (publicationPolicy ''publication has no exact head''), w)
      else case gitOutput E (pq_RepoRoot req) [''cat-file'', ''-e'', head @ ''^{commit}''] w of
        (Inl _, w) \<Rightarrow> runGit E (pq_RepoRoot req) [''fetch'', ''--no-tags'', publicationRemote req, head] w
      | (Inr _, w) \<Rightarrow> (Inr (), w))"

definition publicationHeadActor :: "'w publication_env \<Rightarrow> PendingRequest \<Rightarrow> gostring \<Rightarrow> gostring \<Rightarrow> 'w \<Rightarrow> (go_error + publicationUser) \<times> 'w" where
  "publicationHeadActor E req branch head =
     bind_op (pe_activity E (''repos/'' @ pq_Repository req @ ''/activity?ref='' @ pe_QueryEscape E (''refs/heads/'' @ branch) @ ''&per_page=1'')) (\<lambda>activities.
       case activities of
         [a] \<Rightarrow> if ac_Ref a \<noteq> ''refs/heads/'' @ branch \<or> ac_After a \<noteq> head
                then fail_op (publicationPolicy (''current push ownership of '' @ branch @ '' at '' @ head @ '' is not confirmed''))
                else return_op (ac_Actor a)
       | _ \<Rightarrow> fail_op (publicationPolicy (''current push ownership of '' @ branch @ '' at '' @ head @ '' is not confirmed'')))"

text \<open>The identity of the selected target, and the fields every observation of a pull request starts with.\<close>

definition target_identity :: "Target \<Rightarrow> BaselineIdentity" where
  "target_identity t = \<lparr>bi_SourceCommit = tg_PeeledCommitSHA t, bi_SourceRefName = tg_RefName t, bi_SourceRefKind = tg_RefKind t\<rparr>"

definition pending_of :: "publicationPR \<Rightarrow> gostring \<Rightarrow> BaselineIdentity \<Rightarrow> PendingPublication" where
  "pending_of pr head metadata = zero_pending\<lparr>pp_Number := pu_Number pr, pp_URL := pu_URL pr, pp_Description := pu_Body pr, pp_Title := pu_Title pr,
     pp_Branch := rf_Ref (pu_Head pr), pp_Head := head, pp_Target := metadata\<rparr>"

definition repairNonSingleHead :: "'w publication_env \<Rightarrow> PendingRequest \<Rightarrow> publicationPR \<Rightarrow> gostring \<Rightarrow> 'w \<Rightarrow> (go_error + PendingPublication) \<times> 'w" where
  "repairNonSingleHead E req pr head = bind_op (gitBaselineIdentity E (pq_RepoRoot req) head) (\<lambda>metadata.
     let t = pq_Target req in
     if metadata \<noteq> target_identity t
     then fail_op (publicationPolicy (''PR #'' @ fmt_int (pu_Number pr) @ '' repair requires the current tree to contain upstream '' @
       tg_RefKind t @ ''/'' @ tg_RefName t @ ''/'' @ tg_PeeledCommitSHA t))
     else return_op ((pending_of pr head metadata)\<lparr>pp_Repair := True\<rparr>))"

definition ref_moved :: "BaselineIdentity \<Rightarrow> Target \<Rightarrow> bool" where
  "ref_moved metadata t \<longleftrightarrow> bi_SourceRefName metadata = tg_RefName t \<and> bi_SourceRefKind metadata = tg_RefKind t \<and>
     bi_SourceCommit metadata \<noteq> tg_PeeledCommitSHA t"

definition inspect_single_head :: "'w publication_env \<Rightarrow> PendingRequest \<Rightarrow> publicationPR \<Rightarrow> gostring \<Rightarrow> gostring \<Rightarrow> 'w \<Rightarrow> (go_error + PendingPublication) \<times> 'w" where
  "inspect_single_head E req pr head base =
     bind_op (\<lambda>w. case runGit E (pq_RepoRoot req) [''merge-base'', ''--is-ancestor'', base, pq_BaseSHA req] w of
         (Inl _, w) \<Rightarrow> (Inl (publicationPolicy (''PR #'' @ fmt_int (pu_Number pr) @ '' contains commits outside the accepted base history'')), w)
       | (Inr u, w) \<Rightarrow> (Inr u, w)) (\<lambda>_.
     bind_op (publicationHeadActor E req (rf_Ref (pu_Head pr)) head) (\<lambda>actor.
     if us_ID actor \<noteq> us_ID (pu_User pr) \<or> us_Type actor \<noteq> ''Bot''
     then fail_op (publicationPolicy ''sync branch head was changed outside its publishing App'')
     else bind_op (gitNUL (pe_repo E) (pq_RepoRoot req) [''diff'', ''--name-only'', ''--no-renames'', ''-z'', base, head, ''--'']) (\<lambda>changed.
     bind_op (check_op (validatePaths changed ''final'')) (\<lambda>_.
     bind_op (gitBaselineIdentity E (pq_RepoRoot req) head) (\<lambda>metadata.
     if \<not> sha_match (bi_SourceCommit metadata) \<or> bi_SourceRefName metadata = [] \<or> \<not> validKinds (bi_SourceRefKind metadata)
     then fail_op (publicationPolicy (''PR #'' @ fmt_int (pu_Number pr) @ '' has an invalid upstream identity''))
     else if ref_moved metadata (pq_Target req)
     then fail_op (Failure FailureSource (ErrNew (''upstream ref '' @ bi_SourceRefName metadata @ '' changed from pending commit '' @
       bi_SourceCommit metadata @ '' to '' @ tg_PeeledCommitSHA (pq_Target req))))
     else return_op ((pending_of pr head metadata)\<lparr>pp_BaseSHA := base,
       pp_Reusable := base = pq_BaseSHA req \<and> metadata = target_identity (pq_Target req)\<rparr>))))))"

definition inspectPublicationHead :: "'w publication_env \<Rightarrow> PendingRequest \<Rightarrow> publicationPR \<Rightarrow> 'w \<Rightarrow> (go_error + PendingPublication) \<times> 'w" where
  "inspectPublicationHead E req pr =
     bind_op (wrap_op (\<lambda>e. ErrWrap (''read open PR #'' @ fmt_int (pu_Number pr) @ '' remote head'') [e])
       (remotePublicationHead E (pq_RepoRoot req) (publicationRemote req) (rf_Ref (pu_Head pr)))) (\<lambda>head.
     if \<not> sha_match head
     then fail_op (publicationPolicy (''open sync PR #'' @ fmt_int (pu_Number pr) @ '' branch '' @ rf_Ref (pu_Head pr) @ '' has no exact remote head''))
     else bind_op (fetchPublicationCommit E req head) (\<lambda>_.
     bind_op (gitOutput E (pq_RepoRoot req) [''rev-list'', ''--parents'', ''-n'', ''1'', head]) (\<lambda>parents.
     case str_fields parents of
       [_, base] \<Rightarrow> inspect_single_head E req pr head base
     | _ \<Rightarrow> if \<not> pq_RepairPending req then fail_op (publicationPolicy (''PR #'' @ fmt_int (pu_Number pr) @ '' is not a single candidate commit''))
         else repairNonSingleHead E req pr head)))"

definition inspect_closed :: "'w publication_env \<Rightarrow> PendingRequest \<Rightarrow> publicationPR \<Rightarrow> 'w \<Rightarrow> (go_error + PendingPublication option) \<times> 'w" where
  "inspect_closed E req pr =
     bind_op (fetchPublicationCommit E req (rf_SHA (pu_Head pr))) (\<lambda>_.
     bind_op (gitBaselineIdentity E (pq_RepoRoot req) (rf_SHA (pu_Head pr))) (\<lambda>identity.
     if ref_moved identity (pq_Target req)
     then fail_op (Failure FailureSource (ErrNew (''upstream ref '' @ tg_RefName (pq_Target req) @ '' changed since closed PR #'' @ fmt_int (pu_Number pr))))
     else if identity \<noteq> target_identity (pq_Target req) then return_op None
     else fail_op (publicationPolicy (''sync PR #'' @ fmt_int (pu_Number pr) @ '' was closed; restore it explicitly before retrying this candidate''))))"

definition inspect_pr :: "'w publication_env \<Rightarrow> PendingRequest \<Rightarrow> publicationPR \<Rightarrow> 'w \<Rightarrow> (go_error + PendingPublication option) \<times> 'w" where
  "inspect_pr E req pr =
     (if \<not> has_prefix (rf_Ref (pu_Head pr)) ''codex/sync-upstream'' then
        (if parseSyncMetadata (pu_Body pr) \<noteq> []
         then fail_op (publicationPolicy (''sync PR #'' @ fmt_int (pu_Number pr) @ '' branch was renamed outside its publishing namespace''))
         else return_op None)
      else if pu_MergedAt pr \<noteq> None then return_op None
      else if rf_FullName (pu_Head pr) \<noteq> pq_Repository req \<or> rf_Ref (pu_Base pr) \<noteq> pq_BaseBranch req
      then fail_op (publicationPolicy (''sync PR #'' @ fmt_int (pu_Number pr) @ '' has another repository or base''))
      else if pu_State pr \<noteq> ''open'' then inspect_closed E req pr
      else bind_op (wrap_op (\<lambda>e. ErrWrap (''sync PR #'' @ fmt_int (pu_Number pr) @ '' ownership'') [e]) (check_op (verifyAppActor (pu_User pr) (pq_AppBotID req)))) (\<lambda>_.
        let projection = publicationProjection (pu_Body pr) in
        bind_op (inspectPublicationHead E req pr) (\<lambda>pending.
        return_op (Some (pending\<lparr>pp_Reusable := pp_Reusable pending \<and> pd_target projection = pp_Target pending \<and>
          pd_head projection = pp_Head pending \<and> pd_base projection = pq_BaseBranch req\<rparr>)))))"

fun inspect_prs :: "'w publication_env \<Rightarrow> PendingRequest \<Rightarrow> publicationPR list \<Rightarrow> 'w \<Rightarrow> (go_error + PendingPublication list) \<times> 'w" where
  "inspect_prs E req [] = return_op []"
| "inspect_prs E req (pr # prs) = bind_op (inspect_pr E req pr) (\<lambda>p.
     bind_op (inspect_prs E req prs) (\<lambda>found. return_op (case p of None \<Rightarrow> found | Some p \<Rightarrow> p # found)))"

definition orphan_pr :: "publicationUser \<Rightarrow> gostring \<Rightarrow> gostring \<Rightarrow> publicationPR" where
  "orphan_pr actor head branch = \<lparr>pu_Number = 0, pu_URL = [], pu_State = [], pu_Body = [], pu_Title = [], pu_MergedAt = None, pu_User = actor,
     pu_Head = \<lparr>rf_Ref = branch, rf_SHA = head, rf_FullName = []\<rparr>, pu_Base = \<lparr>rf_Ref = [], rf_SHA = [], rf_FullName = []\<rparr>\<rparr>"

fun inspect_orphans :: "'w publication_env \<Rightarrow> PendingRequest \<Rightarrow> gostring list \<Rightarrow> gostring list \<Rightarrow> 'w \<Rightarrow> (go_error + PendingPublication list) \<times> 'w" where
  "inspect_orphans E req known [] = return_op []"
| "inspect_orphans E req known (line # lines) = (case str_fields line of
      [] \<Rightarrow> inspect_orphans E req known lines
    | [head, ref] \<Rightarrow>
        if \<not> sha_match head then fail_op (publicationPolicy ''invalid remote sync branch observation'')
        else let branch = trim_prefix ref ''refs/heads/'' in
          if branch \<in> set known then inspect_orphans E req known lines
          else bind_op (publicationHeadActor E req branch head) (\<lambda>actor.
            bind_op (wrap_op (\<lambda>e. ErrWrap (''orphan sync branch '' @ branch) [e]) (check_op (verifyAppActor actor (pq_AppBotID req)))) (\<lambda>_.
            bind_op (inspectPublicationHead E req (orphan_pr actor head branch)) (\<lambda>observation.
            bind_op (inspect_orphans E req known lines) (\<lambda>found. return_op (observation\<lparr>pp_Reusable := False\<rparr> # found)))))
    | _ \<Rightarrow> fail_op (publicationPolicy ''invalid remote sync branch observation''))"

definition inspectOrphanPublication :: "'w publication_env \<Rightarrow> PendingRequest \<Rightarrow> publicationPR list \<Rightarrow> 'w \<Rightarrow> (go_error + PendingPublication) \<times> 'w" where
  "inspectOrphanPublication E req prs =
     bind_op (gitOutput E (pq_RepoRoot req) [''ls-remote'', ''--heads'', publicationRemote req, ''refs/heads/codex/sync-upstream*'']) (\<lambda>refs.
     bind_op (inspect_orphans E req (map (\<lambda>pr. rf_Ref (pu_Head pr)) prs) (split_on newline (trim_space refs))) (\<lambda>found.
     case found of
       [] \<Rightarrow> (case syncBranchName (tg_RefName (pq_Target req)) (tg_PeeledCommitSHA (pq_Target req)) (pq_BaseSHA req) of
           None \<Rightarrow> fail_op go_panic | Some branch \<Rightarrow> return_op (zero_pending\<lparr>pp_Head := ''absent'', pp_Branch := branch\<rparr>))
     | [p] \<Rightarrow> return_op p
     | _ \<Rightarrow> fail_op (publicationPolicy ''multiple orphan sync branches require reconciliation'')))"

definition state_name :: "State \<Rightarrow> gostring" where
  "state_name s = (case s of Missing \<Rightarrow> ''missing'' | Pending \<Rightarrow> ''pending'' | Failed \<Rightarrow> ''failed'' | Cancelled \<Rightarrow> ''cancelled''
     | Succeeded \<Rightarrow> ''succeeded'' | OtherState t \<Rightarrow> t)"

definition older_request :: "PendingPublication \<Rightarrow> PendingRequest \<Rightarrow> bool" where
  "older_request pending req = (case (parseRustTag (bi_SourceRefName (pp_Target pending)), parseRustTag (tg_RefName (pq_Target req))) of
     (Some pendingVersion, Some requestedVersion) \<Rightarrow> compareVersion requestedVersion pendingVersion < 0 | _ \<Rightarrow> False)"

definition pull_path :: "gostring \<Rightarrow> int \<Rightarrow> gostring" where
  "pull_path repository number = ''repos/'' @ repository @ ''/pulls/'' @ fmt_int number"

definition unchanged_pr :: "publicationPR \<Rightarrow> PendingPublication \<Rightarrow> gostring \<Rightarrow> gostring \<Rightarrow> gostring \<Rightarrow> bool" where
  "unchanged_pr pr pending branch repository baseBranch \<longleftrightarrow> pu_State pr = ''open'' \<and> rf_Ref (pu_Head pr) = branch \<and>
     rf_FullName (pu_Head pr) = repository \<and> rf_Ref (pu_Base pr) = baseBranch \<and> pu_Body pr = pp_Description pending \<and> pu_Title pr = pp_Title pending"

definition observe_checks :: "'w publication_env \<Rightarrow> PendingRequest \<Rightarrow> PendingPublication \<Rightarrow> 'w \<Rightarrow> (go_error + PendingPublication) \<times> 'w" where
  "observe_checks E req pending =
     (if pp_Reusable pending \<and> pq_ReadChecks req then
        bind_op (Observe (pe_checks E) (pq_Repository req) (pp_Head pending)) (\<lambda>checks.
          return_op (pending\<lparr>pp_CheckObservation := Some checks,
            pp_Checks := ''current-head required checks '' @ state_name (ob_State checks) @
              (if ob_State checks = Succeeded then ''; no fresh proof acquired'' else [])\<rparr>))
      else return_op pending)"

definition InspectPending :: "'w publication_env \<Rightarrow> PendingRequest \<Rightarrow> 'w \<Rightarrow> (go_error + PendingPublication) \<times> 'w" where
  "InspectPending E req =
     (if pq_AppBotID req \<le> 0 then fail_op (publicationPolicy ''configure PROTOCOL_SYNC_APP_BOT_ID to the publishing App bot user ID'')
      else if pq_Repository req = [] \<or> pq_BaseBranch req = [] \<or> \<not> sha_match (pq_BaseSHA req)
      then fail_op (publicationPolicy ''repository, base branch and exact base SHA are required'')
      else bind_op (listPublicationPRs E (pq_Repository req)) (\<lambda>prs.
        bind_op (inspect_prs E req prs) (\<lambda>found.
        case found of
          [] \<Rightarrow> inspectOrphanPublication E req prs
        | [pending] \<Rightarrow>
            if older_request pending req
            then fail_op (publicationPolicy ''pending PR already targets a newer stable version; refusing an older publication'')
            else bind_op (pe_pr E (pull_path (pq_Repository req) (pp_Number pending))) (\<lambda>current.
              if \<not> unchanged_pr current pending (pp_Branch pending) (pq_Repository req) (pq_BaseBranch req)
              then fail_op (publicationPolicy (''sync PR #'' @ fmt_int (pp_Number pending) @ '' changed while inspecting it''))
              else observe_checks E req pending)
        | _ \<Rightarrow> fail_op (publicationPolicy ''multiple pending sync PRs require reconciliation''))))"

end
