(* ===== verification/Publication_Log.thy ===== *)
theory Publication_Log
  imports Pending_Publication
begin

text \<open>
  What an inspection of pending publications did and found. The operations of \<open>Pending_Publication\<close> run here on a state that
  also keeps the log of every Git command and API request with its result; \<open>adds\<close> says which requests an operation
  makes and what its result rests on.
\<close>

section \<open>The log\<close>

datatype pub_event =
    EvGit "gostring list" gostring "go_error + gostring"
  | EvList gostring "go_error + publicationPR list"
  | EvPull gostring "go_error + publicationPR"
  | EvActivity gostring "go_error + activity list"
  | EvPatch gostring gostring gostring "go_error option"
  | EvPost gostring gostring gostring gostring gostring "go_error option"

type_synonym 'w logged = "pub_event list \<times> 'w"

definition log_op :: "('r \<Rightarrow> pub_event) \<Rightarrow> ('w \<Rightarrow> 'r \<times> 'w) \<Rightarrow> 'w logged \<Rightarrow> 'r \<times> 'w logged" where
  "log_op ev f s = (case f (snd s) of (r, w) \<Rightarrow> (r, (fst s @ [ev r], w)))"

definition lift_op :: "('w \<Rightarrow> 'r \<times> 'w) \<Rightarrow> 'w logged \<Rightarrow> 'r \<times> 'w logged" where
  "lift_op f s = (case f (snd s) of (r, w) \<Rightarrow> (r, (fst s, w)))"

definition logged_repo :: "'w repo \<Rightarrow> 'w logged repo" where
  "logged_repo R = \<lparr>rp_git = (\<lambda>args inp. log_op (EvGit args inp) (rp_git R args inp)), rp_lstat = (\<lambda>root name. lift_op (rp_lstat R root name)),
     rp_IsNotExist = rp_IsNotExist R\<rparr>"

definition logged_checks :: "'w check_api \<Rightarrow> 'w logged check_api" where
  "logged_checks A = \<lparr>ca_Get = (\<lambda>path. lift_op (ca_Get A path)), ca_Post = (\<lambda>path. lift_op (ca_Post A path)), ca_check_page = ca_check_page A,
     ca_workflow_page = ca_workflow_page A, ca_job_page = ca_job_page A, ca_workflow_run = ca_workflow_run A, ca_pr = ca_pr A,
     ca_ref_sha = ca_ref_sha A, ca_PathEscape = ca_PathEscape A\<rparr>"

definition logged_env :: "'w publication_env \<Rightarrow> 'w logged publication_env" where
  "logged_env E = \<lparr>pe_repo = logged_repo (pe_repo E), pe_prs = (\<lambda>path. log_op (EvList path) (pe_prs E path)),
     pe_pr = (\<lambda>path. log_op (EvPull path) (pe_pr E path)), pe_activity = (\<lambda>path. log_op (EvActivity path) (pe_activity E path)),
     pe_patch = (\<lambda>path title body. log_op (EvPatch path title body) (pe_patch E path title body)),
     pe_post = (\<lambda>path head base title body. log_op (EvPost path head base title body) (pe_post E path head base title body)),
     pe_checks = logged_checks (pe_checks E), pe_lookup = (\<lambda>remote pats. lift_op (pe_lookup E remote pats)),
     pe_output = (\<lambda>path values. lift_op (pe_output E path values)), pe_identity = pe_identity E, pe_QueryEscape = pe_QueryEscape E, pe_pages = pe_pages E\<rparr>"

lemma logged_simps [simp]:
  "rp_git (pe_repo (logged_env E)) args inp = log_op (EvGit args inp) (rp_git (pe_repo E) args inp)"
  "pe_prs (logged_env E) path = log_op (EvList path) (pe_prs E path)"
  "pe_pr (logged_env E) path = log_op (EvPull path) (pe_pr E path)"
  "pe_activity (logged_env E) path = log_op (EvActivity path) (pe_activity E path)"
  "pe_patch (logged_env E) path t b = log_op (EvPatch path t b) (pe_patch E path t b)"
  "pe_post (logged_env E) path h base t b = log_op (EvPost path h base t b) (pe_post E path h base t b)"
  "pe_checks (logged_env E) = logged_checks (pe_checks E)"
  "pe_lookup (logged_env E) = (\<lambda>remote pats. lift_op (pe_lookup E remote pats))"
  "pe_output (logged_env E) path vs = lift_op (pe_output E path vs)"
  "pe_identity (logged_env E) = pe_identity E" "pe_QueryEscape (logged_env E) = pe_QueryEscape E" "pe_pages (logged_env E) = pe_pages E"
  by (simp_all add: logged_env_def logged_repo_def)

section \<open>What an operation adds\<close>

definition adds :: "(pub_event \<Rightarrow> bool) \<Rightarrow> ('w logged \<Rightarrow> (go_error + 'a) \<times> 'w logged) \<Rightarrow> ('a \<Rightarrow> pub_event set \<Rightarrow> bool) \<Rightarrow> bool" where
  "adds K m Q \<longleftrightarrow> (\<forall>s r s'. m s = (r, s') \<longrightarrow> (\<exists>evs. fst s' = fst s @ evs \<and> list_all K evs \<and>
     (\<forall>a S. r = Inr a \<longrightarrow> set evs \<subseteq> S \<longrightarrow> Q a S)))"

lemma addsI:
  assumes "\<And>s r s'. m s = (r, s') \<Longrightarrow> \<exists>evs. fst s' = fst s @ evs \<and> list_all K evs \<and> (\<forall>a S. r = Inr a \<longrightarrow> set evs \<subseteq> S \<longrightarrow> Q a S)"
  shows "adds K m Q"
  using assms unfolding adds_def by blast

lemma addsE:
  assumes "adds K m Q" "m s = (r, s')"
  obtains evs where "fst s' = fst s @ evs" "list_all K evs" "\<forall>a S. r = Inr a \<longrightarrow> set evs \<subseteq> S \<longrightarrow> Q a S"
proof -
  from assms(1)[unfolded adds_def, THEN spec, THEN spec, THEN spec, THEN mp, OF assms(2)] show thesis
    by (elim exE conjE) (rule that)
qed

lemma adds_weaken: "adds K m Q \<Longrightarrow> (\<And>a S. Q a S \<Longrightarrow> R a S) \<Longrightarrow> adds K m R"
  unfolding adds_def by metis

lemma adds_mono: "adds K m Q \<Longrightarrow> (\<And>ev. K ev \<Longrightarrow> L ev) \<Longrightarrow> adds L m Q"
  unfolding adds_def by (metis (mono_tags, lifting) list.pred_mono_strong)

lemma adds_bind [intro]:
  assumes "adds K m Q" "\<And>a. adds K (k a) (R a)"
  shows "adds K (bind_op m k) (\<lambda>b S. \<exists>a. Q a S \<and> R a b S)"
proof (rule addsI)
  fix s r s'
  assume run: "bind_op m k s = (r, s')"
  obtain r1 s1 where m: "m s = (r1, s1)" by (cases "m s") blast
  from assms(1) m obtain evs where evs: "fst s1 = fst s @ evs" "list_all K evs" "\<forall>a S. r1 = Inr a \<longrightarrow> set evs \<subseteq> S \<longrightarrow> Q a S"
    by (rule addsE)
  show "\<exists>evs. fst s' = fst s @ evs \<and> list_all K evs \<and> (\<forall>b S. r = Inr b \<longrightarrow> set evs \<subseteq> S \<longrightarrow> (\<exists>a. Q a S \<and> R a b S))"
  proof (cases r1)
    case (Inl e)
    with run m evs show ?thesis by (auto simp: bind_op_def)
  next
    case (Inr a)
    with run m have "k a s1 = (r, s')" by (simp add: bind_op_def)
    with assms(2) obtain evs2 where evs2: "fst s' = fst s1 @ evs2" "list_all K evs2" "\<forall>b S. r = Inr b \<longrightarrow> set evs2 \<subseteq> S \<longrightarrow> R a b S"
      by (rule addsE)
    have "fst s' = fst s @ (evs @ evs2)" "list_all K (evs @ evs2)" using evs evs2 by simp_all
    moreover have "\<exists>a. Q a S \<and> R a b S" if "r = Inr b" "set (evs @ evs2) \<subseteq> S" for b S
      using evs(3) evs2(3) that Inr by auto
    ultimately show ?thesis by blast
  qed
qed

lemma adds_return [intro!]: "adds K (return_op a) (\<lambda>b S. b = a)"
  by (rule addsI) (auto simp: return_op_def)

lemma adds_fail [intro!]: "adds K (fail_op e) Q"
  by (rule addsI) (auto simp: fail_op_def)

lemma adds_check [intro!]: "adds K (check_op e) (\<lambda>_ S. e = None)"
  by (rule addsI) (auto simp: check_op_def split: option.splits)

lemma adds_pure: "adds K (\<lambda>w. (r, w)) (\<lambda>a S. r = Inr a)"
  by (rule addsI) auto

lemma adds_wrap [intro]: "adds K m Q \<Longrightarrow> adds K (wrap_op f m) Q"
  by (rule addsI) (force simp: wrap_op_def elim!: addsE split: prod.splits sum.splits)

lemma adds_if: "(c \<Longrightarrow> adds K m Q) \<Longrightarrow> (\<not> c \<Longrightarrow> adds K n Q) \<Longrightarrow> adds K (if c then m else n) Q"
  by simp

lemma adds_guard: "adds K n Q \<Longrightarrow> adds K (if c then fail_op e else n) (\<lambda>a S. \<not> c \<and> Q a S)"
  by (auto intro: adds_fail)

lemma adds_log: "(\<And>r. K (ev r)) \<Longrightarrow> adds K (log_op ev f) (\<lambda>a S. ev (Inr a) \<in> S)"
  by (rule addsI) (auto simp: log_op_def split: prod.splits)

lemma adds_lift: "adds K (lift_op f) (\<lambda>_ _. True)"
  by (rule addsI) (auto simp: lift_op_def split: prod.splits)

lemma adds_true: "adds K m Q \<Longrightarrow> adds K m (\<lambda>_ _. True)"
  by (erule adds_weaken) simp

section \<open>Commands of an inspection\<close>

definition git_verb :: "gostring list \<Rightarrow> gostring" where
  "git_verb args = (case args of dash # dir # verb # _ \<Rightarrow> if dash = ''-C'' then verb else dash | verb # _ \<Rightarrow> verb | [] \<Rightarrow> [])"

fun inspection_event :: "pub_event \<Rightarrow> bool" where
  "inspection_event (EvGit args inp r) \<longleftrightarrow> git_verb args \<in> {''ls-remote'', ''cat-file'', ''fetch'', ''rev-list'', ''merge-base'', ''diff'', ''show''}"
| "inspection_event (EvPatch _ _ _ _) \<longleftrightarrow> False"
| "inspection_event (EvPost _ _ _ _ _ _) \<longleftrightarrow> False"
| "inspection_event _ \<longleftrightarrow> True"

definition git_event :: "gostring \<Rightarrow> gostring list \<Rightarrow> gostring \<Rightarrow> pub_event" where
  "git_event root args out = EvGit (''-C'' # root # args) [] (Inr out)"

lemma adds_git:
  "(\<And>r. K (EvGit (''-C'' # root # args) [] r)) \<Longrightarrow> adds K (gitOutput (logged_env E) root args) (\<lambda>out S. git_event root args out \<in> S)"
  unfolding gitOutput_def logged_simps git_event_def by (auto intro!: adds_wrap adds_log)

lemma adds_gitNUL:
  assumes "\<And>r. K (EvGit (''-C'' # root # args) [] r)"
  shows "adds K (gitNUL (pe_repo (logged_env E)) root args)
    (\<lambda>names S. \<exists>out. git_event root args out \<in> S \<and> names = filter (\<lambda>raw. raw \<noteq> []) (split_on NUL out))"
  unfolding gitNUL_def logged_simps git_event_def
  by (rule adds_weaken[OF adds_bind[OF adds_wrap[OF adds_log] adds_return]]) (use assms in auto)

definition run_event :: "gostring \<Rightarrow> gostring list \<Rightarrow> gostring \<Rightarrow> pub_event" where
  "run_event root args out = EvGit (if root \<noteq> [] then ''-C'' # root # args else args) [] (Inr out)"

lemma adds_runGit:
  assumes "\<And>r. K (EvGit (if root \<noteq> [] then ''-C'' # root # args else args) [] r)"
  shows "adds K (runGit (logged_env E) root args) (\<lambda>_ S. \<exists>out. run_event root args out \<in> S)"
  unfolding runGit_def logged_simps run_event_def
  by (rule adds_weaken[OF adds_bind[OF adds_wrap[OF adds_log] adds_return]]) (use assms in auto)

lemma adds_remote_head:
  assumes "\<And>r. K (EvGit [''-C'', root, ''ls-remote'', remote, ''refs/heads/'' @ branch] [] r)"
  shows "adds K (remotePublicationHead (logged_env E) root remote branch)
    (\<lambda>head S. \<exists>out. git_event root [''ls-remote'', remote, ''refs/heads/'' @ branch] out \<in> S \<and>
       (head = [] \<and> str_fields out = [] \<or> sha_match head \<and> (\<exists>ref. str_fields out = [head, ref])))"
  unfolding remotePublicationHead_def
proof (rule adds_weaken[OF adds_bind[OF adds_git]])
  fix out
  show "adds K (let fs = str_fields out in if fs = [] then return_op []
      else if length fs \<noteq> 2 \<or> \<not> sha_match (hd fs) then fail_op (ErrNew ''invalid remote branch observation'') else return_op (hd fs))
    (\<lambda>head S. head = [] \<and> str_fields out = [] \<or> sha_match head \<and> (\<exists>ref. str_fields out = [head, ref]))"
    unfolding Let_def
    by (intro adds_if adds_fail; rule adds_weaken[OF adds_return]) (auto simp: length_Suc_conv numeral_2_eq_2)
qed (use assms in auto)

lemma adds_identity:
  assumes "\<And>r. K (EvGit [''-C'', root, ''show'', head @ '':'' @ metadata_path] [] r)"
  shows "adds K (gitBaselineIdentity (logged_env E) root head)
    (\<lambda>m S. \<exists>raw. git_event root [''show'', head @ '':'' @ metadata_path] raw \<in> S \<and> pe_identity E raw = Inr m)"
  unfolding gitBaselineIdentity_def
  by (rule adds_weaken[OF adds_bind[OF adds_git adds_pure]]) (use assms in auto)

lemma adds_fetch: "adds inspection_event (fetchPublicationCommit (logged_env E) req head) (\<lambda>_ S. True)"
proof (rule addsI)
  fix s r s'
  assume run: "fetchPublicationCommit (logged_env E) req head s = (r, s')"
  let ?cat = "gitOutput (logged_env E) (pq_RepoRoot req) [''cat-file'', ''-e'', head @ ''^{commit}'']"
  let ?fetch = "runGit (logged_env E) (pq_RepoRoot req) [''fetch'', ''--no-tags'', publicationRemote req, head]"
  have cat: "adds inspection_event ?cat (\<lambda>_ S. True)"
    by (rule adds_true[OF adds_git]) (simp add: git_verb_def)
  have fetch: "adds inspection_event ?fetch (\<lambda>_ S. True)"
    by (rule adds_true[OF adds_runGit]) (simp add: git_verb_def)
  obtain r1 s1 where r1: "?cat s = (r1, s1)" by (cases "?cat s") blast
  from cat r1 obtain evs where "fst s1 = fst s @ evs" "list_all inspection_event evs" by (rule addsE)
  moreover obtain r2 s2 where r2: "?fetch s1 = (r2, s2)" by (cases "?fetch s1") blast
  moreover from fetch r2 obtain evs2 where "fst s2 = fst s1 @ evs2" "list_all inspection_event evs2" by (rule addsE)
  ultimately show "\<exists>evs. fst s' = fst s @ evs \<and> list_all inspection_event evs \<and> (\<forall>a S. r = Inr a \<longrightarrow> set evs \<subseteq> S \<longrightarrow> True)"
    using run r1 by (auto simp: fetchPublicationCommit_def split: if_splits sum.splits)
qed

lemma adds_list_pages: "adds inspection_event (list_pages (logged_env E) repository n page acc)
   (\<lambda>prs S. \<forall>pr \<in> set prs - set acc. \<exists>path batch. EvList path (Inr batch) \<in> S \<and> pr \<in> set batch)"
proof (induction n arbitrary: page acc)
  case 0
  show ?case by (rule addsI) simp
next
  case (Suc n)
  let ?path = "''repos/'' @ repository @ ''/pulls?state=all&per_page=100&page='' @ itoa page"
  have step: "list_pages (logged_env E) repository (Suc n) page acc =
      bind_op (pe_prs (logged_env E) ?path) (\<lambda>batch. if length batch < 100 then return_op (acc @ batch)
        else list_pages (logged_env E) repository n (Suc page) (acc @ batch))"
    by (rule ext) (auto simp: bind_op_def return_op_def split: prod.splits sum.splits)
  have rd: "adds inspection_event (pe_prs (logged_env E) ?path) (\<lambda>batch S. EvList ?path (Inr batch) \<in> S)"
    unfolding logged_simps by (auto intro!: adds_log)
  show ?case
    unfolding step
  proof (rule adds_weaken[OF adds_bind[OF rd]])
    fix batch
    show "adds inspection_event (if length batch < 100 then return_op (acc @ batch) else list_pages (logged_env E) repository n (Suc page) (acc @ batch))
      (\<lambda>prs S. \<forall>pr \<in> set prs - set (acc @ batch). \<exists>path batch. EvList path (Inr batch) \<in> S \<and> pr \<in> set batch)"
      by (intro adds_if Suc.IH adds_weaken[OF adds_return]) simp
  next
    fix prs S
    assume "\<exists>batch. EvList ?path (Inr batch) \<in> S \<and> (\<forall>pr \<in> set prs - set (acc @ batch). \<exists>path batch. EvList path (Inr batch) \<in> S \<and> pr \<in> set batch)"
    then show "\<forall>pr \<in> set prs - set acc. \<exists>path batch. EvList path (Inr batch) \<in> S \<and> pr \<in> set batch" by auto
  qed
qed

section \<open>What an inspected head rests on\<close>

definition exact_head :: "PendingRequest \<Rightarrow> PendingPublication \<Rightarrow> pub_event set \<Rightarrow> bool" where
  "exact_head req p S \<longleftrightarrow> sha_match (pp_Head p) \<and>
     (\<exists>out ref. git_event (pq_RepoRoot req) [''ls-remote'', publicationRemote req, ''refs/heads/'' @ pp_Branch p] out \<in> S \<and> str_fields out = [pp_Head p, ref])"

definition single_commit :: "'w publication_env \<Rightarrow> PendingRequest \<Rightarrow> int \<Rightarrow> PendingPublication \<Rightarrow> pub_event set \<Rightarrow> bool" where
  "single_commit E req owner p S \<longleftrightarrow>
     (\<exists>out commit. git_event (pq_RepoRoot req) [''rev-list'', ''--parents'', ''-n'', ''1'', pp_Head p] out \<in> S \<and> str_fields out = [commit, pp_BaseSHA p]) \<and>
     (\<exists>out. run_event (pq_RepoRoot req) [''merge-base'', ''--is-ancestor'', pp_BaseSHA p, pq_BaseSHA req] out \<in> S) \<and>
     (\<exists>path a. EvActivity path (Inr [a]) \<in> S \<and> ac_Ref a = ''refs/heads/'' @ pp_Branch p \<and> ac_After a = pp_Head p \<and>
        us_ID (ac_Actor a) = owner \<and> us_Type (ac_Actor a) = ''Bot'') \<and>
     (\<exists>out. git_event (pq_RepoRoot req) [''diff'', ''--name-only'', ''--no-renames'', ''-z'', pp_BaseSHA p, pp_Head p, ''--''] out \<in> S \<and>
        validatePaths (filter (\<lambda>raw. raw \<noteq> []) (split_on NUL out)) ''final'' = None) \<and>
     (\<exists>raw. git_event (pq_RepoRoot req) [''show'', pp_Head p @ '':'' @ metadata_path] raw \<in> S \<and> pe_identity E raw = Inr (pp_Target p))"

definition describes :: "publicationPR \<Rightarrow> PendingPublication \<Rightarrow> bool" where
  "describes pr p \<longleftrightarrow> pp_Number p = pu_Number pr \<and> pp_Branch p = rf_Ref (pu_Head pr) \<and> pp_Description p = pu_Body pr \<and> pp_Title p = pu_Title pr"

definition head_facts :: "'w publication_env \<Rightarrow> PendingRequest \<Rightarrow> publicationPR \<Rightarrow> PendingPublication \<Rightarrow> pub_event set \<Rightarrow> bool" where
  "head_facts E req pr p S \<longleftrightarrow> describes pr p \<and> exact_head req p S \<and>
     (if pp_Repair p then pq_RepairPending req \<and> \<not> pp_Reusable p \<and> pp_BaseSHA p = [] \<and> pp_Target p = target_identity (pq_Target req)
      else single_commit E req (us_ID (pu_User pr)) p S \<and>
        (pp_Reusable p \<longrightarrow> pp_BaseSHA p = pq_BaseSHA req \<and> pp_Target p = target_identity (pq_Target req)))"

lemma adds_actor:
  "adds inspection_event (publicationHeadActor (logged_env E) req branch head)
     (\<lambda>actor S. \<exists>path a. EvActivity path (Inr [a]) \<in> S \<and> ac_Ref a = ''refs/heads/'' @ branch \<and> ac_After a = head \<and> actor = ac_Actor a)"
  unfolding publicationHeadActor_def logged_simps
proof (rule adds_weaken[OF adds_bind[OF adds_log]])
  fix activities
  show "adds inspection_event (case activities of [a] \<Rightarrow> if ac_Ref a \<noteq> ''refs/heads/'' @ branch \<or> ac_After a \<noteq> head
        then fail_op (publicationPolicy (''current push ownership of '' @ branch @ '' at '' @ head @ '' is not confirmed'')) else return_op (ac_Actor a)
      | _ \<Rightarrow> fail_op (publicationPolicy (''current push ownership of '' @ branch @ '' at '' @ head @ '' is not confirmed'')))
    (\<lambda>actor S. \<exists>a. activities = [a] \<and> ac_Ref a = ''refs/heads/'' @ branch \<and> ac_After a = head \<and> actor = ac_Actor a)"
    by (auto split: list.splits intro!: adds_if intro: adds_weaken[OF adds_return])
qed auto

definition single_facts :: "'w publication_env \<Rightarrow> PendingRequest \<Rightarrow> publicationPR \<Rightarrow> gostring \<Rightarrow> gostring \<Rightarrow> PendingPublication \<Rightarrow> pub_event set \<Rightarrow> bool" where
  "single_facts E req pr head base p S \<longleftrightarrow> describes pr p \<and> pp_Head p = head \<and> pp_BaseSHA p = base \<and> \<not> pp_Repair p \<and>
       (\<exists>out. run_event (pq_RepoRoot req) [''merge-base'', ''--is-ancestor'', base, pq_BaseSHA req] out \<in> S) \<and>
       (\<exists>path a. EvActivity path (Inr [a]) \<in> S \<and> ac_Ref a = ''refs/heads/'' @ rf_Ref (pu_Head pr) \<and> ac_After a = head \<and>
          us_ID (ac_Actor a) = us_ID (pu_User pr) \<and> us_Type (ac_Actor a) = ''Bot'') \<and>
       (\<exists>out. git_event (pq_RepoRoot req) [''diff'', ''--name-only'', ''--no-renames'', ''-z'', base, head, ''--''] out \<in> S \<and>
          validatePaths (filter (\<lambda>raw. raw \<noteq> []) (split_on NUL out)) ''final'' = None) \<and>
       (\<exists>raw. git_event (pq_RepoRoot req) [''show'', head @ '':'' @ metadata_path] raw \<in> S \<and> pe_identity E raw = Inr (pp_Target p)) \<and>
       (pp_Reusable p \<longrightarrow> base = pq_BaseSHA req \<and> pp_Target p = target_identity (pq_Target req))"

lemma adds_single_head: "adds inspection_event (inspect_single_head (logged_env E) req pr head base) (single_facts E req pr head base)"
proof -
  let ?root = "pq_RepoRoot req"
  have ancestor: "adds inspection_event (\<lambda>w. case runGit (logged_env E) ?root [''merge-base'', ''--is-ancestor'', base, pq_BaseSHA req] w of
         (Inl _, w) \<Rightarrow> (Inl (publicationPolicy (''PR #'' @ fmt_int (pu_Number pr) @ '' contains commits outside the accepted base history'')), w)
       | (Inr u, w) \<Rightarrow> (Inr u, w)) (\<lambda>_ S. \<exists>out. run_event ?root [''merge-base'', ''--is-ancestor'', base, pq_BaseSHA req] out \<in> S)"
    by (rule adds_wrap[unfolded wrap_op_def, OF adds_runGit]) (simp add: git_verb_def)
  show ?thesis
    unfolding inspect_single_head_def
    by (rule adds_weaken, rule adds_bind[OF ancestor], rule adds_bind[OF adds_actor], rule adds_guard, rule adds_bind[OF adds_gitNUL],
        simp add: git_verb_def, rule adds_bind[OF adds_check], rule adds_bind[OF adds_identity], simp add: git_verb_def,
        rule adds_guard, rule adds_guard, rule adds_return) (force simp: single_facts_def describes_def pending_of_def zero_pending_def)
qed

lemma adds_repair_head:
  "adds inspection_event (repairNonSingleHead (logged_env E) req pr head)
     (\<lambda>p S. describes pr p \<and> pp_Head p = head \<and> pp_Repair p \<and> \<not> pp_Reusable p \<and> pp_BaseSHA p = [] \<and> pp_Target p = target_identity (pq_Target req))"
  unfolding repairNonSingleHead_def Let_def
  by (rule adds_weaken, rule adds_bind[OF adds_identity], simp add: git_verb_def, rule adds_guard, rule adds_return)
    (auto simp: describes_def pending_of_def zero_pending_def)

lemma head_facts_single:
  assumes "sha_match head" "git_event (pq_RepoRoot req) [''ls-remote'', publicationRemote req, ''refs/heads/'' @ rf_Ref (pu_Head pr)] out \<in> S"
    "str_fields out = [head, ref]" "git_event (pq_RepoRoot req) [''rev-list'', ''--parents'', ''-n'', ''1'', head] parents \<in> S"
    "str_fields parents = [commit, base]" "single_facts E req pr head base p S"
  shows "head_facts E req pr p S"
proof -
  from assms(6) have p: "pp_Head p = head" "pp_BaseSHA p = base" "\<not> pp_Repair p" "describes pr p" "pp_Branch p = rf_Ref (pu_Head pr)"
    by (simp_all add: single_facts_def describes_def)
  have "exact_head req p S" unfolding exact_head_def p using assms(1-3) by blast
  moreover have "single_commit E req (us_ID (pu_User pr)) p S"
    using assms(4-6) unfolding single_commit_def single_facts_def p by blast
  ultimately show ?thesis using assms(6) p by (simp add: head_facts_def single_facts_def)
qed

lemma head_facts_repair:
  assumes "sha_match head" "git_event (pq_RepoRoot req) [''ls-remote'', publicationRemote req, ''refs/heads/'' @ rf_Ref (pu_Head pr)] out \<in> S"
    "str_fields out = [head, ref]" "pq_RepairPending req" "describes pr p" "pp_Head p = head" "pp_Repair p" "\<not> pp_Reusable p" "pp_BaseSHA p = []"
    "pp_Target p = target_identity (pq_Target req)"
  shows "head_facts E req pr p S"
  using assms unfolding head_facts_def exact_head_def describes_def by auto

lemma sha_match_Nil [simp]: "\<not> sha_match []"
  by (simp add: sha_match_def)

lemma adds_inspect_head: "adds inspection_event (inspectPublicationHead (logged_env E) req pr) (head_facts E req pr)"
proof -
  have rest: "adds inspection_event (case str_fields parents of [_, base] \<Rightarrow> inspect_single_head (logged_env E) req pr head base
      | _ \<Rightarrow> if \<not> pq_RepairPending req then fail_op (publicationPolicy (''PR #'' @ fmt_int (pu_Number pr) @ '' is not a single candidate commit''))
         else repairNonSingleHead (logged_env E) req pr head)
    (\<lambda>p S. (\<exists>commit base. str_fields parents = [commit, base] \<and> single_facts E req pr head base p S) \<or>
       pq_RepairPending req \<and> describes pr p \<and> pp_Head p = head \<and> pp_Repair p \<and> \<not> pp_Reusable p \<and> pp_BaseSHA p = [] \<and> pp_Target p = target_identity (pq_Target req))"
    for parents head
    by (auto split: list.splits intro!: adds_if adds_fail intro: adds_weaken[OF adds_single_head] adds_weaken[OF adds_repair_head])
  show ?thesis
    unfolding inspectPublicationHead_def
    by (rule adds_weaken, rule adds_bind[OF adds_wrap[OF adds_remote_head]], simp add: git_verb_def, rule adds_guard,
        rule adds_bind[OF adds_fetch], rule adds_bind[OF adds_git], simp add: git_verb_def, rule rest)
      (elim exE conjE disjE; (simp only: sha_match_Nil not_False_eq_True)?; blast intro: head_facts_single head_facts_repair)
qed

section \<open>The inspection\<close>

definition projected :: "PendingRequest \<Rightarrow> PendingPublication \<Rightarrow> bool" where
  "projected req p \<longleftrightarrow> publicationProjection (pp_Description p) = \<lparr>pd_target = pp_Target p, pd_head = pp_Head p, pd_base = pq_BaseBranch req\<rparr>"

definition open_pr :: "PendingRequest \<Rightarrow> publicationPR \<Rightarrow> bool" where
  "open_pr req pr \<longleftrightarrow> pu_State pr = ''open'' \<and> pu_MergedAt pr = None \<and> rf_FullName (pu_Head pr) = pq_Repository req \<and>
     rf_Ref (pu_Base pr) = pq_BaseBranch req \<and> has_prefix (rf_Ref (pu_Head pr)) ''codex/sync-upstream'' \<and>
     us_ID (pu_User pr) = pq_AppBotID req \<and> us_Type (pu_User pr) = ''Bot''"

lemma describes_reusable [simp]: "describes pr (p\<lparr>pp_Reusable := b\<rparr>) = describes pr p"
  by (simp add: describes_def)

lemma exact_head_reusable [simp]: "exact_head req (p\<lparr>pp_Reusable := b\<rparr>) S = exact_head req p S"
  by (simp add: exact_head_def)

lemma single_commit_reusable [simp]: "single_commit E req owner (p\<lparr>pp_Reusable := b\<rparr>) S = single_commit E req owner p S"
  by (simp add: single_commit_def)

lemma adds_inspect_closed: "adds inspection_event (inspect_closed (logged_env E) req pr) (\<lambda>p S. p = None)"
  unfolding inspect_closed_def
  by (rule adds_weaken, rule adds_bind[OF adds_fetch], rule adds_bind[OF adds_identity], simp add: git_verb_def, rule adds_guard,
      rule adds_if, rule adds_return, rule adds_fail) blast

definition pr_facts :: "'w publication_env \<Rightarrow> PendingRequest \<Rightarrow> publicationPR \<Rightarrow> PendingPublication \<Rightarrow> pub_event set \<Rightarrow> bool" where
  "pr_facts E req pr p S \<longleftrightarrow> open_pr req pr \<and> head_facts E req pr p S \<and> (pp_Reusable p \<longrightarrow> projected req p)"

lemma adds_inspect_pr:
  "adds inspection_event (inspect_pr (logged_env E) req pr) (\<lambda>r S. \<forall>p. r = Some p \<longrightarrow> pr_facts E req pr p S)"
proof -
  have opened: "adds inspection_event (bind_op (wrap_op (\<lambda>e. ErrWrap (''sync PR #'' @ fmt_int (pu_Number pr) @ '' ownership'') [e]) (check_op (verifyAppActor (pu_User pr) (pq_AppBotID req)))) (\<lambda>_.
        let projection = publicationProjection (pu_Body pr) in
        bind_op (inspectPublicationHead (logged_env E) req pr) (\<lambda>pending.
        return_op (Some (pending\<lparr>pp_Reusable := pp_Reusable pending \<and> pd_target projection = pp_Target pending \<and>
          pd_head projection = pp_Head pending \<and> pd_base projection = pq_BaseBranch req\<rparr>)))))
     (\<lambda>r S. \<forall>p. r = Some p \<longrightarrow> us_ID (pu_User pr) = pq_AppBotID req \<and> us_Type (pu_User pr) = ''Bot'' \<and>
        head_facts E req pr p S \<and> (pp_Reusable p \<longrightarrow> projected req p))"
    unfolding Let_def
    by (rule adds_weaken, rule adds_bind[OF adds_wrap[OF adds_check]], rule adds_bind[OF adds_inspect_head], rule adds_return)
      (auto simp: head_facts_def projected_def verifyAppActor_def describes_def split: if_splits)
  show ?thesis
    unfolding inspect_pr_def pr_facts_def open_pr_def
    by (intro adds_if adds_fail; (rule adds_weaken[OF adds_return] adds_weaken[OF adds_inspect_closed] adds_weaken[OF opened])) auto
qed

lemma adds_inspect_prs:
  "adds inspection_event (inspect_prs (logged_env E) req prs) (\<lambda>found S. \<forall>p \<in> set found. \<exists>pr \<in> set prs. pr_facts E req pr p S)"
proof (induction prs)
  case Nil
  show ?case unfolding inspect_prs.simps by (rule adds_weaken[OF adds_return]) simp
next
  case (Cons pr prs)
  show ?case
    unfolding inspect_prs.simps
    by (rule adds_weaken, rule adds_bind[OF adds_inspect_pr], rule adds_bind[OF Cons], rule adds_return) (fastforce split: option.splits)
qed

text \<open>A branch of the publishing App without a pull request.\<close>

definition orphan_facts :: "'w publication_env \<Rightarrow> PendingRequest \<Rightarrow> PendingPublication \<Rightarrow> pub_event set \<Rightarrow> bool" where
  "orphan_facts E req p S \<longleftrightarrow> \<not> pp_Reusable p \<and> (\<exists>actor head branch. us_ID actor = pq_AppBotID req \<and> us_Type actor = ''Bot'' \<and>
     head_facts E req (orphan_pr actor head branch) p S)"

lemma adds_inspect_orphans:
  "adds inspection_event (inspect_orphans (logged_env E) req known lines) (\<lambda>found S. \<forall>p \<in> set found. orphan_facts E req p S)"
proof (induction lines)
  case Nil
  show ?case unfolding inspect_orphans.simps by (rule adds_weaken[OF adds_return]) simp
next
  case (Cons line lines)
  have found: "adds inspection_event (bind_op (publicationHeadActor (logged_env E) req branch head) (\<lambda>actor.
            bind_op (wrap_op (\<lambda>e. ErrWrap (''orphan sync branch '' @ branch) [e]) (check_op (verifyAppActor actor (pq_AppBotID req)))) (\<lambda>_.
            bind_op (inspectPublicationHead (logged_env E) req (orphan_pr actor head branch)) (\<lambda>observation.
            bind_op (inspect_orphans (logged_env E) req known lines) (\<lambda>found. return_op (observation\<lparr>pp_Reusable := False\<rparr> # found))))))
      (\<lambda>found S. \<forall>p \<in> set found. orphan_facts E req p S)" for branch head
    by (rule adds_weaken, rule adds_bind[OF adds_actor], rule adds_bind[OF adds_wrap[OF adds_check]], rule adds_bind[OF adds_inspect_head],
        rule adds_bind[OF Cons], rule adds_return)
      (fastforce simp: orphan_facts_def head_facts_def verifyAppActor_def split: if_splits)
  show ?case
    unfolding inspect_orphans.simps Let_def
    by (simp only: split: list.split, intro conjI impI allI; (intro adds_if adds_fail found Cons)?)
qed

definition inspected :: "'w publication_env \<Rightarrow> PendingRequest \<Rightarrow> PendingPublication \<Rightarrow> pub_event set \<Rightarrow> bool" where
  "inspected E req p S \<longleftrightarrow>
     (\<exists>path prs pr current. EvList path (Inr prs) \<in> S \<and> pr \<in> set prs \<and> pr_facts E req pr p S \<and>
        EvPull (pull_path (pq_Repository req) (pp_Number p)) (Inr current) \<in> S \<and> unchanged_pr current p (pp_Branch p) (pq_Repository req) (pq_BaseBranch req))
     \<or> orphan_facts E req p S
     \<or> pp_Head p = ''absent'' \<and> pp_Number p = 0 \<and> \<not> pp_Reusable p \<and> \<not> pp_Repair p"

lemma adds_orphan: "adds inspection_event (inspectOrphanPublication (logged_env E) req prs) (inspected E req)"
proof -
  have rest: "adds inspection_event (case found of
       [] \<Rightarrow> (case syncBranchName (tg_RefName (pq_Target req)) (tg_PeeledCommitSHA (pq_Target req)) (pq_BaseSHA req) of
           None \<Rightarrow> fail_op go_panic | Some branch \<Rightarrow> return_op (zero_pending\<lparr>pp_Head := ''absent'', pp_Branch := branch\<rparr>))
     | [p] \<Rightarrow> return_op p
     | _ \<Rightarrow> fail_op (publicationPolicy ''multiple orphan sync branches require reconciliation''))
     (\<lambda>p S. p \<in> set found \<or> pp_Head p = ''absent'' \<and> pp_Number p = 0 \<and> \<not> pp_Reusable p \<and> \<not> pp_Repair p)" for found
    by (auto split: list.splits option.splits intro: adds_weaken[OF adds_return] simp: zero_pending_def)
  show ?thesis
    unfolding inspectOrphanPublication_def
    by (rule adds_weaken, rule adds_bind[OF adds_git], simp add: git_verb_def, rule adds_bind[OF adds_inspect_orphans], rule rest)
      (auto simp: inspected_def)
qed

section \<open>Reading the checks is not logged\<close>

lemma lift_op_apply: "lift_op f (tr, w) = (case f w of (r, w) \<Rightarrow> (r, (tr, w)))"
  by (simp add: lift_op_def)

lemma read_api_lift: "read_api (logged_checks A) d path = lift_op (read_api A d path)"
  by (rule ext) (auto simp: read_api_def logged_checks_def lift_op_def split: prod.splits sum.splits)

lemma page_loop_lift:
  "page_loop (\<lambda>page. lift_op (rd page)) item full msgs n page tot count acc = lift_op (page_loop rd item full msgs n page tot count acc)"
proof (induction n arbitrary: page tot count acc)
  case 0
  show ?case by (rule ext) (auto simp: lift_op_apply)
next
  case (Suc n)
  show ?case
    by (rule ext) (auto simp: lift_op_apply Let_def Suc.IH split: prod.splits sum.splits)
qed

lemma Observe_lift: "Observe (logged_checks A) repository head = lift_op (Observe A repository head)"
proof -
  have "check_pages (logged_checks A) repository head = (\<lambda>page. lift_op (check_pages A repository head page))"
    "workflow_pages (logged_checks A) repository head = (\<lambda>page. lift_op (workflow_pages A repository head page))"
    unfolding check_pages_def workflow_pages_def read_api_lift by (simp_all add: logged_checks_def)
  note pages = this
  have workflow: "observeWorkflow (logged_checks A) repository head obs = lift_op (observeWorkflow A repository head obs)" for obs
    unfolding observeWorkflow_def pages page_loop_lift
    by (rule ext) (auto simp: lift_op_apply Let_def split: prod.splits sum.splits)
  show ?thesis
    unfolding Observe_def pages page_loop_lift workflow
    by (rule ext) (auto simp: lift_op_apply split: prod.splits sum.splits)
qed

definition with_checks :: "PendingPublication \<Rightarrow> PendingPublication \<Rightarrow> bool" where
  "with_checks p q \<longleftrightarrow> (\<exists>c obs. q = p\<lparr>pp_Checks := c, pp_CheckObservation := obs\<rparr>)"

lemma adds_observe_checks: "adds inspection_event (observe_checks (logged_env E) req p) (\<lambda>q S. with_checks p q)"
proof -
  have "with_checks p p" unfolding with_checks_def by (intro exI[of _ "pp_Checks p"] exI[of _ "pp_CheckObservation p"]) simp
  moreover have "with_checks p (p\<lparr>pp_CheckObservation := obs, pp_Checks := c\<rparr>)" for c obs
    unfolding with_checks_def by (intro exI[of _ c] exI[of _ obs]) simp
  ultimately show ?thesis
    unfolding observe_checks_def logged_simps Observe_lift
    by (intro adds_if adds_weaken[OF adds_bind[OF adds_lift adds_return]] adds_weaken[OF adds_return]) blast+
qed

lemma with_checks_facts:
  assumes "with_checks p q"
  shows "pr_facts E req pr q S \<longleftrightarrow> pr_facts E req pr p S" "pp_Number q = pp_Number p" "pp_Branch q = pp_Branch p"
    "unchanged_pr current q branch repository base \<longleftrightarrow> unchanged_pr current p branch repository base"
proof -
  obtain c obs where q: "q = p\<lparr>pp_Checks := c, pp_CheckObservation := obs\<rparr>" using assms by (auto simp: with_checks_def)
  have "describes pr q = describes pr p" "exact_head req q S = exact_head req p S" "projected req q = projected req p"
    "single_commit E req owner q S = single_commit E req owner p S" for owner
    unfolding q by (simp_all add: describes_def exact_head_def projected_def single_commit_def)
  then show "pr_facts E req pr q S \<longleftrightarrow> pr_facts E req pr p S" by (simp add: pr_facts_def head_facts_def q)
  show "pp_Number q = pp_Number p" "pp_Branch q = pp_Branch p"
    "unchanged_pr current q branch repository base \<longleftrightarrow> unchanged_pr current p branch repository base"
    unfolding q by (simp_all add: unchanged_pr_def)
qed

lemma inspected_pr:
  assumes "with_checks pending p" "pr_facts E req pr pending S" "EvList path (Inr batch) \<in> S" "pr \<in> set batch"
    "EvPull (pull_path (pq_Repository req) (pp_Number p)) (Inr current) \<in> S" "unchanged_pr current p (pp_Branch p) (pq_Repository req) (pq_BaseBranch req)"
  shows "inspected E req p S"
  using assms with_checks_facts(1)[OF assms(1)] unfolding inspected_def by blast

lemma adds_inspect: "adds inspection_event (InspectPending (logged_env E) req) (\<lambda>p S. inspected E req p S \<and> sha_match (pq_BaseSHA req))"
proof -
  have pulled: "adds inspection_event (bind_op (pe_pr (logged_env E) (pull_path (pq_Repository req) (pp_Number pending))) (\<lambda>current.
        if \<not> unchanged_pr current pending (pp_Branch pending) (pq_Repository req) (pq_BaseBranch req)
        then fail_op (publicationPolicy (''sync PR #'' @ fmt_int (pp_Number pending) @ '' changed while inspecting it''))
        else observe_checks (logged_env E) req pending))
      (\<lambda>p S. with_checks pending p \<and>
        (\<exists>current. EvPull (pull_path (pq_Repository req) (pp_Number p)) (Inr current) \<in> S \<and>
           unchanged_pr current p (pp_Branch p) (pq_Repository req) (pq_BaseBranch req)))" for pending
    unfolding logged_simps
    by (rule adds_weaken, rule adds_bind[OF adds_log], simp, rule adds_guard, rule adds_observe_checks)
      (auto simp: with_checks_facts)
  have rest: "adds inspection_event (case found of [] \<Rightarrow> inspectOrphanPublication (logged_env E) req prs
        | [pending] \<Rightarrow>
            if older_request pending req
            then fail_op (publicationPolicy ''pending PR already targets a newer stable version; refusing an older publication'')
            else bind_op (pe_pr (logged_env E) (pull_path (pq_Repository req) (pp_Number pending))) (\<lambda>current.
              if \<not> unchanged_pr current pending (pp_Branch pending) (pq_Repository req) (pq_BaseBranch req)
              then fail_op (publicationPolicy (''sync PR #'' @ fmt_int (pp_Number pending) @ '' changed while inspecting it''))
              else observe_checks (logged_env E) req pending)
        | _ \<Rightarrow> fail_op (publicationPolicy ''multiple pending sync PRs require reconciliation''))
      (\<lambda>p S. inspected E req p S \<or> (\<exists>pending \<in> set found. with_checks pending p \<and>
        (\<exists>current. EvPull (pull_path (pq_Repository req) (pp_Number p)) (Inr current) \<in> S \<and>
           unchanged_pr current p (pp_Branch p) (pq_Repository req) (pq_BaseBranch req))))" for found prs
    by (simp only: split: list.split, intro conjI impI allI adds_if adds_fail adds_weaken[OF adds_orphan] adds_weaken[OF pulled]) auto
  show ?thesis
    unfolding InspectPending_def listPublicationPRs_def
    by (rule adds_weaken, rule adds_guard, rule adds_guard, rule adds_bind[OF adds_list_pages], rule adds_bind[OF adds_inspect_prs], rule rest)
      (elim exE conjE disjE bexE; simp only: list.set Diff_empty; blast intro: inspected_pr)
qed


section \<open>An example\<close>

definition sample_head :: gostring where "sample_head = replicate 40 (CHR ''a'')"
definition sample_base :: gostring where "sample_base = replicate 40 (CHR ''b'')"
definition sample_commit :: gostring where "sample_commit = replicate 40 (CHR ''c'')"

definition sample_target :: Target where
  "sample_target = \<lparr>tg_RefName = ''rust-v1.2.3'', tg_RefKind = ''stable_rust_tag'', tg_TagSHA = sample_commit, tg_PeeledCommitSHA = sample_commit, tg_TargetExplicit = True\<rparr>"

definition sample_bot :: publicationUser where "sample_bot = \<lparr>us_ID = 7, us_Login = ''bot'', us_Type = ''Bot''\<rparr>"

definition sample_branch :: gostring where "sample_branch = ''codex/sync-upstream-x''"

definition sample_pr :: publicationPR where
  "sample_pr = \<lparr>pu_Number = 3, pu_URL = ''url'', pu_State = ''open'',
     pu_Body = syncMetadataBlock ''main'' ''rust-v1.2.3'' ''stable_rust_tag'' sample_commit sample_head, pu_Title = ''t'', pu_MergedAt = None,
     pu_User = sample_bot, pu_Head = \<lparr>rf_Ref = sample_branch, rf_SHA = sample_head, rf_FullName = ''o/r''\<rparr>,
     pu_Base = \<lparr>rf_Ref = ''main'', rf_SHA = sample_base, rf_FullName = ''o/r''\<rparr>\<rparr>"

definition sample_git :: "gostring list \<Rightarrow> gostring \<Rightarrow> unit \<Rightarrow> (go_error + gostring) \<times> unit" where
  "sample_git args inp w = (let verb = git_verb args in
     (Inr (if verb = ''ls-remote'' then sample_head @ '' refs/heads/'' @ sample_branch
       else if verb = ''rev-list'' then sample_head @ '' '' @ sample_base
       else if verb = ''diff'' then ''codexsdk/sdk_surface.gen.go'' @ [NUL] else []), w))"

definition sample_checks :: "unit check_api" where
  "sample_checks = \<lparr>ca_Get = (\<lambda>_ w. (Inr [], w)), ca_Post = (\<lambda>_ w. (None, w)), ca_check_page = (\<lambda>_. Inr (0, [])), ca_workflow_page = (\<lambda>_. Inr (0, [])),
     ca_job_page = (\<lambda>_. Inr (0, [])), ca_workflow_run = (\<lambda>_. Inl go_panic), ca_pr = (\<lambda>_. Inl go_panic), ca_ref_sha = (\<lambda>_. Inr []), ca_PathEscape = (\<lambda>s. s)\<rparr>"

definition sample_env :: "unit publication_env" where
  "sample_env = \<lparr>pe_repo = \<lparr>rp_git = sample_git, rp_lstat = (\<lambda>_ _ w. (Inr True, w)), rp_IsNotExist = (\<lambda>_. False)\<rparr>,
     pe_prs = (\<lambda>_ w. (Inr [sample_pr], w)), pe_pr = (\<lambda>_ w. (Inr sample_pr, w)),
     pe_activity = (\<lambda>_ w. (Inr [\<lparr>ac_Ref = ''refs/heads/'' @ sample_branch, ac_After = sample_head, ac_Actor = sample_bot\<rparr>], w)),
     pe_patch = (\<lambda>_ _ _ w. (None, w)), pe_post = (\<lambda>_ _ _ _ _ w. (None, w)), pe_checks = sample_checks, pe_lookup = (\<lambda>_ _ w. (Inr [], w)),
     pe_output = (\<lambda>_ _ w. (None, w)), pe_identity = (\<lambda>_. Inr (target_identity sample_target)), pe_QueryEscape = (\<lambda>s. s), pe_pages = 1\<rparr>"

definition sample_request :: PendingRequest where
  "sample_request = \<lparr>pq_ReadChecks = False, pq_RepairPending = False, pq_RepoRoot = ''r'', pq_Repository = ''o/r'', pq_BaseBranch = ''main'',
     pq_BaseSHA = sample_base, pq_Remote = [], pq_AppBotID = 7, pq_Target = sample_target\<rparr>"


section \<open>Every pull request is listed\<close>

text \<open>The pages of a listing that stays as it is, a hundred to a page.\<close>

definition served :: "'w publication_env \<Rightarrow> gostring \<Rightarrow> publicationPR list \<Rightarrow> bool" where
  "served E repository prs \<longleftrightarrow> (\<forall>page w. pe_prs E (''repos/'' @ repository @ ''/pulls?state=all&per_page=100&page='' @ itoa (Suc page)) w =
     (Inr (take 100 (drop (100 * page) prs)), w))"

lemma list_pages_served:
  assumes "served E repository prs" "length prs < 100 * (page + n)" "100 * page \<le> length prs"
  shows "list_pages E repository n (Suc page) (take (100 * page) prs) w = (Inr prs, w)"
  using assms(2,3)
proof (induction n arbitrary: page)
  case (Suc n)
  have rd: "pe_prs E (''repos/'' @ repository @ ''/pulls?state=all&per_page=100&page='' @ itoa (Suc page)) w = (Inr (take 100 (drop (100 * page) prs)), w)"
    using assms(1) by (simp add: served_def)
  have acc: "take (100 * page) prs @ take 100 (drop (100 * page) prs) = take (100 * Suc page) prs"
    by (metis add.commute mult_Suc_right take_add)
  show ?case
  proof (cases "length prs < 100 * page + 100")
    case True
    then have "take (100 * Suc page) prs = prs" "length (take 100 (drop (100 * page) prs)) < 100" using Suc.prems(2) by auto
    then show ?thesis by (simp only: list_pages.simps rd acc prod.case sum.case if_True)
  next
    case False
    then have "\<not> length (take 100 (drop (100 * page) prs)) < 100" using Suc.prems(2) by auto
    then show ?thesis using Suc.IH[of "Suc page"] Suc.prems False
      by (simp only: list_pages.simps rd acc prod.case sum.case if_False) simp
  qed
qed simp

lemma listPublicationPRs_all:
  "served E repository prs \<Longrightarrow> length prs < 100 * pe_pages E \<Longrightarrow> listPublicationPRs E repository w = (Inr prs, w)"
  using list_pages_served[of E repository prs 0 "pe_pages E" w] by (simp add: listPublicationPRs_def)

end
