(* ===== verification/Publish_Candidate.thy ===== *)
theory Publish_Candidate
  imports Publication_Log
begin

text \<open>
  Publication of a candidate, \<open>codexsdk/internal/protocolsync/publication.go\<close> and \<open>Publish\<close> of \<open>publish.go\<close>: the repair of a
  contaminated head, the checks before the push, the push with its lease, the pull request, and the final readback. The
  parts of error texts that print another error with \<open>%v\<close> are left out.
\<close>

section \<open>The request\<close>

record PublishRequest =
  pb_Repository :: gostring
  pb_ExpectedHead :: gostring
  pb_ExpectedBranch :: gostring
  pb_AppBotID :: int
  pb_RepoRoot :: gostring
  pb_BaseBranch :: gostring
  pb_TargetRef :: gostring
  pb_TargetKind :: gostring
  pb_TargetSHA :: gostring
  pb_Remote :: gostring
  pb_GitHubOutputPath :: gostring
  pb_RepairPending :: bool

definition publish_remote :: "PublishRequest \<Rightarrow> gostring" where
  "publish_remote req = (if pb_Remote req = [] then ''origin'' else pb_Remote req)"

definition publish_base_branch :: "PublishRequest \<Rightarrow> gostring" where
  "publish_base_branch req = normalizeBranchRef (pb_BaseBranch req) (publish_remote req)"

definition wanted_identity :: "PublishRequest \<Rightarrow> BaselineIdentity" where
  "wanted_identity req = \<lparr>bi_SourceCommit = pb_TargetSHA req, bi_SourceRefName = pb_TargetRef req, bi_SourceRefKind = pb_TargetKind req\<rparr>"

definition sync_branch :: "gostring \<Rightarrow> bool" where
  "sync_branch branch \<longleftrightarrow> branch \<noteq> [] \<and> has_prefix branch ''codex/sync-upstream''"

definition resolve_wanted :: "'w publication_env \<Rightarrow> PublishRequest \<Rightarrow> 'w \<Rightarrow> (go_error + Target) \<times> 'w" where
  "resolve_wanted E req = bind_op (ResolveUpstream (pe_lookup E) \<lparr>rr_Remote = [], rr_UpstreamRef = pb_TargetRef req, rr_LatestStable = False\<rparr>) (\<lambda>target.
     if target_identity target \<noteq> wanted_identity req
     then fail_op (Failure FailureSource (ErrNew (''upstream target moved from '' @ pb_TargetSHA req @ '' to '' @ tg_PeeledCommitSHA target)))
     else return_op target)"

definition fetch_landing :: "'w publication_env \<Rightarrow> PublishRequest \<Rightarrow> 'w \<Rightarrow> (go_error + gostring) \<times> 'w" where
  "fetch_landing E req = (let remote = publish_remote req; base = publish_base_branch req in
     bind_op (runGit E (pb_RepoRoot req) [''fetch'', remote, ''refs/heads/'' @ base @ '':refs/remotes/'' @ remote @ ''/'' @ base]) (\<lambda>_.
     bind_op (gitOutput E (pb_RepoRoot req) [''rev-parse'', remote @ ''/'' @ base]) (\<lambda>landing. return_op (trim_space landing))))"

definition publish_inspection :: "PublishRequest \<Rightarrow> gostring \<Rightarrow> Target \<Rightarrow> bool \<Rightarrow> PendingRequest" where
  "publish_inspection req base target repair = \<lparr>pq_ReadChecks = False, pq_RepairPending = repair, pq_RepoRoot = pb_RepoRoot req,
     pq_Repository = pb_Repository req, pq_BaseBranch = publish_base_branch req, pq_BaseSHA = base, pq_Remote = publish_remote req,
     pq_AppBotID = pb_AppBotID req, pq_Target = target\<rparr>"

section \<open>Repair of a head that is not a single commit\<close>

fun contained_parents :: "'w publication_env \<Rightarrow> gostring \<Rightarrow> gostring \<Rightarrow> gostring list \<Rightarrow> 'w \<Rightarrow> (go_error + gostring list) \<times> 'w" where
  "contained_parents E repo main [] w = (Inr [], w)"
| "contained_parents E repo main (parent # parents) w = (case runGit E repo [''merge-base'', ''--is-ancestor'', parent, main] w of
      (Inl _, w) \<Rightarrow> contained_parents E repo main parents w
    | (Inr _, w) \<Rightarrow> bind_op (contained_parents E repo main parents) (\<lambda>rest. return_op (parent # rest)) w)"

definition containedRepairParent :: "'w publication_env \<Rightarrow> gostring \<Rightarrow> gostring \<Rightarrow> gostring \<Rightarrow> 'w \<Rightarrow> (go_error + gostring) \<times> 'w" where
  "containedRepairParent E repo head main =
     bind_op (gitOutput E repo [''rev-list'', ''--parents'', ''-n'', ''1'', head]) (\<lambda>raw.
     let fs = str_fields (trim_space raw) in
     if length fs < 3 \<or> hd fs \<noteq> head then fail_op (publicationPolicy (''repair head '' @ head @ '' is not a multi-parent commit''))
     else bind_op (contained_parents E repo main (tl fs)) (\<lambda>contained.
       case contained of [parent] \<Rightarrow> return_op parent
       | _ \<Rightarrow> fail_op (publicationPolicy (''repair requires exactly one parent contained by current main, found '' @ itoa (length contained)))))"

definition applyRepairPatch :: "'w publication_env \<Rightarrow> gostring \<Rightarrow> gostring \<Rightarrow> 'w \<Rightarrow> (go_error + gostring) \<times> 'w" where
  "applyRepairPatch E repo patch = wrap_op (\<lambda>e. ErrWrap ''git apply repair patch'' [e]) (rp_git (pe_repo E) [''-C'', repo, ''apply'', ''--index'', ''--binary''] patch)"

definition materializeRepairCommit :: "'w publication_env \<Rightarrow> PublishRequest \<Rightarrow> 'w \<Rightarrow> (go_error + unit) \<times> 'w" where
  "materializeRepairCommit E req =
     (if pb_ExpectedHead req = ''absent'' \<or> \<not> sha_match (pb_ExpectedHead req)
      then fail_op (publicationPolicy ''repair requires the observed non-single head'')
      else if \<not> sync_branch (pb_ExpectedBranch req) then fail_op (publicationPolicy ''repair requires its original sync branch'')
      else bind_op (AssertClean (pe_repo E) (pb_RepoRoot req)) (\<lambda>_.
        bind_op (gitOutput E (pb_RepoRoot req) [''rev-parse'', ''HEAD'']) (\<lambda>out.
        let head = trim_space out in
        bind_op (fetch_landing E req) (\<lambda>landing.
        if landing \<noteq> head then fail_op (Failure FailurePublication (ErrNew (''repair must start from current '' @ publish_base_branch req)))
        else bind_op (resolve_wanted E req) (\<lambda>target.
        bind_op (InspectPending E (publish_inspection req head target True)) (\<lambda>observed.
        if \<not> pp_Repair observed \<or> pp_Head observed \<noteq> pb_ExpectedHead req \<or> pp_Branch observed \<noteq> pb_ExpectedBranch req
        then fail_op (publicationPolicy ''repair state changed since planning'')
        else bind_op (containedRepairParent E (pb_RepoRoot req) (pp_Head observed) head) (\<lambda>base.
        bind_op (gitNUL (pe_repo E) (pb_RepoRoot req) [''diff'', ''--name-only'', ''--no-renames'', ''-z'', base, pp_Head observed, ''--'']) (\<lambda>changed.
        if changed = [] then fail_op (publicationPolicy (''repair diff from '' @ base @ '' to '' @ pp_Head observed @ '' is empty''))
        else bind_op (check_op (validatePaths changed ''final'')) (\<lambda>_.
        bind_op (gitOutput E (pb_RepoRoot req) [''diff'', ''--binary'', ''--full-index'', base, pp_Head observed]) (\<lambda>patch.
        bind_op (applyRepairPatch E (pb_RepoRoot req) patch) (\<lambda>_.
        runGit E (pb_RepoRoot req) [''commit'', ''-m'', ''Sync Codex protocol baseline to '' @ pb_TargetRef req, ''-m'', ''Upstream-ref: '' @ pb_TargetRef req,
          ''-m'', ''Upstream-ref-kind: '' @ pb_TargetKind req, ''-m'', ''Upstream-commit: '' @ pb_TargetSHA req])))))))))))"

section \<open>Publication\<close>

text \<open>What the checks before the push settle.\<close>

record prepared =
  pc_head :: gostring
  pc_parent :: gostring
  pc_target :: Target
  pc_observed :: PendingPublication
  pc_publishHead :: gostring
  pc_already :: bool

definition candidate_base :: "'w publication_env \<Rightarrow> PublishRequest \<Rightarrow> 'w \<Rightarrow> (go_error + gostring \<times> gostring) \<times> 'w" where
  "candidate_base E req =
     bind_op (AssertClean (pe_repo E) (pb_RepoRoot req)) (\<lambda>_.
     bind_op (gitOutput E (pb_RepoRoot req) [''rev-parse'', ''HEAD'']) (\<lambda>head.
     bind_op (fetch_landing E req) (\<lambda>landing.
     bind_op (gitOutput E (pb_RepoRoot req) [''rev-parse'', ''HEAD^'']) (\<lambda>parent.
     if landing \<noteq> trim_space parent
     then fail_op (Failure FailurePublication (ErrNew (''landing ref '' @ publish_base_branch req @ '' moved; rebuild against the current base'')))
     else if pb_ExpectedHead req \<noteq> ''absent'' \<and> \<not> sha_match (pb_ExpectedHead req)
     then fail_op (publicationPolicy ''publication requires the original observed head or explicit absence'')
     else return_op (trim_space head, trim_space parent)))))"

definition candidate_identity :: "'w publication_env \<Rightarrow> PublishRequest \<Rightarrow> gostring \<Rightarrow> gostring \<Rightarrow> 'w \<Rightarrow> (go_error + unit) \<times> 'w" where
  "candidate_identity E req head parent =
     bind_op (gitBaselineIdentity E (pb_RepoRoot req) head) (\<lambda>identity.
     if identity \<noteq> wanted_identity req
     then fail_op (Failure FailureSource (ErrNew ''candidate commit does not contain the selected upstream identity''))
     else bind_op (gitNUL (pe_repo E) (pb_RepoRoot req) [''diff'', ''--name-only'', ''--no-renames'', ''-z'', parent, head, ''--'']) (\<lambda>changed.
       check_op (validatePaths changed ''final'')))"

text \<open>A prior attempt may have published the same tree; its revision is kept then.\<close>

definition published_before :: "'w publication_env \<Rightarrow> PublishRequest \<Rightarrow> gostring \<Rightarrow> gostring \<Rightarrow> PendingPublication \<Rightarrow> 'w \<Rightarrow> (go_error + bool) \<times> 'w" where
  "published_before E req head parent observed =
     (if pp_Head observed \<noteq> ''absent'' \<and> pp_BaseSHA observed = parent \<and> pp_Target observed = wanted_identity req then
        bind_op (gitOutput E (pb_RepoRoot req) [''rev-parse'', pp_Head observed @ ''^{tree}'']) (\<lambda>oldTree.
        bind_op (gitOutput E (pb_RepoRoot req) [''rev-parse'', head @ ''^{tree}'']) (\<lambda>newTree. return_op (oldTree = newTree)))
      else return_op False)"

definition publish_prepare :: "'w publication_env \<Rightarrow> PublishRequest \<Rightarrow> 'w \<Rightarrow> (go_error + prepared) \<times> 'w" where
  "publish_prepare E req =
     bind_op (if pb_RepairPending req then materializeRepairCommit E req else return_op ()) (\<lambda>_.
     bind_op (candidate_base E req) (\<lambda>(head, parent).
     bind_op (resolve_wanted E req) (\<lambda>target.
     bind_op (candidate_identity E req head parent) (\<lambda>_.
     bind_op (InspectPending E (publish_inspection req parent target (pb_RepairPending req))) (\<lambda>observed.
     if \<not> sync_branch (pb_ExpectedBranch req) then fail_op (publicationPolicy ''publication requires its original sync branch'')
     else bind_op (published_before E req head parent observed) (\<lambda>already.
     if pp_Branch observed \<noteq> pb_ExpectedBranch req \<or> (\<not> already \<and> pp_Head observed \<noteq> pb_ExpectedHead req)
     then fail_op (publicationPolicy (''publication state changed since planning; expected '' @ pb_ExpectedBranch req @ '' at '' @ pb_ExpectedHead req @
       '', observed '' @ pp_Branch observed @ '' at '' @ pp_Head observed))
     else return_op \<lparr>pc_head = head, pc_parent = parent, pc_target = target, pc_observed = observed,
       pc_publishHead = (if already then pp_Head observed else head), pc_already = already\<rparr>))))))"

definition push_args :: "PublishRequest \<Rightarrow> gostring \<Rightarrow> gostring list" where
  "push_args req head = (let branch = pb_ExpectedBranch req in
     [''push'', ''--force-with-lease=refs/heads/'' @ branch @ '':'' @ (if pb_ExpectedHead req = ''absent'' then [] else pb_ExpectedHead req),
      publish_remote req, head @ '':refs/heads/'' @ branch])"

definition push_publication :: "'w publication_env \<Rightarrow> PublishRequest \<Rightarrow> gostring \<Rightarrow> 'w \<Rightarrow> (go_error + unit) \<times> 'w" where
  "push_publication E req head w = (case runGit E (pb_RepoRoot req) (push_args req head) w of (_, w) \<Rightarrow>
     bind_op (wrap_op (\<lambda>e. ErrWrap ''publication push result unknown; readback'' [e])
       (remotePublicationHead E (pb_RepoRoot req) (publish_remote req) (pb_ExpectedBranch req))) (\<lambda>actual.
     if actual \<noteq> head
     then fail_op (Failure FailurePublication (ErrNew (''publication push did not establish expected head '' @ head @ '' (observed '' @ actual @ '')'')))
     else return_op ()) w)"

definition update_publication :: "'w publication_env \<Rightarrow> PublishRequest \<Rightarrow> prepared \<Rightarrow> 'w \<Rightarrow> (go_error + publicationPR) \<times> 'w" where
  "update_publication E req p = (let observed = pc_observed p; path = pull_path (pb_Repository req) (pp_Number observed); base = publish_base_branch req in
     bind_op (pe_pr E path) (\<lambda>before.
     if \<not> unchanged_pr before observed (pb_ExpectedBranch req) (pb_Repository req) base
     then fail_op (publicationPolicy ''PR changed after push; retain the remote state for inspection'')
     else if pc_already p \<and> pp_Reusable observed \<and>
         publicationProjectionMatches (pu_Body before) base (pb_TargetRef req) (pb_TargetKind req) (pb_TargetSHA req) (pc_publishHead p)
     then return_op before
     else (\<lambda>w. case pe_patch E path (publicationTitle (pb_TargetRef req))
         (updateSyncMetadata (pu_Body before) base (pb_TargetRef req) (pb_TargetKind req) (pb_TargetSHA req) (pc_publishHead p)) w of (_, w) \<Rightarrow>
       wrap_op (\<lambda>e. ErrWrap ''PR update result unknown'' [e]) (pe_pr E path) w)))"

definition create_publication :: "'w publication_env \<Rightarrow> PublishRequest \<Rightarrow> prepared \<Rightarrow> 'w \<Rightarrow> (go_error + publicationPR) \<times> 'w" where
  "create_publication E req p w = (let base = publish_base_branch req in
     case pe_post E (''repos/'' @ pb_Repository req @ ''/pulls'') (pb_ExpectedBranch req) base (publicationTitle (pb_TargetRef req))
       (publicationBody base (pb_TargetRef req) (pb_TargetKind req) (pb_TargetSHA req) (pc_publishHead p)) w of (_, w) \<Rightarrow>
     bind_op (wrap_op (\<lambda>e. ErrWrap ''PR creation result unknown'' [e]) (listPublicationPRs E (pb_Repository req))) (\<lambda>listed.
       case filter (\<lambda>pr. rf_Ref (pu_Head pr) = pb_ExpectedBranch req \<and> pu_State pr = ''open'') listed of
         [pr] \<Rightarrow> return_op pr
       | matches \<Rightarrow> fail_op (ErrNew (''PR creation has '' @ itoa (length matches) @ '' confirmed matches''))) w)"

definition appendGitHubOutput :: "'w publication_env \<Rightarrow> gostring \<Rightarrow> (gostring \<times> gostring) list \<Rightarrow> 'w \<Rightarrow> go_error option \<times> 'w" where
  "appendGitHubOutput E path values w = (if path = [] then (None, w) else pe_output E path values w)"

definition publicationResult :: "'w publication_env \<Rightarrow> PublishRequest \<Rightarrow> gostring \<Rightarrow> int \<Rightarrow> gostring \<Rightarrow> gostring \<Rightarrow> 'w \<Rightarrow> (go_error + gostring) \<times> 'w" where
  "publicationResult E req url number branch head w =
     (case appendGitHubOutput E (pb_GitHubOutputPath req) [(''outcome'', ''pr_pending''), (''pr_url'', url), (''pr_number'', fmt_int number),
         (''sync_branch'', branch), (''sync_commit'', head)] w of
        (Some e, w) \<Rightarrow> (Inl e, w) | (None, w) \<Rightarrow> (Inr url, w))"

definition confirm_publication :: "'w publication_env \<Rightarrow> PublishRequest \<Rightarrow> prepared \<Rightarrow> publicationPR \<Rightarrow> 'w \<Rightarrow> (go_error + gostring) \<times> 'w" where
  "confirm_publication E req p pr = (let branch = pb_ExpectedBranch req; base = publish_base_branch req; head = pc_publishHead p in
     if pu_State pr \<noteq> ''open'' \<or> rf_Ref (pu_Head pr) \<noteq> branch \<or> rf_FullName (pu_Head pr) \<noteq> pb_Repository req \<or> rf_Ref (pu_Base pr) \<noteq> base
     then fail_op (publicationPolicy ''PR readback does not match the publication object; it remains unconfirmed'')
     else if \<not> publicationProjectionMatches (pu_Body pr) base (pb_TargetRef req) (pb_TargetKind req) (pb_TargetSHA req) head
     then fail_op (publicationPolicy ''PR metadata projection did not converge to the published Git identity'')
     else bind_op (check_op (verifyAppActor (pu_User pr) (pb_AppBotID req))) (\<lambda>_.
       bind_op (gitOutput E (pb_RepoRoot req) [''ls-remote'', publish_remote req, ''refs/heads/'' @ base]) (\<lambda>latest.
       if length (str_fields latest) \<noteq> 2 \<or> hd (str_fields latest) \<noteq> pc_parent p
       then fail_op (Failure FailurePublication (ErrNew ''base moved during publication; PR remains pending and must be rebuilt''))
       else bind_op (remotePublicationHead E (pb_RepoRoot req) (publish_remote req) branch) (\<lambda>finalHead.
         if finalHead \<noteq> head then fail_op (publicationPolicy ''remote head changed during publication; preserving concurrent changes'')
         else publicationResult E req (pu_URL pr) (pu_Number pr) branch head))))"

definition publishCandidate :: "'w publication_env \<Rightarrow> PublishRequest \<Rightarrow> 'w \<Rightarrow> (go_error + gostring) \<times> 'w" where
  "publishCandidate E req =
     (if pb_RepoRoot req = [] \<or> pb_BaseBranch req = [] \<or> pb_TargetRef req = [] \<or> pb_TargetKind req = [] \<or> \<not> sha_match (pb_TargetSHA req)
      then fail_op (ErrNew ''repo-root, base-branch, and exact target identity are required'')
      else bind_op (publish_prepare E req) (\<lambda>p.
        bind_op (if pc_already p then return_op () else push_publication E req (pc_head p)) (\<lambda>_.
        bind_op (if pp_Number (pc_observed p) \<noteq> 0 then update_publication E req p else create_publication E req p) (\<lambda>pr.
        confirm_publication E req p pr))))"

definition Publish :: "'w publication_env \<Rightarrow> PublishRequest \<Rightarrow> 'w \<Rightarrow> (go_error + gostring) \<times> 'w" where
  "Publish E req w = (case publishCandidate E req w of
      (Inl e, w) \<Rightarrow> (case appendGitHubOutput E (pb_GitHubOutputPath req)
          [(''outcome'', ''failed''), (''stage'', ''publication''), (''failure_category'', failureCategory e)] w of (_, w) \<Rightarrow> (Inl e, w))
    | (Inr url, w) \<Rightarrow> (Inr url, w))"

end
