(* ===== verification/Publish_Proof.thy ===== *)
theory Publish_Proof
  imports Publish_Candidate
begin

text \<open>
  What the effects of a publication rest on, over the log of \<open>Publication_Log\<close>: the checks before the push write nothing outside,
  the one push carries the lease that was observed, and the API is written only for a revision that was read from the branch.
\<close>

section \<open>Kinds of requests\<close>

fun is_push :: "pub_event \<Rightarrow> bool" where
  "is_push (EvGit args _ _) \<longleftrightarrow> git_verb args = ''push''"
| "is_push _ \<longleftrightarrow> False"

fun api_write :: "pub_event \<Rightarrow> bool" where
  "api_write (EvPatch _ _ _ _) \<longleftrightarrow> True"
| "api_write (EvPost _ _ _ _ _ _) \<longleftrightarrow> True"
| "api_write _ \<longleftrightarrow> False"

definition quiet_event :: "pub_event \<Rightarrow> bool" where
  "quiet_event ev \<longleftrightarrow> \<not> is_push ev \<and> \<not> api_write ev"

lemma quiet_git [simp]: "quiet_event (EvGit args inp r) \<longleftrightarrow> git_verb args \<noteq> ''push''"
  by (simp add: quiet_event_def)

lemma git_verb_C [simp]: "git_verb (''-C'' # dir # verb # args) = verb"
  by (simp add: git_verb_def)

lemma inspection_quiet: "inspection_event ev \<Longrightarrow> quiet_event ev"
  by (cases ev) (auto simp: quiet_event_def)

lemma adds_inspected: "adds quiet_event (InspectPending (logged_env E) req) (inspected E req)"
  by (rule adds_weaken[OF adds_mono[OF adds_inspect]]) (auto intro: inspection_quiet)

section \<open>The checks before the push\<close>

definition clean_tree :: "gostring \<Rightarrow> pub_event set \<Rightarrow> bool" where
  "clean_tree root S \<longleftrightarrow> (\<exists>tracked untracked.
     git_event root [''diff'', ''--name-only'', ''--no-renames'', ''-z'', ''HEAD'', ''--''] tracked \<in> S \<and>
     git_event root [''ls-files'', ''--others'', ''--exclude-standard'', ''-z''] untracked \<in> S \<and>
     (\<forall>name \<in> set (split_on NUL tracked @ split_on NUL untracked). name = []))"

lemma no_names:
  assumes "sort (remdups (filter (\<lambda>p. p \<noteq> []) (filter (\<lambda>raw. raw \<noteq> []) xs @ filter (\<lambda>raw. raw \<noteq> []) ys))) = ([] :: gostring list)"
  shows "\<forall>name \<in> set (xs @ ys). name = []"
proof -
  have "set (sort (remdups (filter (\<lambda>p. p \<noteq> []) (filter (\<lambda>raw. raw \<noteq> []) xs @ filter (\<lambda>raw. raw \<noteq> []) ys)))) = {}" using assms by simp
  then show ?thesis by auto
qed

lemma adds_clean: "adds quiet_event (AssertClean (pe_repo (logged_env E)) root) (\<lambda>_ S. clean_tree root S)"
proof -
  have paths: "adds quiet_event (ChangedPaths (pe_repo (logged_env E)) root) (\<lambda>paths S. paths = [] \<longrightarrow> clean_tree root S)"
    unfolding ChangedPaths_def
  proof (rule adds_weaken, rule adds_bind[OF adds_gitNUL], simp, rule adds_bind[OF adds_gitNUL], simp, rule adds_return)
    fix paths S
    assume "\<exists>a. (\<exists>out. git_event root [''diff'', ''--name-only'', ''--no-renames'', ''-z'', ''HEAD'', ''--''] out \<in> S \<and> a = filter (\<lambda>raw. raw \<noteq> []) (split_on NUL out)) \<and>
      (\<exists>b. (\<exists>out. git_event root [''ls-files'', ''--others'', ''--exclude-standard'', ''-z''] out \<in> S \<and> b = filter (\<lambda>raw. raw \<noteq> []) (split_on NUL out)) \<and>
        paths = sort (remdups (filter (\<lambda>p. p \<noteq> []) (a @ b))))"
    then obtain o1 o2 where "git_event root [''diff'', ''--name-only'', ''--no-renames'', ''-z'', ''HEAD'', ''--''] o1 \<in> S"
      "git_event root [''ls-files'', ''--others'', ''--exclude-standard'', ''-z''] o2 \<in> S"
      "paths = sort (remdups (filter (\<lambda>p. p \<noteq> []) (filter (\<lambda>raw. raw \<noteq> []) (split_on NUL o1) @ filter (\<lambda>raw. raw \<noteq> []) (split_on NUL o2))))"
      by blast
    then show "paths = [] \<longrightarrow> clean_tree root S" unfolding clean_tree_def using no_names by metis
  qed
  have none: "adds quiet_event (if names = [] then return_op () else fail_op e) (\<lambda>_ S. names = [])" for names e
    by (auto intro: adds_weaken[OF adds_return] adds_fail)
  show ?thesis
    unfolding AssertClean_def by (rule adds_weaken[OF adds_bind[OF paths none]]) blast
qed

lemma adds_resolve_candidates:
  "adds K (resolve_candidates (\<lambda>remote pats. lift_op (ls remote pats)) remote ref cs) (\<lambda>_ S. True)"
proof (induction cs)
  case Nil
  show ?case by (rule addsI) simp
next
  case (Cons c cs)
  have step: "resolve_candidates (\<lambda>remote pats. lift_op (ls remote pats)) remote ref (c # cs) = bind_op (lift_op (ls remote [c])) (\<lambda>out.
      if firstRemoteSHA out \<noteq> [] then return_op ([], firstRemoteSHA out) else resolve_candidates (\<lambda>remote pats. lift_op (ls remote pats)) remote ref cs)"
    by (rule ext) (auto simp: bind_op_def return_op_def Let_def split: prod.splits sum.splits)
  show ?case
    unfolding step by (rule adds_true[OF adds_bind[OF adds_lift]], rule adds_if, rule adds_true[OF adds_return], rule Cons)
qed

lemma adds_resolve: "adds K (ResolveUpstream (pe_lookup (logged_env E)) rq) (\<lambda>_ S. True)"
proof -
  let ?ls = "\<lambda>remote pats. lift_op (pe_lookup E remote pats)"
  have remote: "adds K (resolveRemoteRef ?ls remote ref) (\<lambda>_ S. True)" for remote ref
    unfolding resolveRemoteRef_def Let_def
    by (rule adds_if, rule adds_true[OF adds_return], rule adds_true[OF adds_bind[OF adds_lift]], rule adds_if, rule adds_true[OF adds_return],
        rule adds_resolve_candidates)
  have latest: "adds K (if c then return_op ref else bind_op (?ls remote pats) (\<lambda>out w. (latestStableRustTag out, w))) (\<lambda>_ S. True)" for c ref remote pats
    by (rule adds_if, rule adds_true[OF adds_return], rule adds_true[OF adds_bind[OF adds_lift adds_pure]])
  have result: "adds K (case x of (t, p) \<Rightarrow> return_op (f t p)) (\<lambda>_ S. True)" for x and f :: "gostring \<Rightarrow> gostring \<Rightarrow> Target"
    by (cases x) (auto intro: adds_true[OF adds_return])
  show ?thesis
    unfolding ResolveUpstream_def Let_def logged_simps
    by (rule adds_if, rule adds_fail, rule adds_true[OF adds_bind[OF latest]], rule adds_bind[OF remote result])
qed

lemma adds_resolve_wanted:
  "adds K (resolve_wanted (logged_env E) req) (\<lambda>target S. target_identity target = wanted_identity req)"
  unfolding resolve_wanted_def
  by (rule adds_weaken, rule adds_bind[OF adds_resolve], rule adds_guard, rule adds_return) auto

lemma adds_landing:
  "adds quiet_event (fetch_landing (logged_env E) req) (\<lambda>landing S. \<exists>out. git_event (pb_RepoRoot req) [''rev-parse'', publish_remote req @ ''/'' @ publish_base_branch req] out \<in> S \<and>
     landing = trim_space out)"
  unfolding fetch_landing_def Let_def
  by (rule adds_weaken, rule adds_bind[OF adds_runGit], simp add: git_verb_def, rule adds_bind[OF adds_git], simp, rule adds_return) auto

lemma adds_contained: "adds quiet_event (contained_parents (logged_env E) repo main ps) (\<lambda>_ S. True)"
proof (induction ps)
  case Nil
  show ?case by (rule addsI) simp
next
  case (Cons p ps)
  let ?m = "runGit (logged_env E) repo [''merge-base'', ''--is-ancestor'', p, main]" and ?rest = "contained_parents (logged_env E) repo main ps"
  have m: "adds quiet_event ?m (\<lambda>_ S. True)" by (rule adds_true[OF adds_runGit]) (simp add: git_verb_def)
  have k: "adds quiet_event (bind_op ?rest (\<lambda>rest. return_op (p # rest))) (\<lambda>_ S. True)" by (rule adds_true[OF adds_bind[OF Cons adds_return]])
  show ?case
  proof (rule addsI)
    fix s r s'
    assume run: "contained_parents (logged_env E) repo main (p # ps) s = (r, s')"
    obtain r1 s1 where r1: "?m s = (r1, s1)" by (cases "?m s") blast
    from m r1 obtain evs where evs: "fst s1 = fst s @ evs" "list_all quiet_event evs" by (rule addsE)
    have "?rest s1 = (r, s') \<or> bind_op ?rest (\<lambda>rest. return_op (p # rest)) s1 = (r, s')" using run r1 by (auto split: sum.splits)
    then obtain evs2 where "fst s' = fst s1 @ evs2" "list_all quiet_event evs2" using Cons k by (metis addsE)
    with evs show "\<exists>evs. fst s' = fst s @ evs \<and> list_all quiet_event evs \<and> (\<forall>a S. r = Inr a \<longrightarrow> set evs \<subseteq> S \<longrightarrow> True)" by auto
  qed
qed

lemma adds_repair_parent: "adds quiet_event (containedRepairParent (logged_env E) repo head main) (\<lambda>_ S. True)"
proof -
  have one: "adds quiet_event (case contained of [parent] \<Rightarrow> return_op parent | _ \<Rightarrow> fail_op e) (\<lambda>_ S. True)" for contained e
    by (auto split: list.split intro: adds_true[OF adds_return])
  show ?thesis
    unfolding containedRepairParent_def Let_def
    by (rule adds_true[OF adds_bind[OF adds_git]], simp, rule adds_guard, rule adds_bind[OF adds_contained one])
qed

text \<open>Operations of which only the kinds of requests matter.\<close>

lemma adds_bind_true: "adds K m Q \<Longrightarrow> (\<And>a. adds K (k a) (\<lambda>_ S. True)) \<Longrightarrow> adds K (bind_op m k) (\<lambda>_ S. True)"
  by (rule adds_true[OF adds_bind])

lemma adds_guard_true: "adds K n (\<lambda>_ S. True) \<Longrightarrow> adds K (if c then fail_op e else n) (\<lambda>_ S. True)"
  by (rule adds_true[OF adds_guard])

lemma adds_materialize: "adds quiet_event (materializeRepairCommit (logged_env E) req) (\<lambda>_ S. True)"
proof -
  have patch: "adds quiet_event (applyRepairPatch (logged_env E) repo patch) (\<lambda>_ S. True)" for repo patch
    unfolding applyRepairPatch_def logged_simps by (rule adds_true[OF adds_wrap[OF adds_log]]) simp
  show ?thesis
    unfolding materializeRepairCommit_def Let_def
    by (rule adds_guard_true, rule adds_guard_true, rule adds_bind_true[OF adds_clean], rule adds_bind_true[OF adds_git], simp,
        rule adds_bind_true[OF adds_landing], rule adds_guard_true, rule adds_bind_true[OF adds_resolve_wanted], rule adds_bind_true[OF adds_inspected],
        rule adds_guard_true, rule adds_bind_true[OF adds_repair_parent], rule adds_bind_true[OF adds_gitNUL], simp, rule adds_guard_true,
        rule adds_bind_true[OF adds_check], rule adds_bind_true[OF adds_git], simp, rule adds_bind_true[OF patch], rule adds_true[OF adds_runGit])
      (simp add: git_verb_def)
qed

definition based :: "PublishRequest \<Rightarrow> gostring \<Rightarrow> gostring \<Rightarrow> pub_event set \<Rightarrow> bool" where
  "based req head parent S \<longleftrightarrow> clean_tree (pb_RepoRoot req) S \<and>
     (\<exists>out. git_event (pb_RepoRoot req) [''rev-parse'', ''HEAD''] out \<in> S \<and> trim_space out = head) \<and>
     (\<exists>out. git_event (pb_RepoRoot req) [''rev-parse'', ''HEAD^''] out \<in> S \<and> trim_space out = parent) \<and>
     (\<exists>out. git_event (pb_RepoRoot req) [''rev-parse'', publish_remote req @ ''/'' @ publish_base_branch req] out \<in> S \<and> trim_space out = parent)"

lemma adds_candidate_base: "adds quiet_event (candidate_base (logged_env E) req) (\<lambda>(head, parent) S. based req head parent S)"
  unfolding candidate_base_def
  by (rule adds_weaken, rule adds_bind[OF adds_clean], rule adds_bind[OF adds_git], simp, rule adds_bind[OF adds_landing],
      rule adds_bind[OF adds_git], simp, rule adds_guard, rule adds_guard, rule adds_return) (auto simp: based_def)

definition identified :: "'w publication_env \<Rightarrow> PublishRequest \<Rightarrow> gostring \<Rightarrow> gostring \<Rightarrow> pub_event set \<Rightarrow> bool" where
  "identified E req head parent S \<longleftrightarrow>
     (\<exists>raw. git_event (pb_RepoRoot req) [''show'', head @ '':'' @ metadata_path] raw \<in> S \<and> pe_identity E raw = Inr (wanted_identity req)) \<and>
     (\<exists>out. git_event (pb_RepoRoot req) [''diff'', ''--name-only'', ''--no-renames'', ''-z'', parent, head, ''--''] out \<in> S \<and>
        validatePaths (filter (\<lambda>raw. raw \<noteq> []) (split_on NUL out)) ''final'' = None)"

lemma adds_candidate_identity: "adds quiet_event (candidate_identity (logged_env E) req head parent) (\<lambda>_ S. identified E req head parent S)"
  unfolding candidate_identity_def
  by (rule adds_weaken, rule adds_bind[OF adds_identity], simp, rule adds_guard, rule adds_bind[OF adds_gitNUL], simp, rule adds_check)
    (auto simp: identified_def)

definition same_tree :: "PublishRequest \<Rightarrow> gostring \<Rightarrow> gostring \<Rightarrow> pub_event set \<Rightarrow> bool" where
  "same_tree req a b S \<longleftrightarrow> (\<exists>tree. git_event (pb_RepoRoot req) [''rev-parse'', a @ ''^{tree}''] tree \<in> S \<and> git_event (pb_RepoRoot req) [''rev-parse'', b @ ''^{tree}''] tree \<in> S)"

lemma adds_published_before:
  "adds quiet_event (published_before (logged_env E) req head parent observed)
     (\<lambda>already S. already \<longrightarrow> pp_Head observed \<noteq> ''absent'' \<and> pp_BaseSHA observed = parent \<and> pp_Target observed = wanted_identity req \<and>
       same_tree req (pp_Head observed) head S)"
proof -
  have trees: "adds quiet_event (bind_op (gitOutput (logged_env E) (pb_RepoRoot req) [''rev-parse'', pp_Head observed @ ''^{tree}'']) (\<lambda>oldTree.
        bind_op (gitOutput (logged_env E) (pb_RepoRoot req) [''rev-parse'', head @ ''^{tree}'']) (\<lambda>newTree. return_op (oldTree = newTree))))
      (\<lambda>already S. already \<longrightarrow> same_tree req (pp_Head observed) head S)"
    by (rule adds_weaken, rule adds_bind[OF adds_git], simp, rule adds_bind[OF adds_git], simp, rule adds_return) (auto simp: same_tree_def)
  show ?thesis
    unfolding published_before_def
    by (rule adds_if, rule adds_weaken[OF trees], blast, rule adds_weaken[OF adds_return], blast)
qed

definition prepared_facts :: "'w publication_env \<Rightarrow> PublishRequest \<Rightarrow> prepared \<Rightarrow> pub_event set \<Rightarrow> bool" where
  "prepared_facts E req p S \<longleftrightarrow> based req (pc_head p) (pc_parent p) S \<and> target_identity (pc_target p) = wanted_identity req \<and>
     identified E req (pc_head p) (pc_parent p) S \<and> sync_branch (pb_ExpectedBranch req) \<and>
     inspected E (publish_inspection req (pc_parent p) (pc_target p) (pb_RepairPending req)) (pc_observed p) S \<and>
     pp_Branch (pc_observed p) = pb_ExpectedBranch req \<and>
     (if pc_already p
      then pc_publishHead p = pp_Head (pc_observed p) \<and> pp_Head (pc_observed p) \<noteq> ''absent'' \<and> pp_BaseSHA (pc_observed p) = pc_parent p \<and>
        pp_Target (pc_observed p) = wanted_identity req \<and> same_tree req (pp_Head (pc_observed p)) (pc_head p) S
      else pc_publishHead p = pc_head p \<and> pp_Head (pc_observed p) = pb_ExpectedHead req)"

lemma adds_prepare: "adds quiet_event (publish_prepare (logged_env E) req) (prepared_facts E req)"
proof -
  have repair: "adds quiet_event (if pb_RepairPending req then materializeRepairCommit (logged_env E) req else return_op ()) (\<lambda>_ S. True)"
    by (rule adds_if, rule adds_materialize, rule adds_true[OF adds_return])
  have rest: "adds quiet_event (case x of (head, parent) \<Rightarrow>
     bind_op (resolve_wanted (logged_env E) req) (\<lambda>target.
     bind_op (candidate_identity (logged_env E) req head parent) (\<lambda>_.
     bind_op (InspectPending (logged_env E) (publish_inspection req parent target (pb_RepairPending req))) (\<lambda>observed.
     if \<not> sync_branch (pb_ExpectedBranch req) then fail_op e1
     else bind_op (published_before (logged_env E) req head parent observed) (\<lambda>already.
     if pp_Branch observed \<noteq> pb_ExpectedBranch req \<or> (\<not> already \<and> pp_Head observed \<noteq> pb_ExpectedHead req) then fail_op (e2 observed)
     else return_op \<lparr>pc_head = head, pc_parent = parent, pc_target = target, pc_observed = observed,
       pc_publishHead = (if already then pp_Head observed else head), pc_already = already\<rparr>)))))
    (\<lambda>p S. x = (pc_head p, pc_parent p) \<and> (based req (pc_head p) (pc_parent p) S \<longrightarrow> prepared_facts E req p S))" for x e1 e2
    unfolding prepared_facts_def
    by (cases x, simp only: prod.case, rule adds_weaken, rule adds_bind[OF adds_resolve_wanted], rule adds_bind[OF adds_candidate_identity],
        rule adds_bind[OF adds_inspected], rule adds_guard, rule adds_bind[OF adds_published_before], rule adds_guard, rule adds_return)
      (elim exE conjE, simp, blast)
  show ?thesis
    unfolding publish_prepare_def
    by (rule adds_weaken, rule adds_bind[OF repair], rule adds_bind[OF adds_candidate_base], rule rest) auto
qed

section \<open>Push, pull request and confirmation\<close>

definition branch_at :: "PublishRequest \<Rightarrow> gostring \<Rightarrow> pub_event set \<Rightarrow> bool" where
  "branch_at req head S \<longleftrightarrow> sha_match head \<and>
     (\<exists>out ref. git_event (pb_RepoRoot req) [''ls-remote'', publish_remote req, ''refs/heads/'' @ pb_ExpectedBranch req] out \<in> S \<and> str_fields out = [head, ref])"

text \<open>A push is one Git command, followed by a reading of the branch.\<close>

lemma push_publication_log:
  assumes "push_publication (logged_env E) req head s = (r, s')" "pb_RepoRoot req \<noteq> []"
  shows "\<exists>pushed evs. fst s' = fst s @ EvGit (''-C'' # pb_RepoRoot req # push_args req head) [] pushed # evs \<and> list_all quiet_event evs \<and>
    (r = Inr () \<longrightarrow> head = [] \<or> branch_at req head (set evs))"
proof -
  let ?args = "''-C'' # pb_RepoRoot req # push_args req head"
  obtain pushed w1 where push: "rp_git (pe_repo E) ?args [] (snd s) = (pushed, w1)" by (cases "rp_git (pe_repo E) ?args [] (snd s)") blast
  let ?s1 = "(fst s @ [EvGit ?args [] pushed], w1)"
  let ?rest = "bind_op (wrap_op (\<lambda>e. ErrWrap ''publication push result unknown; readback'' [e])
       (remotePublicationHead (logged_env E) (pb_RepoRoot req) (publish_remote req) (pb_ExpectedBranch req))) (\<lambda>actual.
     if actual \<noteq> head
     then fail_op (Failure FailurePublication (ErrNew (''publication push did not establish expected head '' @ head @ '' (observed '' @ actual @ '')'')))
     else return_op ())"
  have log: "snd (runGit (logged_env E) (pb_RepoRoot req) (push_args req head) s) = ?s1"
    using push assms(2) by (auto simp: runGit_def bind_op_def wrap_op_def return_op_def log_op_def split: sum.splits)
  have run: "?rest ?s1 = (r, s')"
    using assms(1) log unfolding push_publication_def by (simp split: prod.splits)
  have rest: "adds quiet_event ?rest (\<lambda>_ S. head = [] \<or> branch_at req head S)"
    by (rule adds_weaken, rule adds_bind[OF adds_wrap[OF adds_remote_head]], simp, rule adds_guard, rule adds_return) (auto simp: branch_at_def)
  from rest run obtain evs where evs: "fst s' = fst ?s1 @ evs" "list_all quiet_event evs"
    "\<forall>a S. r = Inr a \<longrightarrow> set evs \<subseteq> S \<longrightarrow> head = [] \<or> branch_at req head S" by (rule addsE)
  then show ?thesis by (intro exI[of _ pushed] exI[of _ evs]) auto
qed

text \<open>The writes of the API: an update of the observed pull request, or a new one, for the published revision.\<close>

fun publication_write :: "PublishRequest \<Rightarrow> prepared \<Rightarrow> pub_event \<Rightarrow> bool" where
  "publication_write req p (EvPatch path title body _) \<longleftrightarrow> pp_Number (pc_observed p) \<noteq> 0 \<and>
     path = pull_path (pb_Repository req) (pp_Number (pc_observed p)) \<and>
     (\<exists>before. unchanged_pr before (pc_observed p) (pb_ExpectedBranch req) (pb_Repository req) (publish_base_branch req) \<and>
        body = updateSyncMetadata (pu_Body before) (publish_base_branch req) (pb_TargetRef req) (pb_TargetKind req) (pb_TargetSHA req) (pc_publishHead p))"
| "publication_write req p (EvPost path head base title body _) \<longleftrightarrow> pp_Number (pc_observed p) = 0 \<and>
     path = ''repos/'' @ pb_Repository req @ ''/pulls'' \<and> head = pb_ExpectedBranch req \<and> base = publish_base_branch req \<and>
     body = publicationBody base (pb_TargetRef req) (pb_TargetKind req) (pb_TargetSHA req) (pc_publishHead p)"
| "publication_write req p ev \<longleftrightarrow> \<not> is_push ev"

lemma quiet_write: "quiet_event ev \<Longrightarrow> publication_write req p ev"
  by (cases ev) (auto simp: quiet_event_def)

text \<open>An operation whose own result does not matter, followed by another.\<close>

lemma adds_then:
  assumes "\<And>r. K (ev r)" "adds K m Q"
  shows "adds K (\<lambda>s. case log_op ev f s of (_, s) \<Rightarrow> m s) Q"
proof (rule addsI)
  fix s r s'
  assume run: "(case log_op ev f s of (_, s) \<Rightarrow> m s) = (r, s')"
  obtain a w where f: "f (snd s) = (a, w)" by (cases "f (snd s)") blast
  with run have "m (fst s @ [ev a], w) = (r, s')" by (simp add: log_op_def)
  with assms(2) obtain evs where "fst s' = fst (fst s @ [ev a], w) @ evs" "list_all K evs" "\<forall>b S. r = Inr b \<longrightarrow> set evs \<subseteq> S \<longrightarrow> Q b S"
    by (rule addsE)
  with assms(1) show "\<exists>evs. fst s' = fst s @ evs \<and> list_all K evs \<and> (\<forall>a S. r = Inr a \<longrightarrow> set evs \<subseteq> S \<longrightarrow> Q a S)"
    by (intro exI[of _ "ev a # evs"]) auto
qed

definition read_back :: "publicationPR \<Rightarrow> pub_event set \<Rightarrow> bool" where
  "read_back pr S \<longleftrightarrow> (\<exists>path. EvPull path (Inr pr) \<in> S) \<or> (\<exists>path prs. EvList path (Inr prs) \<in> S \<and> pr \<in> set prs)"

lemma adds_update:
  assumes "pp_Number (pc_observed p) \<noteq> 0"
  shows "adds (publication_write req p) (update_publication (logged_env E) req p) read_back"
proof -
  let ?path = "pull_path (pb_Repository req) (pp_Number (pc_observed p))"
  have again: "adds (publication_write req p) (wrap_op f (log_op (EvPull ?path) (pe_pr E ?path))) read_back" for f
    by (rule adds_weaken, rule adds_wrap[OF adds_log]) (auto simp: read_back_def)
  have rest: "adds (publication_write req p) (if \<not> unchanged_pr before (pc_observed p) (pb_ExpectedBranch req) (pb_Repository req) (publish_base_branch req) then fail_op e
      else if c then return_op before
      else (\<lambda>w. case log_op (EvPatch ?path title (updateSyncMetadata (pu_Body before) (publish_base_branch req) (pb_TargetRef req) (pb_TargetKind req) (pb_TargetSHA req) (pc_publishHead p)))
          (pe_patch E ?path title (updateSyncMetadata (pu_Body before) (publish_base_branch req) (pb_TargetRef req) (pb_TargetKind req) (pb_TargetSHA req) (pc_publishHead p))) w of
        (_, w) \<Rightarrow> wrap_op f (log_op (EvPull ?path) (pe_pr E ?path)) w)) (\<lambda>pr S. pr = before \<or> read_back pr S)" for before e c title f
    by (intro adds_if adds_fail adds_weaken[OF adds_return] adds_weaken[OF adds_then[OF _ again]]) (use assms in auto)
  show ?thesis
    unfolding update_publication_def Let_def logged_simps
    by (rule adds_weaken, rule adds_bind[OF adds_log], simp, rule rest) (auto simp: read_back_def)
qed

lemma adds_create:
  assumes "pp_Number (pc_observed p) = 0"
  shows "adds (publication_write req p) (create_publication (logged_env E) req p) read_back"
proof -
  have listed: "adds (publication_write req p) (listPublicationPRs (logged_env E) (pb_Repository req)) (\<lambda>prs S. \<forall>pr \<in> set prs. read_back pr S)"
    unfolding listPublicationPRs_def
    by (rule adds_weaken[OF adds_mono[OF adds_list_pages]]) (auto simp: read_back_def intro: quiet_write inspection_quiet)
  have one: "adds (publication_write req p) (case filter P prs of [pr] \<Rightarrow> return_op pr | matches \<Rightarrow> fail_op (e matches)) (\<lambda>pr S. pr \<in> set prs)"
    for P e and prs :: "publicationPR list"
  proof (cases "filter P prs")
    case (Cons pr rest)
    then have "pr \<in> set (filter P prs)" by simp
    then have "pr \<in> set prs" by simp
    with Cons show ?thesis by (auto split: list.splits intro: adds_weaken[OF adds_return])
  qed auto
  show ?thesis
    unfolding create_publication_def Let_def logged_simps
    by (rule adds_then, use assms in simp, rule adds_weaken, rule adds_bind[OF adds_wrap[OF listed]], rule one) auto
qed

definition confirmed :: "PublishRequest \<Rightarrow> prepared \<Rightarrow> publicationPR \<Rightarrow> pub_event set \<Rightarrow> bool" where
  "confirmed req p pr S \<longleftrightarrow> pu_State pr = ''open'' \<and> rf_Ref (pu_Head pr) = pb_ExpectedBranch req \<and> rf_FullName (pu_Head pr) = pb_Repository req \<and>
     rf_Ref (pu_Base pr) = publish_base_branch req \<and> verifyAppActor (pu_User pr) (pb_AppBotID req) = None \<and>
     publicationProjectionMatches (pu_Body pr) (publish_base_branch req) (pb_TargetRef req) (pb_TargetKind req) (pb_TargetSHA req) (pc_publishHead p) \<and>
     (\<exists>out ref. git_event (pb_RepoRoot req) [''ls-remote'', publish_remote req, ''refs/heads/'' @ publish_base_branch req] out \<in> S \<and>
        str_fields out = [pc_parent p, ref]) \<and>
     (pc_publishHead p = [] \<or> branch_at req (pc_publishHead p) S)"

lemma adds_confirm: "adds quiet_event (confirm_publication (logged_env E) req p pr) (\<lambda>url S. url = pu_URL pr \<and> confirmed req p pr S)"
proof -
  have result: "adds quiet_event (publicationResult (logged_env E) req url number branch head) (\<lambda>u S. u = url)" for url number branch head
    by (rule addsI) (auto simp: publicationResult_def appendGitHubOutput_def lift_op_def split: prod.splits option.splits if_splits)
  show ?thesis
    unfolding confirm_publication_def Let_def
    by (rule adds_weaken, rule adds_guard, rule adds_guard, rule adds_bind[OF adds_check], rule adds_bind[OF adds_git], simp, rule adds_guard,
        rule adds_bind[OF adds_remote_head], simp, rule adds_guard, rule result)
      (auto simp: confirmed_def branch_at_def length_Suc_conv numeral_2_eq_2)
qed

section \<open>The publication\<close>

lemma bind_op_run:
  assumes "bind_op m k s = (r, s')"
  obtains e where "m s = (Inl e, s')" "r = Inl e" | a s1 where "m s = (Inr a, s1)" "k a s1 = (r, s')"
  using assms by (auto simp: bind_op_def split: prod.splits sum.splits)

text \<open>The log after the checks: the push unless the tree is published already, then the pull request and the confirmation.\<close>

definition pushed_log :: "PublishRequest \<Rightarrow> prepared \<Rightarrow> pub_event list \<Rightarrow> pub_event list \<Rightarrow> bool" where
  "pushed_log req p pushes later \<longleftrightarrow> list_all (publication_write req p) later \<and>
     (if pc_already p then pushes = []
      else \<exists>r evs. pushes = EvGit (''-C'' # pb_RepoRoot req # push_args req (pc_head p)) [] r # evs \<and> list_all quiet_event evs \<and>
        (later \<noteq> [] \<longrightarrow> pc_head p = [] \<or> branch_at req (pc_head p) (set evs)))"

lemma finish_log:
  assumes "bind_op (if pp_Number (pc_observed p) \<noteq> 0 then update_publication (logged_env E) req p else create_publication (logged_env E) req p)
      (\<lambda>pr. confirm_publication (logged_env E) req p pr) s = (r, s')"
  shows "\<exists>evs. fst s' = fst s @ evs \<and> list_all (publication_write req p) evs \<and>
    (\<forall>url. r = Inr url \<longrightarrow> (\<exists>pr. url = pu_URL pr \<and> read_back pr (set evs) \<and> confirmed req p pr (set evs)))"
proof -
  have confirm: "adds (publication_write req p) (confirm_publication (logged_env E) req p pr) (\<lambda>url S. url = pu_URL pr \<and> confirmed req p pr S)" for pr
    by (rule adds_mono[OF adds_confirm quiet_write])
  have "adds (publication_write req p) (bind_op (if pp_Number (pc_observed p) \<noteq> 0 then update_publication (logged_env E) req p else create_publication (logged_env E) req p)
      (\<lambda>pr. confirm_publication (logged_env E) req p pr)) (\<lambda>url S. \<exists>pr. url = pu_URL pr \<and> read_back pr S \<and> confirmed req p pr S)"
    by (rule adds_weaken, rule adds_bind[OF adds_if[OF adds_update adds_create] confirm]) auto
  from this assms obtain evs where "fst s' = fst s @ evs" "list_all (publication_write req p) evs"
    "\<forall>a S. r = Inr a \<longrightarrow> set evs \<subseteq> S \<longrightarrow> (\<exists>pr. a = pu_URL pr \<and> read_back pr S \<and> confirmed req p pr S)" by (rule addsE)
  then show ?thesis by blast
qed

definition url_confirmed :: "PublishRequest \<Rightarrow> prepared \<Rightarrow> go_error + gostring \<Rightarrow> pub_event list \<Rightarrow> bool" where
  "url_confirmed req p r later \<longleftrightarrow> (\<forall>url. r = Inr url \<longrightarrow> (\<exists>pr. url = pu_URL pr \<and> read_back pr (set later) \<and> confirmed req p pr (set later)))"

lemma push_finish_log:
  assumes "pb_RepoRoot req \<noteq> []"
    "bind_op (if pc_already p then return_op () else push_publication (logged_env E) req (pc_head p)) (\<lambda>_.
       bind_op (if pp_Number (pc_observed p) \<noteq> 0 then update_publication (logged_env E) req p else create_publication (logged_env E) req p)
         (\<lambda>pr. confirm_publication (logged_env E) req p pr)) s = (r, s')"
  shows "\<exists>pushes later. fst s' = fst s @ pushes @ later \<and> pushed_log req p pushes later \<and> url_confirmed req p r later"
proof (cases "pc_already p")
  case True
  with assms(2) have "bind_op (if pp_Number (pc_observed p) \<noteq> 0 then update_publication (logged_env E) req p else create_publication (logged_env E) req p)
      (\<lambda>pr. confirm_publication (logged_env E) req p pr) s = (r, s')" by (simp add: bind_op_def return_op_def)
  from finish_log[OF this] True show ?thesis by (auto simp: pushed_log_def url_confirmed_def)
next
  case False
  let ?push = "\<lambda>pushed. EvGit (''-C'' # pb_RepoRoot req # push_args req (pc_head p)) [] pushed"
  from assms(2) False have "bind_op (push_publication (logged_env E) req (pc_head p)) (\<lambda>_.
      bind_op (if pp_Number (pc_observed p) \<noteq> 0 then update_publication (logged_env E) req p else create_publication (logged_env E) req p)
        (\<lambda>pr. confirm_publication (logged_env E) req p pr)) s = (r, s')" by simp
  then show ?thesis
  proof (cases rule: bind_op_run)
    case (1 e)
    from push_publication_log[OF 1(1) assms(1)] obtain pushed evs where "fst s' = fst s @ (?push pushed # evs) @ []" "list_all quiet_event evs" by auto
    moreover from this False have "pushed_log req p (?push pushed # evs) []" by (simp add: pushed_log_def)
    ultimately show ?thesis using 1(2) unfolding url_confirmed_def by blast
  next
    case (2 u s2)
    from push_publication_log[OF 2(1) assms(1)] obtain pushed evs where
      log: "fst s2 = fst s @ ?push pushed # evs" "list_all quiet_event evs" "pc_head p = [] \<or> branch_at req (pc_head p) (set evs)" by auto
    from finish_log[OF 2(2)] obtain later where later: "fst s' = fst s @ (?push pushed # evs) @ later" "list_all (publication_write req p) later"
      "url_confirmed req p r later" using log(1) by (auto simp: url_confirmed_def)
    moreover have "pushed_log req p (?push pushed # evs) later" using False log later by (simp add: pushed_log_def)
    ultimately show ?thesis by blast
  qed
qed

lemma publishCandidate_log:
  assumes "publishCandidate (logged_env E) req ([], w) = (r, (tr, w'))"
  shows "list_all quiet_event tr \<and> (\<forall>url. r \<noteq> Inr url) \<or>
    (\<exists>p checks pushes later. tr = checks @ pushes @ later \<and> list_all quiet_event checks \<and> (\<forall>S. set checks \<subseteq> S \<longrightarrow> prepared_facts E req p S) \<and>
       pushed_log req p pushes later \<and> url_confirmed req p r later)"
proof (cases "pb_RepoRoot req = [] \<or> pb_BaseBranch req = [] \<or> pb_TargetRef req = [] \<or> pb_TargetKind req = [] \<or> \<not> sha_match (pb_TargetSHA req)")
  case True
  with assms show ?thesis unfolding publishCandidate_def by (auto simp: fail_op_def)
next
  case False
  then have root: "pb_RepoRoot req \<noteq> []" by blast
  from assms False have "bind_op (publish_prepare (logged_env E) req) (\<lambda>p.
        bind_op (if pc_already p then return_op () else push_publication (logged_env E) req (pc_head p)) (\<lambda>_.
        bind_op (if pp_Number (pc_observed p) \<noteq> 0 then update_publication (logged_env E) req p else create_publication (logged_env E) req p) (\<lambda>pr.
        confirm_publication (logged_env E) req p pr))) ([], w) = (r, (tr, w'))"
    unfolding publishCandidate_def by simp
  then show ?thesis
  proof (cases rule: bind_op_run)
    case (1 e)
    from adds_prepare 1(1) obtain evs where "fst (tr, w') = fst ([], w) @ evs" "list_all quiet_event evs" by (rule addsE)
    with 1(2) show ?thesis by simp
  next
    case (2 p s1)
    obtain checks where checks: "fst s1 = checks" "list_all quiet_event checks" "\<forall>S. set checks \<subseteq> S \<longrightarrow> prepared_facts E req p S"
      using adds_prepare 2(1) by (rule addsE) auto
    from push_finish_log[OF root 2(2)] obtain pushes later where
      "fst (tr, w') = fst s1 @ pushes @ later" "pushed_log req p pushes later" "url_confirmed req p r later" by blast
    with checks show ?thesis by (intro disjI2 exI[of _ p] exI[of _ checks] exI[of _ pushes] exI[of _ later]) simp
  qed
qed

text \<open>Where an event can stand in the log.\<close>

lemma split_unique:
  assumes "past @ ev # later = xs @ y # ys" "P ev" "\<And>x. x \<in> set xs \<Longrightarrow> \<not> P x" "\<And>x. x \<in> set ys \<Longrightarrow> \<not> P x"
  shows "past = xs \<and> ev = y"
proof -
  from assms(1) consider us where "past = xs @ us" "us @ ev # later = y # ys" | us where "xs = past @ us" "us \<noteq> []" "ev # later = us @ y # ys"
    by (auto simp: append_eq_append_conv2 Cons_eq_append_conv)
  then show ?thesis
  proof cases
    case 1
    with assms(2,4) show ?thesis by (cases us) auto
  next
    case 2
    with assms(2,3) show ?thesis by (cases us) auto
  qed
qed

lemma split_late:
  assumes "past @ ev # later = xs @ ys" "P ev" "\<And>x. x \<in> set xs \<Longrightarrow> \<not> P x"
  shows "set xs \<subseteq> set past \<and> ev \<in> set ys"
proof -
  from assms(1) consider us where "past = xs @ us" "ys = us @ ev # later" | us where "xs = past @ us" "us \<noteq> []" "ev # later = us @ ys"
    by (auto simp: append_eq_append_conv2 Cons_eq_append_conv)
  then show ?thesis
  proof cases
    case 2
    with assms(2,3) show ?thesis by (cases us) auto
  qed auto
qed

lemma inspected_branch_at:
  assumes "prepared_facts E req p S" "pc_already p"
  shows "branch_at req (pc_publishHead p) S"
proof -
  let ?i = "publish_inspection req (pc_parent p) (pc_target p) (pb_RepairPending req)"
  from assms have facts: "inspected E ?i (pc_observed p) S" "pp_Head (pc_observed p) \<noteq> ''absent''" "pc_publishHead p = pp_Head (pc_observed p)"
    "pp_Branch (pc_observed p) = pb_ExpectedBranch req"
    by (simp_all add: prepared_facts_def)
  from facts(1,2) have "exact_head ?i (pc_observed p) S"
    unfolding inspected_def pr_facts_def orphan_facts_def head_facts_def by blast
  moreover have "publicationRemote ?i = publish_remote req" by (simp add: publicationRemote_def publish_inspection_def publish_remote_def)
  ultimately show ?thesis using facts(3,4) by (simp add: exact_head_def branch_at_def publish_inspection_def)
qed

text \<open>\<open>git rev-parse HEAD\<close> prints the name of a commit when it succeeds.\<close>

definition prints_head :: "PublishRequest \<Rightarrow> pub_event list \<Rightarrow> bool" where
  "prints_head req tr \<longleftrightarrow> (\<forall>out. git_event (pb_RepoRoot req) [''rev-parse'', ''HEAD''] out \<in> set tr \<longrightarrow> sha_match (trim_space out))"

text \<open>What justifies a push, and a write through the API.\<close>

definition push_justified :: "'w publication_env \<Rightarrow> PublishRequest \<Rightarrow> pub_event list \<Rightarrow> pub_event \<Rightarrow> bool" where
  "push_justified E req past ev \<longleftrightarrow> list_all quiet_event past \<and>
     (\<exists>p r. prepared_facts E req p (set past) \<and> \<not> pc_already p \<and> ev = EvGit (''-C'' # pb_RepoRoot req # push_args req (pc_head p)) [] r)"

definition write_justified :: "'w publication_env \<Rightarrow> PublishRequest \<Rightarrow> pub_event list \<Rightarrow> pub_event \<Rightarrow> bool" where
  "write_justified E req past ev \<longleftrightarrow>
     (\<exists>p. prepared_facts E req p (set past) \<and> publication_write req p ev \<and> branch_at req (pc_publishHead p) (set past))"

lemma published_head_known:
  assumes "prepared_facts E req p S" "set tr = S" "prints_head req tr"
  shows "pc_head p \<noteq> []"
proof
  assume "pc_head p = []"
  with assms(1) obtain out where "git_event (pb_RepoRoot req) [''rev-parse'', ''HEAD''] out \<in> S" "trim_space out = []"
    by (auto simp: prepared_facts_def based_def)
  with assms(2,3) show False unfolding prints_head_def by force
qed

lemma branch_at_mono: "branch_at req head S \<Longrightarrow> S \<subseteq> T \<Longrightarrow> branch_at req head T"
  unfolding branch_at_def by blast

lemma pushed_branch_at:
  assumes "pushed_log req p pushes later" "later \<noteq> []" "prepared_facts E req p (set checks)" "pc_head p \<noteq> []"
  shows "branch_at req (pc_publishHead p) (set (checks @ pushes))"
proof (cases "pc_already p")
  case True
  with inspected_branch_at[OF assms(3)] branch_at_mono show ?thesis by fastforce
next
  case False
  with assms obtain r evs where "pushes = EvGit (''-C'' # pb_RepoRoot req # push_args req (pc_head p)) [] r # evs" "branch_at req (pc_head p) (set evs)"
    by (auto simp: pushed_log_def)
  moreover have "pc_publishHead p = pc_head p" using assms(3) False by (simp add: prepared_facts_def)
  ultimately show ?thesis using branch_at_mono[of req "pc_head p" "set evs" "set (checks @ pushes)"] by auto
qed

lemma quiet_no_effect: "list_all quiet_event tr \<Longrightarrow> tr = past @ ev # later \<Longrightarrow> \<not> is_push ev \<and> \<not> api_write ev"
  by (auto simp: quiet_event_def)

lemma write_no_push: "publication_write req p ev \<Longrightarrow> \<not> is_push ev"
  by (cases ev) auto

lemma pushed_log_effects:
  assumes tr: "past @ ev # later' = checks @ pushes @ later" and quiet: "list_all quiet_event checks"
    and facts: "\<forall>S. set checks \<subseteq> S \<longrightarrow> prepared_facts E req p S" and log: "pushed_log req p pushes later" and known: "pc_head p \<noteq> []"
  shows "(is_push ev \<longrightarrow> push_justified E req past ev) \<and> (api_write ev \<longrightarrow> write_justified E req past ev)"
proof (intro conjI impI)
  have later: "\<And>x. x \<in> set later \<Longrightarrow> publication_write req p x" using log by (auto simp: pushed_log_def list_all_iff)
  have checks: "\<And>x. x \<in> set checks \<Longrightarrow> \<not> is_push x \<and> \<not> api_write x" using quiet by (auto simp: list_all_iff quiet_event_def)
  assume push: "is_push ev"
  have "\<not> pc_already p"
  proof
    assume "pc_already p"
    moreover have "ev \<in> set (checks @ pushes @ later)" unfolding tr[symmetric] by simp
    ultimately have "ev \<in> set checks \<union> set later" using log by (auto simp: pushed_log_def)
    with push checks later write_no_push show False by blast
  qed
  with log obtain r evs where pushes: "pushes = EvGit (''-C'' # pb_RepoRoot req # push_args req (pc_head p)) [] r # evs" "list_all quiet_event evs"
    by (auto simp: pushed_log_def)
  have "past = checks \<and> ev = EvGit (''-C'' # pb_RepoRoot req # push_args req (pc_head p)) [] r"
  proof (rule split_unique[where P = is_push])
    show "past @ ev # later' = checks @ EvGit (''-C'' # pb_RepoRoot req # push_args req (pc_head p)) [] r # (evs @ later)" using tr pushes(1) by simp
  qed (use push checks later pushes(2) in \<open>auto simp: list_all_iff quiet_event_def dest: write_no_push\<close>)
  with quiet facts \<open>\<not> pc_already p\<close> show "push_justified E req past ev" unfolding push_justified_def by blast
next
  assume wr: "api_write ev"
  have no: "\<not> api_write x" if "x \<in> set (checks @ pushes)" for x
    using that quiet log by (auto simp: pushed_log_def list_all_iff quiet_event_def split: if_splits)
  have "set (checks @ pushes) \<subseteq> set past \<and> ev \<in> set later"
    by (rule split_late[where P = api_write]) (use tr wr no in auto)
  moreover from this log have "publication_write req p ev" "later \<noteq> []" by (auto simp: pushed_log_def list_all_iff)
  moreover have "branch_at req (pc_publishHead p) (set (checks @ pushes))"
    using pushed_branch_at[OF log \<open>later \<noteq> []\<close> _ known] facts by blast
  ultimately show "write_justified E req past ev"
    unfolding write_justified_def using facts branch_at_mono by (metis le_sup_iff set_append)
qed

text \<open>C21: every outside effect of a publication is justified by what was read before it, whatever the repository and the API answer and
  wherever the publication stops. Nothing is written before the first push; a push sends the checked-out head, which is a clean
  single commit on the current landing branch with the wanted upstream identity and only paths in scope, to the planned branch, under a
  lease on the head that was just observed there. A pull request is written only for a revision the branch was read at, with the
  metadata of that revision. And a returned URL is that of an open pull request of the App that was read back with matching metadata, after
  which the landing branch and the published branch were read unmoved.\<close>

theorem publish_effects_proved:
  assumes "publishCandidate (logged_env E) req ([], w) = (r, (tr, w'))" "prints_head req tr"
  shows "(\<forall>past ev later. tr = past @ ev # later \<longrightarrow>
      (is_push ev \<longrightarrow> push_justified E req past ev) \<and> (api_write ev \<longrightarrow> write_justified E req past ev)) \<and>
    (\<forall>url. r = Inr url \<longrightarrow> (\<exists>p pr. prepared_facts E req p (set tr) \<and> url = pu_URL pr \<and> read_back pr (set tr) \<and> confirmed req p pr (set tr)))"
proof -
  from publishCandidate_log[OF assms(1)] consider
    "list_all quiet_event tr" "\<forall>url. r \<noteq> Inr url"
    | p checks pushes later where "tr = checks @ pushes @ later" "list_all quiet_event checks" "\<forall>S. set checks \<subseteq> S \<longrightarrow> prepared_facts E req p S"
      "pushed_log req p pushes later" "url_confirmed req p r later"
    by blast
  then show ?thesis
  proof cases
    case 1
    then show ?thesis using quiet_no_effect by blast
  next
    case 2
    have facts: "prepared_facts E req p (set tr)" using 2(1,3) by auto
    have known: "pc_head p \<noteq> []" using published_head_known[OF facts refl assms(2)] .
    have "read_back pr (set later) \<Longrightarrow> read_back pr (set tr)" "confirmed req p pr (set later) \<Longrightarrow> confirmed req p pr (set tr)" for pr
      using 2(1) branch_at_mono[of req "pc_publishHead p" "set later" "set tr"] by (auto simp: read_back_def confirmed_def)
    with 2(5) facts have "\<forall>url. r = Inr url \<longrightarrow> (\<exists>p pr. prepared_facts E req p (set tr) \<and> url = pu_URL pr \<and> read_back pr (set tr) \<and> confirmed req p pr (set tr))"
      unfolding url_confirmed_def by blast
    moreover have "(is_push ev \<longrightarrow> push_justified E req past ev) \<and> (api_write ev \<longrightarrow> write_justified E req past ev)" if "tr = past @ ev # after" for past ev after
      using pushed_log_effects[OF _ 2(2,3,4) known] that 2(1) by metis
    ultimately show ?thesis by blast
  qed
qed

section \<open>An example\<close>

definition publish_git :: "gostring list \<Rightarrow> gostring \<Rightarrow> gostring \<Rightarrow> (go_error + gostring) \<times> gostring" where
  "publish_git args inp w = (let verb = git_verb args in
     if verb = ''push'' then (Inr [], sample_head)
     else (Inr (if verb = ''ls-remote'' then (if last args = ''refs/heads/main'' then sample_base @ '' refs/heads/main'' else if w = [] then [] else w @ '' refs/heads/b'')
       else if verb = ''rev-parse'' then (if last args = ''HEAD'' then sample_head else sample_base)
       else if verb = ''diff'' \<and> last args = ''--'' \<and> args ! (length args - 2) \<noteq> ''HEAD'' then ''codexsdk/sdk_surface.gen.go'' @ [NUL] else []), w))"

definition published_pr :: publicationPR where
  "published_pr = sample_pr\<lparr>pu_Head := \<lparr>rf_Ref = ''codex/sync-upstream-rust-v1.2.3-cccccccccccc-base-bbbbbbbbbbbb'', rf_SHA = sample_head, rf_FullName = ''o/r''\<rparr>\<rparr>"

definition publish_env :: "gostring publication_env" where
  "publish_env = \<lparr>pe_repo = \<lparr>rp_git = publish_git, rp_lstat = (\<lambda>_ _ w. (Inr True, w)), rp_IsNotExist = (\<lambda>_. False)\<rparr>,
     pe_prs = (\<lambda>_ w. (Inr (if w = [] then [] else [published_pr]), w)), pe_pr = (\<lambda>_ w. (Inr published_pr, w)),
     pe_activity = (\<lambda>_ w. (Inr [], w)), pe_patch = (\<lambda>_ _ _ w. (None, w)), pe_post = (\<lambda>_ _ _ _ _ w. (None, w)),
     pe_checks = \<lparr>ca_Get = (\<lambda>_ w. (Inr [], w)), ca_Post = (\<lambda>_ w. (None, w)), ca_check_page = (\<lambda>_. Inr (0, [])), ca_workflow_page = (\<lambda>_. Inr (0, [])),
       ca_job_page = (\<lambda>_. Inr (0, [])), ca_workflow_run = (\<lambda>_. Inl go_panic), ca_pr = (\<lambda>_. Inl go_panic), ca_ref_sha = (\<lambda>_. Inr []), ca_PathEscape = (\<lambda>s. s)\<rparr>,
     pe_lookup = (\<lambda>_ _ w. (Inr (sample_commit @ '' refs/tags/rust-v1.2.3''), w)),
     pe_output = (\<lambda>_ _ w. (None, w)), pe_identity = (\<lambda>_. Inr (target_identity sample_target)), pe_QueryEscape = (\<lambda>s. s), pe_pages = 1\<rparr>"

definition publish_request :: PublishRequest where
  "publish_request = \<lparr>pb_Repository = ''o/r'', pb_ExpectedHead = ''absent'', pb_ExpectedBranch = ''codex/sync-upstream-rust-v1.2.3-cccccccccccc-base-bbbbbbbbbbbb'',
     pb_AppBotID = 7, pb_RepoRoot = ''r'', pb_BaseBranch = ''main'', pb_TargetRef = ''rust-v1.2.3'', pb_TargetKind = ''stable_rust_tag'',
     pb_TargetSHA = sample_commit, pb_Remote = [], pb_GitHubOutputPath = [], pb_RepairPending = False\<rparr>"

lemma publish_example:
  "case publishCandidate (logged_env publish_env) publish_request ([], []) of (r, (tr, _)) \<Rightarrow>
     r = Inr ''url'' \<and> length (filter is_push tr) = 1 \<and> length (filter api_write tr) = 1 \<and>
     list_all (\<lambda>ev. case ev of EvGit args _ (Inr out) \<Rightarrow> args = [''-C'', ''r'', ''rev-parse'', ''HEAD''] \<longrightarrow> sha_match (trim_space out) | _ \<Rightarrow> True) tr"
  by code_simp

theorem publish_effects_proved_witness:
  "\<exists>w tr p pr. publishCandidate (logged_env publish_env) publish_request ([], []) = (Inr ''url'', (tr, w)) \<and> length (filter is_push tr) = 1 \<and>
     pu_URL pr = ''url'' \<and> prepared_facts publish_env publish_request p (set tr) \<and> confirmed publish_request p pr (set tr)"
proof -
  obtain tr w where run: "publishCandidate (logged_env publish_env) publish_request ([], []) = (Inr ''url'', (tr, w))" "length (filter is_push tr) = 1"
    and head: "list_all (\<lambda>ev. case ev of EvGit args _ (Inr out) \<Rightarrow> args = [''-C'', ''r'', ''rev-parse'', ''HEAD''] \<longrightarrow> sha_match (trim_space out) | _ \<Rightarrow> True) tr"
    using publish_example by (auto split: prod.splits)
  have "prints_head publish_request tr"
    using head by (auto simp: prints_head_def git_event_def publish_request_def list_all_iff split: pub_event.splits sum.splits)
  from publish_effects_proved[OF run(1) this] run show ?thesis by metis
qed

end
