(* ===== verification/Sync_Flow.thy ===== *)
theory Sync_Flow
  imports Pending_Publication
begin

text \<open>
  The synchronisation flow, \<open>codexsdk/internal/protocolsync/sync.go\<close>: configuration, baseline, target, policy, pending
  publication, generation, and then preparation, exact verification, comparison, or plan and apply.

  Generating, planning, verifying and applying a candidate are operations on a state \<open>'w\<close>: the functions of the request, or
  the package's own when the request has none. A return of \<open>syncCandidate\<close> is a \<open>sync_exit\<close>, the result with the stage
  and the error the deferred \<open>finishSync\<close> reads. The text of an error, and a candidate's digest, are parameters; operands
  printed with \<open>%q\<close> or \<open>%v\<close> are left out of error texts.
\<close>

section \<open>Data\<close>

definition OutcomeBaselineMatches :: gostring where "OutcomeBaselineMatches = ''baseline_matches''"
definition OutcomeSchemasMatch :: gostring where "OutcomeSchemasMatch = ''schemas_match''"
definition OutcomeExactVerified :: gostring where "OutcomeExactVerified = ''exact_verified''"
definition OutcomeFailed :: gostring where "OutcomeFailed = ''failed''"
definition OutcomeApplied :: gostring where "OutcomeApplied = ''applied''"
definition OutcomePlanReady :: gostring where "OutcomePlanReady = ''plan_ready''"
definition OutcomeSourceReady :: gostring where "OutcomeSourceReady = ''source_ready''"
definition OutcomePRPending :: gostring where "OutcomePRPending = ''pr_pending''"
definition OutcomeRepairReady :: gostring where "OutcomeRepairReady = ''repair_ready''"
definition OutcomeSemanticUnresolved :: gostring where "OutcomeSemanticUnresolved = ''semantic_unresolved''"

lemmas outcomes = OutcomeBaselineMatches_def OutcomeSchemasMatch_def OutcomeExactVerified_def OutcomeFailed_def OutcomeApplied_def
  OutcomePlanReady_def OutcomeSourceReady_def OutcomePRPending_def OutcomeRepairReady_def OutcomeSemanticUnresolved_def

definition PlanReady :: gostring where "PlanReady = ''ready''"
definition PlanSemanticUnresolved :: gostring where "PlanSemanticUnresolved = ''semantic_unresolved''"

record PlanIssue =
  pi_Stage :: gostring
  pi_Path :: gostring
  pi_Reason :: gostring

record ApplyResult =
  al_Status :: gostring
  al_AddedSchemas :: "gostring list"
  al_CommonRSSourceSHA :: gostring
  al_SchemaFileCount :: int
  al_MethodCount :: int
  al_CoverageTypeCount :: int
  al_CoverageFieldCount :: int
  al_ClassifiedSurfaceCount :: int
  al_GeneratedCompatibilityImpact :: gostring
  al_GeneratedReleaseImpact :: gostring
  al_TargetRef :: gostring
  al_TargetSHA :: gostring

record PlanResult =
  pl_Status :: gostring
  pl_Preview :: ApplyResult
  pl_Issue :: "PlanIssue option"

record Candidate =
  cd_Dir :: gostring
  cd_SchemaDir :: gostring
  cd_StableSchemaDir :: gostring
  cd_ReportsDir :: gostring
  cd_CommonRS :: gostring
  cd_CommonRSSourceSHA :: gostring
  cd_CodexRepo :: gostring
  cd_DriftStatus :: gostring
  cd_SourceCommit :: gostring

record GenerateRequest =
  gq_ModuleRoot :: gostring
  gq_UpstreamRepo :: gostring
  gq_Target :: Target

record ApplyRequest =
  aq_Baseline :: gostring
  aq_Candidate :: gostring
  aq_StableCandidate :: gostring
  aq_CommonRS :: gostring
  aq_CommonRSSourceSHA :: gostring
  aq_CodexRepo :: gostring
  aq_Reports :: gostring
  aq_TargetRef :: gostring
  aq_TargetKind :: gostring
  aq_TargetSHA :: gostring
  aq_ModuleRoot :: gostring

record SyncRequest =
  sq_Publication :: "PendingRequest option"
  sq_RepoRoot :: gostring
  sq_ModuleRoot :: gostring
  sq_UpstreamRepo :: gostring
  sq_UpstreamRef :: gostring
  sq_LatestStable :: bool
  sq_AllowDowngrade :: bool
  sq_ForceCompare :: bool
  sq_RepairPending :: bool
  sq_ValidationOnly :: bool
  sq_Diagnostic :: bool
  sq_EventName :: gostring

record SyncResult =
  sr_Publication :: "PendingPublication option"
  sr_Stage :: gostring
  sr_FailureCategory :: gostring
  sr_Outcome :: gostring
  sr_Reason :: gostring
  sr_Target :: Target
  sr_Candidate :: gostring
  sr_CandidateDir :: gostring
  sr_CandidateSHA256 :: gostring
  sr_Issue :: "PlanIssue option"

record 'w sync_env =
  se_pub :: "'w publication_env"
  se_lookup :: "'w RemoteLookuper"
  se_ReadFile :: "gostring \<Rightarrow> 'w \<Rightarrow> (go_error + gostring) \<times> 'w"
  se_generate :: "GenerateRequest \<Rightarrow> 'w \<Rightarrow> (go_error + Candidate) \<times> 'w"
  se_plan :: "ApplyRequest \<Rightarrow> 'w \<Rightarrow> (go_error + PlanResult) \<times> 'w"
  se_verify :: "ApplyRequest \<Rightarrow> 'w \<Rightarrow> (go_error + PlanResult) \<times> 'w"
  se_apply :: "ApplyRequest \<Rightarrow> PlanResult \<Rightarrow> 'w \<Rightarrow> (go_error + ApplyResult) \<times> 'w"
  se_digest :: "gostring \<Rightarrow> 'w \<Rightarrow> (go_error + gostring) \<times> 'w"
  se_append :: "gostring \<Rightarrow> gostring \<Rightarrow> 'w \<Rightarrow> go_error option \<times> 'w"
  se_Error :: "go_error \<Rightarrow> gostring"

definition zero_target :: Target where
  "zero_target = \<lparr>tg_RefName = [], tg_RefKind = [], tg_TagSHA = [], tg_PeeledCommitSHA = [], tg_TargetExplicit = False\<rparr>"

definition zero_applied :: ApplyResult where
  "zero_applied = \<lparr>al_Status = [], al_AddedSchemas = [], al_CommonRSSourceSHA = [], al_SchemaFileCount = 0, al_MethodCount = 0, al_CoverageTypeCount = 0,
     al_CoverageFieldCount = 0, al_ClassifiedSurfaceCount = 0, al_GeneratedCompatibilityImpact = [], al_GeneratedReleaseImpact = [], al_TargetRef = [], al_TargetSHA = []\<rparr>"

definition zero_result :: SyncResult where
  "zero_result = \<lparr>sr_Publication = None, sr_Stage = [], sr_FailureCategory = [], sr_Outcome = [], sr_Reason = [], sr_Target = zero_target,
     sr_Candidate = [], sr_CandidateDir = [], sr_CandidateSHA256 = [], sr_Issue = None\<rparr>"

section \<open>Returns\<close>

record sync_exit =
  ex_result :: SyncResult
  ex_stage :: gostring
  ex_err :: "go_error option"

definition sync_return :: "gostring \<Rightarrow> SyncResult \<Rightarrow> 'w \<Rightarrow> sync_exit \<times> 'w" where
  "sync_return stage result w = (\<lparr>ex_result = result, ex_stage = stage, ex_err = None\<rparr>, w)"

definition sync_fail :: "gostring \<Rightarrow> SyncResult \<Rightarrow> go_error \<Rightarrow> 'w \<Rightarrow> sync_exit \<times> 'w" where
  "sync_fail stage result e w = (\<lparr>ex_result = result, ex_stage = stage, ex_err = Some e\<rparr>, w)"

definition sync_try :: "gostring \<Rightarrow> SyncResult \<Rightarrow> ('w \<Rightarrow> (go_error + 'a) \<times> 'w) \<Rightarrow> ('a \<Rightarrow> 'w \<Rightarrow> sync_exit \<times> 'w) \<Rightarrow> 'w \<Rightarrow> sync_exit \<times> 'w" where
  "sync_try stage result m k w = (case m w of (Inl e, w) \<Rightarrow> sync_fail stage result e w | (Inr a, w) \<Rightarrow> k a w)"

definition finishSync :: "'w sync_env \<Rightarrow> sync_exit \<Rightarrow> SyncResult \<times> go_error option" where
  "finishSync E x = (let result = (ex_result x)\<lparr>sr_Stage := ex_stage x\<rparr> in
     (case ex_err x of None \<Rightarrow> result
      | Some e \<Rightarrow> result\<lparr>sr_Outcome := OutcomeFailed, sr_FailureCategory := failureCategory e, sr_Reason := se_Error E e\<rparr>, ex_err x))"

abbreviation wrapped :: "gostring \<Rightarrow> ('w \<Rightarrow> (go_error + 'a) \<times> 'w) \<Rightarrow> 'w \<Rightarrow> (go_error + 'a) \<times> 'w" where
  "wrapped s \<equiv> wrap_op (\<lambda>e. ErrWrap s [e])"

section \<open>Configuration, baseline and target\<close>

definition path_join :: "gostring list \<Rightarrow> gostring" where
  "path_join parts = (case filter (\<lambda>e. e \<noteq> []) parts of [] \<Rightarrow> [] | es \<Rightarrow> path_clean (join_str [slash] es))"

definition defaultBaselineRel :: gostring where
  "defaultBaselineRel = ''internal/protocolschema/appserver/v2''"

definition sync_modes :: "SyncRequest \<Rightarrow> bool \<Rightarrow> go_error option" where
  "sync_modes req prepareOnly =
     (if prepareOnly \<and> (sq_Publication req \<noteq> None \<or> sq_RepairPending req \<or> sq_ValidationOnly req \<or> sq_ForceCompare req \<or> sq_Diagnostic req)
      then Some (Failure FailurePolicy (ErrNew ''source preparation cannot plan, verify, apply, or publish a candidate''))
      else if sq_ValidationOnly req \<and> sq_Diagnostic req
      then Some (Failure FailurePolicy (ErrNew ''validation-only cannot be combined with diagnostic mode''))
      else if sq_RepairPending req \<and> (sq_ForceCompare req \<or> sq_ValidationOnly req \<or> sq_Diagnostic req)
      then Some (Failure FailurePolicy (ErrNew ''repair-pending cannot be combined with force-compare, validation-only, or diagnostic mode''))
      else if sq_ValidationOnly req \<and> \<not> sq_ForceCompare req
      then Some (Failure FailurePolicy (ErrNew ''validation-only requires force-compare''))
      else None)"

definition sync_module_root :: "SyncRequest \<Rightarrow> gostring" where
  "sync_module_root req = (if sq_ModuleRoot req = [] then path_join [sq_RepoRoot req, ''codexsdk''] else sq_ModuleRoot req)"

definition sync_upstream :: "SyncRequest \<Rightarrow> gostring" where
  "sync_upstream req = (if sq_UpstreamRepo req = [] then defaultRemote else sq_UpstreamRepo req)"

definition loadBaselineIdentity :: "'w sync_env \<Rightarrow> gostring \<Rightarrow> 'w \<Rightarrow> (go_error + BaselineIdentity) \<times> 'w" where
  "loadBaselineIdentity E path = bind_op (se_ReadFile E path) (\<lambda>raw w. (pe_identity (se_pub E) raw, w))"

definition sync_baseline :: "'w sync_env \<Rightarrow> SyncRequest \<Rightarrow> 'w \<Rightarrow> (go_error + BaselineIdentity) \<times> 'w" where
  "sync_baseline E req = loadBaselineIdentity E (path_join [sync_module_root req, defaultBaselineRel, ''baseline_metadata.json''])"

text \<open>The ref that is asked for: validation without one asks for the checked-in ref.\<close>

definition sync_selected :: "SyncRequest \<Rightarrow> BaselineIdentity \<Rightarrow> gostring" where
  "sync_selected req baseline = (let selected = trim_space (sq_UpstreamRef req) in
     if sq_ValidationOnly req \<and> selected = [] then bi_SourceRefName baseline else selected)"

definition sync_latest :: "SyncRequest \<Rightarrow> bool" where
  "sync_latest req \<longleftrightarrow> (let selected = trim_space (sq_UpstreamRef req) in
     if sq_ValidationOnly req \<and> selected = [] then False else sq_LatestStable req \<or> selected = [])"

definition validation_mismatch :: "SyncRequest \<Rightarrow> BaselineIdentity \<Rightarrow> Target \<Rightarrow> bool" where
  "validation_mismatch req baseline target \<longleftrightarrow> sq_ValidationOnly req \<and> (tg_RefName target \<noteq> bi_SourceRefName baseline \<or>
     tg_RefKind target \<noteq> bi_SourceRefKind baseline \<or> tg_PeeledCommitSHA target \<noteq> bi_SourceCommit baseline)"

definition sync_target :: "'w sync_env \<Rightarrow> SyncRequest \<Rightarrow> BaselineIdentity \<Rightarrow> 'w \<Rightarrow> (go_error + Target) \<times> 'w" where
  "sync_target E req baseline =
     bind_op (ResolveUpstream (se_lookup E) \<lparr>rr_Remote = sync_upstream req, rr_UpstreamRef = sync_selected req baseline, rr_LatestStable = sync_latest req\<rparr>) (\<lambda>target.
     if sq_LatestStable req \<and> trim_space (sq_UpstreamRef req) \<noteq> [] then fail_op (ErrNew ''latest-stable cannot be combined with an explicit upstream ref'')
     else let target = (if sync_selected req baseline \<noteq> [] then target\<lparr>tg_TargetExplicit := True\<rparr> else target) in
       if validation_mismatch req baseline target
       then fail_op (Failure FailureSource (ErrNew (''validation-only target does not match the checked-in upstream identity: baseline='' @
         bi_SourceRefName baseline @ ''/'' @ bi_SourceRefKind baseline @ ''/'' @ bi_SourceCommit baseline @ '' resolved='' @
         tg_RefName target @ ''/'' @ tg_RefKind target @ ''/'' @ tg_PeeledCommitSHA target)))
       else return_op target)"

definition sync_policy :: "SyncRequest \<Rightarrow> BaselineIdentity \<Rightarrow> Target \<Rightarrow> PolicyRequest" where
  "sync_policy req baseline target = \<lparr>pq_Baseline = baseline, pq_TargetRef = tg_RefName target, pq_TargetKind = tg_RefKind target,
     pq_TargetSHA = tg_PeeledCommitSHA target, pq_TargetExplicit = tg_TargetExplicit target,
     pq_Mode = (if sq_EventName req = ''schedule'' then ''scheduled'' else ''manual''), pq_AllowDowngrade = sq_AllowDowngrade req\<rparr>"

definition decideAfterPolicy :: "gostring \<Rightarrow> bool \<Rightarrow> gostring" where
  "decideAfterPolicy decision forceCompare =
     (if decision = DecisionBlock then ''blocked''
      else if decision = DecisionSkip then (if forceCompare then ''generate'' else ''current'')
      else if decision = DecisionAllow then ''generate'' else ''blocked'')"

definition candidateApplyRequest :: "gostring \<Rightarrow> Candidate \<Rightarrow> Target \<Rightarrow> ApplyRequest" where
  "candidateApplyRequest moduleRoot candidate target = \<lparr>aq_Baseline = path_join [moduleRoot, defaultBaselineRel],
     aq_Candidate = cd_SchemaDir candidate, aq_StableCandidate = cd_StableSchemaDir candidate, aq_CommonRS = cd_CommonRS candidate,
     aq_CommonRSSourceSHA = cd_CommonRSSourceSHA candidate, aq_CodexRepo = cd_CodexRepo candidate, aq_Reports = cd_ReportsDir candidate,
     aq_TargetRef = tg_RefName target, aq_TargetKind = tg_RefKind target, aq_TargetSHA = tg_PeeledCommitSHA target, aq_ModuleRoot = moduleRoot\<rparr>"

section \<open>The pending publication\<close>

definition sync_inspection :: "SyncRequest \<Rightarrow> PendingRequest \<Rightarrow> Target \<Rightarrow> gostring \<Rightarrow> PendingRequest" where
  "sync_inspection req publication target base = publication\<lparr>pq_RepoRoot := sq_RepoRoot req, pq_Target := target, pq_ReadChecks := True,
     pq_RepairPending := sq_RepairPending req, pq_BaseSHA := trim_space base\<rparr>"

definition sync_inspect :: "'w sync_env \<Rightarrow> SyncRequest \<Rightarrow> PendingRequest \<Rightarrow> Target \<Rightarrow> 'w \<Rightarrow> (go_error + PendingPublication) \<times> 'w" where
  "sync_inspect E req publication target =
     bind_op (gitOutput (se_pub E) (sq_RepoRoot req) [''rev-parse'', ''HEAD'']) (\<lambda>base.
     let inspection = sync_inspection req publication target base in
     bind_op (InspectPending (se_pub E) inspection) (\<lambda>pending.
     bind_op (wrapped ''read current publication base'' (remotePublicationHead (se_pub E) (sq_RepoRoot req) (publicationRemote inspection) (pq_BaseBranch inspection))) (\<lambda>currentBase.
     if currentBase \<noteq> pq_BaseSHA inspection
     then fail_op (Failure FailurePublication (ErrNew (''base branch '' @ pq_BaseBranch inspection @ '' moved from '' @ pq_BaseSHA inspection @ '' to '' @
       currentBase @ ''; restart from the current base'')))
     else return_op pending)))"

definition sync_pending :: "'w sync_env \<Rightarrow> SyncRequest \<Rightarrow> Target \<Rightarrow> SyncResult \<Rightarrow> (SyncResult \<Rightarrow> 'w \<Rightarrow> sync_exit \<times> 'w) \<Rightarrow> 'w \<Rightarrow> sync_exit \<times> 'w" where
  "sync_pending E req target result k =
     (if sq_ValidationOnly req \<or> sq_Diagnostic req \<or> sq_ForceCompare req then k result
      else case sq_Publication req of None \<Rightarrow> k result
      | Some publication \<Rightarrow> sync_try ''pending_publication'' result (sync_inspect E req publication target) (\<lambda>pending.
          let result = result\<lparr>sr_Publication := Some pending\<rparr> in
          if sq_RepairPending req then
            if \<not> pp_Repair pending then
              sync_fail ''pending_publication'' result (if pp_Number pending = 0
                then publicationPolicy ''repair requested but no open non-single sync PR matches this candidate''
                else publicationPolicy (''repair requested but PR #'' @ fmt_int (pp_Number pending) @ '' is already a single candidate commit''))
            else sync_return ''pending_publication'' (result\<lparr>sr_Outcome := OutcomeRepairReady, sr_Reason := ''repair preserves the tree of PR #'' @
              fmt_int (pp_Number pending) @ '' at '' @ pp_Head pending @ ''; no regeneration''\<rparr>)
          else if pp_Reusable pending then
            sync_return ''pending_publication'' (result\<lparr>sr_Outcome := OutcomePRPending, sr_Reason := pp_URL pending @ '' remains pending: '' @
              pp_Checks pending @ ''; no generation, Agent pass, or fresh proof''\<rparr>)
          else k result))"

section \<open>The ways a candidate is used\<close>

definition sync_clean :: "'w sync_env \<Rightarrow> SyncRequest \<Rightarrow> gostring \<Rightarrow> 'w \<Rightarrow> (go_error + unit) \<times> 'w" where
  "sync_clean E req message = wrapped message (AssertClean (pe_repo (se_pub E)) (sq_RepoRoot req))"

definition sync_unchanged :: "'w sync_env \<Rightarrow> SyncRequest \<Rightarrow> gostring \<Rightarrow> 'w \<Rightarrow> (go_error + unit) \<times> 'w" where
  "sync_unchanged E req message = bind_op (ChangedPaths (pe_repo (se_pub E)) (sq_RepoRoot req)) (\<lambda>dirty.
     if dirty \<noteq> [] then fail_op (ErrNew (message @ '' must leave the protocol worktree unchanged:\<newline>- '' @ join_str ''\<newline>- '' dirty)) else return_op ())"

definition sync_prepare :: "'w sync_env \<Rightarrow> SyncRequest \<Rightarrow> SyncResult \<Rightarrow> 'w \<Rightarrow> sync_exit \<times> 'w" where
  "sync_prepare E req result = sync_try ''generate'' result (sync_clean E req ''source preparation changed the accepted worktree'') (\<lambda>_.
     sync_return ''generate'' (result\<lparr>sr_Outcome := OutcomeSourceReady,
       sr_Reason := ''exact upstream source and schemas prepared; candidate planning belongs to the native goal''\<rparr>))"

definition sync_verify :: "'w sync_env \<Rightarrow> SyncRequest \<Rightarrow> Candidate \<Rightarrow> Target \<Rightarrow> SyncResult \<Rightarrow> 'w \<Rightarrow> sync_exit \<times> 'w" where
  "sync_verify E req candidate target result =
     sync_try ''exact_verification'' result (wrapped ''exact upstream verification'' (se_verify E (candidateApplyRequest (sync_module_root req) candidate target))) (\<lambda>proof.
     if pl_Status proof \<noteq> PlanReady then
       sync_fail ''exact_verification'' result (case pl_Issue proof of
           Some issue \<Rightarrow> Failure FailureUnsupported (ErrNew (''exact upstream verification unresolved at '' @ pi_Stage issue @ '' '' @ pi_Path issue @ '': '' @ pi_Reason issue))
         | None \<Rightarrow> ErrNew ''exact upstream verification returned'')
     else sync_try ''exact_verification'' result (sync_clean E req ''exact upstream verification changed the accepted worktree'') (\<lambda>_.
       sync_return ''exact_verification'' (result\<lparr>sr_Outcome := OutcomeExactVerified,
         sr_Reason := ''fresh exact upstream reconstruction matches all accepted semantic artifacts''\<rparr>)))"

definition sync_compare :: "'w sync_env \<Rightarrow> SyncRequest \<Rightarrow> Candidate \<Rightarrow> SyncResult \<Rightarrow> 'w \<Rightarrow> sync_exit \<times> 'w" where
  "sync_compare E req candidate result =
     sync_try ''schema_comparison'' result (sync_unchanged E req ''comparison'') (\<lambda>_.
     if cd_DriftStatus candidate = ''clean''
     then sync_return ''schema_comparison'' (result\<lparr>sr_Outcome := OutcomeSchemasMatch, sr_Reason := ''read-only comparison found no protocol drift''\<rparr>)
     else sync_fail ''schema_comparison'' result (Failure FailureValidation (ErrNew ''read-only comparison found protocol drift; comparison never applies'')))"

definition sync_unresolved :: "'w sync_env \<Rightarrow> SyncRequest \<Rightarrow> Candidate \<Rightarrow> PlanResult \<Rightarrow> SyncResult \<Rightarrow> 'w \<Rightarrow> sync_exit \<times> 'w" where
  "sync_unresolved E req candidate planned result =
     sync_try ''plan'' result (sync_unchanged E req ''semantic planning'') (\<lambda>_.
     sync_try ''plan'' result (wrapped ''snapshot unresolved candidate'' (se_digest E (cd_Dir candidate))) (\<lambda>fingerprint.
     sync_return ''plan'' (result\<lparr>sr_CandidateSHA256 := fingerprint, sr_Outcome := OutcomeSemanticUnresolved, sr_FailureCategory := FailureUnsupported,
       sr_Issue := pl_Issue planned, sr_Reason := (case pl_Issue planned of Some issue \<Rightarrow> pi_Reason issue | None \<Rightarrow> ''candidate has unresolved protocol semantics'')\<rparr>)))"

definition sync_apply :: "'w sync_env \<Rightarrow> SyncRequest \<Rightarrow> Candidate \<Rightarrow> Target \<Rightarrow> PlanResult \<Rightarrow> SyncResult \<Rightarrow> 'w \<Rightarrow> sync_exit \<times> 'w" where
  "sync_apply E req candidate target planned result =
     sync_try ''apply'' result (wrapped ''apply planned candidate'' (se_apply E (candidateApplyRequest (sync_module_root req) candidate target) planned)) (\<lambda>_.
     sync_try ''apply'' result (ChangedPaths (pe_repo (se_pub E)) (sq_RepoRoot req)) (\<lambda>paths.
     sync_try ''apply'' result (wrapped ''planned apply escaped the generated sync surface'' (check_op (validatePaths paths ''mechanical''))) (\<lambda>_.
     sync_return ''apply'' (result\<lparr>sr_Outcome := OutcomeApplied, sr_Reason :=
       (if cd_DriftStatus candidate = ''clean'' \<and> al_GeneratedReleaseImpact (pl_Preview planned) = ''metadata-only''
        then ''provenance-only candidate planned and applied'' else ''mechanical candidate planned and applied'')\<rparr>))))"

text \<open>A planning error of a diagnostic run is reported only when the run left the worktree clean.\<close>

definition plan_error :: "'w sync_env \<Rightarrow> SyncRequest \<Rightarrow> go_error \<Rightarrow> 'w \<Rightarrow> go_error \<times> 'w" where
  "plan_error E req e w =
     (if sq_Diagnostic req then (case AssertClean (pe_repo (se_pub E)) (sq_RepoRoot req) w of
          (Inl cleanErr, w) \<Rightarrow> (ErrWrap ''diagnostic planning changed the accepted worktree'' [cleanErr], w)
        | (Inr _, w) \<Rightarrow> (ErrWrap ''plan candidate'' [e], w))
      else (ErrWrap ''plan candidate'' [e], w))"

definition sync_plan :: "'w sync_env \<Rightarrow> SyncRequest \<Rightarrow> Candidate \<Rightarrow> Target \<Rightarrow> SyncResult \<Rightarrow> 'w \<Rightarrow> sync_exit \<times> 'w" where
  "sync_plan E req candidate target result w =
     (case se_plan E (candidateApplyRequest (sync_module_root req) candidate target) w of
        (Inl e, w) \<Rightarrow> (case plan_error E req e w of (e, w) \<Rightarrow> sync_fail ''plan'' result e w)
      | (Inr planned, w) \<Rightarrow>
          if pl_Status planned = PlanSemanticUnresolved then sync_unresolved E req candidate planned result w
          else if pl_Status planned \<noteq> PlanReady then sync_fail ''plan'' result (ErrNew ''unknown plan status'') w
          else if sq_Diagnostic req then
            sync_try ''plan'' result (sync_clean E req ''diagnostic planning changed the accepted worktree'') (\<lambda>_.
              sync_return ''plan'' (result\<lparr>sr_Outcome := OutcomePlanReady, sr_Reason := ''read-only candidate plan is ready''\<rparr>)) w
          else sync_apply E req candidate target planned result w)"

definition sync_candidate :: "'w sync_env \<Rightarrow> SyncRequest \<Rightarrow> bool \<Rightarrow> Target \<Rightarrow> SyncResult \<Rightarrow> 'w \<Rightarrow> sync_exit \<times> 'w" where
  "sync_candidate E req prepareOnly target result =
     sync_try ''generate'' result (se_generate E \<lparr>gq_ModuleRoot = sync_module_root req, gq_UpstreamRepo = sync_upstream req, gq_Target = target\<rparr>) (\<lambda>candidate.
     if cd_SourceCommit candidate \<noteq> tg_PeeledCommitSHA target
     then sync_fail ''generate'' result (Failure FailureSource (ErrNew ''candidate source_commit does not match the resolved target''))
     else let result = result\<lparr>sr_Candidate := cd_SchemaDir candidate, sr_CandidateDir := cd_Dir candidate\<rparr> in
       if prepareOnly then sync_prepare E req result
       else if sq_ValidationOnly req then sync_verify E req candidate target result
       else if sq_ForceCompare req \<and> \<not> sq_Diagnostic req then sync_compare E req candidate result
       else sync_plan E req candidate target result)"

definition sync_decided :: "'w sync_env \<Rightarrow> SyncRequest \<Rightarrow> bool \<Rightarrow> BaselineIdentity \<Rightarrow> Target \<Rightarrow> 'w \<Rightarrow> sync_exit \<times> 'w" where
  "sync_decided E req prepareOnly baseline target =
     (let policy = EvaluatePolicy (sync_policy req baseline target);
          afterPolicy = decideAfterPolicy (pd_Decision policy) (sq_ForceCompare req \<or> sq_Diagnostic req \<or> sq_ValidationOnly req \<or> prepareOnly);
          result = zero_result\<lparr>sr_Target := target, sr_Reason := pd_Reason policy\<rparr>
      in if afterPolicy = ''blocked'' then sync_fail ''policy'' result (Failure FailurePolicy (ErrNew (pd_Reason policy)))
         else if afterPolicy = ''current'' then sync_return ''policy'' (result\<lparr>sr_Outcome := OutcomeBaselineMatches\<rparr>)
         else sync_pending E req target result (sync_candidate E req prepareOnly target))"

definition sync_from :: "'w sync_env \<Rightarrow> SyncRequest \<Rightarrow> bool \<Rightarrow> BaselineIdentity \<Rightarrow> 'w \<Rightarrow> sync_exit \<times> 'w" where
  "sync_from E req prepareOnly baseline =
     (if sq_ValidationOnly req \<and> (\<not> sha_match (bi_SourceCommit baseline) \<or> bi_SourceRefName baseline = [] \<or> \<not> validKinds (bi_SourceRefKind baseline))
      then sync_fail ''baseline'' zero_result (Failure FailureSource (ErrNew ''validation-only requires a complete checked-in upstream identity''))
      else sync_try ''resolve'' zero_result (sync_target E req baseline) (sync_decided E req prepareOnly baseline))"

definition sync_run :: "'w sync_env \<Rightarrow> SyncRequest \<Rightarrow> bool \<Rightarrow> 'w \<Rightarrow> sync_exit \<times> 'w" where
  "sync_run E req prepareOnly =
     (case sync_modes req prepareOnly of Some e \<Rightarrow> sync_fail ''configuration'' zero_result e
      | None \<Rightarrow> sync_try ''configuration'' zero_result (AssertClean (pe_repo (se_pub E)) (sq_RepoRoot req)) (\<lambda>_.
          sync_try ''baseline'' zero_result (sync_baseline E req) (sync_from E req prepareOnly)))"

definition syncCandidate :: "'w sync_env \<Rightarrow> SyncRequest \<Rightarrow> bool \<Rightarrow> 'w \<Rightarrow> (SyncResult \<times> go_error option) \<times> 'w" where
  "syncCandidate E req prepareOnly w = (case sync_run E req prepareOnly w of (x, w) \<Rightarrow> (finishSync E x, w))"

definition Sync :: "'w sync_env \<Rightarrow> SyncRequest \<Rightarrow> 'w \<Rightarrow> (SyncResult \<times> go_error option) \<times> 'w" where
  "Sync E req = syncCandidate E req False"

definition PrepareSource :: "'w sync_env \<Rightarrow> SyncRequest \<Rightarrow> 'w \<Rightarrow> (SyncResult \<times> go_error option) \<times> 'w" where
  "PrepareSource E req = syncCandidate E req True"

section \<open>The output of a workflow step\<close>

definition sync_outputs :: "SyncResult \<Rightarrow> (gostring \<times> gostring) list" where
  "sync_outputs result =
     (let publication = (\<lambda>f. case sr_Publication result of None \<Rightarrow> [] | Some p \<Rightarrow> f p);
          observation = (\<lambda>f. case sr_Publication result of None \<Rightarrow> [] | Some p \<Rightarrow> (case pp_CheckObservation p of None \<Rightarrow> [] | Some ob \<Rightarrow> f ob));
          issue = (\<lambda>f. case sr_Issue result of None \<Rightarrow> [] | Some i \<Rightarrow> f i)
      in [(''check_run_id'', observation (\<lambda>ob. fmt_int (ob_WorkflowRunID ob))), (''check_run_attempt'', observation (\<lambda>ob. fmt_int (ob_WorkflowAttempt ob))),
          (''check_state'', observation (\<lambda>ob. state_name (ob_WorkflowState ob))),
          (''outcome'', githubOutputValue (sr_Outcome result)),
          (''publication_head'', githubOutputValue (publication pp_Head)),
          (''publication_branch'', githubOutputValue (publication pp_Branch)),
          (''publication_number'', githubOutputValue (publication (\<lambda>p. fmt_int (pp_Number p)))),
          (''pr_url'', githubOutputValue (publication pp_URL)),
          (''publication_checks'', githubOutputValue (publication pp_Checks)),
          (''stage'', githubOutputValue (sr_Stage result)),
          (''failure_category'', githubOutputValue (sr_FailureCategory result)),
          (''applied'', if sr_Outcome result = OutcomeApplied then ''true'' else ''false''),
          (''target_ref'', githubOutputValue (tg_RefName (sr_Target result))),
          (''target_kind'', githubOutputValue (tg_RefKind (sr_Target result))),
          (''target_sha'', githubOutputValue (tg_PeeledCommitSHA (sr_Target result))),
          (''candidate'', githubOutputValue (sr_Candidate result)),
          (''candidate_dir'', githubOutputValue (sr_CandidateDir result)),
          (''candidate_sha256'', githubOutputValue (sr_CandidateSHA256 result)),
          (''reason'', githubOutputValue (sr_Reason result)),
          (''issue_stage'', githubOutputValue (issue pi_Stage)),
          (''issue_path'', githubOutputValue (issue pi_Path)),
          (''issue_reason'', githubOutputValue (issue pi_Reason))])"

definition output_line :: "gostring \<times> gostring \<Rightarrow> gostring" where
  "output_line kv = fst kv @ ''='' @ snd kv"

definition output_text :: "SyncResult \<Rightarrow> gostring" where
  "output_text result = join_str [newline] (map output_line (sync_outputs result)) @ [newline]"

definition WriteGitHubOutput :: "'w sync_env \<Rightarrow> gostring \<Rightarrow> SyncResult \<Rightarrow> 'w \<Rightarrow> go_error option \<times> 'w" where
  "WriteGitHubOutput E path result w = (if path = [] then (None, w) else se_append E path (output_text result) w)"

section \<open>What an application rests on\<close>

text \<open>
  A flow that does not reach its application does not depend on it: \<open>settled\<close> says that a stage returns the same, whatever
  applying would do, and does not report an application.
\<close>

type_synonym 'w apply_op = "ApplyRequest \<Rightarrow> PlanResult \<Rightarrow> 'w \<Rightarrow> (go_error + ApplyResult) \<times> 'w"

definition settled :: "('w apply_op \<Rightarrow> 'w \<Rightarrow> sync_exit \<times> 'w) \<Rightarrow> 'w \<Rightarrow> bool" where
  "settled F w \<longleftrightarrow> (\<exists>x w'. (\<forall>f. F f w = (x, w')) \<and> (ex_err x = None \<longrightarrow> sr_Outcome (ex_result x) \<noteq> OutcomeApplied))"

lemma settled_fail [simp]: "settled (\<lambda>f. sync_fail stage result e) w"
  by (simp add: settled_def sync_fail_def)

lemma settled_return [simp]: "sr_Outcome result \<noteq> OutcomeApplied \<Longrightarrow> settled (\<lambda>f. sync_return stage result) w"
  by (simp add: settled_def sync_return_def)

lemma settled_at: "(\<And>f. F f w = G f w') \<Longrightarrow> settled F w = settled G w'"
  by (simp add: settled_def)

lemma settled_if [simp]: "settled (\<lambda>f. if c then F f else G f) w = (if c then settled F w else settled G w)"
  by simp

lemma settled_try:
  assumes "\<And>a w1. m w = (Inr a, w1) \<Longrightarrow> settled (\<lambda>f. k f a) w1"
  shows "settled (\<lambda>f. sync_try stage result m (k f)) w"
proof (cases "m w")
  case (Pair r w1)
  show ?thesis
  proof (cases r)
    case (Inl e)
    have "settled (\<lambda>f. sync_try stage result m (k f)) w = settled (\<lambda>f. sync_fail stage result e) w1"
      by (rule settled_at) (simp add: sync_try_def Pair Inl)
    then show ?thesis by simp
  next
    case (Inr a)
    have "settled (\<lambda>f. sync_try stage result m (k f)) w = settled (\<lambda>f. k f a) w1"
      by (rule settled_at) (simp add: sync_try_def Pair Inr)
    with assms Pair Inr show ?thesis by simp
  qed
qed

lemma unsettled_try:
  assumes "\<not> settled (\<lambda>f. sync_try stage result m (k f)) w"
  obtains a w1 where "m w = (Inr a, w1)" "\<not> settled (\<lambda>f. k f a) w1" "\<And>f. sync_try stage result m (k f) w = k f a w1"
proof -
  from assms settled_try[of m w k stage result] obtain a w1 where m: "m w = (Inr a, w1)" "\<not> settled (\<lambda>f. k f a) w1" by blast
  moreover from m have "sync_try stage result m (k f) w = k f a w1" for f by (simp add: sync_try_def)
  ultimately show thesis by (rule that)
qed

lemma apply_free [simp]:
  "sync_prepare (E\<lparr>se_apply := f\<rparr>) = sync_prepare E" "sync_verify (E\<lparr>se_apply := f\<rparr>) = sync_verify E"
  "sync_compare (E\<lparr>se_apply := f\<rparr>) = sync_compare E" "sync_unresolved (E\<lparr>se_apply := f\<rparr>) = sync_unresolved E"
  "plan_error (E\<lparr>se_apply := f\<rparr>) = plan_error E" "sync_clean (E\<lparr>se_apply := f\<rparr>) = sync_clean E"
  "sync_inspect (E\<lparr>se_apply := f\<rparr>) = sync_inspect E" "sync_baseline (E\<lparr>se_apply := f\<rparr>) = sync_baseline E"
  "sync_target (E\<lparr>se_apply := f\<rparr>) = sync_target E" "finishSync (E\<lparr>se_apply := f\<rparr>) = finishSync E"
  by (simp_all add: fun_eq_iff sync_prepare_def sync_verify_def sync_compare_def sync_unresolved_def plan_error_def sync_clean_def sync_unchanged_def
      sync_inspect_def sync_baseline_def sync_target_def finishSync_def loadBaselineIdentity_def
      cong: if_cong option.case_cong sum.case_cong)

lemma settled_uses:
  "settled (\<lambda>f. sync_prepare E req result) w" "settled (\<lambda>f. sync_verify E req candidate target result) w"
  "settled (\<lambda>f. sync_compare E req candidate result) w" "settled (\<lambda>f. sync_unresolved E req candidate planned result) w"
  unfolding sync_prepare_def sync_verify_def sync_compare_def sync_unresolved_def
  by (rule settled_try; simp add: outcomes settled_try)+

text \<open>The request of an automatic or explicit upgrade that may apply.\<close>

definition may_apply :: "SyncRequest \<Rightarrow> bool \<Rightarrow> bool" where
  "may_apply req prepareOnly \<longleftrightarrow> \<not> prepareOnly \<and> \<not> sq_ValidationOnly req \<and> \<not> sq_ForceCompare req \<and> \<not> sq_Diagnostic req \<and>
     \<not> (sq_RepairPending req \<and> sq_Publication req \<noteq> None)"

lemma unsettled_plan:
  assumes "\<not> settled (\<lambda>f. sync_plan (E\<lparr>se_apply := f\<rparr>) req candidate target result) w"
  obtains planned w1 where "se_plan E (candidateApplyRequest (sync_module_root req) candidate target) w = (Inr planned, w1)"
    "pl_Status planned = PlanReady" "\<not> sq_Diagnostic req"
    "\<And>f. sync_plan (E\<lparr>se_apply := f\<rparr>) req candidate target result w = sync_apply (E\<lparr>se_apply := f\<rparr>) req candidate target planned result w1"
proof (cases "se_plan E (candidateApplyRequest (sync_module_root req) candidate target) w")
  case (Pair r w1)
  show thesis
  proof (cases r)
    case (Inl e)
    with assms settled_at[of "\<lambda>f. sync_plan (E\<lparr>se_apply := f\<rparr>) req candidate target result" w
      "\<lambda>f. sync_fail ''plan'' result (fst (plan_error E req e w1))" "snd (plan_error E req e w1)"]
    have False by (simp add: sync_plan_def Pair split: prod.split)
    then show thesis ..
  next
    case (Inr planned)
    let ?F = "\<lambda>f. sync_plan (E\<lparr>se_apply := f\<rparr>) req candidate target result"
    let ?diagnostic = "sync_try ''plan'' result (sync_clean E req ''diagnostic planning changed the accepted worktree'') (\<lambda>_.
      sync_return ''plan'' (result\<lparr>sr_Outcome := OutcomePlanReady, sr_Reason := ''read-only candidate plan is ready''\<rparr>))"
    have "settled ?F w = settled (\<lambda>f. if pl_Status planned = PlanSemanticUnresolved then sync_unresolved E req candidate planned result
          else if pl_Status planned \<noteq> PlanReady then sync_fail ''plan'' result (ErrNew ''unknown plan status'')
          else if sq_Diagnostic req then ?diagnostic
          else sync_apply (E\<lparr>se_apply := f\<rparr>) req candidate target planned result) w1"
      by (rule settled_at) (simp add: sync_plan_def Pair Inr)
    moreover have "settled (\<lambda>f. ?diagnostic) w1"
      by (rule settled_try) (simp add: outcomes)
    ultimately have "pl_Status planned \<noteq> PlanSemanticUnresolved \<and> pl_Status planned = PlanReady \<and> \<not> sq_Diagnostic req"
      using assms by (simp add: settled_uses split: if_splits)
    then have unresolved: "pl_Status planned \<noteq> PlanSemanticUnresolved" and ready: "pl_Status planned = PlanReady" and diag: "\<not> sq_Diagnostic req"
      by blast+
    show thesis
      using Pair Inr unresolved ready diag by (intro that[of planned w1]) (simp_all add: sync_plan_def)
  qed
qed

lemma unsettled_candidate:
  assumes "\<not> settled (\<lambda>f. sync_candidate (E\<lparr>se_apply := f\<rparr>) req p target result) w" "sr_Outcome result \<noteq> OutcomeApplied"
  obtains candidate w1 where "se_generate E \<lparr>gq_ModuleRoot = sync_module_root req, gq_UpstreamRepo = sync_upstream req, gq_Target = target\<rparr> w = (Inr candidate, w1)"
    "cd_SourceCommit candidate = tg_PeeledCommitSHA target" "\<not> p" "\<not> sq_ValidationOnly req" "\<not> sq_ForceCompare req \<or> sq_Diagnostic req"
    "\<not> settled (\<lambda>f. sync_plan (E\<lparr>se_apply := f\<rparr>) req candidate target
       (result\<lparr>sr_Candidate := cd_SchemaDir candidate, sr_CandidateDir := cd_Dir candidate\<rparr>)) w1"
    "\<And>f. sync_candidate (E\<lparr>se_apply := f\<rparr>) req p target result w = sync_plan (E\<lparr>se_apply := f\<rparr>) req candidate target
       (result\<lparr>sr_Candidate := cd_SchemaDir candidate, sr_CandidateDir := cd_Dir candidate\<rparr>) w1"
proof -
  let ?m = "se_generate E \<lparr>gq_ModuleRoot = sync_module_root req, gq_UpstreamRepo = sync_upstream req, gq_Target = target\<rparr>"
  let ?k = "\<lambda>f candidate. if cd_SourceCommit candidate \<noteq> tg_PeeledCommitSHA target
     then sync_fail ''generate'' result (Failure FailureSource (ErrNew ''candidate source_commit does not match the resolved target''))
     else let result = result\<lparr>sr_Candidate := cd_SchemaDir candidate, sr_CandidateDir := cd_Dir candidate\<rparr> in
       if p then sync_prepare E req result
       else if sq_ValidationOnly req then sync_verify E req candidate target result
       else if sq_ForceCompare req \<and> \<not> sq_Diagnostic req then sync_compare E req candidate result
       else sync_plan (E\<lparr>se_apply := f\<rparr>) req candidate target result"
  have run: "sync_candidate (E\<lparr>se_apply := f\<rparr>) req p target result = sync_try ''generate'' result ?m (?k f)" for f
    by (simp add: sync_candidate_def Let_def cong: if_cong)
  from assms(1)[unfolded run] obtain candidate w1 where gen: "?m w = (Inr candidate, w1)" and rest: "\<not> settled (\<lambda>f. ?k f candidate) w1"
    by (rule unsettled_try)
  from rest show thesis
    by (intro that[OF gen]) (auto simp: settled_uses Let_def run sync_try_def gen split: if_splits)
qed

text \<open>What the inspection of pending publications left open: nothing was inspected, or what it found is not reusable.\<close>

definition pending_clear :: "'w sync_env \<Rightarrow> SyncRequest \<Rightarrow> Target \<Rightarrow> PendingPublication option \<Rightarrow> 'w \<Rightarrow> 'w \<Rightarrow> bool" where
  "pending_clear E req target pubs w w1 \<longleftrightarrow> (case (sq_Publication req, pubs) of
      (None, None) \<Rightarrow> w1 = w
    | (Some publication, Some pending) \<Rightarrow> sync_inspect E req publication target w = (Inr pending, w1) \<and> \<not> pp_Reusable pending \<and> \<not> sq_RepairPending req
    | _ \<Rightarrow> False)"

lemma unsettled_pending:
  assumes "\<not> settled (\<lambda>f. sync_pending E req target result (k f)) w" "sr_Publication result = None"
  obtains pubs w1 where "\<not> settled (\<lambda>f. k f (result\<lparr>sr_Publication := pubs\<rparr>)) w1"
    "\<And>f. sync_pending E req target result (k f) w = k f (result\<lparr>sr_Publication := pubs\<rparr>) w1"
    "sq_ValidationOnly req \<or> sq_Diagnostic req \<or> sq_ForceCompare req \<or> pending_clear E req target pubs w w1"
proof (cases "sq_ValidationOnly req \<or> sq_Diagnostic req \<or> sq_ForceCompare req \<or> sq_Publication req = None")
  case True
  have same: "result\<lparr>sr_Publication := None\<rparr> = result" using assms(2) by (cases result) simp
  from True have skip: "sync_pending E req target result (k f) = k f (result\<lparr>sr_Publication := None\<rparr>)" for f
    unfolding same by (auto simp: sync_pending_def)
  show thesis using assms(1) True by (intro that[of None w]) (auto simp: skip pending_clear_def)
next
  case False
  then obtain publication where pub: "sq_Publication req = Some publication" by blast
  define K where "K f pending = (let result = result\<lparr>sr_Publication := Some pending\<rparr> in
      if sq_RepairPending req then
        if \<not> pp_Repair pending then
          sync_fail ''pending_publication'' result (if pp_Number pending = 0
            then publicationPolicy ''repair requested but no open non-single sync PR matches this candidate''
            else publicationPolicy (''repair requested but PR #'' @ fmt_int (pp_Number pending) @ '' is already a single candidate commit''))
        else sync_return ''pending_publication'' (result\<lparr>sr_Outcome := OutcomeRepairReady, sr_Reason := ''repair preserves the tree of PR #'' @
          fmt_int (pp_Number pending) @ '' at '' @ pp_Head pending @ ''; no regeneration''\<rparr>)
      else if pp_Reusable pending then
        sync_return ''pending_publication'' (result\<lparr>sr_Outcome := OutcomePRPending, sr_Reason := pp_URL pending @ '' remains pending: '' @
          pp_Checks pending @ ''; no generation, Agent pass, or fresh proof''\<rparr>)
      else k f result)" for f pending
  have run: "sync_pending E req target result (k f) = sync_try ''pending_publication'' result (sync_inspect E req publication target) (K f)" for f
    using False by (simp add: sync_pending_def pub K_def[abs_def])
  from assms(1)[unfolded run] obtain pending w1 where insp: "sync_inspect E req publication target w = (Inr pending, w1)"
    and rest: "\<not> settled (\<lambda>f. K f pending) w1" by (rule unsettled_try)
  have failed: "settled (\<lambda>f. sync_fail stage r e) w1" for stage r e by simp
  have "\<not> sq_RepairPending req \<and> \<not> pp_Reusable pending"
    using rest by (simp add: K_def Let_def outcomes split: if_splits)
  then show thesis
    using rest insp pub by (intro that[of "Some pending" w1]) (simp_all add: K_def Let_def run sync_try_def pending_clear_def)
qed

text \<open>The point at which a candidate is applied, and what was established on the way there.\<close>

definition apply_point :: "'w sync_env \<Rightarrow> SyncRequest \<Rightarrow> bool \<Rightarrow> 'w \<Rightarrow> BaselineIdentity \<Rightarrow> Target \<Rightarrow> Candidate \<Rightarrow> PlanResult \<Rightarrow> 'w \<Rightarrow> bool" where
  "apply_point E req prepareOnly w baseline target candidate planned wa \<longleftrightarrow> may_apply req prepareOnly \<and>
     (\<exists>w1 w2 w3 w4 w5 pubs. AssertClean (pe_repo (se_pub E)) (sq_RepoRoot req) w = (Inr (), w1) \<and>
        sync_baseline E req w1 = (Inr baseline, w2) \<and>
        sync_target E req baseline w2 = (Inr target, w3) \<and>
        pd_Decision (EvaluatePolicy (sync_policy req baseline target)) = DecisionAllow \<and>
        pending_clear E req target pubs w3 w4 \<and>
        se_generate E \<lparr>gq_ModuleRoot = sync_module_root req, gq_UpstreamRepo = sync_upstream req, gq_Target = target\<rparr> w4 = (Inr candidate, w5) \<and>
        cd_SourceCommit candidate = tg_PeeledCommitSHA target \<and>
        se_plan E (candidateApplyRequest (sync_module_root req) candidate target) w5 = (Inr planned, wa) \<and> pl_Status planned = PlanReady)"

lemma unsettled_decided:
  assumes "\<not> settled (\<lambda>f. sync_decided (E\<lparr>se_apply := f\<rparr>) req p baseline target) w"
  obtains result w1 pubs where "\<not> settled (\<lambda>f. sync_candidate (E\<lparr>se_apply := f\<rparr>) req p target result) w1" "sr_Outcome result \<noteq> OutcomeApplied"
    "\<And>f. sync_decided (E\<lparr>se_apply := f\<rparr>) req p baseline target w = sync_candidate (E\<lparr>se_apply := f\<rparr>) req p target result w1"
    "sq_ForceCompare req \<or> sq_Diagnostic req \<or> sq_ValidationOnly req \<or> p \<or>
       pd_Decision (EvaluatePolicy (sync_policy req baseline target)) = DecisionAllow \<and> pending_clear E req target pubs w w1"
proof -
  define d where "d = pd_Decision (EvaluatePolicy (sync_policy req baseline target))"
  define after where "after = decideAfterPolicy d (sq_ForceCompare req \<or> sq_Diagnostic req \<or> sq_ValidationOnly req \<or> p)"
  define r where "r = zero_result\<lparr>sr_Target := target, sr_Reason := pd_Reason (EvaluatePolicy (sync_policy req baseline target))\<rparr>"
  have r: "sr_Publication r = None" "sr_Outcome r = []" by (simp_all add: r_def zero_result_def)
  have pend: "sync_pending (E\<lparr>se_apply := f\<rparr>) = sync_pending E" for f
    by (simp add: fun_eq_iff sync_pending_def cong: if_cong option.case_cong)
  have run: "sync_decided (E\<lparr>se_apply := f\<rparr>) req p baseline target =
      (if after = ''blocked'' then sync_fail ''policy'' r (Failure FailurePolicy (ErrNew (pd_Reason (EvaluatePolicy (sync_policy req baseline target)))))
       else if after = ''current'' then sync_return ''policy'' (r\<lparr>sr_Outcome := OutcomeBaselineMatches\<rparr>)
       else sync_pending E req target r (sync_candidate (E\<lparr>se_apply := f\<rparr>) req p target))" for f
    by (simp add: sync_decided_def after_def d_def r_def pend Let_def)
  have "settled (\<lambda>f. sync_return ''policy'' (r\<lparr>sr_Outcome := OutcomeBaselineMatches\<rparr>)) w" by (simp add: outcomes)
  with assms have after: "after \<noteq> ''blocked''" "after \<noteq> ''current''"
    and left: "\<not> settled (\<lambda>f. sync_pending E req target r (sync_candidate (E\<lparr>se_apply := f\<rparr>) req p target)) w"
    unfolding run settled_if by (auto split: if_splits)
  from after have d: "sq_ForceCompare req \<or> sq_Diagnostic req \<or> sq_ValidationOnly req \<or> p \<or> d = DecisionAllow"
    by (auto simp: after_def decideAfterPolicy_def split: if_splits)
  from left r(1) obtain pubs w1 where 1: "\<not> settled (\<lambda>f. sync_candidate (E\<lparr>se_apply := f\<rparr>) req p target (r\<lparr>sr_Publication := pubs\<rparr>)) w1"
    and 2: "\<And>f. sync_pending E req target r (sync_candidate (E\<lparr>se_apply := f\<rparr>) req p target) w = sync_candidate (E\<lparr>se_apply := f\<rparr>) req p target (r\<lparr>sr_Publication := pubs\<rparr>) w1"
    and 3: "sq_ValidationOnly req \<or> sq_Diagnostic req \<or> sq_ForceCompare req \<or> pending_clear E req target pubs w w1"
    by (rule unsettled_pending) blast
  show thesis
    by (rule that[OF 1]) (use r(2) 2 3 d after in \<open>auto simp: run d_def outcomes\<close>)
qed

lemma unsettled_from:
  assumes "\<not> settled (\<lambda>f. sync_from (E\<lparr>se_apply := f\<rparr>) req p baseline) w"
  obtains target w1 where "sync_target E req baseline w = (Inr target, w1)"
    "\<not> settled (\<lambda>f. sync_decided (E\<lparr>se_apply := f\<rparr>) req p baseline target) w1"
    "\<And>f. sync_from (E\<lparr>se_apply := f\<rparr>) req p baseline w = sync_decided (E\<lparr>se_apply := f\<rparr>) req p baseline target w1"
proof -
  have "\<not> settled (\<lambda>f. sync_try ''resolve'' zero_result (sync_target E req baseline) (sync_decided (E\<lparr>se_apply := f\<rparr>) req p baseline)) w"
    and run: "\<And>f. sync_from (E\<lparr>se_apply := f\<rparr>) req p baseline = sync_try ''resolve'' zero_result (sync_target E req baseline) (sync_decided (E\<lparr>se_apply := f\<rparr>) req p baseline)"
    using assms by (auto simp: sync_from_def split: if_splits)
  from this(1) show thesis by (rule unsettled_try) (auto simp: run intro: that)
qed

lemma unsettled_run:
  assumes "\<not> settled (\<lambda>f. sync_run (E\<lparr>se_apply := f\<rparr>) req p) w"
  obtains baseline target candidate planned wa result where "apply_point E req p w baseline target candidate planned wa"
    "\<And>f. sync_run (E\<lparr>se_apply := f\<rparr>) req p w = sync_apply (E\<lparr>se_apply := f\<rparr>) req candidate target planned result wa"
proof -
  let ?clean = "AssertClean (pe_repo (se_pub E)) (sq_RepoRoot req)"
  let ?k = "\<lambda>f (_ :: unit). sync_try ''baseline'' zero_result (sync_baseline E req) (sync_from (E\<lparr>se_apply := f\<rparr>) req p)"
  have modes: "sync_modes req p = None"
    using assms by (cases "sync_modes req p") (simp_all add: sync_run_def)
  have run: "sync_run (E\<lparr>se_apply := f\<rparr>) req p = sync_try ''configuration'' zero_result ?clean (?k f)" for f
    by (simp add: sync_run_def modes)
  from assms[unfolded run] obtain u w1 where 1: "?clean w = (Inr u, w1)" "\<not> settled (\<lambda>f. ?k f u) w1"
      "\<And>f. sync_try ''configuration'' zero_result ?clean (?k f) w = ?k f u w1" by (rule unsettled_try[where k = ?k]) blast
  from 1(2) obtain baseline w2 where 2: "sync_baseline E req w1 = (Inr baseline, w2)" "\<not> settled (\<lambda>f. sync_from (E\<lparr>se_apply := f\<rparr>) req p baseline) w2"
      "\<And>f. ?k f u w1 = sync_from (E\<lparr>se_apply := f\<rparr>) req p baseline w2" by (rule unsettled_try) blast
  from 2(2) obtain target w3 where 3: "sync_target E req baseline w2 = (Inr target, w3)"
      "\<not> settled (\<lambda>f. sync_decided (E\<lparr>se_apply := f\<rparr>) req p baseline target) w3"
      "\<And>f. sync_from (E\<lparr>se_apply := f\<rparr>) req p baseline w2 = sync_decided (E\<lparr>se_apply := f\<rparr>) req p baseline target w3"
    by (rule unsettled_from) blast
  from 3(2) obtain r w4 pubs where 4: "\<not> settled (\<lambda>f. sync_candidate (E\<lparr>se_apply := f\<rparr>) req p target r) w4" "sr_Outcome r \<noteq> OutcomeApplied"
      "\<And>f. sync_decided (E\<lparr>se_apply := f\<rparr>) req p baseline target w3 = sync_candidate (E\<lparr>se_apply := f\<rparr>) req p target r w4"
      "sq_ForceCompare req \<or> sq_Diagnostic req \<or> sq_ValidationOnly req \<or> p \<or>
         pd_Decision (EvaluatePolicy (sync_policy req baseline target)) = DecisionAllow \<and> pending_clear E req target pubs w3 w4"
    by (rule unsettled_decided) blast
  from 4(1,2) obtain candidate w5 where 5: "se_generate E \<lparr>gq_ModuleRoot = sync_module_root req, gq_UpstreamRepo = sync_upstream req, gq_Target = target\<rparr> w4 = (Inr candidate, w5)"
      "cd_SourceCommit candidate = tg_PeeledCommitSHA target" "\<not> p" "\<not> sq_ValidationOnly req" "\<not> sq_ForceCompare req \<or> sq_Diagnostic req"
      "\<not> settled (\<lambda>f. sync_plan (E\<lparr>se_apply := f\<rparr>) req candidate target (r\<lparr>sr_Candidate := cd_SchemaDir candidate, sr_CandidateDir := cd_Dir candidate\<rparr>)) w5"
      "\<And>f. sync_candidate (E\<lparr>se_apply := f\<rparr>) req p target r w4 = sync_plan (E\<lparr>se_apply := f\<rparr>) req candidate target
         (r\<lparr>sr_Candidate := cd_SchemaDir candidate, sr_CandidateDir := cd_Dir candidate\<rparr>) w5"
    by (rule unsettled_candidate) blast
  from 5(6) obtain planned wa where 6: "se_plan E (candidateApplyRequest (sync_module_root req) candidate target) w5 = (Inr planned, wa)"
      "pl_Status planned = PlanReady" "\<not> sq_Diagnostic req"
      "\<And>f. sync_plan (E\<lparr>se_apply := f\<rparr>) req candidate target (r\<lparr>sr_Candidate := cd_SchemaDir candidate, sr_CandidateDir := cd_Dir candidate\<rparr>) w5 =
         sync_apply (E\<lparr>se_apply := f\<rparr>) req candidate target planned (r\<lparr>sr_Candidate := cd_SchemaDir candidate, sr_CandidateDir := cd_Dir candidate\<rparr>) wa"
    by (rule unsettled_plan) blast
  have "pending_clear E req target pubs w3 w4" "pd_Decision (EvaluatePolicy (sync_policy req baseline target)) = DecisionAllow"
    using 4(4) 5(3-5) 6(3) by auto
  then have "apply_point E req p w baseline target candidate planned wa"
    using 1(1) 2(1) 3(1) 5(1-5) 6(1-3) unfolding apply_point_def may_apply_def by (auto simp: pending_clear_def split: option.splits)
  then show thesis by (rule that) (simp only: run 1(3) 2(3) 3(3) 4(3) 5(7) 6(4))
qed

lemma sync_apply_success:
  assumes "sync_apply E req candidate target planned result w = (x, w')" "ex_err x = None"
  obtains applied w1 w2 paths where "se_apply E (candidateApplyRequest (sync_module_root req) candidate target) planned w = (Inr applied, w1)"
    "ChangedPaths (pe_repo (se_pub E)) (sq_RepoRoot req) w1 = (Inr paths, w2)" "list_all isMechanicalPath paths"
proof -
  have valid: "list_all isMechanicalPath paths" if "validatePaths paths ''mechanical'' = None" for paths
    using that by (auto simp: validatePaths_def scope_allows_def Let_def filter_empty_conv list_all_iff split: if_splits)
  show thesis
    using assms that valid
    by (auto simp: sync_apply_def sync_try_def sync_fail_def wrap_op_def check_op_def split: prod.splits sum.splits option.splits)
qed

lemma finishSync_applied:
  assumes "finishSync E x = (result, err)" "sr_Outcome result = OutcomeApplied"
  shows "ex_err x = None \<and> err = None \<and> sr_Outcome (ex_result x) = OutcomeApplied"
  using assms by (auto simp: finishSync_def Let_def outcomes split: option.splits)

text \<open>C26: whatever the environment answers, a synchronisation depends on applying a candidate, or reports one as applied, only when
  the request allows it (no preparation, validation, comparison, diagnosis or repair), the worktree was clean, the
  policy allows the resolved target for the checked-in baseline, no reusable publication is pending, the candidate was
  generated from the target's commit and its plan is ready. A target nobody asked for is then a newer stable tag than the baseline. When
  the result is reported as applied there is no error, applying succeeded, and every path that has changed is a generated one,
  none of them accepted control.\<close>

theorem sync_applies_allowed_plan:
  assumes "syncCandidate (E\<lparr>se_apply := f\<rparr>) req p w = ((result, err), w')"
    and "sr_Outcome result = OutcomeApplied \<or> syncCandidate (E\<lparr>se_apply := g\<rparr>) req p w \<noteq> ((result, err), w')"
  shows "\<exists>baseline target candidate planned wa. apply_point E req p w baseline target candidate planned wa \<and>
    (\<not> tg_TargetExplicit target \<longrightarrow> newer_tag (tg_RefName target) (bi_SourceRefName baseline)) \<and>
    (sr_Outcome result = OutcomeApplied \<longrightarrow> err = None \<and> (\<exists>applied w1 w2 paths.
       f (candidateApplyRequest (sync_module_root req) candidate target) planned wa = (Inr applied, w1) \<and>
       ChangedPaths (pe_repo (se_pub E)) (sq_RepoRoot req) w1 = (Inr paths, w2) \<and>
       list_all (\<lambda>path. isMechanicalPath path \<and> \<not> protectedForwardControl path) paths))"
proof -
  have "\<not> settled (\<lambda>f. sync_run (E\<lparr>se_apply := f\<rparr>) req p) w"
    using assms finishSync_applied[of E _ result err] by (auto simp: settled_def syncCandidate_def)
  then obtain baseline target candidate planned wa r where pt: "apply_point E req p w baseline target candidate planned wa"
    and run: "\<And>f. sync_run (E\<lparr>se_apply := f\<rparr>) req p w = sync_apply (E\<lparr>se_apply := f\<rparr>) req candidate target planned r wa"
    by (rule unsettled_run) blast
  have "newer_tag (tg_RefName target) (bi_SourceRefName baseline)" if "\<not> tg_TargetExplicit target"
    using pt that automatic_allow_iff[of "sync_policy req baseline target"] by (auto simp: apply_point_def sync_policy_def)
  moreover have "err = None \<and> (\<exists>applied w1 w2 paths. f (candidateApplyRequest (sync_module_root req) candidate target) planned wa = (Inr applied, w1) \<and>
      ChangedPaths (pe_repo (se_pub E)) (sq_RepoRoot req) w1 = (Inr paths, w2) \<and>
      list_all (\<lambda>path. isMechanicalPath path \<and> \<not> protectedForwardControl path) paths)" if "sr_Outcome result = OutcomeApplied"
  proof -
    from assms(1) obtain x where x: "sync_run (E\<lparr>se_apply := f\<rparr>) req p w = (x, w')" "finishSync E x = (result, err)"
      by (auto simp: syncCandidate_def split: prod.splits)
    with that finishSync_applied have none: "ex_err x = None" "err = None" by blast+
    from x(1)[unfolded run] none(1) show ?thesis
      by (rule sync_apply_success) (use none(2) mechanical_unprotected in \<open>auto simp: list_all_iff\<close>)
  qed
  ultimately show ?thesis using pt by blast
qed

text \<open>A synchronisation that applies an upgrade; the state tells whether it was applied.\<close>

definition sample_sync :: "bool sync_env" where
  "sample_sync = \<lparr>se_pub = \<lparr>pe_repo = \<lparr>rp_git = (\<lambda>args inp w. (Inr (if w \<and> ''diff'' \<in> set args then ''codexsdk/sdk_surface.gen.go'' @ [NUL] else []), w)),
       rp_lstat = (\<lambda>root name w. (Inr True, w)), rp_IsNotExist = (\<lambda>_. False)\<rparr>,
     pe_prs = (\<lambda>_ w. (Inr [], w)), pe_pr = (\<lambda>_ w. (Inl go_panic, w)), pe_activity = (\<lambda>_ w. (Inr [], w)),
     pe_patch = (\<lambda>_ _ _ w. (None, w)), pe_post = (\<lambda>_ _ _ _ _ w. (None, w)),
     pe_checks = \<lparr>ca_Get = (\<lambda>_ w. (Inl go_panic, w)), ca_Post = (\<lambda>_ w. (None, w)), ca_check_page = (\<lambda>_. Inl go_panic),
       ca_workflow_page = (\<lambda>_. Inl go_panic), ca_job_page = (\<lambda>_. Inl go_panic), ca_workflow_run = (\<lambda>_. Inl go_panic), ca_pr = (\<lambda>_. Inl go_panic),
       ca_ref_sha = (\<lambda>_. Inl go_panic), ca_PathEscape = (\<lambda>s. s)\<rparr>,
     pe_lookup = (\<lambda>_ _ w. (Inr [], w)), pe_output = (\<lambda>_ _ w. (None, w)), pe_identity = (\<lambda>_. Inr (pq_Baseline example_upgrade)),
     pe_QueryEscape = (\<lambda>s. s), pe_pages = 1\<rparr>,
   se_lookup = (\<lambda>_ _ w. (Inr (pq_TargetSHA example_upgrade @ '' refs/tags/rust-v0.10.0''), w)),
   se_ReadFile = (\<lambda>_ w. (Inr [], w)),
   se_generate = (\<lambda>q w. (Inr \<lparr>cd_Dir = ''candidate'', cd_SchemaDir = ''candidate/schema'', cd_StableSchemaDir = ''candidate/stable-schema'',
     cd_ReportsDir = ''candidate/reports'', cd_CommonRS = ''candidate/common.rs'', cd_CommonRSSourceSHA = [], cd_CodexRepo = [],
     cd_DriftStatus = ''drift'', cd_SourceCommit = tg_PeeledCommitSHA (gq_Target q)\<rparr>, w)),
   se_plan = (\<lambda>_ w. (Inr \<lparr>pl_Status = PlanReady, pl_Preview = zero_applied, pl_Issue = None\<rparr>, w)),
   se_verify = (\<lambda>_ w. (Inl go_panic, w)), se_apply = (\<lambda>_ planned _. (Inr (pl_Preview planned), True)), se_digest = (\<lambda>_ w. (Inr [], w)),
   se_append = (\<lambda>_ _ w. (None, w)), se_Error = (\<lambda>_. [])\<rparr>"

definition sample_sync_request :: SyncRequest where
  "sample_sync_request = \<lparr>sq_Publication = None, sq_RepoRoot = ''repo'', sq_ModuleRoot = [], sq_UpstreamRepo = [], sq_UpstreamRef = [], sq_LatestStable = True,
     sq_AllowDowngrade = False, sq_ForceCompare = False, sq_RepairPending = False, sq_ValidationOnly = False, sq_Diagnostic = False, sq_EventName = ''schedule''\<rparr>"

lemma sample_sync_applied: "sr_Outcome (fst (fst (syncCandidate sample_sync sample_sync_request False False))) = OutcomeApplied"
  by code_simp

theorem sync_applies_allowed_plan_witness:
  "\<exists>baseline target candidate planned wa applied w1 w2 paths.
    apply_point sample_sync sample_sync_request False False baseline target candidate planned wa \<and>
    se_apply sample_sync (candidateApplyRequest (sync_module_root sample_sync_request) candidate target) planned wa = (Inr applied, w1) \<and>
    ChangedPaths (pe_repo (se_pub sample_sync)) (sq_RepoRoot sample_sync_request) w1 = (Inr paths, w2) \<and> list_all isMechanicalPath paths"
proof -
  obtain result err w' where run: "syncCandidate sample_sync sample_sync_request False False = ((result, err), w')" by (metis prod.exhaust)
  with sample_sync_applied have "sr_Outcome result = OutcomeApplied" by simp
  with sync_applies_allowed_plan[where E = sample_sync and f = "se_apply sample_sync"] run
  show ?thesis by (fastforce simp: list_all_iff)
qed

section \<open>Reading the output back\<close>

text \<open>
  What a later step of the workflow reads: the lines of the file, each split at its first equals sign. No value of the result
  can add a line or a key of its own, so that the step reads back exactly the outputs, as long as the state of a check
  run has no line break; the named states have none.
\<close>

definition read_outputs :: "gostring \<Rightarrow> (gostring \<times> gostring) list" where
  "read_outputs t = map (\<lambda>line. (takeWhile (\<lambda>c. c \<noteq> CHR ''='') line, tl (dropWhile (\<lambda>c. c \<noteq> CHR ''='') line))) (butlast (split_on newline t))"

lemma split_join_lines:
  "xs \<noteq> [] \<Longrightarrow> list_all (\<lambda>x. c \<notin> set x) xs \<Longrightarrow> split_on c (join_str [c] xs @ [c]) = xs @ [[]]"
proof (induction "[c]" xs rule: join_str.induct)
  case (3 x y ys)
  then show ?case using split_on_append[of c x] by (simp add: split_on_no)
qed (simp_all add: split_on_append split_on_no)

lemma itoa_digits: "set (itoa n) \<subseteq> {c. ascii_digit c}"
proof (induction n rule: itoa.induct)
  case (1 n)
  then show ?case by (subst itoa.simps) (auto simp: ascii_digit_def)
qed

lemma fmt_int_line: "newline \<notin> set (fmt_int n)"
proof -
  have "\<not> ascii_digit newline" "newline \<noteq> CHR ''-''" by (simp_all add: ascii_digit_def newline_def)
  then show ?thesis using itoa_digits by (auto simp: fmt_int_def)
qed

lemma sync_outputs_lines:
  assumes "\<And>p ob. sr_Publication result = Some p \<Longrightarrow> pp_CheckObservation p = Some ob \<Longrightarrow> newline \<notin> set (state_name (ob_WorkflowState ob))"
  shows "list_all (\<lambda>kv. newline \<notin> set (snd kv)) (sync_outputs result)"
proof (cases "sr_Publication result")
  case None
  then show ?thesis by (simp add: sync_outputs_def Let_def githubOutputValue_one_line(1) newline_def[symmetric])
      (simp add: newline_def)
next
  case (Some p)
  then show ?thesis
    using assms[OF Some] by (cases "pp_CheckObservation p")
      (simp_all add: sync_outputs_def Let_def githubOutputValue_one_line(1) fmt_int_line, simp_all add: newline_def)
qed

lemma sync_outputs_keys: "list_all (\<lambda>kv. newline \<notin> set (fst kv) \<and> CHR ''='' \<notin> set (fst kv)) (sync_outputs result)"
  by (simp add: sync_outputs_def Let_def newline_def)

lemma dropWhile_mark: "c \<notin> set a \<Longrightarrow> dropWhile (\<lambda>x. x \<noteq> c) (a @ c # b) = c # b"
  by (induction a) auto

lemma read_output_line: "CHR ''='' \<notin> set (fst kv) \<Longrightarrow>
  (takeWhile (\<lambda>c. c \<noteq> CHR ''='') (output_line kv), tl (dropWhile (\<lambda>c. c \<noteq> CHR ''='') (output_line kv))) = kv"
  by (cases kv) (auto simp: output_line_def dropWhile_mark intro!: takeWhile_append2[THEN trans])

theorem sync_output_roundtrip:
  assumes "\<And>p ob. sr_Publication result = Some p \<Longrightarrow> pp_CheckObservation p = Some ob \<Longrightarrow> newline \<notin> set (state_name (ob_WorkflowState ob))"
  shows "read_outputs (output_text result) = sync_outputs result"
proof -
  have "list_all (\<lambda>x. newline \<notin> set x) (map output_line (sync_outputs result))"
    using sync_outputs_lines[OF assms] sync_outputs_keys[of result] by (auto simp: list_all_iff output_line_def newline_def)
  moreover have "sync_outputs result \<noteq> []" by (simp add: sync_outputs_def Let_def)
  ultimately have "butlast (split_on newline (output_text result)) = map output_line (sync_outputs result)"
    by (simp add: output_text_def split_join_lines)
  then show ?thesis
    using sync_outputs_keys[of result] read_output_line by (simp add: read_outputs_def list_all_iff map_idI)
qed

end
