(* ===== verification/Lockfile.thy ===== *)
theory Lockfile
  imports Go_Paths
begin

text \<open>
  The lock file of the upstream build, \<open>codexsdk/internal/protocolsync/lockfile.go\<close>: the versions of the workspace's own
  packages are taken from Cargo's metadata, everything else stays as it is locked.

  Decoding the metadata into its struct, and the TOML library, are parameters; a table is an association list. The maps and
  slices of a decoded file are not shared, so that updating them in place is rebuilding them. Operands printed with \<open>%q\<close> are
  left out of error texts.
\<close>

section \<open>Package filepath\<close>

text \<open>\<open>filepath.Rel\<close> from an absolute base, which is what the generator passes, and \<open>filepath.IsLocal\<close>.\<close>

definition path_comps :: "gostring \<Rightarrow> gostring list" where
  "path_comps p = filter (\<lambda>c. c \<noteq> []) (split_on slash (path_clean p))"

fun strip_common :: "gostring list \<Rightarrow> gostring list \<Rightarrow> gostring list \<times> gostring list" where
  "strip_common (a # as) (b # bs) = (if a = b then strip_common as bs else (a # as, b # bs))"
| "strip_common as bs = (as, bs)"

definition path_rel :: "gostring \<Rightarrow> gostring \<Rightarrow> gostring option" where
  "path_rel base targ =
     (if path_clean targ = path_clean base then Some ''.''
      else if \<not> has_prefix targ [slash] then None
      else case strip_common (path_comps base) (path_comps targ) of (up, down) \<Rightarrow>
        Some (join_str [slash] (map (\<lambda>_. ''..'') up @ down)))"

definition is_local :: "gostring \<Rightarrow> bool" where
  "is_local p =
     (if has_prefix p [slash] \<or> p = [] then False
      else let p = (if list_ex (\<lambda>c. c = ''.'' \<or> c = ''..'') (split_on slash p) then path_clean p else p)
           in \<not> (p = ''..'' \<or> has_prefix p ''../''))"

section \<open>Data\<close>

record workspace_package =
  wp_ID :: gostring
  wp_Name :: gostring
  wp_Version :: gostring
  wp_Source :: "gostring option"
  wp_ManifestPath :: gostring

record workspace =
  ws_Members :: "gostring list"
  ws_Packages :: "workspace_package list"

datatype toml = TString gostring | TArray "toml list" | TTable "(gostring \<times> toml) list" | TOther gostring

type_synonym table = "(gostring \<times> toml) list"

record lock_codec =
  lc_metadata :: "gostring \<Rightarrow> go_error + workspace"
  lc_Unmarshal :: "gostring \<Rightarrow> go_error + table"
  lc_Marshal :: "table \<Rightarrow> go_error + gostring"

section \<open>The workspace\<close>

definition version_at :: "(gostring \<times> gostring) list \<Rightarrow> gostring \<Rightarrow> gostring" where
  "version_at versions name = (case map_of versions name of Some v \<Rightarrow> v | None \<Rightarrow> [])"

fun workspace_versions :: "gostring \<Rightarrow> workspace_package list \<Rightarrow> gostring list \<Rightarrow> (gostring \<times> gostring) list \<Rightarrow>
    go_error + gostring list \<times> (gostring \<times> gostring) list" where
  "workspace_versions root [] members versions = Inr (members, versions)"
| "workspace_versions root (p # ps) members versions =
     (if wp_ID p \<notin> set members then workspace_versions root ps members versions
      else if (case path_rel root (wp_ManifestPath p) of None \<Rightarrow> True | Some rel \<Rightarrow> \<not> is_local rel) \<or> wp_Source p \<noteq> None \<or>
          wp_Name p = [] \<or> wp_Version p = [] \<or> version_at versions (wp_Name p) \<noteq> []
      then Inl (ErrNew ''invalid local workspace identity'')
      else workspace_versions root ps (filter (\<lambda>m. m \<noteq> wp_ID p) members) ((wp_Name p, wp_Version p) # versions))"

definition local_versions :: "gostring \<Rightarrow> workspace \<Rightarrow> go_error + (gostring \<times> gostring) list" where
  "local_versions root ws = (case workspace_versions root (ws_Packages ws) (ws_Members ws) [] of
      Inl e \<Rightarrow> Inl e
    | Inr (members, versions) \<Rightarrow> if members \<noteq> [] \<or> versions = [] then Inl (ErrNew ''incomplete Cargo workspace metadata'') else Inr versions)"

section \<open>The locked packages\<close>

definition text_field :: "table \<Rightarrow> gostring \<Rightarrow> gostring option" where
  "text_field p k = (case map_of p k of Some (TString s) \<Rightarrow> Some s | _ \<Rightarrow> None)"

definition name_of :: "table \<Rightarrow> gostring" where
  "name_of p = (case text_field p ''name'' of Some s \<Rightarrow> s | None \<Rightarrow> [])"

definition external :: "table \<Rightarrow> bool" where
  "external p \<longleftrightarrow> map_of p ''source'' \<noteq> None"

definition is_workspace :: "(gostring \<times> gostring) list \<Rightarrow> table \<Rightarrow> bool" where
  "is_workspace versions p \<longleftrightarrow> \<not> external p \<and> version_at versions (name_of p) \<noteq> []"

definition lock_id :: "gostring \<Rightarrow> gostring \<Rightarrow> gostring" where
  "lock_id name version = name @ '' '' @ version"

definition set_field :: "gostring \<Rightarrow> toml \<Rightarrow> table \<Rightarrow> table" where
  "set_field k v p = map (\<lambda>(j, u). if j = k then (j, v) else (j, u)) p"

text \<open>The first pass sets the versions of local packages and collects which references change.\<close>

fun set_versions :: "(gostring \<times> gostring) list \<Rightarrow> toml list \<Rightarrow> gostring list \<Rightarrow>
    go_error + toml list \<times> gostring list \<times> (gostring \<times> gostring) list" where
  "set_versions versions [] found = Inr ([], found, [])"
| "set_versions versions (value # values) found = (case value of
      TTable p \<Rightarrow>
       (let name = name_of p in
        case text_field p ''version'' of
          None \<Rightarrow> Inl (ErrNew ''invalid locked package identity'')
        | Some version \<Rightarrow>
            if name = [] then Inl (ErrNew ''invalid locked package identity'')
            else if \<not> is_workspace versions p
            then map_sum id (\<lambda>(ps, found, repl). (TTable p # ps, found, repl)) (set_versions versions values found)
            else if name \<in> set found then Inl (ErrNew ''ambiguous local locked package'')
            else let v = version_at versions name in
              map_sum id (\<lambda>(ps, found, repl). if version \<noteq> v
                  then (TTable (set_field ''version'' (TString v) p) # ps, found, repl @ [(lock_id name version, lock_id name v)])
                  else (TTable p # ps, found, repl))
                (set_versions versions values (name # found)))
    | _ \<Rightarrow> Inl (ErrNew ''invalid Cargo.lock package''))"

fun set_refs :: "(gostring \<times> gostring) list \<Rightarrow> toml list \<Rightarrow> go_error + toml list" where
  "set_refs repl [] = Inr []"
| "set_refs repl (dep # deps) = (case dep of
      TString r \<Rightarrow> map_sum id (\<lambda>ds. TString (case map_of repl r of Some r' \<Rightarrow> r' | None \<Rightarrow> r) # ds) (set_refs repl deps)
    | _ \<Rightarrow> Inl (ErrNew ''invalid locked dependency reference''))"

text \<open>The second pass rewrites the references; an external package must not be mistaken for a local one.\<close>

definition clashes :: "(gostring \<times> gostring) list \<Rightarrow> (gostring \<times> gostring) list \<Rightarrow> table \<Rightarrow> bool" where
  "clashes versions repl p \<longleftrightarrow> external p \<and> (case text_field p ''version'' of None \<Rightarrow> False
     | Some version \<Rightarrow> map_of repl (lock_id (name_of p) version) \<noteq> None \<or> version_at versions (name_of p) = version)"

definition set_package_refs :: "(gostring \<times> gostring) list \<Rightarrow> (gostring \<times> gostring) list \<Rightarrow> toml \<Rightarrow> go_error + toml" where
  "set_package_refs versions repl value = (case value of
      TTable p \<Rightarrow>
       (if clashes versions repl p then Inl (ErrNew ''ambiguous external/workspace locked identity'')
        else case map_of p ''dependencies'' of
          Some (TArray deps) \<Rightarrow> map_sum id (\<lambda>ds. TTable (set_field ''dependencies'' (TArray ds) p)) (set_refs repl deps)
        | _ \<Rightarrow> Inr (TTable p))
    | _ \<Rightarrow> Inr value)"

fun map_err :: "('a \<Rightarrow> go_error + 'b) \<Rightarrow> 'a list \<Rightarrow> go_error + 'b list" where
  "map_err f [] = Inr []"
| "map_err f (x # xs) = (case f x of Inl e \<Rightarrow> Inl e | Inr y \<Rightarrow> map_sum id (\<lambda>ys. y # ys) (map_err f xs))"

definition prepareLockfile :: "lock_codec \<Rightarrow> gostring \<Rightarrow> gostring \<Rightarrow> gostring \<Rightarrow> go_error + gostring" where
  "prepareLockfile C original metadata root =
     (case lc_metadata C metadata of Inl e \<Rightarrow> Inl (ErrWrap ''read workspace metadata'' [e])
      | Inr ws \<Rightarrow> (case local_versions root ws of Inl e \<Rightarrow> Inl e
      | Inr versions \<Rightarrow> (case lc_Unmarshal C original of Inl e \<Rightarrow> Inl (ErrWrap ''parse upstream Cargo.lock'' [e])
      | Inr lock \<Rightarrow> (case map_of lock ''package'' of
          Some (TArray packages) \<Rightarrow> (case set_versions versions packages [] of Inl e \<Rightarrow> Inl e
            | Inr (packages, found, repl) \<Rightarrow>
                if list_ex (\<lambda>(name, _). name \<notin> set found) versions then Inl (ErrNew ''workspace package missing from Cargo.lock'')
                else if repl = [] then Inr original
                else (case map_err (set_package_refs versions repl) packages of Inl e \<Rightarrow> Inl e
                  | Inr packages \<Rightarrow> (case lc_Marshal C (set_field ''package'' (TArray packages) lock) of
                        Inl e \<Rightarrow> Inl (ErrWrap ''encode prepared Cargo.lock'' [e]) | Inr prepared \<Rightarrow> Inr prepared)))
        | _ \<Rightarrow> Inl (ErrNew ''Cargo.lock has no package array'')))))"

section \<open>What the passes do\<close>

definition set_version :: "(gostring \<times> gostring) list \<Rightarrow> toml \<Rightarrow> toml" where
  "set_version versions value = (case value of TTable p \<Rightarrow>
     TTable (if is_workspace versions p \<and> text_field p ''version'' \<noteq> Some (version_at versions (name_of p))
       then set_field ''version'' (TString (version_at versions (name_of p))) p else p) | _ \<Rightarrow> value)"

definition local_name :: "(gostring \<times> gostring) list \<Rightarrow> toml \<Rightarrow> gostring list" where
  "local_name versions value = (case value of TTable p \<Rightarrow> if is_workspace versions p then [name_of p] else [] | _ \<Rightarrow> [])"

definition version_change :: "(gostring \<times> gostring) list \<Rightarrow> toml \<Rightarrow> (gostring \<times> gostring) list" where
  "version_change versions value = (case value of TTable p \<Rightarrow> (case text_field p ''version'' of None \<Rightarrow> []
     | Some version \<Rightarrow> if is_workspace versions p \<and> version \<noteq> version_at versions (name_of p)
         then [(lock_id (name_of p) version, lock_id (name_of p) (version_at versions (name_of p)))] else []) | _ \<Rightarrow> [])"

definition identified :: "toml \<Rightarrow> bool" where
  "identified value = (case value of TTable p \<Rightarrow> text_field p ''version'' \<noteq> None \<and> name_of p \<noteq> [] | _ \<Rightarrow> False)"

abbreviation local_names :: "(gostring \<times> gostring) list \<Rightarrow> toml list \<Rightarrow> gostring list" where
  "local_names versions values \<equiv> concat (map (local_name versions) values)"

abbreviation version_changes :: "(gostring \<times> gostring) list \<Rightarrow> toml list \<Rightarrow> (gostring \<times> gostring) list" where
  "version_changes versions values \<equiv> concat (map (version_change versions) values)"

lemma map_sum_Inr: "map_sum id g s = Inr b \<longleftrightarrow> (\<exists>a. s = Inr a \<and> b = g a)"
  by (cases s) auto

lemma set_versions_Inr:
  "set_versions versions qs found = Inr r \<longleftrightarrow>
     list_all identified qs \<and> distinct (local_names versions qs) \<and> set (local_names versions qs) \<inter> set found = {} \<and>
     r = (map (set_version versions) qs, rev (local_names versions qs) @ found, rev (version_changes versions qs))"
proof (induction qs arbitrary: found r)
  case (Cons q qs)
  show ?case
  proof (cases q)
    case (TTable p)
    show ?thesis
      by (cases "text_field p ''version''"; cases "is_workspace versions p"; cases "text_field p ''version'' = Some (version_at versions (name_of p))")
        (auto simp: TTable Let_def map_sum_Inr Cons.IH identified_def local_name_def version_change_def set_version_def)
  qed (simp_all add: identified_def)
qed auto

lemma set_field_other: "j \<noteq> k \<Longrightarrow> map_of (set_field k v p) j = map_of p j"
  by (induction p) (auto simp: set_field_def)

lemma set_field_same: "map_of p k \<noteq> None \<Longrightarrow> map_of (set_field k v p) k = Some v"
  by (induction p) (auto simp: set_field_def split: if_splits)

lemma map_err_Inr: "map_err f xs = Inr ys \<longleftrightarrow> list_all2 (\<lambda>x y. f x = Inr y) xs ys"
proof (induction xs arbitrary: ys)
  case (Cons x xs)
  then show ?case by (cases "f x") (auto simp: map_sum_Inr list_all2_Cons1)
qed auto

lemma set_refs_Inr:
  "set_refs repl deps = Inr ds \<longleftrightarrow>
     (\<exists>rs. deps = map TString rs \<and> ds = map (\<lambda>r. TString (case map_of repl r of Some r' \<Rightarrow> r' | None \<Rightarrow> r)) rs)"
proof (induction deps arbitrary: ds)
  case (Cons dep deps)
  show ?case
  proof (cases dep)
    case (TString r)
    then show ?thesis by (auto simp: map_sum_Inr Cons.IH Cons_eq_map_conv)
  qed (auto simp: Cons_eq_map_conv)
qed auto

text \<open>Two packages that agree on everything but their dependencies have the same identity.\<close>

definition same_but :: "gostring set \<Rightarrow> table \<Rightarrow> table \<Rightarrow> bool" where
  "same_but ks p p' \<longleftrightarrow> (\<forall>k. k \<notin> ks \<longrightarrow> map_of p' k = map_of p k)"

lemma same_but_identity:
  assumes "same_but ks p p'" "''name'' \<notin> ks" "''source'' \<notin> ks"
  shows "name_of p' = name_of p" "external p' = external p" "is_workspace versions p' = is_workspace versions p"
  using assms by (simp_all add: same_but_def name_of_def text_field_def external_def is_workspace_def)

lemma same_but_set_field: "k \<in> ks \<Longrightarrow> same_but ks p (set_field k v p)"
  unfolding same_but_def using set_field_other by metis

section \<open>The prepared file\<close>

definition rename_refs :: "(gostring \<times> gostring) list \<Rightarrow> toml \<Rightarrow> toml" where
  "rename_refs repl value = (case value of
      TArray deps \<Rightarrow> TArray (map (\<lambda>d. case d of TString r \<Rightarrow> TString (case map_of repl r of Some r' \<Rightarrow> r' | None \<Rightarrow> r) | _ \<Rightarrow> d) deps)
    | _ \<Rightarrow> value)"

text \<open>What a package of the lock file becomes: only a workspace package gets another version, and only references change besides.\<close>

definition kept_package :: "(gostring \<times> gostring) list \<Rightarrow> (gostring \<times> gostring) list \<Rightarrow> toml \<Rightarrow> toml \<Rightarrow> bool" where
  "kept_package versions repl q q' \<longleftrightarrow> (\<exists>p p'. q = TTable p \<and> q' = TTable p' \<and> same_but {''version'', ''dependencies''} p p' \<and>
     text_field p' ''version'' = (if is_workspace versions p then Some (version_at versions (name_of p)) else text_field p ''version'') \<and>
     map_of p' ''dependencies'' = map_option (rename_refs repl) (map_of p ''dependencies''))"

lemma rename_refs_Nil [simp]: "rename_refs [] = (\<lambda>t. t)"
  by (auto simp: rename_refs_def fun_eq_iff split: toml.splits intro!: map_idI)

lemma kept_package_facts:
  assumes "kept_package versions repl q q'" "identified q"
  shows "local_name versions q' = local_name versions q" "identified q'" "version_change versions q' = []"
proof -
  from assms obtain p p' where p: "q = TTable p" "q' = TTable p'" "same_but {''version'', ''dependencies''} p p'"
      "text_field p' ''version'' = (if is_workspace versions p then Some (version_at versions (name_of p)) else text_field p ''version'')"
    unfolding kept_package_def by blast
  have same: "name_of p' = name_of p" "is_workspace versions p' = is_workspace versions p"
    using same_but_identity[OF p(3)] by simp_all
  from same p(1,2) show "local_name versions q' = local_name versions q" by (simp add: local_name_def)
  from same p assms(2) show "identified q'" by (simp add: identified_def)
  from same p show "version_change versions q' = []" by (simp add: version_change_def split: option.split)
qed

lemma set_version_kept:
  assumes "identified q"
  shows "kept_package versions [] q (set_version versions q)"
proof -
  from assms obtain p where p: "q = TTable p" "text_field p ''version'' \<noteq> None" by (auto simp: identified_def split: toml.splits)
  then have "map_of p ''version'' \<noteq> None" by (cases "map_of p ''version''") (auto simp: text_field_def)
  with p show ?thesis
    by (auto simp: kept_package_def set_version_def same_but_set_field text_field_def set_field_same set_field_other option.map_ident)
      (simp_all add: same_but_def)
qed

lemma set_package_refs_kept:
  assumes "kept_package versions [] q q1" "set_package_refs versions repl q1 = Inr q'"
  shows "kept_package versions repl q q'"
proof -
  from assms(1) obtain p p1 where 1: "q = TTable p" "q1 = TTable p1" "same_but {''version'', ''dependencies''} p p1"
      "text_field p1 ''version'' = (if is_workspace versions p then Some (version_at versions (name_of p)) else text_field p ''version'')"
      "map_of p1 ''dependencies'' = map_of p ''dependencies''"
    by (auto simp: kept_package_def option.map_ident)
  show ?thesis
  proof (cases "\<exists>deps. map_of p1 ''dependencies'' = Some (TArray deps)")
    case True
    then obtain deps where deps: "map_of p1 ''dependencies'' = Some (TArray deps)" by blast
    with assms(2) 1(2) obtain rs where rs: "deps = map TString rs"
        "q' = TTable (set_field ''dependencies'' (TArray (map (\<lambda>r. TString (case map_of repl r of Some r' \<Rightarrow> r' | None \<Rightarrow> r)) rs)) p1)"
      by (auto simp: set_package_refs_def map_sum_Inr set_refs_Inr split: if_splits)
    let ?p = "set_field ''dependencies'' (TArray (map (\<lambda>r. TString (case map_of repl r of Some r' \<Rightarrow> r' | None \<Rightarrow> r)) rs)) p1"
    have "same_but {''version'', ''dependencies''} p ?p" using 1(3) by (simp add: same_but_def set_field_other)
    moreover have "text_field ?p ''version'' = text_field p1 ''version''" by (simp add: text_field_def set_field_other)
    moreover have "map_of ?p ''dependencies'' = map_option (rename_refs repl) (map_of p ''dependencies'')"
      using deps rs(1) 1(5) by (simp add: set_field_same rename_refs_def)
    ultimately show ?thesis unfolding kept_package_def using 1(1,4) rs(2) by (intro exI[of _ p] exI[of _ ?p]) simp
  next
    case False
    with assms(2) 1(2) have "q' = TTable p1"
      by (auto simp: set_package_refs_def split: if_splits option.splits toml.splits)
    moreover have "map_of p ''dependencies'' = map_option (rename_refs repl) (map_of p ''dependencies'')"
    proof (cases "map_of p ''dependencies''")
      case (Some t)
      with False 1(5) show ?thesis by (cases t) (auto simp: rename_refs_def)
    qed simp
    ultimately show ?thesis using 1 by (simp add: kept_package_def)
  qed
qed

lemma local_names_workspace:
  assumes "n \<in> set (local_names versions qs)"
  shows "n \<in> fst ` set versions"
proof -
  from assms obtain p where "n = name_of p" "is_workspace versions p"
    by (auto simp: local_name_def split: toml.splits if_splits)
  then have "map_of versions n \<noteq> None" by (cases "map_of versions n") (auto simp: is_workspace_def version_at_def)
  then show ?thesis by (simp add: map_of_eq_None_iff)
qed

lemma set_version_same: "identified q \<Longrightarrow> version_change versions q = [] \<Longrightarrow> set_version versions q = q"
  by (auto simp: identified_def version_change_def set_version_def split: toml.splits option.splits if_splits)

lemma kept_packages:
  assumes "list_all2 (kept_package versions repl) qs qs'" "list_all identified qs"
  shows "local_names versions qs' = local_names versions qs \<and> list_all identified qs' \<and> version_changes versions qs' = []"
  using assms
proof (induction rule: list_all2_induct)
  case (Cons q qs q' qs')
  then show ?case using kept_package_facts[of versions repl q q'] by simp
qed simp

text \<open>A lock file whose workspace packages have the metadata's versions is returned as it is.\<close>

lemma prepareLockfile_stable:
  assumes "lc_metadata C metadata = Inr ws" "local_versions root ws = Inr versions" "lc_Unmarshal C out = Inr lock"
    "map_of lock ''package'' = Some (TArray qs)" "list_all identified qs" "distinct (local_names versions qs)"
    "fst ` set versions \<subseteq> set (local_names versions qs)" "version_changes versions qs = []"
  shows "prepareLockfile C out metadata root = Inr out"
proof -
  have found: "\<not> list_ex (\<lambda>(name, _). name \<notin> set (rev (local_names versions qs))) versions"
    using assms(7) by (auto simp: list_ex_iff)
  have "set_versions versions qs [] = Inr (map (set_version versions) qs, rev (local_names versions qs), [])"
    using assms(5,6,8) by (simp add: set_versions_Inr)
  then show ?thesis unfolding prepareLockfile_def using found by (simp only: assms sum.case option.case toml.case prod.case if_False if_True simp_thms)
qed

text \<open>C28: the lock file that is built against is the upstream one with the workspace's own versions. Its packages are the
  upstream packages in order; a workspace package has the version of Cargo's metadata, every other package keeps its
  version, references follow the changed versions, and nothing else changes. Every workspace package is locked exactly
  once, and preparing the result again leaves it as it is. The TOML library is taken to read back what it writes.\<close>

theorem prepared_lock_projects:
  assumes "prepareLockfile C original metadata root = Inr out"
    and "\<And>t s. lc_Marshal C t = Inr s \<Longrightarrow> lc_Unmarshal C s = Inr t"
  shows "\<exists>ws versions lock lock' qs qs'. lc_metadata C metadata = Inr ws \<and> local_versions root ws = Inr versions \<and>
    lc_Unmarshal C original = Inr lock \<and> map_of lock ''package'' = Some (TArray qs) \<and>
    lc_Unmarshal C out = Inr lock' \<and> map_of lock' ''package'' = Some (TArray qs') \<and> same_but {''package''} lock lock' \<and>
    list_all2 (kept_package versions (rev (version_changes versions qs))) qs qs' \<and>
    distinct (local_names versions qs') \<and> set (local_names versions qs') = fst ` set versions \<and>
    prepareLockfile C out metadata root = Inr out"
proof -
  obtain ws versions lock qs where run: "lc_metadata C metadata = Inr ws" "local_versions root ws = Inr versions" "lc_Unmarshal C original = Inr lock"
      "map_of lock ''package'' = Some (TArray qs)"
    using assms(1) by (auto simp: prepareLockfile_def split: sum.splits option.splits toml.splits)
  let ?repl = "rev (version_changes versions qs)"
  let ?qs = "map (set_version versions) qs"
  have sets: "set_versions versions qs [] = Inr (?qs, rev (local_names versions qs), ?repl)" "list_all identified qs" "distinct (local_names versions qs)"
    using assms(1) run by (auto simp: prepareLockfile_def set_versions_Inr split: sum.splits)
  have names: "fst ` set versions \<subseteq> set (local_names versions qs)"
    using assms(1) run sets(1) by (auto simp: prepareLockfile_def list_ex_iff split: if_splits)
  have kept: "list_all2 (kept_package versions []) qs ?qs"
    using sets(2) set_version_kept by (auto simp: list_all2_map2 list_all_iff intro!: list.rel_refl_strong)
  obtain lock' qs' where out: "lc_Unmarshal C out = Inr lock'" "map_of lock' ''package'' = Some (TArray qs')" "same_but {''package''} lock lock'"
      "list_all2 (kept_package versions ?repl) qs qs'"
  proof (cases "version_changes versions qs = []")
    case True
    with assms(1) run sets(1) have "out = original" by (auto simp: prepareLockfile_def split: if_splits)
    moreover from True sets(2) have "?qs = qs" by (auto simp: list_all_iff intro!: map_idI set_version_same)
    then have "list_all2 (kept_package versions ?repl) qs qs" using kept unfolding True by simp
    ultimately show thesis using run by (intro that[of lock qs]) (auto simp: same_but_def)
  next
    case False
    with assms(1) run sets(1) obtain qs' where refs: "map_err (set_package_refs versions ?repl) ?qs = Inr qs'"
        "lc_Marshal C (set_field ''package'' (TArray qs') lock) = Inr out"
      by (auto simp: prepareLockfile_def split: if_splits sum.splits)
    have "list_all2 (kept_package versions ?repl) qs qs'"
      by (rule list_all2_trans[OF _ kept refs(1)[unfolded map_err_Inr]]) (rule set_package_refs_kept)
    with run refs(2) assms(2) show thesis
      by (intro that[of "set_field ''package'' (TArray qs') lock" qs']) (auto simp: set_field_same same_but_set_field)
  qed
  have keep: "local_names versions qs' = local_names versions qs" "list_all identified qs'" "version_changes versions qs' = []"
    using kept_packages[OF out(4) sets(2)] by blast+
  have "set (local_names versions qs') = fst ` set versions"
    unfolding keep(1) using names local_names_workspace by blast
  moreover have "prepareLockfile C out metadata root = Inr out"
    using prepareLockfile_stable[OF run(1,2) out(1,2) keep(2)] keep(1,3) sets(3) names by simp
  moreover have "distinct (local_names versions qs')" using sets(3) unfolding keep(1) .
  ultimately show ?thesis using run out by blast
qed

definition sample_package :: "gostring \<Rightarrow> gostring \<Rightarrow> gostring list \<Rightarrow> bool \<Rightarrow> toml" where
  "sample_package name version deps ext = TTable ([(''name'', TString name), (''version'', TString version), (''dependencies'', TArray (map TString deps))] @
     (if ext then [(''source'', TString ''registry'')] else []))"

definition sample_lock :: "gostring \<Rightarrow> gostring list \<Rightarrow> table" where
  "sample_lock version deps = [(''version'', TOther ''4''), (''package'', TArray [sample_package ''cli'' version [''serde 1.0.0''] False, sample_package ''core'' ''2.0.0'' deps False,
     sample_package ''serde'' ''1.0.0'' [] True])]"

definition sample_codec :: lock_codec where
  "sample_codec = \<lparr>lc_metadata = (\<lambda>_. Inr \<lparr>ws_Members = [''a'', ''b''], ws_Packages =
       [\<lparr>wp_ID = ''a'', wp_Name = ''cli'', wp_Version = ''0.10.0'', wp_Source = None, wp_ManifestPath = ''/src/cli/Cargo.toml''\<rparr>,
        \<lparr>wp_ID = ''b'', wp_Name = ''core'', wp_Version = ''2.0.0'', wp_Source = None, wp_ManifestPath = ''/src/core/Cargo.toml''\<rparr>]\<rparr>),
     lc_Unmarshal = (\<lambda>s. if s = ''old'' then Inr (sample_lock ''0.0.0'' [''cli 0.0.0'', ''serde 1.0.0''])
       else if s = ''new'' then Inr (sample_lock ''0.10.0'' [''cli 0.10.0'', ''serde 1.0.0'']) else Inl (ErrNew ''toml'')),
     lc_Marshal = (\<lambda>t. if t = sample_lock ''0.10.0'' [''cli 0.10.0'', ''serde 1.0.0''] then Inr ''new'' else Inl (ErrNew ''toml''))\<rparr>"

lemma sample_prepared: "prepareLockfile sample_codec ''old'' [] ''/src'' = Inr ''new''"
  by code_simp

theorem prepared_lock_projects_witness:
  "prepareLockfile sample_codec ''old'' [] ''/src'' = Inr ''new'' \<and> prepareLockfile sample_codec ''new'' [] ''/src'' = Inr ''new''"
proof -
  have "lc_Unmarshal sample_codec s = Inr t" if "lc_Marshal sample_codec t = Inr s" for t s
    using that by (auto simp: sample_codec_def split: if_splits)
  from prepared_lock_projects[OF sample_prepared this] sample_prepared show ?thesis by blast
qed

end
