(* ===== verification/Upgrade_Apply.thy ===== *)
theory Upgrade_Apply
  imports Sync_Flow Upgrade_Compare
begin

text \<open>
  Writing a planned candidate into the worktree, \<open>codexsdk/internal/protocolupgrade/materialize.go\<close>. A plan that succeeded
  holds the bytes it constructed and the snapshot of the baseline it was made from; \<open>Apply\<close> checks the snapshot, removes stale
  schema files and retired reports, and writes the bytes.

  The file system is an interface: its operations are the fields of a \<open>store\<close>, and the locale \<open>file_store\<close> states what they
  do to the contents of the files. A Go map of file contents is an association list.
\<close>

section \<open>The file system\<close>

record 'w store =
  st_files :: "'w files"
  st_MkdirAll :: "gostring \<Rightarrow> 'w \<Rightarrow> (go_error + unit) \<times> 'w"
  st_WriteFile :: "gostring \<Rightarrow> gostring \<Rightarrow> 'w \<Rightarrow> (go_error + unit) \<times> 'w"
  st_Remove :: "gostring \<Rightarrow> 'w \<Rightarrow> (go_error + unit) \<times> 'w"

section \<open>Materialisation\<close>

record preparedCandidate =
  pw_request :: ApplyRequest
  pw_baseline :: "(gostring \<times> gostring) list"
  pw_files :: "(gostring \<times> gostring) list"
  pw_reports :: "(gostring \<times> gostring) list"

record prepared_plan = PlanResult +
  pl_prepared :: "preparedCandidate option"

definition generatedProtocolArtifacts :: "gostring list" where
  "generatedProtocolArtifacts = [''protocolv2/method_registry.gen.go'', ''protocolv2/protocol_types.gen.go'',
     ''protocolv2/experimental_members.gen.go'', ''sdk_surface.gen.go'']"

definition read_candidate :: "'w files \<Rightarrow> gostring \<Rightarrow> gostring \<Rightarrow> 'w \<Rightarrow> (go_error + gostring \<times> gostring) \<times> 'w" where
  "read_candidate fs root rel = bind_op (fs_read fs root rel) (\<lambda>data. return_op (rel, data))"

definition readCandidateFiles :: "'w files \<Rightarrow> gostring \<Rightarrow> 'w \<Rightarrow> (go_error + (gostring \<times> gostring) list) \<times> 'w" where
  "readCandidateFiles fs root = bind_op (fs_walk fs root) (each_file (read_candidate fs root))"

definition prepareCandidateWrites :: "'w files \<Rightarrow> ApplyRequest \<Rightarrow> gostring \<Rightarrow> gostring \<Rightarrow> (gostring \<times> gostring) list \<Rightarrow>
    'w \<Rightarrow> (go_error + preparedCandidate) \<times> 'w" where
  "prepareCandidateWrites fs req root reports baseline =
     bind_op (readCandidateFiles fs (path_join [root, defaultBaselineRel])) (\<lambda>owned.
     bind_op (each_file (read_candidate fs root) generatedProtocolArtifacts) (\<lambda>generated.
     bind_op (readCandidateFiles fs reports) (\<lambda>reportFiles.
     return_op \<lparr>pw_request = req, pw_baseline = baseline,
       pw_files = map (\<lambda>(name, data). (path_join [defaultBaselineRel, name], data)) owned @ generated, pw_reports = reportFiles\<rparr>)))"

fun write_files :: "'w store \<Rightarrow> gostring \<Rightarrow> (gostring \<times> gostring) list \<Rightarrow> 'w \<Rightarrow> (go_error + unit) \<times> 'w" where
  "write_files S root [] = return_op ()"
| "write_files S root ((name, data) # rest) = (let path = path_join [root, name] in
     bind_op (st_MkdirAll S (path_dir path)) (\<lambda>_. bind_op (st_WriteFile S path data) (\<lambda>_. write_files S root rest)))"

definition writeCandidateFiles :: "'w store \<Rightarrow> gostring \<Rightarrow> (gostring \<times> gostring) list \<Rightarrow> 'w \<Rightarrow> (go_error + unit) \<times> 'w" where
  "writeCandidateFiles S root files = write_files S root (sort_key fst files)"

fun remove_stale :: "'w store \<Rightarrow> preparedCandidate \<Rightarrow> gostring list \<Rightarrow> 'w \<Rightarrow> (go_error + unit) \<times> 'w" where
  "remove_stale S pr [] = return_op ()"
| "remove_stale S pr (name # names) =
     (if map_of (pw_files pr) (path_join [defaultBaselineRel, name]) \<noteq> None then remove_stale S pr names
      else bind_op (st_Remove S (path_join [aq_Baseline (pw_request pr), name])) (\<lambda>_. remove_stale S pr names))"

fun retire_reports :: "'w store \<Rightarrow> preparedCandidate \<Rightarrow> gostring list \<Rightarrow> 'w \<Rightarrow> (go_error + unit) \<times> 'w" where
  "retire_reports S pr [] w = (Inr (), w)"
| "retire_reports S pr (name # names) w =
     (if map_of (pw_files pr) (path_join [defaultBaselineRel, name]) \<noteq> None
      then (Inl (ErrNew (''prepared baseline still contains retired report '' @ name)), w)
      else case st_Remove S (path_join [aq_Baseline (pw_request pr), name]) w of
          (Inl e, w) \<Rightarrow> if fs_IsNotExist (st_files S) e then retire_reports S pr names w else (Inl e, w)
        | (Inr _, w) \<Rightarrow> retire_reports S pr names w)"

definition retired_reports :: "gostring list" where
  "retired_reports = [''drift_report.json'', ''matrix_update_skeleton.json'']"

definition module_root :: "ApplyRequest \<Rightarrow> gostring" where
  "module_root req = (if aq_ModuleRoot req = [] then path_clean (path_join [aq_Baseline req, ''../../../..'']) else aq_ModuleRoot req)"

definition reports_dir :: "ApplyRequest \<Rightarrow> gostring" where
  "reports_dir req = (if aq_Reports req = [] then path_join [path_dir (aq_Candidate req), ''reports''] else aq_Reports req)"

definition materialize :: "'w store \<Rightarrow> preparedCandidate \<Rightarrow> 'w \<Rightarrow> (go_error + unit) \<times> 'w" where
  "materialize S pr =
     bind_op (schemaFiles (st_files S) (aq_Baseline (pw_request pr))) (\<lambda>old.
     bind_op (remove_stale S pr old) (\<lambda>_.
     bind_op (retire_reports S pr retired_reports) (\<lambda>_.
     bind_op (writeCandidateFiles S (module_root (pw_request pr)) (pw_files pr)) (\<lambda>_.
     writeCandidateFiles S (reports_dir (pw_request pr)) (pw_reports pr)))))"

definition PlanResult_Apply :: "'w store \<Rightarrow> prepared_plan \<Rightarrow> 'w \<Rightarrow> (go_error + ApplyResult) \<times> 'w" where
  "PlanResult_Apply S p = (case pl_prepared p of
      None \<Rightarrow> fail_op (ErrNew ''apply requires a successfully constructed candidate'')
    | Some pr \<Rightarrow>
        if pl_Status p \<noteq> PlanReady then fail_op (ErrNew ''apply requires a successfully constructed candidate'')
        else bind_op (snapshotHashes (st_files S) (aq_Baseline (pw_request pr))) (\<lambda>current.
          bind_op (check_op (sameSnapshot (pw_baseline pr) current ''accepted baseline since Plan'')) (\<lambda>_.
          bind_op (materialize S pr) (\<lambda>_. return_op (pl_Preview p)))))"

section \<open>What the file system promises\<close>

definition targets :: "gostring \<Rightarrow> (gostring \<times> gostring) list \<Rightarrow> (gostring \<times> gostring) list" where
  "targets root files = map (\<lambda>(name, data). (path_join [root, name], data)) files"

definition baseline_path :: "preparedCandidate \<Rightarrow> gostring \<Rightarrow> gostring" where
  "baseline_path pr name = path_join [aq_Baseline (pw_request pr), name]"

definition written :: "preparedCandidate \<Rightarrow> (gostring \<times> gostring) list" where
  "written pr = targets (module_root (pw_request pr)) (pw_files pr) @ targets (reports_dir (pw_request pr)) (pw_reports pr)"

text \<open>The paths a plan owns: the files it writes, and the schema files and retired reports of the baseline.\<close>

definition owned_paths :: "preparedCandidate \<Rightarrow> gostring set" where
  "owned_paths pr = fst ` set (written pr) \<union> baseline_path pr ` {n. schema_path n \<or> n \<in> set retired_reports}"

text \<open>An absolute directory in its shortest form, and the paths below it.\<close>

definition clean_dir :: "gostring \<Rightarrow> bool" where
  "clean_dir d \<longleftrightarrow> d \<noteq> [] \<and> hd d = slash \<and> git_path (tl d)"

lemma git_path_nonempty: "git_path p \<Longrightarrow> p \<noteq> []"
  by (auto simp: git_path_def)

lemma path_join_below:
  assumes "clean_dir d" "git_path n"
  shows "path_join [d, n] = d @ slash # n"
proof -
  obtain q where d: "d = slash # q" "git_path q" using assms(1) by (cases d) (auto simp: clean_dir_def)
  have "list_all (\<lambda>c. c \<notin> {[], ''.'', ''..''}) (split_on slash (q @ slash # n))"
    using d(2) assms(2) by (simp add: git_path_def split_on_append)
  then have "fold (clean_elem True) (split_on slash (q @ slash # n)) [] = rev (split_on slash (q @ slash # n))"
    by (simp only: fold_clean_plain append_Nil2)
  moreover have "split_on slash (slash # q @ slash # n) = [] # split_on slash (q @ slash # n)" by simp
  ultimately have "path_clean (slash # q @ slash # n) = slash # q @ slash # n"
    by (simp add: path_clean_def Let_def clean_elem_def)
  then show ?thesis using d assms(2) git_path_nonempty by (simp add: path_join_def)
qed

text \<open>
  Reading and making directories leave the files alone, writing and removing change the file they name, and a walk finds every
  file below its directory. Nobody else writes meanwhile.
\<close>

locale file_store =
  fixes S :: "'w store" and content :: "'w \<Rightarrow> gostring \<Rightarrow> gostring option"
  assumes walk_keeps: "fs_walk (st_files S) root w = (found, w') \<Longrightarrow> content w' = content w"
    and walk_finds: "fs_walk (st_files S) root w = (Inr names, w') \<Longrightarrow> clean_dir root \<Longrightarrow> git_path n \<Longrightarrow>
      content w (root @ slash # n) \<noteq> None \<Longrightarrow> n \<in> set names"
    and read_keeps: "fs_read (st_files S) root n w = (raw, w') \<Longrightarrow> content w' = content w"
    and mkdir_keeps: "st_MkdirAll S path w = (r, w') \<Longrightarrow> content w' = content w"
    and write_sets: "st_WriteFile S path data w = (Inr (), w') \<Longrightarrow> content w' = (content w)(path \<mapsto> data)"
    and write_frame: "st_WriteFile S path data w = (r, w') \<Longrightarrow> q \<noteq> path \<Longrightarrow> content w' q = content w q"
    and remove_clears: "st_Remove S path w = (Inr (), w') \<Longrightarrow> content w' = (content w)(path := None)"
    and remove_fails: "st_Remove S path w = (Inl e, w') \<Longrightarrow> content w' = content w \<and> (fs_IsNotExist (st_files S) e \<longrightarrow> content w path = None)"
begin

text \<open>What an operation may change, and what it has established when it succeeds.\<close>

definition touches :: "gostring set \<Rightarrow> ('w \<Rightarrow> (go_error + 'a) \<times> 'w) \<Rightarrow> bool" where
  "touches A m \<longleftrightarrow> (\<forall>w r w' q. m w = (r, w') \<longrightarrow> q \<notin> A \<longrightarrow> content w' q = content w q)"

lemma touchesD: "touches A m \<Longrightarrow> m w = (r, w') \<Longrightarrow> q \<notin> A \<Longrightarrow> content w' q = content w q"
  by (auto simp: touches_def)

lemma touches_none: "touches {} m \<Longrightarrow> m w = (r, w') \<Longrightarrow> content w' = content w"
  by (auto simp: touches_def)

lemma touches_return [simp]: "touches A (return_op a)"
  by (simp add: touches_def return_op_def)

lemma touches_fail [simp]: "touches A (fail_op e)"
  by (simp add: touches_def fail_op_def)

lemma touches_check [simp]: "touches A (check_op e)"
  by (simp add: touches_def check_op_def split: option.split)

lemma touches_bind:
  assumes "touches A m" "\<And>a. touches A (k a)"
  shows "touches A (bind_op m k)"
proof (unfold touches_def, intro allI impI)
  fix w r w' q
  assume run: "bind_op m k w = (r, w')" and q: "q \<notin> A"
  obtain r1 w1 where m: "m w = (r1, w1)" by fastforce
  from touchesD[OF assms(1) m q] touchesD[OF assms(2) _ q] run m
  show "content w' q = content w q" by (cases r1) (auto simp: bind_op_def)
qed

lemma touches_mono: "touches A m \<Longrightarrow> A \<subseteq> B \<Longrightarrow> touches B m"
  unfolding touches_def by (metis subsetD)

lemma touches_each: "(\<And>x. touches A (f x)) \<Longrightarrow> touches A (each_file f xs)"
proof (induction xs)
  case (Cons x xs)
  have "each_file f (x # xs) = bind_op (f x) (\<lambda>y. bind_op (each_file f xs) (\<lambda>ys. return_op (y # ys)))"
    by (auto simp: fun_eq_iff bind_op_def return_op_def split: prod.split sum.split)
  with Cons show ?case by (simp add: touches_bind)
qed (simp add: touches_def)

lemma touches_files: "touches {} (fs_walk (st_files S) root)" "touches {} (fs_read (st_files S) root n)" "touches {} (st_MkdirAll S path)"
  using walk_keeps read_keeps mkdir_keeps by (auto simp: touches_def)

lemma touches_snapshot: "touches {} (snapshotHashes (st_files S) root)"
proof -
  have hash: "raw_hash (st_files S) root n = bind_op (fs_read (st_files S) root n) (\<lambda>raw. return_op (n, fs_sha256 (st_files S) raw))" for n
    by (auto simp: fun_eq_iff raw_hash_def bind_op_def return_op_def split: prod.split sum.split)
  have "snapshotHashes (st_files S) root = bind_op (fs_walk (st_files S) root) (each_file (raw_hash (st_files S) root))"
    by (auto simp: fun_eq_iff snapshotHashes_def bind_op_def split: prod.split sum.split)
  then show ?thesis by (simp add: touches_bind touches_each touches_files hash)
qed

lemma touches_schemaFiles: "touches {} (schemaFiles (st_files S) root)"
  using touches_files(1)[of root] by (auto simp: touches_def schemaFiles_def split: prod.splits sum.splits)

lemma touches_write: "touches {path} (st_WriteFile S path data)"
  using write_frame by (auto simp: touches_def)

lemma touches_remove: "touches {path} (st_Remove S path)"
proof (unfold touches_def, intro allI impI)
  fix w r w' q
  assume "st_Remove S path w = (r, w')" "q \<notin> {path}"
  then show "content w' q = content w q" using remove_clears[of path w w'] remove_fails[of path w _ w'] by (cases r) auto
qed

text \<open>Writing files.\<close>

lemma touches_write_files: "touches (fst ` set (targets root files)) (write_files S root files)"
proof (induction files)
  case (Cons f files)
  obtain name data where f: "f = (name, data)" by fastforce
  let ?A = "fst ` set (targets root (f # files))"
  have "touches ?A (st_MkdirAll S p)" "touches ?A (st_WriteFile S (path_join [root, name]) data)" "touches ?A (write_files S root files)" for p
    using touches_files(3) touches_write Cons.IH by (auto simp: f targets_def intro: touches_mono)
  then show ?case by (simp add: f Let_def touches_bind)
qed (simp add: targets_def)

lemma write_files_sets:
  assumes "write_files S root files w = (Inr (), w')" "distinct (map fst (targets root files))" "(p, d) \<in> set (targets root files)"
  shows "content w' p = Some d"
  using assms
proof (induction files arbitrary: w)
  case (Cons f files)
  obtain name data where f: "f = (name, data)" by fastforce
  from Cons.prems(1) obtain w1 w2 where run: "st_WriteFile S (path_join [root, name]) data w1 = (Inr (), w2)" "write_files S root files w2 = (Inr (), w')"
    by (auto simp: f Let_def bind_op_Inr)
  show ?case
  proof (cases "(p, d) \<in> set (targets root files)")
    case True
    with Cons.IH[OF run(2)] Cons.prems(2) show ?thesis by (simp add: targets_def)
  next
    case False
    have "targets root (f # files) = (path_join [root, name], data) # targets root files" by (simp add: f targets_def)
    with False Cons.prems(2,3) have p: "p = path_join [root, name]" "d = data" "p \<notin> fst ` set (targets root files)" by auto
    with touchesD[OF touches_write_files run(2) p(3)] write_sets[OF run(1)] show ?thesis by simp
  qed
qed (simp add: targets_def)

lemma writeCandidateFiles_touches: "touches (fst ` set (targets root files)) (writeCandidateFiles S root files)"
  using touches_write_files[of root "sort_key fst files"] by (simp add: writeCandidateFiles_def targets_def image_image)

lemma writeCandidateFiles_sets:
  assumes "writeCandidateFiles S root files w = (Inr (), w')" "distinct (map fst (targets root files))" "(p, d) \<in> set (targets root files)"
  shows "content w' p = Some d"
proof (rule write_files_sets[OF assms(1)[unfolded writeCandidateFiles_def]])
  show "distinct (map fst (targets root (sort_key fst files)))" using assms(2) by (simp add: targets_def distinct_map)
  show "(p, d) \<in> set (targets root (sort_key fst files))" using assms(3) by (simp add: targets_def)
qed

text \<open>Removing files: what is gone stays gone until it is written.\<close>

lemma remove_stale_touches: "touches (baseline_path pr ` set names) (remove_stale S pr names)"
proof (induction names)
  case (Cons n names)
  have "touches (baseline_path pr ` set (n # names)) (st_Remove S (baseline_path pr n))" "touches (baseline_path pr ` set (n # names)) (remove_stale S pr names)"
    using touches_remove Cons.IH by (auto intro: touches_mono)
  then show ?case by (simp add: touches_bind baseline_path_def)
qed simp

lemma remove_result: "st_Remove S q w = (r, w') \<Longrightarrow> content w p = None \<Longrightarrow> content w' p = None"
  using remove_clears[of q w w'] remove_fails[of q w _ w'] by (cases r) auto

lemma remove_stale_gone: "remove_stale S pr names w = (r, w') \<Longrightarrow> content w p = None \<Longrightarrow> content w' p = None"
proof (induction names arbitrary: w)
  case (Cons n names)
  then show ?case
    by (auto simp: bind_op_def dest: remove_result split: if_splits prod.splits sum.splits)
qed (simp add: return_op_def)

lemma remove_stale_clears:
  assumes "remove_stale S pr names w = (Inr (), w')" "n \<in> set names" "map_of (pw_files pr) (path_join [defaultBaselineRel, n]) = None"
  shows "content w' (baseline_path pr n) = None"
  using assms(1,2)
proof (induction names arbitrary: w)
  case (Cons m names)
  show ?case
  proof (cases "m = n")
    case True
    with Cons.prems(1) assms(3) obtain w1 where "st_Remove S (baseline_path pr n) w = (Inr (), w1)" "remove_stale S pr names w1 = (Inr (), w')"
      by (auto simp: bind_op_Inr baseline_path_def)
    then show ?thesis using remove_clears remove_stale_gone by simp
  next
    case False
    with Cons show ?thesis by (auto simp: bind_op_Inr split: if_splits)
  qed
qed simp

lemma retire_gone: "retire_reports S pr names w = (r, w') \<Longrightarrow> content w p = None \<Longrightarrow> content w' p = None"
proof (induction names arbitrary: w)
  case (Cons n names)
  then show ?case
    by (auto dest: remove_result split: if_splits prod.splits sum.splits)
qed simp

lemma retire_touches: "touches (baseline_path pr ` set names) (retire_reports S pr names)"
proof (unfold touches_def, intro allI impI)
  fix w r w' q
  show "retire_reports S pr names w = (r, w') \<Longrightarrow> q \<notin> baseline_path pr ` set names \<Longrightarrow> content w' q = content w q"
  proof (induction names arbitrary: w)
    case (Cons n names)
    then show ?case
      using touchesD[OF touches_remove, of "baseline_path pr n"]
      by (auto simp: baseline_path_def split: if_splits prod.splits sum.splits)
  qed simp
qed

lemma retire_clears:
  assumes "retire_reports S pr names w = (Inr (), w')" "n \<in> set names"
  shows "content w' (baseline_path pr n) = None"
  using assms
proof (induction names arbitrary: w)
  case (Cons m names)
  from Cons.prems(1) obtain r w1 where run: "st_Remove S (baseline_path pr m) w = (r, w1)" "retire_reports S pr names w1 = (Inr (), w')"
      "\<And>e. r = Inl e \<Longrightarrow> fs_IsNotExist (st_files S) e"
    by (auto simp: baseline_path_def split: if_splits prod.splits sum.splits)
  have "content w1 (baseline_path pr m) = None"
    using run remove_clears[of "baseline_path pr m" w w1] remove_fails[of "baseline_path pr m" w _ w1] by (cases r) auto
  with Cons run(2) retire_gone show ?case by auto
qed simp

lemma materialize_touches: "touches (owned_paths pr) (materialize S pr)"
proof -
  have "touches (owned_paths pr) (writeCandidateFiles S (module_root (pw_request pr)) (pw_files pr))"
    "touches (owned_paths pr) (writeCandidateFiles S (reports_dir (pw_request pr)) (pw_reports pr))"
    using writeCandidateFiles_touches by (auto simp: owned_paths_def written_def intro: touches_mono)
  moreover have "touches (owned_paths pr) (retire_reports S pr retired_reports)"
    using retire_touches by (rule touches_mono) (auto simp: owned_paths_def)
  moreover have "touches (owned_paths pr) (remove_stale S pr (filter schema_path names))" for names
    using remove_stale_touches by (rule touches_mono) (auto simp: owned_paths_def)
  moreover have "materialize S pr = bind_op (fs_walk (st_files S) (aq_Baseline (pw_request pr))) (\<lambda>names.
      bind_op (remove_stale S pr (sort (filter schema_path names))) (\<lambda>_. bind_op (retire_reports S pr retired_reports) (\<lambda>_.
      bind_op (writeCandidateFiles S (module_root (pw_request pr)) (pw_files pr)) (\<lambda>_.
      writeCandidateFiles S (reports_dir (pw_request pr)) (pw_reports pr)))))"
    by (auto simp: fun_eq_iff materialize_def bind_op_def schemaFiles_def split: prod.split sum.split)
  moreover have "touches (owned_paths pr) (remove_stale S pr (sort (filter schema_path names)))" for names
    using remove_stale_touches by (rule touches_mono) (auto simp: owned_paths_def)
  moreover have "touches (owned_paths pr) (fs_walk (st_files S) root)" for root using touches_files(1) by (rule touches_mono) simp
  ultimately show ?thesis by (simp add: touches_bind)
qed

lemma materialize_success:
  assumes "materialize S pr w = (Inr (), w')" "distinct (map fst (written pr))"
  shows "(p, d) \<in> set (written pr) \<Longrightarrow> content w' p = Some d"
    and "n \<in> set retired_reports \<Longrightarrow> baseline_path pr n \<notin> fst ` set (written pr) \<Longrightarrow> content w' (baseline_path pr n) = None"
    and "clean_dir (aq_Baseline (pw_request pr)) \<Longrightarrow> git_path n \<Longrightarrow> schema_path n \<Longrightarrow> map_of (pw_files pr) (path_join [defaultBaselineRel, n]) = None \<Longrightarrow>
      baseline_path pr n \<notin> fst ` set (written pr) \<Longrightarrow> content w' (baseline_path pr n) = None"
proof -
  let ?files = "targets (module_root (pw_request pr)) (pw_files pr)" and ?reports = "targets (reports_dir (pw_request pr)) (pw_reports pr)"
  from assms(1) obtain old w1 w2 w3 w4 where run: "schemaFiles (st_files S) (aq_Baseline (pw_request pr)) w = (Inr old, w1)"
      "remove_stale S pr old w1 = (Inr (), w2)" "retire_reports S pr retired_reports w2 = (Inr (), w3)"
      "writeCandidateFiles S (module_root (pw_request pr)) (pw_files pr) w3 = (Inr (), w4)"
      "writeCandidateFiles S (reports_dir (pw_request pr)) (pw_reports pr) w4 = (Inr (), w')"
    by (auto simp: materialize_def bind_op_Inr)
  have dist: "distinct (map fst ?files)" "distinct (map fst ?reports)" "fst ` set ?files \<inter> fst ` set ?reports = {}"
    using assms(2) by (simp_all add: written_def)
  have unwritten: "content w' q = content w3 q" if "q \<notin> fst ` set (written pr)" for q
    using touchesD[OF writeCandidateFiles_touches run(4), of q] touchesD[OF writeCandidateFiles_touches run(5), of q] that by (simp add: written_def image_Un)
  show "content w' p = Some d" if "(p, d) \<in> set (written pr)"
  proof (cases "(p, d) \<in> set ?reports")
    case True
    then show ?thesis using writeCandidateFiles_sets[OF run(5) dist(2)] by blast
  next
    case False
    with that have "(p, d) \<in> set ?files" by (auto simp: written_def)
    moreover from this dist(3) have "p \<notin> fst ` set ?reports" by force
    ultimately show ?thesis using writeCandidateFiles_sets[OF run(4) dist(1)] touchesD[OF writeCandidateFiles_touches run(5)] by simp
  qed
  show "content w' (baseline_path pr n) = None" if "n \<in> set retired_reports" "baseline_path pr n \<notin> fst ` set (written pr)"
    using unwritten[OF that(2)] retire_clears[OF run(3) that(1)] by simp
  show "content w' (baseline_path pr n) = None"
    if "clean_dir (aq_Baseline (pw_request pr))" "git_path n" "schema_path n" "map_of (pw_files pr) (path_join [defaultBaselineRel, n]) = None"
      "baseline_path pr n \<notin> fst ` set (written pr)"
  proof -
    have "content w2 (baseline_path pr n) = None"
    proof (cases "n \<in> set old")
      case True
      then show ?thesis using remove_stale_clears[OF run(2)] that(4) by blast
    next
      case False
      from run(1) obtain names where walk: "fs_walk (st_files S) (aq_Baseline (pw_request pr)) w = (Inr names, w1)" "old = sort (filter schema_path names)"
        by (auto simp: schemaFiles_def split: prod.splits sum.splits)
      with False that have "content w (baseline_path pr n) = None"
        using walk_finds[OF walk(1) that(1,2)] by (auto simp: baseline_path_def path_join_below)
      with walk_keeps[OF walk(1)] remove_stale_gone[OF run(2)] show ?thesis by simp
    qed
    with retire_gone[OF run(3)] unwritten[OF that(5)] show ?thesis by simp
  qed
qed

end

section \<open>A file system\<close>

text \<open>Files as an association list, the latest entry of a path first.\<close>

definition alist_files :: "(gostring \<times> gostring) list files" where
  "alist_files = \<lparr>fs_walk = (\<lambda>root w. (Inr (remdups (map (\<lambda>(p, _). drop (length root + 1) p) (filter (\<lambda>(p, _). has_prefix p (root @ [slash])) w))), w)),
     fs_read = (\<lambda>root n w. (case map_of w (path_join [root, n]) of None \<Rightarrow> Inl ErrNotExist | Some data \<Rightarrow> Inr data, w)),
     fs_IsNotExist = (\<lambda>e. e = ErrNotExist), fs_sha256 = (\<lambda>s. s), fs_method_enums = (\<lambda>_. Inr [])\<rparr>"

definition alist_store :: "(gostring \<times> gostring) list store" where
  "alist_store = \<lparr>st_files = alist_files, st_MkdirAll = (\<lambda>_ w. (Inr (), w)), st_WriteFile = (\<lambda>path data w. (Inr (), (path, data) # w)),
     st_Remove = (\<lambda>path w. if map_of w path = None then (Inl ErrNotExist, w) else (Inr (), filter (\<lambda>(p, _). p \<noteq> path) w))\<rparr>"

lemma map_of_without: "map_of (filter (\<lambda>(p, _). p \<noteq> path) w) = (map_of w)(path := None)"
  by (induction w) (auto simp: fun_eq_iff)

interpretation alist: file_store alist_store map_of
proof unfold_locales
  fix root :: gostring and w names w' n
  assume "fs_walk (st_files alist_store) root w = (Inr names, w')" "map_of w (root @ slash # n) \<noteq> None"
  moreover from this(2) obtain data where "(root @ slash # n, data) \<in> set w" by (auto dest: map_of_SomeD)
  moreover have "has_prefix (root @ slash # n) (root @ [slash])" by (auto simp: has_prefix_iff)
  ultimately show "n \<in> set names" by (force simp: alist_store_def alist_files_def)
qed (auto simp: alist_store_def alist_files_def map_of_without split: if_splits)

section \<open>Applying a plan\<close>

text \<open>C27: over any file system that keeps its promises, applying a plan writes exactly what was planned. Whatever the outcome, only
  files the plan owns change; a plan that is not ready, or whose baseline has another snapshot than the one it was made from,
  changes nothing and is refused. When applying succeeds, every planned file has the planned bytes, the retired
  reports are gone, and so is every schema file of the baseline the plan does not have.\<close>

theorem apply_writes_plan:
  assumes "file_store S content" "PlanResult_Apply S p w = (r, w')" "pl_prepared p = Some pr" "distinct (map fst (written pr))"
  shows "(\<forall>q. q \<notin> owned_paths pr \<longrightarrow> content w' q = content w q) \<and>
    (content w' \<noteq> content w \<or> (\<exists>result. r = Inr result) \<longrightarrow> pl_Status p = PlanReady \<and>
      (\<exists>current w1. snapshotHashes (st_files S) (aq_Baseline (pw_request pr)) w = (Inr current, w1) \<and>
         sameSnapshot (pw_baseline pr) current ''accepted baseline since Plan'' = None)) \<and>
    (\<forall>result. r = Inr result \<longrightarrow> result = pl_Preview p \<and> (\<forall>q d. (q, d) \<in> set (written pr) \<longrightarrow> content w' q = Some d) \<and>
      (\<forall>n. clean_dir (aq_Baseline (pw_request pr)) \<longrightarrow> baseline_path pr n \<notin> fst ` set (written pr) \<longrightarrow>
         n \<in> set retired_reports \<or> git_path n \<and> schema_path n \<and> map_of (pw_files pr) (path_join [defaultBaselineRel, n]) = None \<longrightarrow>
         content w' (baseline_path pr n) = None))"
proof (cases "pl_Status p = PlanReady")
  case False
  with assms(2,3) have "w' = w" "\<nexists>result. r = Inr result" by (auto simp: PlanResult_Apply_def fail_op_def)
  then show ?thesis by auto
next
  case ready: True
  note laws = file_store.touches_none[OF assms(1) file_store.touches_snapshot[OF assms(1)]]
  obtain s w1 where snap: "snapshotHashes (st_files S) (aq_Baseline (pw_request pr)) w = (s, w1)" by fastforce
  have same: "content w1 = content w" by (rule laws[OF snap])
  show ?thesis
  proof (cases "\<exists>current. s = Inr current \<and> sameSnapshot (pw_baseline pr) current ''accepted baseline since Plan'' = None")
    case False
    with assms(2,3) snap ready have "w' = w1" "\<nexists>result. r = Inr result"
      by (auto simp: PlanResult_Apply_def bind_op_def check_op_def split: sum.splits option.splits)
    with same show ?thesis by auto
  next
    case True
    then obtain current where cur: "s = Inr current" "sameSnapshot (pw_baseline pr) current ''accepted baseline since Plan'' = None" by blast
    obtain m where run: "materialize S pr w1 = (m, w')" "r = map_sum id (\<lambda>_. pl_Preview p) m"
      using assms(2,3) snap ready cur by (auto simp: PlanResult_Apply_def bind_op_def check_op_def return_op_def split: sum.splits prod.splits)
    have "content w' q = content w q" if "q \<notin> owned_paths pr" for q
      using file_store.touchesD[OF assms(1) file_store.materialize_touches[OF assms(1)] run(1) that] same by simp
    moreover have "m = Inr ()" if "r = Inr result" for result using run(2) that by (cases m) auto
    ultimately show ?thesis
      using file_store.materialize_success[OF assms(1) _ assms(4)] run ready snap cur by auto
  qed
qed

definition sample_prepared_plan :: prepared_plan where
  "sample_prepared_plan = \<lparr>pl_Status = PlanReady, pl_Preview = zero_applied, pl_Issue = None, pl_prepared = Some \<lparr>pw_request =
       \<lparr>aq_Baseline = ''/m/internal/protocolschema/appserver/v2'', aq_Candidate = ''/c/schema'', aq_StableCandidate = [], aq_CommonRS = [], aq_CommonRSSourceSHA = [],
        aq_CodexRepo = [], aq_Reports = [], aq_TargetRef = [], aq_TargetKind = [], aq_TargetSHA = [], aq_ModuleRoot = ''/m''\<rparr>,
     pw_baseline = [(''Old.json'', ''1''), (''drift_report.json'', ''2'')],
     pw_files = [(''internal/protocolschema/appserver/v2/New.json'', ''3'')], pw_reports = [(''summary'', ''4'')]\<rparr>\<rparr>"

definition sample_disk :: "(gostring \<times> gostring) list" where
  "sample_disk = [(''/m/internal/protocolschema/appserver/v2/Old.json'', ''1''), (''/m/internal/protocolschema/appserver/v2/drift_report.json'', ''2''), (''/m/go.mod'', ''5'')]"

lemma sample_disk_applied:
  "fst (PlanResult_Apply alist_store sample_prepared_plan sample_disk) = Inr zero_applied"
  "distinct (map fst (written (the (pl_prepared sample_prepared_plan))))"
  "clean_dir (aq_Baseline (pw_request (the (pl_prepared sample_prepared_plan))))"
  "(''/m/internal/protocolschema/appserver/v2/New.json'', ''3'') \<in> set (written (the (pl_prepared sample_prepared_plan)))"
  by code_simp+

theorem apply_writes_plan_witness:
  "\<exists>disk. PlanResult_Apply alist_store sample_prepared_plan sample_disk = (Inr zero_applied, disk) \<and>
    map_of disk ''/m/internal/protocolschema/appserver/v2/New.json'' = Some ''3''"
proof -
  obtain disk where run: "PlanResult_Apply alist_store sample_prepared_plan sample_disk = (Inr zero_applied, disk)"
    using sample_disk_applied(1) by (metis prod.collapse)
  have "pl_prepared sample_prepared_plan = Some (the (pl_prepared sample_prepared_plan))" by (simp add: sample_prepared_plan_def)
  from apply_writes_plan[OF alist.file_store_axioms run this sample_disk_applied(2)] sample_disk_applied(4) run show ?thesis by blast
qed

end
