(* ===== verification/Spec2Isabelle.thy ===== *)
theory Spec2Isabelle
  imports LlmStep JSON_Roundtrip Client_Requests Client_Options Framing Lifecycle Codex_Caller Auto_Forward Server_Response Nullable Surface_Compat Upgrade_Compare Publish_Proof Sync_Flow Lockfile Upgrade_Apply
begin

text \<open>
  A verification library for the Go module \<open>llm-go\<close>: an application kit for typed model calls, an SDK that
  drives a Codex app-server, an adapter between the two, and the tooling that keeps the SDK's protocol
  baseline up to date. Every definition is a translation of code under \<open>src/\<close>; the theorems are stated over
  these definitions.

  \<^bold>\<open>The program.\<close>

  \<^item> \<open>llmkit\<close> is the neutral kit. \<open>llmschema\<close> compiles a structured-output contract from a Go type and decodes a
    response against it; \<open>llmadapter\<close> makes one typed call through a \<open>Caller\<close>; \<open>llmstep.Run\<close> repeats typed calls,
    feeding the repair of a rejected attempt to the next one.
  \<^item> \<open>codexsdk\<close> is the SDK. One \<open>client\<close> owns an app-server process and speaks JSON-RPC with it. A reader
    goroutine frames and admits lines; responses answer pending calls, server requests go to the application's
    handler, notifications are routed to exact runs and to a bounded queue whose dispatcher calls the
    subscriber. An exact run (\<open>exactRunState\<close>) collects its notifications under the client's retention budget and
    is read through stream cursors. \<open>protocolv2\<close> holds the dynamic JSON value, output schemas, nullable fields
    and the generated wire types.
  \<^item> \<open>llmcaller/codex\<close> implements the kit's \<open>Caller\<close> by exact runs of the SDK.
  \<^item> \<open>codexsdk/internal/protocolsync\<close>, \<open>protocolupgrade\<close> and \<open>checkacceptance\<close> select an upstream version, decide
    whether it may replace the baseline, compare schemas and surfaces, publish a candidate as a pull request,
    observe its checks and integrate it.

  \<^bold>\<open>Conventions.\<close> A Go string or byte slice is a \<open>gostring\<close>, a list of bytes; integers that can
  wrap (the retention charges) are \<open>int\<close> values on which \<open>wrap64\<close> writes out the two's complement wrap-around, other counters are \<open>nat\<close> or \<open>int\<close>. A Go error is a \<open>go_error\<close>: a
  tree of messages and wrapped errors on which \<open>errors_is\<close> works as \<open>errors.Is\<close>. A fallible operation returns a sum
  with the error on the left. Structs are records, enumerations and interfaces with a fixed set of
  implementations are datatypes, maps are association lists or maps, pointers to shared mutable structs are
  indices into a store held by the enclosing state. Code outside the repository and generated code (the schema validator,
  Git, the GitHub API, the generated codecs) is a parameter, usually a record of
  functions; what a theorem needs of it is a hypothesis of the theorem, and the witness that follows
  instantiates the parameter. Each property theorem stands after a text block with its number; the witness
  of a property applies it to a concrete input.

  \<^bold>\<open>Foundations.\<close>

  \<^item> \<open>Prelude\<close>: strings, slices, errors, 64-bit wrap-around, and the lemmas all components share.
  \<^item> \<open>Reflect\<close>: values as package \<open>reflect\<close> shows them, for \<open>isNil\<close> and the clones.
  \<^item> \<open>UTF8\<close>, \<open>JSON_Text\<close>, \<open>JSON_Decoder\<close>, \<open>JSON_Scan\<close>: the parts of \<open>unicode/utf8\<close> and \<open>encoding/json\<close> the repository uses.
  \<^item> \<open>Go_Paths\<close>: the parts of \<open>strings\<close> and \<open>path\<close> the synchronisation uses, and a small calculus of operations
    that act on an environment and may fail.

  \<^bold>\<open>The kit.\<close>

  \<^item> \<open>LlmSchema\<close> (\<open>llmkit/llmschema/schema.go\<close>): \<open>Compile\<close>, \<open>Contract_Decode\<close>, violations and JSON pointers. Decoding succeeds
    exactly when the data is one JSON value that validates and unmarshals.
  \<^item> \<open>LlmAdapter\<close> (\<open>llmkit/llmadapter\<close>): observations, evidence and the typed call; success is characterised exactly.
  \<^item> \<open>LlmStep\<close> (\<open>llmkit/llmstep/step.go\<close>): \<open>Run\<close> over callbacks that act on an environment. A run has an output
    exactly when it has no error; its history has at most \<open>MaxIter\<close> attempts, each rendered from its predecessor.

  \<^bold>\<open>Dynamic JSON.\<close>

  \<^item> \<open>JSON_Value\<close> (\<open>protocolv2/json_value.go\<close>) has the constructors, accessors, the duplicate-rejecting parser over the
    token decoder and the canonical writer. \<open>JSON_Roundtrip\<close> and \<open>JSON_Rescan\<close> show that writing and parsing are inverse on
    well-formed values and that accepted values have distinct keys at every depth. The parser recurses with
    fuel: \<open>2 * length + 1\<close> steps are enough for every text, because each token consumes a byte, and running out
    of fuel is shown to be impossible. The whole-value scanner has the same bound.
  \<^item> \<open>Nullable\<close> (\<open>protocolv2/nullable.go\<close>): the three-state field over a locale \<open>json_codec\<close>, interpreted on the dynamic value.
  \<^item> \<open>Schema_Admission\<close> (\<open>protocolv2/output_schema.go\<close>, \<open>llmcaller/codex/schema.go\<close>): the strict admission of an output
    schema, equivalent to a declarative description of the schemas reached from it.

  \<^bold>\<open>The client.\<close>

  \<^item> \<open>Retention\<close> (\<open>notification_retention.go\<close>): budget, leases and owners; the locale \<open>refcount\<close> states the protocol of a
    counted resource and is interpreted on the leases. The charge is the sum over live leases, within the budget.
  \<^item> \<open>Exact_Run\<close> (\<open>exact_runner.go\<close>, \<open>types.go\<close>): the run state, streams and cursors. History grows, and freezes at the
    terminal notification; a cursor reads it without gaps under any interleaving.
  \<^item> \<open>Envelope\<close> (\<open>jsonrpc_envelope.go\<close>), \<open>Attribution\<close> (\<open>notification_attribution.go\<close>): admission of a frame, and
    which run a notification belongs to.
  \<^item> \<open>Client\<close>, \<open>Client_Routing\<close>, \<open>Server_Request\<close>, \<open>Server_Response\<close> (\<open>client.go\<close>, \<open>lifecycle.go\<close>, \<open>notification_dispatch.go\<close>,
    \<open>raw_notification.go\<close>, \<open>server_request.go\<close>, \<open>exact_server_request.go\<close>, \<open>server_response.go\<close>): the client's state and
    its operations.
  \<^item> \<open>Client_Safety\<close> states contracts of a relation between client states as locales \<open>client_core\<close>, \<open>client_rel\<close>,
    \<open>client_register\<close>, \<open>client_attach\<close>, each extending the one before: a relation that the basic operations respect is respected by
    every composed one. \<open>Client_Registry\<close> and \<open>Client_Steps\<close> interpret them on the invariants and, through
    \<open>client_machine\<close>, on the state machine whose steps are the operations of the goroutines, split where locks are released. From this follow: calls are
    answered once, failures settle everything pending, a closed client keeps its cause, registries hold live
    runs. \<open>Client_Requests\<close>: every server request is answered once, and a notification reaches matching runs only.
  \<^item> \<open>Framing\<close> (\<open>readFrame\<close>, \<open>readLoopWithLimit\<close>), \<open>Runner\<close> (\<open>StartStream\<close>, \<open>ResumeStream\<close>) refine the state machine.
    \<open>Facades\<close> (\<open>facades.go\<close>) refuses experimental calls. \<open>Child_Env\<close>, \<open>Client_Options\<close> (\<open>process_env.go\<close>, \<open>types.go\<close>)
    normalise what a client is started with. \<open>Startup\<close> (\<open>NewContext\<close>, \<open>newClientContext\<close>, \<open>initialize\<close>, \<open>provenance.go\<close>,
    \<open>wirejson.go\<close>) constructs it all or not at all; \<open>Lifecycle\<close> (\<open>CloseContext\<close>) closes it with its first cause.

  \<^bold>\<open>The adapter.\<close> \<open>Codex_Caller\<close> (\<open>llmcaller/codex/caller.go\<close>, \<open>clone.go\<close>): a call starts one run with the caller's own
  schema or fails before any effect, and keeps the run's errors visible.

  \<^bold>\<open>Protocol maintenance.\<close>

  \<^item> \<open>Upstream_Resolve\<close> (\<open>resolve.go\<close>), \<open>Sync_Policy\<close> (\<open>policy.go\<close>): the target is the newest stable tag, and automatic upgrades
    only move forward.
  \<^item> \<open>Sync_Scope\<close> (\<open>changes.go\<close>, \<open>auto_forward_control.go\<close>, \<open>failure.go\<close>): the paths a synchronisation may change, and
    the category of a failure.
  \<^item> \<open>Sync_Metadata\<close> (\<open>publish.go\<close>): names, titles and the metadata block of a pull request, which reads back as written.
  \<^item> \<open>Pending_Publication\<close> (\<open>pending.go\<close>, \<open>publication_api.go\<close>), \<open>Publish_Candidate\<close> (\<open>publication.go\<close>, \<open>publish.go\<close>): the
    operations; \<open>Publication_Log\<close> and \<open>Publish_Proof\<close> run them on an environment that logs each effect and show
    what every effect rests on. The listing of pull requests follows the API's pages; the number of pages is a field of
    the environment, and \<open>listPublicationPRs_all\<close> shows that it lists all of them.
  \<^item> \<open>Lockfile\<close> (\<open>lockfile.go\<close>): the lock file of the upstream build, with the workspace's own versions; preparing it twice is
    preparing it once.
  \<^item> \<open>Sync_Flow\<close> (\<open>sync.go\<close>): the stages of a synchronisation and its outputs. The flow is shown to depend on the operation that
    applies a candidate only at one point, and to reach that point only with an allowed target, a clean worktree and a ready plan.
  \<^item> \<open>Check_Acceptance\<close> (\<open>checkacceptance/checks.go\<close>, \<open>recovery.go\<close>): required checks and the recovery of a cancelled run. Page
    loops end after 100 pages, as in the source.
  \<^item> \<open>Auto_Forward\<close> (\<open>auto_forward.go\<close>): the convergence loop. Its fuel is the number of clock ticks before the
    deadline and one more; the loop is shown to return within it.
  \<^item> \<open>Upgrade_Compare\<close> (\<open>protocolupgrade/schema.go\<close>, \<open>compare.go\<close>), \<open>Surface_Compat\<close> (\<open>surface.go\<close>): comparison of schema
    directories, and source compatibility of generated surfaces, which composes along chains of upgrades.
  \<^item> \<open>Upgrade_Apply\<close> (\<open>materialize.go\<close>): writing a plan into the worktree, over the locale \<open>file_store\<close> of what a file
    system promises, which is interpreted on files held in an association list.

  \<^bold>\<open>Not modelled.\<close>

  \<^item> \<open>process.go\<close>, \<open>process_linux.go\<close> and \<open>cleanupProcess\<close>: pipes, signals and reaping of the child process are effects of
    the operating system; the client model starts from what the reader reads and ends with what is written.
  \<^item> \<open>installRunRetention\<close> registers a clean-up with the garbage collector; the model releases leases explicitly.
  \<^item> The files \<open>*.gen.go\<close> (wire types, experimental members, method registry, surface) are generated data; the code that uses them takes them as parameters.
  \<^item> \<open>internal/protocolgen\<close> and \<open>generatedcheck\<close> produce and compare Go source text, which would need a semantics of Go.
  \<^item> \<open>protocolupgrade\<close> apart from comparison, compatibility and materialisation (\<open>constructCandidate\<close> in \<open>apply.go\<close>, \<open>plan.go\<close>,
    \<open>check.go\<close>, \<open>exact.go\<close>, \<open>manifest.go\<close>, \<open>reports.go\<close>, \<open>commonrs.go\<close>) runs the generator, regular expressions over Rust source and the Go tool chain.
  \<^item> \<open>protocolsync\<close> apart from the files above: the goal workflow (\<open>goal_*.go\<close>), the sandboxes, the candidate's digest and the
    build of upstream source in a worktree (\<open>candidate.go\<close>, \<open>GenerateCandidate\<close>) are orchestration of Git, Cargo, containers and the API.
  \<^item> \<open>codexexec\<close>, \<open>internal/cmd\<close>, \<open>internal/tools\<close>: command-line entry points, process execution and checks of the repository itself.
  \<^item> Memory: copies that only separate storage (\<open>clone\<close> of values without sharing) are identities of the model; data races below the
    granularity of the locks are not modelled.
\<close>

end
